(* ===== verification/Prelude.thy ===== *)
theory Prelude
  imports Main "HOL-Library.Word" "HOL-Library.Finite_Map"
begin

text \<open>
  Vocabulary shared by every component of the Djinn model: the machine integers,
  the core error type of \<^verbatim>\<open>coordin8-core/src/error.rs\<close> with its printed form, gRPC
  statuses, the concurrent and plain hash maps the services keep their state in,
  and the results a broadcast receiver can see.

  A \<^verbatim>\<open>DashMap\<close> or \<^verbatim>\<open>HashMap\<close> is a finite map. The order in which a map is iterated is
  not fixed by its contents, so every operation of the source that iterates a map
  takes the visited keys as an argument, and a result that depends on the
  iteration is stated for every list that \<open>iterates\<close> the map.
\<close>

section \<open>Machine integers, time and identifiers\<close>

type_synonym u8 = "8 word"
type_synonym u16 = "16 word"
type_synonym u32 = "32 word"
type_synonym u64 = "64 word"

text \<open>A UTC timestamp is its number of nanoseconds since the Unix epoch.\<close>

type_synonym time = int
type_synonym bytes = "u8 list"

text \<open>\<^verbatim>\<open>HashMap<String, String>\<close>: attributes and templates. \<^verbatim>\<open>DashMap<String, V>\<close>: the stores.\<close>

type_synonym attrs = "(string, string) fmap"
type_synonym 'v dashmap = "(string, 'v) fmap"

section \<open>Errors and results\<close>

datatype error =
    LeaseNotFound string
  | LeaseExpired string
  | ResourceNotFound string
  | NoMatch
  | Storage string
  | SubscriptionNotFound string
  | SubscriptionExpired string
  | TransactionNotFound string
  | TransactionTerminal string
  | TransactionAborted string
  | TransactionCommitInProgress string
  | TransactionOutcomeUnknown string
  | TupleNotFound string
  | WatchNotFound string
  | Internal string
  | InvalidArgument string
  | PermissionDenied string
  | Unavailable string

type_synonym 'a result = "error + 'a"

text \<open>\<^verbatim>\<open>Display\<close> of the error type, as \<^verbatim>\<open>to_string\<close> prints it.\<close>

fun error_to_string :: "error \<Rightarrow> string" where
  "error_to_string (LeaseNotFound s) = ''lease not found: '' @ s"
| "error_to_string (LeaseExpired s) = ''lease expired: '' @ s"
| "error_to_string (ResourceNotFound s) = ''resource not found: '' @ s"
| "error_to_string NoMatch = ''no match found for template''"
| "error_to_string (Storage s) = ''storage error: '' @ s"
| "error_to_string (SubscriptionNotFound s) = ''subscription not found: '' @ s"
| "error_to_string (SubscriptionExpired s) = ''subscription expired: '' @ s"
| "error_to_string (TransactionNotFound s) = ''transaction not found: '' @ s"
| "error_to_string (TransactionTerminal s) = ''transaction in terminal state: '' @ s"
| "error_to_string (TransactionAborted s) = ''transaction aborted: '' @ s"
| "error_to_string (TransactionCommitInProgress s) =
     ''transaction commit already in progress: '' @ s"
| "error_to_string (TransactionOutcomeUnknown s) =
     ''transaction commit outcome unknown: '' @ s"
| "error_to_string (TupleNotFound s) = ''tuple not found: '' @ s"
| "error_to_string (WatchNotFound s) = ''watch not found: '' @ s"
| "error_to_string (Internal s) = ''internal error: '' @ s"
| "error_to_string (InvalidArgument s) = ''invalid argument: '' @ s"
| "error_to_string (PermissionDenied s) = ''permission denied: '' @ s"
| "error_to_string (Unavailable s) = ''unavailable: '' @ s"

text \<open>gRPC status codes, and a status with its message.\<close>

datatype code =
    Code_Ok | Code_Cancelled | Code_Unknown | Code_InvalidArgument | Code_DeadlineExceeded
  | Code_NotFound | Code_PermissionDenied | Code_FailedPrecondition | Code_Aborted
  | Code_Internal | Code_Unavailable | Code_DataLoss | Code_Unauthenticated
  | Code_AlreadyExists | Code_ResourceExhausted | Code_OutOfRange | Code_Unimplemented

datatype status = Status (status_code: code) (status_message: string)

type_synonym 'a rpc = "status + 'a"

text \<open>\<^verbatim>\<open>Result::map_err\<close>.\<close>

definition map_err :: "('e \<Rightarrow> 'f) \<Rightarrow> 'e + 'a \<Rightarrow> 'f + 'a" where
  "map_err f r = (case r of Inl e \<Rightarrow> Inl (f e) | Inr x \<Rightarrow> Inr x)"

text \<open>What \<^verbatim>\<open>broadcast::Receiver::recv\<close> can return.\<close>

datatype 'a recv = Received 'a | Closed | Lagged nat

section \<open>Text of numbers\<close>

definition digit_char :: "nat \<Rightarrow> char" where
  "digit_char d = char_of (48 + d)"

fun show_nat :: "nat \<Rightarrow> string" where
  "show_nat n = (if n < 10 then [digit_char n] else show_nat (n div 10) @ [digit_char (n mod 10)])"

declare show_nat.simps [simp del]

definition show_u64 :: "u64 \<Rightarrow> string" where
  "show_u64 n = show_nat (unat n)"

definition show_int :: "int \<Rightarrow> string" where
  "show_int i = (if i < 0 then CHR ''-'' # show_nat (nat (- i)) else show_nat (nat i))"

section \<open>Strings\<close>

text \<open>\<^verbatim>\<open>str::starts_with\<close>, \<^verbatim>\<open>str::contains\<close>, \<^verbatim>\<open>str::ends_with\<close> and \<^verbatim>\<open>str::strip_prefix\<close>.\<close>

fun starts_with :: "string \<Rightarrow> string \<Rightarrow> bool" where
  "starts_with s [] = True"
| "starts_with [] (p # ps) = False"
| "starts_with (c # s) (p # ps) = (c = p \<and> starts_with s ps)"

fun str_contains :: "string \<Rightarrow> string \<Rightarrow> bool" where
  "str_contains [] sub = (sub = [])"
| "str_contains (c # s) sub = (starts_with (c # s) sub \<or> str_contains s sub)"

definition ends_with :: "string \<Rightarrow> string \<Rightarrow> bool" where
  "ends_with s suf = starts_with (rev s) (rev suf)"

definition strip_prefix :: "string \<Rightarrow> string \<Rightarrow> string option" where
  "strip_prefix s p = (if starts_with s p then Some (drop (length p) s) else None)"

text \<open>
  ASCII case folding (\<^verbatim>\<open>eq_ignore_ascii_case\<close>, \<^verbatim>\<open>to_ascii_lowercase\<close>, and \<^verbatim>\<open>to_uppercase\<close> on
  ASCII text), and \<^verbatim>\<open>str::parse\<close> at an unsigned integer of \<open>b\<close> bits: an optional plus
  sign, at least one digit, nothing else, and no overflow.
\<close>

definition ascii_upper_char :: "char \<Rightarrow> char" where
  "ascii_upper_char c = (let n = of_char c :: nat in if 97 \<le> n \<and> n \<le> 122 then char_of (n - 32) else c)"

definition ascii_lower_char :: "char \<Rightarrow> char" where
  "ascii_lower_char c = (let n = of_char c :: nat in if 65 \<le> n \<and> n \<le> 90 then char_of (n + 32) else c)"

definition to_uppercase :: "string \<Rightarrow> string" where
  "to_uppercase s = map ascii_upper_char s"

definition to_ascii_lowercase :: "string \<Rightarrow> string" where
  "to_ascii_lowercase s = map ascii_lower_char s"

definition eq_ignore_ascii_case :: "string \<Rightarrow> string \<Rightarrow> bool" where
  "eq_ignore_ascii_case a b \<longleftrightarrow> to_ascii_lowercase a = to_ascii_lowercase b"

definition digit_val :: "char \<Rightarrow> nat option" where
  "digit_val c = (let n = of_char c :: nat in if 48 \<le> n \<and> n \<le> 57 then Some (n - 48) else None)"

fun parse_digits :: "nat \<Rightarrow> string \<Rightarrow> nat option" where
  "parse_digits acc [] = Some acc"
| "parse_digits acc (c # cs) =
     (case digit_val c of None \<Rightarrow> None | Some d \<Rightarrow> parse_digits (10 * acc + d) cs)"

definition parse_uint :: "nat \<Rightarrow> string \<Rightarrow> nat option" where
  "parse_uint b s =
     (let body = (if s \<noteq> [] \<and> hd s = CHR ''+'' then tl s else s) in
      if body = [] then None
      else case parse_digits 0 body of
             None \<Rightarrow> None
           | Some n \<Rightarrow> if n < 2 ^ b then Some n else None)"

definition parse_u64 :: "string \<Rightarrow> u64 option" where
  "parse_u64 s = map_option of_nat (parse_uint 64 s)"

definition parse_u8 :: "string \<Rightarrow> u8 option" where
  "parse_u8 s = map_option of_nat (parse_uint 8 s)"

definition parse_u16 :: "string \<Rightarrow> u16 option" where
  "parse_u16 s = map_option of_nat (parse_uint 16 s)"

text \<open>The UTF-8 bytes of the em dash some messages contain.\<close>

definition em_dash :: string where
  "em_dash = [CHR 0xE2, CHR 0x80, CHR 0x94]"

definition quoted :: "string \<Rightarrow> string" where
  "quoted s = CHR 0x27 # s @ [CHR 0x27]"

section \<open>Wire timestamps\<close>

text \<open>
  \<^verbatim>\<open>to_timestamp\<close>, repeated in every service: whole seconds rounded towards minus infinity
  (\<^verbatim>\<open>DateTime::timestamp\<close>) and the nanoseconds within the second.
\<close>

record Timestamp =
  ts_seconds :: int
  ts_nanos :: int

definition to_timestamp :: "time \<Rightarrow> Timestamp option" where
  "to_timestamp dt = Some \<lparr>ts_seconds = dt div 1000000000, ts_nanos = dt mod 1000000000\<rparr>"

text \<open>\<^verbatim>\<open>DateTime::timestamp\<close>: whole seconds since the epoch.\<close>

definition timestamp :: "time \<Rightarrow> int" where
  "timestamp t = t div 1000000000"

section \<open>Maps and their iteration\<close>

definition iterates :: "string list \<Rightarrow> 'v dashmap \<Rightarrow> bool" where
  "iterates ks m \<longleftrightarrow> distinct ks \<and> set ks = fmdom' m"

definition iter_entries :: "string list \<Rightarrow> 'v dashmap \<Rightarrow> (string \<times> 'v) list" where
  "iter_entries ks m = List.map_filter (\<lambda>k. map_option (Pair k) (fmlookup m k)) ks"

definition iter_values :: "string list \<Rightarrow> 'v dashmap \<Rightarrow> 'v list" where
  "iter_values ks m = List.map_filter (fmlookup m) ks"

section \<open>Shared lemmas\<close>

named_theorems option_simps \<open>rewriting of option-valued lookups\<close>
named_theorems iter_simps \<open>membership and lookup facts about map iteration\<close>

lemma starts_with_iff: "starts_with s p \<longleftrightarrow> (\<exists>r. s = p @ r)"
  by (induction s p rule: starts_with.induct) auto

lemma starts_with_append [simp]: "starts_with (p @ r) p"
  by (auto simp: starts_with_iff)

lemma strip_prefix_eq_Some [simp]: "strip_prefix s p = Some r \<longleftrightarrow> s = p @ r"
  by (auto simp: strip_prefix_def starts_with_iff)

lemma strip_prefix_eq_None: "strip_prefix s p = None \<longleftrightarrow> (\<forall>r. s \<noteq> p @ r)"
  by (auto simp: strip_prefix_def starts_with_iff)

lemma strip_prefix_append [simp]: "strip_prefix (p @ r) p = Some r"
  by simp

lemma ends_with_iff: "ends_with s suf \<longleftrightarrow> (\<exists>r. s = r @ suf)"
proof
  assume "ends_with s suf"
  then obtain r where "rev s = rev suf @ r" by (auto simp: ends_with_def starts_with_iff)
  then have "s = rev r @ suf" by (metis rev_append rev_rev_ident)
  then show "\<exists>r. s = r @ suf" by blast
next
  assume "\<exists>r. s = r @ suf"
  then show "ends_with s suf" by (auto simp: ends_with_def)
qed

lemma str_contains_iff: "str_contains s sub \<longleftrightarrow> (\<exists>a b. s = a @ sub @ b)"
proof (induction s)
  case Nil
  then show ?case by auto
next
  case (Cons c s)
  show ?case
  proof
    assume "str_contains (c # s) sub"
    then consider "starts_with (c # s) sub" | "str_contains s sub" by auto
    then show "\<exists>a b. c # s = a @ sub @ b"
    proof cases
      case 1
      then show ?thesis by (metis append_Nil starts_with_iff)
    next
      case 2
      with Cons.IH obtain a b where "s = a @ sub @ b" by blast
      then have "c # s = (c # a) @ sub @ b" by simp
      then show ?thesis by blast
    qed
  next
    assume "\<exists>a b. c # s = a @ sub @ b"
    then obtain a b where ab: "c # s = a @ sub @ b" by blast
    show "str_contains (c # s) sub"
    proof (cases a)
      case Nil
      with ab have "starts_with (c # s) sub" by (simp add: starts_with_iff)
      then show ?thesis by simp
    next
      case (Cons c' a')
      with ab have "s = a' @ sub @ b" by simp
      with Cons.IH show ?thesis by auto
    qed
  qed
qed

lemma map_err_simps [simp]:
  "map_err f (Inl e) = Inl (f e)" "map_err f (Inr x) = Inr x"
  by (simp_all add: map_err_def)

lemma map_err_eq_Inr [simp]: "map_err f r = Inr x \<longleftrightarrow> r = Inr x"
  by (cases r) auto

lemma digit_val_digit_char [simp]: "d < 10 \<Longrightarrow> digit_val (digit_char d) = Some d"
  by (simp add: digit_val_def digit_char_def Let_def)

lemma parse_digits_append:
  "parse_digits acc (s @ t) = Option.bind (parse_digits acc s) (\<lambda>n. parse_digits n t)"
  by (induction acc s rule: parse_digits.induct) (auto split: option.splits)

lemma parse_digits_show_nat [simp]: "parse_digits 0 (show_nat n) = Some n"
  by (induction n rule: show_nat.induct) (subst show_nat.simps, auto simp: parse_digits_append)

lemma show_nat_Cons: "\<exists>d cs. show_nat n = digit_char d # cs \<and> d < 10"
proof (induction n rule: show_nat.induct)
  case (1 n)
  then show ?case by (cases "n < 10") (auto simp: show_nat.simps[of n])
qed

lemma digit_char_not_plus: "d < 10 \<Longrightarrow> digit_char d \<noteq> CHR ''+''"
proof
  assume "d < 10" "digit_char d = CHR ''+''"
  then have "digit_val (CHR ''+'') = Some d" by (metis digit_val_digit_char)
  then show False by (simp add: digit_val_def)
qed

lemma parse_uint_show_nat [simp]: "n < 2 ^ b \<Longrightarrow> parse_uint b (show_nat n) = Some n"
proof -
  assume n: "n < 2 ^ b"
  obtain d cs where s: "show_nat n = digit_char d # cs" "d < 10" using show_nat_Cons by blast
  have "parse_digits 0 (digit_char d # cs) = Some n" using parse_digits_show_nat[of n] s(1) by simp
  with n s show ?thesis by (simp add: parse_uint_def digit_char_not_plus Let_def del: parse_digits.simps)
qed

lemma parse_u64_show [simp]: "parse_u64 (show_u64 n) = Some n"
proof -
  have "unat n < 2 ^ 64" using unsigned_less[where w = n and 'a = nat] by simp
  then have "parse_uint 64 (show_nat (unat n)) = Some (unat n)" by (rule parse_uint_show_nat)
  then show ?thesis by (simp add: parse_u64_def show_u64_def)
qed

lemma in_iter_entries [iter_simps]:
  "(k, v) \<in> set (iter_entries ks m) \<longleftrightarrow> k \<in> set ks \<and> fmlookup m k = Some v"
  by (force simp: iter_entries_def List.map_filter_def)

lemma in_iter_values [iter_simps]:
  "v \<in> set (iter_values ks m) \<longleftrightarrow> (\<exists>k \<in> set ks. fmlookup m k = Some v)"
  by (force simp: iter_values_def List.map_filter_def)

lemma fmlookup_fmupd_fun: "fmlookup (fmupd k v m) = (fmlookup m)(k \<mapsto> v)"
  by (auto simp: fun_eq_iff)

lemma fmlookup_fmdrop_fun: "fmlookup (fmdrop k m) = (fmlookup m)(k := None)"
  by (auto simp: fun_eq_iff)

lemma iterates_mem: "iterates ks m \<Longrightarrow> fmlookup m k = Some v \<Longrightarrow> k \<in> set ks"
  by (auto simp: iterates_def fmlookup_dom'_iff)

lemma in_iter_values_iterates:
  "iterates ks m \<Longrightarrow> v \<in> set (iter_values ks m) \<longleftrightarrow> (\<exists>k. fmlookup m k = Some v)"
  by (auto simp: iter_simps dest: iterates_mem)

lemma iterates_exists: "\<exists>ks. iterates ks m"
proof -
  have "finite (fmdom' m)" by (simp add: fmdom'_alt_def)
  then obtain ks where "set ks = fmdom' m" "distinct ks"
    using finite_distinct_list by blast
  then show ?thesis by (auto simp: iterates_def)
qed

lemma map_fst_iter_entries [iter_simps]:
  "map fst (iter_entries ks m) = filter (\<lambda>k. fmlookup m k \<noteq> None) ks"
  by (induction ks) (auto simp: iter_entries_def List.map_filter_def)

lemma iter_values_snd: "iter_values ks m = map snd (iter_entries ks m)"
  by (induction ks) (auto simp: iter_entries_def iter_values_def List.map_filter_def)

lemma distinct_iter_values:
  assumes "distinct ks" "\<And>k v. fmlookup m k = Some v \<Longrightarrow> f v = k"
  shows "distinct (map f (iter_values ks m))"
  using assms(1)
  by (induction ks)
     (auto simp: iter_values_def List.map_filter_def assms(2) split: option.splits)

lemma find_eq_Some_prop: "List.find P xs = Some x \<Longrightarrow> x \<in> set xs \<and> P x"
  by (auto simp: find_Some_iff)

lemma find_eq_None: "List.find P xs = None \<longleftrightarrow> (\<forall>x \<in> set xs. \<not> P x)"
  by (auto simp: find_None_iff)

end
