(* ===== verification/Txn_Store.thy ===== *)
theory Txn_Store
  imports Prelude
begin

text \<open>
  Transaction records and their store: the types and the \<^verbatim>\<open>TxnStore\<close> trait of \<^verbatim>\<open>coordin8-core/src/txn.rs\<close> as
  a record of operations with its contract, and the in-memory store of
  \<^verbatim>\<open>providers/local/src/txn_store.rs\<close>, shown to keep it.
\<close>

section \<open>Records and the store interface\<close>

datatype TransactionState = Active | Voting | Prepared | Committed | Aborted

datatype PrepareVote = VotePrepared | VoteNotChanged | VoteAborted

record ParticipantRecord =
  pr_endpoint :: string
  pr_crash_count :: u64

record TransactionRecord =
  tx_txn_id :: string
  tx_lease_id :: string
  tx_state :: TransactionState
  tx_participants :: "ParticipantRecord list"
  tx_begun_at :: time

record 's TxnStore =
  ts_create :: "TransactionRecord \<Rightarrow> 's \<Rightarrow> unit result \<times> 's"
  ts_get :: "string \<Rightarrow> 's \<Rightarrow> TransactionRecord option result"
  ts_update_state :: "string \<Rightarrow> TransactionState \<Rightarrow> 's \<Rightarrow> unit result \<times> 's"
  ts_update_state_if :: "string \<Rightarrow> TransactionState \<Rightarrow> TransactionState \<Rightarrow> 's \<Rightarrow> bool result \<times> 's"
  ts_add_participant :: "string \<Rightarrow> ParticipantRecord \<Rightarrow> 's \<Rightarrow> unit result \<times> 's"
  ts_remove :: "string \<Rightarrow> 's \<Rightarrow> unit result \<times> 's"
  ts_list_all :: "string list \<Rightarrow> 's \<Rightarrow> TransactionRecord list result"

section \<open>The in-memory store\<close>

record InMemoryTxnStore =
  tm_records :: "TransactionRecord dashmap"

definition InMemoryTxnStore_new :: InMemoryTxnStore where
  "InMemoryTxnStore_new = \<lparr>tm_records = fmempty\<rparr>"

definition InMemoryTxnStore_create :: "TransactionRecord \<Rightarrow> InMemoryTxnStore \<Rightarrow> unit result \<times> InMemoryTxnStore" where
  "InMemoryTxnStore_create record s = (Inr (), s\<lparr>tm_records := fmupd (tx_txn_id record) record (tm_records s)\<rparr>)"

definition InMemoryTxnStore_get :: "string \<Rightarrow> InMemoryTxnStore \<Rightarrow> TransactionRecord option result" where
  "InMemoryTxnStore_get txn_id s = Inr (fmlookup (tm_records s) txn_id)"

definition InMemoryTxnStore_update_state ::
  "string \<Rightarrow> TransactionState \<Rightarrow> InMemoryTxnStore \<Rightarrow> unit result \<times> InMemoryTxnStore"
where
  "InMemoryTxnStore_update_state txn_id state s =
     (case fmlookup (tm_records s) txn_id of
        Some r \<Rightarrow> (Inr (), s\<lparr>tm_records := fmupd txn_id (r\<lparr>tx_state := state\<rparr>) (tm_records s)\<rparr>)
      | None \<Rightarrow> (Inl (TransactionNotFound txn_id), s))"

definition InMemoryTxnStore_update_state_if ::
  "string \<Rightarrow> TransactionState \<Rightarrow> TransactionState \<Rightarrow> InMemoryTxnStore \<Rightarrow> bool result \<times> InMemoryTxnStore"
where
  "InMemoryTxnStore_update_state_if txn_id expected new s =
     (case fmlookup (tm_records s) txn_id of
        Some r \<Rightarrow>
          if tx_state r = expected
          then (Inr True, s\<lparr>tm_records := fmupd txn_id (r\<lparr>tx_state := new\<rparr>) (tm_records s)\<rparr>)
          else (Inr False, s)
      | None \<Rightarrow> (Inl (TransactionNotFound txn_id), s))"

definition InMemoryTxnStore_add_participant ::
  "string \<Rightarrow> ParticipantRecord \<Rightarrow> InMemoryTxnStore \<Rightarrow> unit result \<times> InMemoryTxnStore"
where
  "InMemoryTxnStore_add_participant txn_id participant s =
     (case fmlookup (tm_records s) txn_id of
        Some r \<Rightarrow>
          if tx_state r \<noteq> Active then (Inl (TransactionTerminal txn_id), s)
          else (Inr (), s\<lparr>tm_records :=
                 fmupd txn_id (r\<lparr>tx_participants := tx_participants r @ [participant]\<rparr>) (tm_records s)\<rparr>)
      | None \<Rightarrow> (Inl (TransactionNotFound txn_id), s))"

definition InMemoryTxnStore_remove :: "string \<Rightarrow> InMemoryTxnStore \<Rightarrow> unit result \<times> InMemoryTxnStore" where
  "InMemoryTxnStore_remove txn_id s = (Inr (), s\<lparr>tm_records := fmdrop txn_id (tm_records s)\<rparr>)"

definition InMemoryTxnStore_list_all :: "string list \<Rightarrow> InMemoryTxnStore \<Rightarrow> TransactionRecord list result" where
  "InMemoryTxnStore_list_all ks s = Inr (iter_values ks (tm_records s))"

definition InMemoryTxnStore_ops :: "InMemoryTxnStore TxnStore" where
  "InMemoryTxnStore_ops = \<lparr>
     ts_create = InMemoryTxnStore_create,
     ts_get = InMemoryTxnStore_get,
     ts_update_state = InMemoryTxnStore_update_state,
     ts_update_state_if = InMemoryTxnStore_update_state_if,
     ts_add_participant = InMemoryTxnStore_add_participant,
     ts_remove = InMemoryTxnStore_remove,
     ts_list_all = InMemoryTxnStore_list_all \<rparr>"

definition txn_keys_ok :: "InMemoryTxnStore \<Rightarrow> bool" where
  "txn_keys_ok s \<longleftrightarrow> (\<forall>k r. fmlookup (tm_records s) k = Some r \<longrightarrow> tx_txn_id r = k)"

section \<open>The contract\<close>

text \<open>
  \<open>txns\<close> is the table a state holds. The step laws also cover a call that reports an error: it may have
  taken effect or not (a lost response), but it never does anything else.
\<close>

locale txn_store =
  fixes T :: "'s TxnStore"
    and txns :: "'s \<Rightarrow> string \<Rightarrow> TransactionRecord option"
    and tok :: "'s \<Rightarrow> bool"
    and tvisits :: "string list \<Rightarrow> 's \<Rightarrow> bool"
  assumes txns_key: "tok s \<Longrightarrow> txns s k = Some r \<Longrightarrow> tx_txn_id r = k"
    and create_ok: "tok s \<Longrightarrow> ts_create T r s = (Inr u, s') \<Longrightarrow> txns s' = (txns s)(tx_txn_id r \<mapsto> r)"
    and create_step: "tok s \<Longrightarrow> ts_create T r s = (x, s') \<Longrightarrow>
          tok s' \<and> (txns s' = txns s \<or> txns s' = (txns s)(tx_txn_id r \<mapsto> r))"
    and get_ok: "tok s \<Longrightarrow> ts_get T k s = Inr got \<Longrightarrow> got = txns s k"
    and cas_True: "tok s \<Longrightarrow> ts_update_state_if T k expected new s = (Inr True, s') \<Longrightarrow>
          \<exists>r. txns s k = Some r \<and> tx_state r = expected \<and> txns s' = (txns s)(k \<mapsto> r\<lparr>tx_state := new\<rparr>)"
    and cas_False: "tok s \<Longrightarrow> ts_update_state_if T k expected new s = (Inr False, s') \<Longrightarrow>
          \<exists>r. txns s k = Some r \<and> tx_state r \<noteq> expected \<and> txns s' = txns s"
    and cas_missing: "tok s \<Longrightarrow> ts_update_state_if T k expected new s = (Inl (TransactionNotFound msg), s') \<Longrightarrow>
          txns s k = None \<and> txns s' = txns s"
    and cas_step: "tok s \<Longrightarrow> ts_update_state_if T k expected new s = (b, s') \<Longrightarrow>
          tok s' \<and> (txns s' = txns s \<or>
            (\<exists>r. txns s k = Some r \<and> tx_state r = expected \<and> txns s' = (txns s)(k \<mapsto> r\<lparr>tx_state := new\<rparr>)))"
    and add_ok: "tok s \<Longrightarrow> ts_add_participant T k p s = (Inr u, s') \<Longrightarrow>
          \<exists>r. txns s k = Some r \<and> tx_state r = Active \<and>
              txns s' = (txns s)(k \<mapsto> r\<lparr>tx_participants := tx_participants r @ [p]\<rparr>)"
    and add_step: "tok s \<Longrightarrow> ts_add_participant T k p s = (x, s') \<Longrightarrow>
          tok s' \<and> (txns s' = txns s \<or>
            (\<exists>r. txns s k = Some r \<and> tx_state r = Active \<and>
                 txns s' = (txns s)(k \<mapsto> r\<lparr>tx_participants := tx_participants r @ [p]\<rparr>)))"
    and list_all_ok: "tok s \<Longrightarrow> tvisits ks s \<Longrightarrow> ts_list_all T ks s = Inr rs \<Longrightarrow>
          r \<in> set rs \<longleftrightarrow> txns s (tx_txn_id r) = Some r"

named_theorems mem_txn_defs \<open>operations of the in-memory transaction store\<close>

declare InMemoryTxnStore_create_def [mem_txn_defs] InMemoryTxnStore_get_def [mem_txn_defs]
  InMemoryTxnStore_update_state_def [mem_txn_defs] InMemoryTxnStore_update_state_if_def [mem_txn_defs]
  InMemoryTxnStore_add_participant_def [mem_txn_defs] InMemoryTxnStore_remove_def [mem_txn_defs]
  InMemoryTxnStore_list_all_def [mem_txn_defs] InMemoryTxnStore_ops_def [mem_txn_defs]
  InMemoryTxnStore_new_def [mem_txn_defs]

lemma txn_keys_okD: "txn_keys_ok s \<Longrightarrow> fmlookup (tm_records s) k = Some r \<Longrightarrow> tx_txn_id r = k"
  by (simp add: txn_keys_ok_def)

lemma txn_keys_ok_upd:
  "txn_keys_ok s \<Longrightarrow> tx_txn_id r = k \<Longrightarrow> txn_keys_ok (s\<lparr>tm_records := fmupd k r (tm_records s)\<rparr>)"
  by (simp add: txn_keys_ok_def)

interpretation mem_txn: txn_store InMemoryTxnStore_ops "\<lambda>s. fmlookup (tm_records s)" txn_keys_ok
  "\<lambda>ks s. iterates ks (tm_records s)"
proof (unfold_locales, goal_cases)
  case (11 s ks rs r)
  then show ?case using txn_keys_okD[OF 11(1)] by (auto simp: mem_txn_defs in_iter_values_iterates)
qed (auto simp: mem_txn_defs fun_eq_iff intro!: txn_keys_ok_upd dest: txn_keys_okD split: option.splits if_splits)

end
