(* ===== verification/Ip_Address.thy ===== *)
theory Ip_Address
  imports Prelude
begin

text \<open>
  The part of Rust's \<^verbatim>\<open>std::net\<close> and \<^verbatim>\<open>str\<close> that endpoint parsing uses: the textual form of IPv4 and IPv6 addresses
  as \<^verbatim>\<open>IpAddr::from_str\<close> reads it, the IPv4-mapped form, splitting and trimming. A reader takes the
  remaining input and returns the value read with what is left, or \<open>None\<close> and then consumes nothing.
\<close>

section \<open>Splitting and trimming\<close>

text \<open>\<^verbatim>\<open>str::split_once\<close>, \<^verbatim>\<open>str::split\<close> at a character, and \<^verbatim>\<open>str::trim\<close> on ASCII text.\<close>

fun split_once :: "char \<Rightarrow> string \<Rightarrow> (string \<times> string) option" where
  "split_once d [] = None"
| "split_once d (c # cs) =
     (if c = d then Some ([], cs) else map_option (\<lambda>(a, b). (c # a, b)) (split_once d cs))"

fun split_char :: "char \<Rightarrow> string \<Rightarrow> string list" where
  "split_char d [] = [[]]"
| "split_char d (c # cs) =
     (if c = d then [] # split_char d cs
      else case split_char d cs of [] \<Rightarrow> [[c]] | w # ws \<Rightarrow> (c # w) # ws)"

definition is_whitespace :: "char \<Rightarrow> bool" where
  "is_whitespace c = (let n = of_char c :: nat in n = 32 \<or> (9 \<le> n \<and> n \<le> 13))"

definition trim :: "string \<Rightarrow> string" where
  "trim s = rev (dropWhile is_whitespace (rev (dropWhile is_whitespace s)))"

definition is_ascii_alphanumeric :: "char \<Rightarrow> bool" where
  "is_ascii_alphanumeric c = (let n = of_char c :: nat in
     (48 \<le> n \<and> n \<le> 57) \<or> (65 \<le> n \<and> n \<le> 90) \<or> (97 \<le> n \<and> n \<le> 122))"

section \<open>Addresses\<close>

datatype IpAddr = V4 "32 word" | V6 "128 word"

text \<open>An address built from its octets or groups, most significant first.\<close>

definition ipv4_of_octets :: "nat list \<Rightarrow> 32 word" where
  "ipv4_of_octets os = of_nat (foldl (\<lambda>acc oct. 256 * acc + oct) 0 os)"

definition ipv6_of_groups :: "nat list \<Rightarrow> 128 word" where
  "ipv6_of_groups gs = of_nat (foldl (\<lambda>acc g. 65536 * acc + g) 0 gs)"

text \<open>\<^verbatim>\<open>Ipv6Addr::to_ipv4_mapped\<close>: the addresses \<^verbatim>\<open>::ffff:a.b.c.d\<close>.\<close>

definition to_ipv4_mapped :: "128 word \<Rightarrow> 32 word option" where
  "to_ipv4_mapped a = (if drop_bit 32 a = 0xffff then Some (ucast a) else None)"

section \<open>Reading addresses\<close>

definition to_digit :: "nat \<Rightarrow> char \<Rightarrow> nat option" where
  "to_digit radix c = (let n = of_char c :: nat;
       d = (if 48 \<le> n \<and> n \<le> 57 then Some (n - 48)
            else if 97 \<le> n \<and> n \<le> 122 then Some (n - 87)
            else if 65 \<le> n \<and> n \<le> 90 then Some (n - 55)
            else None)
     in case d of Some v \<Rightarrow> if v < radix then Some v else None | None \<Rightarrow> None)"

text \<open>The digits at the front of the input: their value, how many there are, and the rest.\<close>

fun read_digits :: "nat \<Rightarrow> nat \<Rightarrow> nat \<Rightarrow> string \<Rightarrow> nat \<times> nat \<times> string" where
  "read_digits radix acc n [] = (acc, n, [])"
| "read_digits radix acc n (c # cs) =
     (case to_digit radix c of
        None \<Rightarrow> (acc, n, c # cs)
      | Some d \<Rightarrow> read_digits radix (radix * acc + d) (Suc n) cs)"

definition read_number :: "nat \<Rightarrow> nat \<Rightarrow> bool \<Rightarrow> nat \<Rightarrow> string \<Rightarrow> (nat \<times> string) option" where
  "read_number radix max_digits allow_zero_prefix bound s =
     (case read_digits radix 0 0 s of
        (v, n, rest) \<Rightarrow>
          if n > max_digits \<or> n = 0 \<or> (\<not> allow_zero_prefix \<and> hd s = CHR ''0'' \<and> n > 1) \<or> v \<ge> bound
          then None else Some (v, rest))"

definition read_given_char :: "char \<Rightarrow> string \<Rightarrow> string option" where
  "read_given_char c s = (case s of [] \<Rightarrow> None | x # xs \<Rightarrow> if x = c then Some xs else None)"

text \<open>\<^verbatim>\<open>read_separator\<close>: a separator is required before every element but the first.\<close>

definition read_separator :: "char \<Rightarrow> nat \<Rightarrow> (string \<Rightarrow> ('a \<times> string) option) \<Rightarrow> string \<Rightarrow> ('a \<times> string) option" where
  "read_separator sep i inner s =
     (if i = 0 then inner s else Option.bind (read_given_char sep s) inner)"

fun read_octets :: "nat \<Rightarrow> nat \<Rightarrow> string \<Rightarrow> (nat list \<times> string) option" where
  "read_octets i 0 s = Some ([], s)"
| "read_octets i (Suc n) s =
     (case read_separator CHR ''.'' i (read_number 10 3 False 256) s of
        None \<Rightarrow> None
      | Some (v, rest) \<Rightarrow> map_option (\<lambda>(vs, rest'). (v # vs, rest')) (read_octets (Suc i) n rest))"

definition read_ipv4_octets :: "string \<Rightarrow> (nat list \<times> string) option" where
  "read_ipv4_octets s = read_octets 0 4 s"

text \<open>
  Four octets are always read. \<open>read_groups i k s\<close> reads from group \<open>i\<close> with \<open>k\<close> groups still free: the groups, whether an embedded
  IPv4 address ended them, and the rest.
\<close>

fun read_groups :: "nat \<Rightarrow> nat \<Rightarrow> string \<Rightarrow> nat list \<times> bool \<times> string" where
  "read_groups i 0 s = ([], False, s)"
| "read_groups i (Suc k) s =
     (case (if k > 0 then read_separator CHR '':'' i read_ipv4_octets s else None) of
        Some (os, rest) \<Rightarrow> ([256 * os ! 0 + os ! 1, 256 * os ! 2 + os ! 3], True, rest)
      | None \<Rightarrow>
          (case read_separator CHR '':'' i (read_number 16 4 True 65536) s of
             None \<Rightarrow> ([], False, s)
           | Some (g, rest) \<Rightarrow>
               (case read_groups (Suc i) k rest of (gs, v4, rest') \<Rightarrow> (g # gs, v4, rest'))))"

definition read_ipv6_groups :: "string \<Rightarrow> (nat list \<times> string) option" where
  "read_ipv6_groups s =
     (case read_groups 0 8 s of
        (hd_gs, head_ipv4, rest) \<Rightarrow>
          if length hd_gs = 8 then Some (hd_gs, rest)
          else if head_ipv4 then None
          else case Option.bind (read_given_char CHR '':'' rest) (read_given_char CHR '':'') of
                 None \<Rightarrow> None
               | Some rest1 \<Rightarrow>
                   (case read_groups 0 (8 - (length hd_gs + 1)) rest1 of
                      (tl_gs, _, rest2) \<Rightarrow>
                        Some (hd_gs @ replicate (8 - length hd_gs - length tl_gs) 0 @ tl_gs, rest2)))"

definition parse_IpAddr :: "string \<Rightarrow> IpAddr option" where
  "parse_IpAddr s =
     (case read_ipv4_octets s of
        Some (os, rest) \<Rightarrow> if rest = [] then Some (V4 (ipv4_of_octets os)) else None
      | None \<Rightarrow>
          (case read_ipv6_groups s of
             Some (gs, rest) \<Rightarrow> if rest = [] then Some (V6 (ipv6_of_groups gs)) else None
           | None \<Rightarrow> None))"

text \<open>Unfolding at numerals, for evaluation.\<close>

lemmas read_octets_numeral = read_octets.simps(2)[of _ "pred_numeral k" for k, folded numeral_eq_Suc]
lemmas read_groups_numeral = read_groups.simps(2)[of _ "pred_numeral k" for k, folded numeral_eq_Suc]

section \<open>What the readers consume\<close>

definition ip_chars :: "char set" where
  "ip_chars = {c. to_digit 16 c \<noteq> None} \<union> {CHR ''.'', CHR '':''}"

text \<open>\<open>r\<close> is left of \<open>s\<close> after reading address characters only.\<close>

definition consumes :: "string \<Rightarrow> string \<Rightarrow> bool" where
  "consumes s r \<longleftrightarrow> (\<exists>p. s = p @ r \<and> set p \<subseteq> ip_chars)"

lemma consumes_refl [simp, intro]: "consumes s s"
  by (auto simp: consumes_def)

lemma consumes_trans [trans]: "consumes s r \<Longrightarrow> consumes r q \<Longrightarrow> consumes s q"
  by (force simp: consumes_def)

lemma consumes_Cons: "c \<in> ip_chars \<Longrightarrow> consumes cs r \<Longrightarrow> consumes (c # cs) r"
  by (force simp: consumes_def intro: exI[of _ "c # _"])

lemma consumes_all: "consumes s [] \<Longrightarrow> set s \<subseteq> ip_chars"
  by (auto simp: consumes_def)

lemma to_digit_mono: "to_digit r c = Some d \<Longrightarrow> r \<le> 16 \<Longrightarrow> c \<in> ip_chars"
  by (auto simp: to_digit_def ip_chars_def Let_def split: if_splits option.splits)

lemma read_digits_consumes: "read_digits radix acc n s = (v, k, r) \<Longrightarrow> radix \<le> 16 \<Longrightarrow> consumes s r"
  by (induction radix acc n s rule: read_digits.induct)
     (auto split: option.splits intro: consumes_Cons to_digit_mono)

lemma read_number_consumes: "read_number radix m z b s = Some (v, r) \<Longrightarrow> radix \<le> 16 \<Longrightarrow> consumes s r"
  by (auto simp: read_number_def split: prod.splits if_splits dest: read_digits_consumes)

lemma read_given_char_consumes: "read_given_char c s = Some r \<Longrightarrow> c \<in> ip_chars \<Longrightarrow> consumes s r"
  by (auto simp: read_given_char_def split: list.splits if_splits intro: consumes_Cons)

lemma sep_ip_chars [simp]: "CHR ''.'' \<in> ip_chars" "CHR '':'' \<in> ip_chars"
  by (simp_all add: ip_chars_def)

lemma read_separator_consumes:
  assumes "read_separator sep i inner s = Some (v, r)" "sep \<in> ip_chars"
    "\<And>s v r. inner s = Some (v, r) \<Longrightarrow> consumes s r"
  shows "consumes s r"
  using assms
  by (auto simp: read_separator_def bind_eq_Some_conv split: if_splits
      intro: consumes_trans dest: read_given_char_consumes)

lemma read_octets_consumes: "read_octets i n s = Some (vs, r) \<Longrightarrow> consumes s r"
proof (induction i n s arbitrary: vs r rule: read_octets.induct)
  case (2 i n s)
  then obtain v rest vs' where
    v: "read_separator CHR ''.'' i (read_number 10 3 False 256) s = Some (v, rest)" and
    vs: "read_octets (Suc i) n rest = Some (vs', r)"
    by (auto split: option.splits)
  have "consumes s rest" using v by (rule read_separator_consumes) (auto dest: read_number_consumes)
  also have "consumes rest r" using "2.IH"[OF v refl vs] .
  finally show ?case .
qed simp

lemma read_ipv4_octets_consumes: "read_ipv4_octets s = Some (os, r) \<Longrightarrow> consumes s r"
  unfolding read_ipv4_octets_def by (rule read_octets_consumes)

lemma read_groups_consumes: "read_groups i k s = (gs, v4, r) \<Longrightarrow> consumes s r"
proof (induction i k s arbitrary: gs v4 r rule: read_groups.induct)
  case (2 i k s)
  let ?e = "if k > 0 then read_separator CHR '':'' i read_ipv4_octets s else None"
  let ?g = "read_separator CHR '':'' i (read_number 16 4 True 65536) s"
  show ?case
  proof (cases ?e)
    case (Some x)
    then obtain os rest where e: "?e = Some (os, rest)" by (cases x) auto
    then have "read_separator CHR '':'' i read_ipv4_octets s = Some (os, rest)" by (simp split: if_splits)
    then have "consumes s rest"
      by (rule read_separator_consumes) (auto intro: read_ipv4_octets_consumes)
    then show ?thesis using "2.prems" e by simp
  next
    case None
    show ?thesis
    proof (cases ?g)
      case gN: None
      then show ?thesis using "2.prems" None by simp
    next
      case (Some x)
      then obtain g rest where g: "?g = Some (g, rest)" by (cases x) auto
      then have c1: "consumes s rest"
        by (rule read_separator_consumes) (auto dest: read_number_consumes)
      obtain gs' w r' where rg: "read_groups (Suc i) k rest = (gs', w, r')" by (metis prod.collapse)
      then have "r' = r" using "2.prems" None g by simp
      then show ?thesis using consumes_trans[OF c1] "2.IH"[OF None g refl rg] by simp
    qed
  qed
qed simp

lemma read_ipv6_groups_consumes: "read_ipv6_groups s = Some (gs, r) \<Longrightarrow> consumes s r"
proof -
  assume a: "read_ipv6_groups s = Some (gs, r)"
  obtain h w r1 where h: "read_groups 0 8 s = (h, w, r1)" by (metis prod.collapse)
  have c: "consumes s r1" using h by (rule read_groups_consumes)
  show ?thesis
  proof (cases "length h = 8")
    case True
    then show ?thesis using a h c by (simp add: read_ipv6_groups_def)
  next
    case False
    then obtain x y where x: "read_given_char CHR '':'' r1 = Some x" "read_given_char CHR '':'' x = Some y"
      and w: "\<not> w"
      using a h by (auto simp: read_ipv6_groups_def bind_eq_Some_conv split: if_splits option.splits)
    obtain t v r2 where t: "read_groups 0 (8 - (length h + 1)) y = (t, v, r2)" by (metis prod.collapse)
    have "r2 = r" using a h False w x t by (simp add: read_ipv6_groups_def)
    then show ?thesis
      using c read_given_char_consumes[OF x(1)] read_given_char_consumes[OF x(2)] read_groups_consumes[OF t]
      by (auto intro: consumes_trans)
  qed
qed

lemma parse_IpAddr_chars: "parse_IpAddr s = Some ip \<Longrightarrow> set s \<subseteq> ip_chars"
  by (rule consumes_all)
     (auto simp: parse_IpAddr_def split: option.splits if_splits
       dest: read_ipv4_octets_consumes read_ipv6_groups_consumes)

end
