(* ===== verification/Allowlist.thy ===== *)
theory Allowlist
  imports Ip_Address
begin

unbundle bit_operations_syntax

text \<open>
  The guard on the endpoints a transaction's participants may have,
  \<^verbatim>\<open>coordin8-txn/src/allowlist.rs\<close>: parsing of the configured list and of endpoints, matching, and the
  check \<^verbatim>\<open>Enlist\<close> makes before anything is stored. A parse error is its message.
\<close>

section \<open>Patterns and endpoints\<close>

datatype HostPattern = Exact string | Suffix string | PIp IpAddr | Cidr IpAddr u8

record Entry =
  en_host :: HostPattern
  en_port :: "u16 option"

datatype Host = Name string | Ip IpAddr

record ParticipantAllowlist =
  al_entries :: "Entry list"

definition ALLOW_ENV_VAR :: string where
  "ALLOW_ENV_VAR = ''COORDIN8_TXN_PARTICIPANT_ALLOW''"

definition valid_hostname :: "string \<Rightarrow> bool" where
  "valid_hostname h \<longleftrightarrow> h \<noteq> [] \<and>
     list_all (\<lambda>l. l \<noteq> [] \<and> list_all (\<lambda>c. is_ascii_alphanumeric c \<or> c = CHR ''-'' \<or> c = CHR ''_'') l)
       (split_char CHR ''.'' h)"

fun canon :: "IpAddr \<Rightarrow> IpAddr" where
  "canon (V6 v6) = (case to_ipv4_mapped v6 of Some v4 \<Rightarrow> V4 v4 | None \<Rightarrow> V6 v6)"
| "canon (V4 v4) = V4 v4"

definition parse_port :: "string \<Rightarrow> string + u16" where
  "parse_port p = (case parse_u16 p of
     Some n \<Rightarrow> if n \<noteq> 0 then Inr n else Inl (''invalid port '' @ quoted p)
   | None \<Rightarrow> Inl (''invalid port '' @ quoted p))"

definition count_char :: "char \<Rightarrow> string \<Rightarrow> nat" where
  "count_char c s = length (filter (\<lambda>x. x = c) s)"

definition split_host_port :: "string \<Rightarrow> string + (string \<times> string option)" where
  "split_host_port s =
     (case strip_prefix s ''['' of
        Some rest \<Rightarrow>
          (case split_once CHR '']'' rest of
             None \<Rightarrow> Inl (''missing '' @ quoted '']'')
           | Some (host, tail) \<Rightarrow>
               if tail = [] then Inr (host, None)
               else case strip_prefix tail '':'' of
                      Some p \<Rightarrow> Inr (host, Some p)
                    | None \<Rightarrow> Inl (''unexpected text after '' @ quoted '']''))
      | None \<Rightarrow>
          if count_char CHR '':'' s = 1 then
            (case split_once CHR '':'' s of
               Some (h, p) \<Rightarrow> Inr (h, Some p)
             | None \<Rightarrow> Inr (s, None))
          else Inr (s, None))"

definition parse_host :: "string \<Rightarrow> string + Host" where
  "parse_host h =
     (if h = [] then Inl ''empty host''
      else case parse_IpAddr h of
             Some ip \<Rightarrow> Inr (Ip (canon ip))
           | None \<Rightarrow>
               let lower = to_ascii_lowercase h
               in if \<not> valid_hostname lower then Inl (''invalid host '' @ quoted h) else Inr (Name lower))"

fun pattern_of :: "Host \<Rightarrow> HostPattern" where
  "pattern_of (Name n) = Exact n"
| "pattern_of (Ip ip) = PIp ip"

fun is_ipv4 :: "IpAddr \<Rightarrow> bool" where
  "is_ipv4 (V4 _) = True"
| "is_ipv4 (V6 _) = False"

definition parse_cidr_entry :: "string \<Rightarrow> string \<Rightarrow> string + Entry" where
  "parse_cidr_entry addr len_str =
     (case parse_IpAddr addr of
        None \<Rightarrow> Inl (''invalid CIDR address '' @ quoted addr)
      | Some ip \<Rightarrow>
          (case parse_u8 len_str of
             None \<Rightarrow> Inl (''invalid CIDR prefix length '' @ quoted len_str)
           | Some len \<Rightarrow>
               let mx = (if is_ipv4 ip then 32 else 128)
               in if len > mx
                  then Inl (''CIDR prefix length '' @ show_nat (unat len) @ '' exceeds '' @ show_nat (unat mx))
                  else Inr \<lparr>en_host = Cidr ip len, en_port = None\<rparr>))"

definition parse_host_entry :: "string \<Rightarrow> string + Entry" where
  "parse_host_entry raw =
     (case split_host_port raw of
        Inl e \<Rightarrow> Inl e
      | Inr (host, port_str) \<Rightarrow>
          (case (case port_str of
                   None \<Rightarrow> Inr None
                 | Some p \<Rightarrow> (case parse_port p of Inl e \<Rightarrow> Inl e | Inr n \<Rightarrow> Inr (Some n))) of
             Inl e \<Rightarrow> Inl e
           | Inr port \<Rightarrow>
               (case strip_prefix host ''*.'' of
                  Some suffix \<Rightarrow>
                    if \<not> valid_hostname (to_ascii_lowercase suffix)
                    then Inl (''invalid wildcard host '' @ quoted host)
                    else Inr \<lparr>en_host = Suffix (to_ascii_lowercase suffix), en_port = port\<rparr>
                | None \<Rightarrow>
                    if CHR ''*'' \<in> set host
                    then Inl (quoted host @ '': wildcards are only supported as a leading '' @ quoted ''*.'')
                    else case parse_host host of
                           Inl e \<Rightarrow> Inl e
                         | Inr h \<Rightarrow> Inr \<lparr>en_host = pattern_of h, en_port = port\<rparr>)))"

definition parse_entry :: "string \<Rightarrow> string + Entry" where
  "parse_entry raw0 =
     (let raw = trim raw0 in
      if raw = [] then Inl ''empty entry''
      else case split_once CHR ''/'' raw of
             Some (addr, len_str) \<Rightarrow> parse_cidr_entry addr len_str
           | None \<Rightarrow> parse_host_entry raw)"

fun cidr_contains :: "IpAddr \<Rightarrow> u8 \<Rightarrow> IpAddr \<Rightarrow> bool" where
  "cidr_contains (V4 n) len (V4 i) =
     (let mask = (if unat len = 0 then 0 else push_bit (32 - unat len) (- 1)) in (n AND mask) = (i AND mask))"
| "cidr_contains (V6 n) len (V6 i) =
     (let mask = (if unat len = 0 then 0 else push_bit (128 - unat len) (- 1)) in (n AND mask) = (i AND mask))"
| "cidr_contains _ len _ = False"

fun host_matches :: "HostPattern \<Rightarrow> Host \<Rightarrow> bool" where
  "host_matches (Exact e) (Name h) = (e = h)"
| "host_matches (Suffix s) (Name h) =
     (length h > length s + 1 \<and> ends_with h s \<and> ends_with (take (length h - length s) h) ''.'')"
| "host_matches (PIp a) (Ip b) = (canon a = b)"
| "host_matches (Cidr n l) (Ip b) = cidr_contains n l b"
| "host_matches _ _ = False"

definition Entry_matches :: "Entry \<Rightarrow> Host \<Rightarrow> u16 \<Rightarrow> bool" where
  "Entry_matches e host port =
     (if (case en_port e of Some p \<Rightarrow> p \<noteq> port | None \<Rightarrow> False) then False
      else host_matches (en_host e) host)"

definition parse_endpoint :: "string \<Rightarrow> string + (Host \<times> u16)" where
  "parse_endpoint endpoint =
     (let bad = (\<lambda>why. ''participant_endpoint '' @ quoted endpoint @ '' must be host:port ('' @ why @ '')'') in
      if count_char CHR '':'' endpoint > 1 \<and> \<not> starts_with endpoint ''['' then
        Inl (bad ''IPv6 literals must be bracketed'')
      else case split_host_port endpoint of
             Inl e \<Rightarrow> Inl (bad e)
           | Inr (host, None) \<Rightarrow> Inl (bad ''missing port'')
           | Inr (host, Some port_str) \<Rightarrow>
               (case parse_port port_str of
                  Inl e \<Rightarrow> Inl (bad e)
                | Inr port \<Rightarrow>
                    (case parse_host host of
                       Inl e \<Rightarrow> Inl (bad e)
                     | Inr h \<Rightarrow> Inr (h, port))))"

section \<open>The allowlist\<close>

definition allow_all :: ParticipantAllowlist where
  "allow_all = \<lparr>al_entries = []\<rparr>"

definition is_allow_all :: "ParticipantAllowlist \<Rightarrow> bool" where
  "is_allow_all al \<longleftrightarrow> al_entries al = []"

fun parse_entries :: "string list \<Rightarrow> Entry list \<Rightarrow> string + Entry list" where
  "parse_entries [] entries = Inr entries"
| "parse_entries (raw # raws) entries =
     (case parse_entry raw of
        Inl e \<Rightarrow> Inl (ALLOW_ENV_VAR @ '': bad entry '' @ quoted (trim raw) @ '': '' @ e)
      | Inr entry \<Rightarrow> parse_entries raws (entries @ [entry]))"

definition ParticipantAllowlist_parse :: "string \<Rightarrow> string + ParticipantAllowlist" where
  "ParticipantAllowlist_parse spec =
     (if trim spec = [] then Inr allow_all
      else case parse_entries (split_char CHR '','' spec) [] of
             Inl e \<Rightarrow> Inl e
           | Inr entries \<Rightarrow> Inr \<lparr>al_entries = entries\<rparr>)"

definition ParticipantAllowlist_from_env :: "(string \<Rightarrow> string option) \<Rightarrow> string + ParticipantAllowlist" where
  "ParticipantAllowlist_from_env env =
     (case env ALLOW_ENV_VAR of Some v \<Rightarrow> ParticipantAllowlist_parse v | None \<Rightarrow> Inr allow_all)"

definition with_implicit_endpoint :: "ParticipantAllowlist \<Rightarrow> string \<Rightarrow> string + ParticipantAllowlist" where
  "with_implicit_endpoint al endpoint =
     (if is_allow_all al then Inr al
      else case parse_endpoint endpoint of
             Inl e \<Rightarrow> Inl e
           | Inr (host, port) \<Rightarrow>
               Inr (al\<lparr>al_entries := al_entries al @ [\<lparr>en_host = pattern_of host, en_port = Some port\<rparr>]\<rparr>))"

definition check :: "ParticipantAllowlist \<Rightarrow> string \<Rightarrow> unit result" where
  "check al endpoint =
     (case parse_endpoint endpoint of
        Inl e \<Rightarrow> Inl (InvalidArgument e)
      | Inr (host, port) \<Rightarrow>
          if is_allow_all al \<or> list_ex (\<lambda>e. Entry_matches e host port) (al_entries al) then Inr ()
          else Inl (PermissionDenied
            (''participant endpoint '' @ quoted endpoint @ '' is not permitted by '' @ ALLOW_ENV_VAR)))"

section \<open>What a pattern admits\<close>

text \<open>The declarative meaning: equality, a proper subdomain, an address, a common prefix of bits.\<close>

fun pattern_spec :: "HostPattern \<Rightarrow> Host \<Rightarrow> bool" where
  "pattern_spec (Exact e) h = (h = Name e)"
| "pattern_spec (Suffix s) h = (\<exists>l. l \<noteq> [] \<and> h = Name (l @ ''.'' @ s))"
| "pattern_spec (PIp a) h = (h = Ip (canon a))"
| "pattern_spec (Cidr (V4 n) len) h =
     (\<exists>i. h = Ip (V4 i) \<and> (\<forall>k < 32. 32 - unat len \<le> k \<longrightarrow> bit i k = bit n k))"
| "pattern_spec (Cidr (V6 n) len) h =
     (\<exists>i. h = Ip (V6 i) \<and> (\<forall>k < 128. 128 - unat len \<le> k \<longrightarrow> bit i k = bit n k))"

lemma masked_eq_iff:
  fixes n i :: "'a::len word"
  shows "(n AND push_bit k (- 1) = i AND push_bit k (- 1)) \<longleftrightarrow> (\<forall>j < LENGTH('a). k \<le> j \<longrightarrow> bit i j = bit n j)"
  by (auto simp: bit_eq_iff bit_and_iff bit_not_iff bit_mask_iff)

lemma cidr4_iff: "cidr_contains (V4 n) len (V4 i) \<longleftrightarrow> (\<forall>k < 32. 32 - unat len \<le> k \<longrightarrow> bit i k = bit n k)"
  using masked_eq_iff[of n "32 - unat len" i] by (auto simp: Let_def)

lemma cidr6_iff: "cidr_contains (V6 n) len (V6 i) \<longleftrightarrow> (\<forall>k < 128. 128 - unat len \<le> k \<longrightarrow> bit i k = bit n k)"
  using masked_eq_iff[of n "128 - unat len" i] by (auto simp: Let_def)

lemma suffix_iff:
  "host_matches (Suffix s) (Name h) \<longleftrightarrow> (\<exists>l. l \<noteq> [] \<and> h = l @ ''.'' @ s)"
proof
  assume "host_matches (Suffix s) (Name h)"
  then obtain r where r: "h = r @ s" "length h > length s + 1" "ends_with (take (length h - length s) h) ''.''"
    by (auto simp: ends_with_iff)
  then obtain l where "r = l @ ''.''" by (auto simp: ends_with_iff)
  with r show "\<exists>l. l \<noteq> [] \<and> h = l @ ''.'' @ s" by auto
next
  assume "\<exists>l. l \<noteq> [] \<and> h = l @ ''.'' @ s"
  then obtain l where l: "l \<noteq> []" "h = l @ ''.'' @ s" by blast
  then have "take (length h - length s) h = l @ ''.''" by simp
  with l show "host_matches (Suffix s) (Name h)" by (auto simp: ends_with_iff)
qed

lemma host_matches_spec: "host_matches p h \<longleftrightarrow> pattern_spec p h"
proof (cases p)
  case (Suffix s)
  then show ?thesis using suffix_iff by (cases h) auto
next
  case (Cidr a len)
  then show ?thesis
  proof (cases h)
    case (Ip b)
    then show ?thesis using Cidr cidr4_iff cidr6_iff
      by (cases a; cases b) (simp_all del: cidr_contains.simps(1,2) add: cidr_contains.simps(3-))
  qed (cases a; simp)
qed (cases h; auto)+

section \<open>Characters of an accepted endpoint\<close>

definition host_chars :: "char set" where
  "host_chars = {c. is_ascii_alphanumeric c} \<union> {CHR ''-'', CHR ''_'', CHR ''.''}"

definition endpoint_chars :: "char set" where
  "endpoint_chars = host_chars \<union> ip_chars \<union> {CHR ''['', CHR '']'', CHR '':'', CHR ''+''}"

lemma split_once_Some: "split_once d s = Some (a, b) \<Longrightarrow> s = a @ d # b \<and> d \<notin> set a"
  by (induction s arbitrary: a) (auto split: if_splits)

lemma split_char_chars: "set s \<subseteq> insert d (\<Union> (set ` set (split_char d s)))"
proof (induction d s rule: split_char.induct)
  case (2 d c cs)
  then show ?case by (cases "split_char d cs") auto
qed simp

lemma valid_hostname_chars:
  assumes "valid_hostname h"
  shows "set h \<subseteq> host_chars"
proof
  fix c
  assume "c \<in> set h"
  then consider "c = CHR ''.''" | l where "l \<in> set (split_char CHR ''.'' h)" "c \<in> set l"
    using split_char_chars[of h "CHR ''.''"] by auto
  then show "c \<in> host_chars"
    using assms by cases (auto simp: valid_hostname_def host_chars_def list_all_iff)
qed

lemma lower_host_char: "ascii_lower_char c \<in> host_chars \<Longrightarrow> c \<in> host_chars"
  by (auto simp: ascii_lower_char_def host_chars_def is_ascii_alphanumeric_def Let_def split: if_splits)

lemma lower_host_chars: "set (to_ascii_lowercase s) \<subseteq> host_chars \<Longrightarrow> set s \<subseteq> host_chars"
  by (auto simp: to_ascii_lowercase_def intro: lower_host_char)

lemma digit_val_host_char: "digit_val c = Some d \<Longrightarrow> c \<in> host_chars"
  by (auto simp: digit_val_def host_chars_def is_ascii_alphanumeric_def Let_def split: if_splits)

lemma parse_digits_chars: "parse_digits acc s = Some n \<Longrightarrow> set s \<subseteq> host_chars"
  by (induction acc s rule: parse_digits.induct) (auto split: option.splits intro: digit_val_host_char)

lemma parse_port_chars: "parse_port p = Inr n \<Longrightarrow> set p \<subseteq> host_chars \<union> {CHR ''+''} \<and> n \<noteq> 0"
  by (cases p)
     (auto simp: parse_port_def parse_u16_def parse_uint_def Let_def
       split: option.splits if_splits dest!: parse_digits_chars digit_val_host_char)

lemma parse_host_chars: "parse_host h = Inr host \<Longrightarrow> set h \<subseteq> host_chars \<union> ip_chars"
  using parse_IpAddr_chars[of h] lower_host_chars[OF valid_hostname_chars, of h]
  by (auto simp: parse_host_def Let_def split: if_splits option.splits)

lemma split_host_port_Some:
  assumes "split_host_port s = Inr (h, Some p)"
  shows "s = h @ '':'' @ p \<or> s = ''['' @ h @ '']:'' @ p"
  using assms
  by (auto simp: split_host_port_def split: option.splits if_splits dest!: split_once_Some)

lemma parse_endpoint_Inr:
  assumes "parse_endpoint ep = Inr (host, port)"
  obtains h p where "ep = h @ '':'' @ p \<or> ep = ''['' @ h @ '']:'' @ p"
    "parse_port p = Inr port" "parse_host h = Inr host"
proof -
  from assms obtain h p where "split_host_port ep = Inr (h, Some p)" "parse_port p = Inr port" "parse_host h = Inr host"
    by (auto simp: parse_endpoint_def Let_def split: if_splits sum.splits option.splits)
  then show thesis using that[of h p] split_host_port_Some by blast
qed

lemma parse_endpoint_chars:
  assumes "parse_endpoint ep = Inr (host, port)"
  shows "set ep \<subseteq> endpoint_chars \<and> port \<noteq> 0"
proof -
  obtain h p where ep: "ep = h @ '':'' @ p \<or> ep = ''['' @ h @ '']:'' @ p"
    "parse_port p = Inr port" "parse_host h = Inr host"
    using parse_endpoint_Inr[OF assms] by blast
  show ?thesis using ep(1) parse_port_chars[OF ep(2)] parse_host_chars[OF ep(3)]
    by (auto simp: endpoint_chars_def)
qed

lemma Entry_matches_spec:
  "Entry_matches e host port \<longleftrightarrow> (en_port e = None \<or> en_port e = Some port) \<and> pattern_spec (en_host e) host"
  by (auto simp: Entry_matches_def host_matches_spec split: option.splits)

lemma endpoint_char_codes:
  assumes "c \<in> endpoint_chars"
  shows "of_char c \<in> {43, 45, 46, 58, 91, 93, 95 :: nat} \<union> {48..57} \<union> {65..90} \<union> {97..122}"
  using assms
  by (auto simp: endpoint_chars_def host_chars_def ip_chars_def is_ascii_alphanumeric_def to_digit_def Let_def
      split: if_splits)

section \<open>Properties\<close>

text \<open>
  C37: the check admits an endpoint exactly when it is well formed and, unless the list is empty, some entry
  admits its port and its host in the declarative sense: equality of names, a proper subdomain of a
  wildcard, equality of addresses up to IPv4-mapping, or agreement on the prefix bits of a CIDR block.
  A malformed endpoint is an invalid argument, any other refusal a denied permission.
\<close>

theorem check_spec:
  "check al ep =
     (case parse_endpoint ep of
        Inl msg \<Rightarrow> Inl (InvalidArgument msg)
      | Inr (host, port) \<Rightarrow>
          if al_entries al = [] \<or>
             (\<exists>e \<in> set (al_entries al). (en_port e = None \<or> en_port e = Some port) \<and> pattern_spec (en_host e) host)
          then Inr ()
          else Inl (PermissionDenied
            (''participant endpoint '' @ quoted ep @ '' is not permitted by '' @ ALLOW_ENV_VAR)))"
  by (auto simp: check_def is_allow_all_def list_ex_iff Entry_matches_spec split: sum.splits)

text \<open>
  an endpoint that passes the check cannot smuggle anything into the URI the coordinator later dials:
  it contains no slash, at sign, question mark, hash, percent sign, backslash or white space, and
  its port is not zero.
\<close>

theorem checked_endpoint_is_plain:
  assumes "check al ep = Inr ()"
  shows "set ep \<inter> {CHR ''/'', CHR ''@'', CHR ''?'', CHR ''#'', CHR ''%'', CHR 0x5C} = {} \<and>
    (\<forall>c \<in> set ep. \<not> is_whitespace c) \<and> (\<exists>host port. parse_endpoint ep = Inr (host, port) \<and> port \<noteq> 0)"
proof -
  obtain host port where p: "parse_endpoint ep = Inr (host, port)"
    using assms by (auto simp: check_def split: sum.splits)
  have plain: "c \<notin> {CHR ''/'', CHR ''@'', CHR ''?'', CHR ''#'', CHR ''%'', CHR 0x5C} \<and> \<not> is_whitespace c"
    if "c \<in> endpoint_chars" for c
    using that endpoint_char_codes[of c] by (auto simp: is_whitespace_def Let_def)
  show ?thesis using parse_endpoint_chars[OF p] p plain by blast
qed

lemmas ip_eval = parse_IpAddr_def read_ipv4_octets_def read_octets_numeral read_groups_numeral
  read_separator_def read_number_def to_digit_def read_ipv6_groups_def read_given_char_def

lemma demo_endpoint: "parse_endpoint ''djinn:9006'' = Inr (Name ''djinn'', 9006)"
proof -
  have "parse_IpAddr ''djinn'' = None" by (simp add: ip_eval)
  moreover have "to_ascii_lowercase ''djinn'' = ''djinn''" "valid_hostname ''djinn''"
    by (simp_all add: to_ascii_lowercase_def ascii_lower_char_def valid_hostname_def is_ascii_alphanumeric_def)
  ultimately have "parse_host ''djinn'' = Inr (Name ''djinn'')" by (simp add: parse_host_def)
  moreover have "parse_port ''9006'' = Inr 9006"
    by (simp add: parse_port_def parse_u16_def parse_uint_def digit_val_def)
  moreover have "split_host_port ''djinn:9006'' = Inr (''djinn'', Some ''9006'')"
    by (simp add: split_host_port_def count_char_def strip_prefix_def)
  ultimately show ?thesis by (simp add: parse_endpoint_def count_char_def)
qed

theorem checked_endpoint_is_plain_witness:
  "check allow_all ''djinn:9006'' = Inr () \<and> CHR ''/'' \<notin> set ''djinn:9006''"
proof -
  have "check allow_all ''djinn:9006'' = Inr ()"
    by (simp add: check_def demo_endpoint is_allow_all_def allow_all_def)
  with checked_endpoint_is_plain[OF this] show ?thesis by blast
qed

text \<open>
  Adding an implicit endpoint to a restricted list admits exactly the endpoints it admitted before and
  those with the same host and port as the added one; an unrestricted list stays unrestricted.
\<close>

theorem implicit_endpoint_exact:
  assumes "with_implicit_endpoint al ep0 = Inr al'"
  shows "if al_entries al = [] then al' = al
    else \<exists>host0 port0. parse_endpoint ep0 = Inr (host0, port0) \<and>
      (\<forall>ep. check al' ep = Inr () \<longleftrightarrow>
         check al ep = Inr () \<or>
         (\<exists>host. parse_endpoint ep = Inr (host, port0) \<and> pattern_spec (pattern_of host0) host))"
proof (cases "al_entries al = []")
  case True
  then show ?thesis using assms by (simp add: with_implicit_endpoint_def is_allow_all_def)
next
  case False
  then obtain host0 port0 where p: "parse_endpoint ep0 = Inr (host0, port0)"
    and al': "al' = al\<lparr>al_entries := al_entries al @ [\<lparr>en_host = pattern_of host0, en_port = Some port0\<rparr>]\<rparr>"
    using assms by (auto simp: with_implicit_endpoint_def is_allow_all_def split: sum.splits)
  have "check al' ep = Inr () \<longleftrightarrow> check al ep = Inr () \<or>
         (\<exists>host. parse_endpoint ep = Inr (host, port0) \<and> pattern_spec (pattern_of host0) host)" for ep
    using False by (auto simp: check_def al' is_allow_all_def list_ex_iff Entry_matches_spec split: sum.splits)
  then show ?thesis using False p by auto
qed

theorem implicit_endpoint_exact_witness:
  "\<exists>al'. with_implicit_endpoint \<lparr>al_entries = [\<lparr>en_host = Suffix ''internal'', en_port = None\<rparr>]\<rparr> ''djinn:9006'' = Inr al' \<and>
     check al' ''djinn:9006'' = Inr ()"
proof -
  let ?al = "\<lparr>al_entries = [\<lparr>en_host = Suffix ''internal'', en_port = None\<rparr>]\<rparr>"
  note p = demo_endpoint
  then obtain al' where w: "with_implicit_endpoint ?al ''djinn:9006'' = Inr al'"
    by (simp add: with_implicit_endpoint_def is_allow_all_def)
  from implicit_endpoint_exact[OF w] p w show ?thesis by auto
qed

end
