(* ===== verification/Matcher.thy ===== *)
theory Matcher
  imports Prelude
begin

text \<open>
  Template matching, \<^verbatim>\<open>coordin8-registry/src/matcher.rs\<close>, used by the Registry, the Space and the event
  manager.
\<close>

datatype MatchOp = Eq string | Contains string | StartsWith string | Any

fun MatchOp_matches :: "MatchOp \<Rightarrow> string \<Rightarrow> bool" where
  "MatchOp_matches (Eq expected) val = (val = expected)"
| "MatchOp_matches (Contains sub) val = str_contains val sub"
| "MatchOp_matches (StartsWith prefix) val = starts_with val prefix"
| "MatchOp_matches Any val = True"

definition parse_op :: "string \<Rightarrow> MatchOp" where
  "parse_op v =
     (if v = [] \<or> v = ''*'' then Any
      else case strip_prefix v ''contains:'' of
             Some rest \<Rightarrow> Contains rest
           | None \<Rightarrow>
               (case strip_prefix v ''starts_with:'' of
                  Some rest \<Rightarrow> StartsWith rest
                | None \<Rightarrow> Eq v))"

definition parse_template :: "attrs \<Rightarrow> (string, MatchOp) fmap" where
  "parse_template template = fmmap parse_op template"

definition matches :: "(string, MatchOp) fmap \<Rightarrow> attrs \<Rightarrow> bool" where
  "matches template attrs =
     fmpred (\<lambda>key op. case fmlookup attrs key of
               Some val \<Rightarrow> MatchOp_matches op val
             | None \<Rightarrow> op = Any) template"

section \<open>What a template means\<close>

text \<open>The meaning of one template value on an attribute that may be missing.\<close>

definition field_spec :: "string \<Rightarrow> string option \<Rightarrow> bool" where
  "field_spec v x \<longleftrightarrow>
     v = '''' \<or> v = ''*'' \<or>
     (\<exists>a. x = Some a \<and>
        ((\<exists>sub l r. v = ''contains:'' @ sub \<and> a = l @ sub @ r) \<or>
         (\<exists>p r. v = ''starts_with:'' @ p \<and> a = p @ r) \<or>
         ((\<forall>sub. v \<noteq> ''contains:'' @ sub) \<and> (\<forall>p. v \<noteq> ''starts_with:'' @ p) \<and> a = v)))"

lemma matches_iff_lookup:
  "matches t a \<longleftrightarrow>
     (\<forall>k op. fmlookup t k = Some op \<longrightarrow>
        (case fmlookup a k of Some val \<Rightarrow> MatchOp_matches op val | None \<Rightarrow> op = Any))"
  by (auto simp: matches_def fmpred_iff)

lemma parse_op_cases:
  obtains "v = '''' \<or> v = ''*''" "parse_op v = Any"
  | sub where "v = ''contains:'' @ sub" "parse_op v = Contains sub"
  | p where "v = ''starts_with:'' @ p" "parse_op v = StartsWith p"
  | "v \<noteq> ''''" "v \<noteq> ''*''" "\<forall>sub. v \<noteq> ''contains:'' @ sub" "\<forall>p. v \<noteq> ''starts_with:'' @ p" "parse_op v = Eq v"
proof -
  consider "v = '''' \<or> v = ''*''" | sub where "v = ''contains:'' @ sub"
    | p where "v = ''starts_with:'' @ p"
    | "v \<noteq> ''''" "v \<noteq> ''*''" "\<forall>sub. v \<noteq> ''contains:'' @ sub" "\<forall>p. v \<noteq> ''starts_with:'' @ p"
    by blast
  then show ?thesis
  proof cases
    case 1
    then show ?thesis using that(1) by (auto simp: parse_op_def)
  next
    case (2 sub)
    then show ?thesis using that(2) by (simp add: parse_op_def strip_prefix_def)
  next
    case (3 p)
    then show ?thesis using that(3) by (simp add: parse_op_def strip_prefix_def)
  next
    case 4
    then have "strip_prefix v ''contains:'' = None" "strip_prefix v ''starts_with:'' = None"
      unfolding strip_prefix_eq_None by blast+
    with 4 show ?thesis using that(4) by (simp add: parse_op_def)
  qed
qed

lemma parse_op_spec:
  "(case x of Some val \<Rightarrow> MatchOp_matches (parse_op v) val | None \<Rightarrow> parse_op v = Any) \<longleftrightarrow> field_spec v x"
  by (cases rule: parse_op_cases[of v])
     (auto simp: field_spec_def str_contains_iff starts_with_iff split: option.splits)

text \<open>
  matching against a parsed template means what the template language says: every template field is
  met by the attribute of that name. An empty value or a star is met by anything, even a missing attribute;
  any other value needs the attribute to be present, and asks for a substring (\<^verbatim>\<open>contains:\<close>), a prefix
  (\<^verbatim>\<open>starts_with:\<close>) or equality.
\<close>

theorem matches_spec:
  "matches (parse_template t) a \<longleftrightarrow> (\<forall>k \<in> fmdom' t. field_spec (the (fmlookup t k)) (fmlookup a k))"
proof -
  have "matches (parse_template t) a \<longleftrightarrow> (\<forall>k v. fmlookup t k = Some v \<longrightarrow> field_spec v (fmlookup a k))"
    unfolding matches_iff_lookup parse_template_def parse_op_spec[symmetric] by auto
  then show ?thesis by (metis fmlookup_dom'_iff option.sel)
qed

theorem matches_spec_witness:
  "\<not> matches (parse_template (fmupd ''k'' ''contains:b'' fmempty)) fmempty \<and>
   matches (parse_template (fmupd ''k'' ''contains:b'' fmempty)) (fmupd ''k'' ''abc'' fmempty)"
proof -
  have "field_spec ''contains:b'' (Some ''abc'')"
    unfolding field_spec_def
    by (rule disjI2, rule disjI2, rule exI[of _ "''abc''"], intro conjI refl disjI1,
        rule exI[of _ "''b''"], rule exI[of _ "''a''"], rule exI[of _ "''c''"]) simp
  moreover have "\<not> field_spec ''contains:b'' None" by (simp add: field_spec_def)
  ultimately show ?thesis by (simp add: matches_spec)
qed

lemma matches_empty [simp]: "matches (parse_template fmempty) a"
  by (simp add: matches_def parse_template_def)

end
