(* ===== verification/Registry_Store.thy ===== *)
theory Registry_Store
  imports Prelude
begin

text \<open>
  Registry entries and their store: the types and the \<^verbatim>\<open>RegistryStore\<close> trait of
  \<^verbatim>\<open>coordin8-core/src/registry.rs\<close> as a record of operations with its contract, and the in-memory store of
  \<^verbatim>\<open>providers/local/src/registry_store.rs\<close> with its secondary index, shown to keep that contract.
\<close>

section \<open>Entries and the store interface\<close>

record TransportConfig =
  transport_type :: string
  config :: attrs

record RegistryEntry =
  re_capability_id :: string
  re_lease_id :: string
  re_interface :: string
  re_attrs :: attrs
  re_transport :: "TransportConfig option"

text \<open>\<open>rg_list_all\<close> takes the keys in the order they are visited.\<close>

record 'r RegistryStore =
  rg_insert :: "RegistryEntry \<Rightarrow> 'r \<Rightarrow> unit result \<times> 'r"
  rg_update :: "RegistryEntry \<Rightarrow> 'r \<Rightarrow> RegistryEntry option result \<times> 'r"
  rg_remove_by_lease :: "string \<Rightarrow> 'r \<Rightarrow> RegistryEntry option result \<times> 'r"
  rg_get :: "string \<Rightarrow> 'r \<Rightarrow> RegistryEntry option result"
  rg_get_by_lease :: "string \<Rightarrow> 'r \<Rightarrow> RegistryEntry option result"
  rg_list_all :: "string list \<Rightarrow> 'r \<Rightarrow> RegistryEntry list result"

section \<open>The in-memory store\<close>

record InMemoryRegistryStore =
  rm_entries :: "RegistryEntry dashmap"
  rm_lease_index :: "string dashmap"

definition InMemoryRegistryStore_new :: InMemoryRegistryStore where
  "InMemoryRegistryStore_new = \<lparr>rm_entries = fmempty, rm_lease_index = fmempty\<rparr>"

definition InMemoryRegistryStore_insert :: "RegistryEntry \<Rightarrow> InMemoryRegistryStore \<Rightarrow> unit result \<times> InMemoryRegistryStore" where
  "InMemoryRegistryStore_insert entry s =
     (Inr (), s\<lparr>rm_lease_index := fmupd (re_lease_id entry) (re_capability_id entry) (rm_lease_index s),
                rm_entries := fmupd (re_capability_id entry) entry (rm_entries s)\<rparr>)"

definition InMemoryRegistryStore_update ::
  "RegistryEntry \<Rightarrow> InMemoryRegistryStore \<Rightarrow> RegistryEntry option result \<times> InMemoryRegistryStore"
where
  "InMemoryRegistryStore_update entry s =
     (if fmlookup (rm_entries s) (re_capability_id entry) \<noteq> None then
        let retained = fmfilter (\<lambda>l. fmlookup (rm_lease_index s) l \<noteq> Some (re_capability_id entry)) (rm_lease_index s)
        in (Inr (Some entry),
            s\<lparr>rm_lease_index := fmupd (re_lease_id entry) (re_capability_id entry) retained,
              rm_entries := fmupd (re_capability_id entry) entry (rm_entries s)\<rparr>)
      else (Inr None, s))"

definition InMemoryRegistryStore_remove_by_lease ::
  "string \<Rightarrow> InMemoryRegistryStore \<Rightarrow> RegistryEntry option result \<times> InMemoryRegistryStore"
where
  "InMemoryRegistryStore_remove_by_lease lease_id s =
     (case fmlookup (rm_lease_index s) lease_id of
        Some capability_id \<Rightarrow>
          (Inr (fmlookup (rm_entries s) capability_id),
           s\<lparr>rm_lease_index := fmdrop lease_id (rm_lease_index s),
             rm_entries := fmdrop capability_id (rm_entries s)\<rparr>)
      | None \<Rightarrow> (Inr None, s))"

definition InMemoryRegistryStore_get :: "string \<Rightarrow> InMemoryRegistryStore \<Rightarrow> RegistryEntry option result" where
  "InMemoryRegistryStore_get capability_id s = Inr (fmlookup (rm_entries s) capability_id)"

definition InMemoryRegistryStore_get_by_lease :: "string \<Rightarrow> InMemoryRegistryStore \<Rightarrow> RegistryEntry option result" where
  "InMemoryRegistryStore_get_by_lease lease_id s =
     (case fmlookup (rm_lease_index s) lease_id of
        Some capability_id \<Rightarrow> InMemoryRegistryStore_get capability_id s
      | None \<Rightarrow> Inr None)"

definition InMemoryRegistryStore_list_all :: "string list \<Rightarrow> InMemoryRegistryStore \<Rightarrow> RegistryEntry list result" where
  "InMemoryRegistryStore_list_all ks s = Inr (iter_values ks (rm_entries s))"

definition InMemoryRegistryStore_ops :: "InMemoryRegistryStore RegistryStore" where
  "InMemoryRegistryStore_ops = \<lparr>
     rg_insert = InMemoryRegistryStore_insert,
     rg_update = InMemoryRegistryStore_update,
     rg_remove_by_lease = InMemoryRegistryStore_remove_by_lease,
     rg_get = InMemoryRegistryStore_get,
     rg_get_by_lease = InMemoryRegistryStore_get_by_lease,
     rg_list_all = InMemoryRegistryStore_list_all \<rparr>"

text \<open>
  The invariant: an entry is stored under its own identifier, and the index maps a lease to a capability exactly
  when that capability's entry carries the lease.
\<close>

definition registry_index_ok :: "InMemoryRegistryStore \<Rightarrow> bool" where
  "registry_index_ok s \<longleftrightarrow>
     (\<forall>k e. fmlookup (rm_entries s) k = Some e \<longrightarrow> re_capability_id e = k) \<and>
     (\<forall>l k. fmlookup (rm_lease_index s) l = Some k \<longleftrightarrow>
        (\<exists>e. fmlookup (rm_entries s) k = Some e \<and> re_lease_id e = l))"

section \<open>The contract\<close>

text \<open>
  \<open>entries\<close> is the table a state holds. A lease belongs to one entry only: \<open>unowned\<close> says that no
  other entry carries the lease of the entry being written.
\<close>

locale registry_store =
  fixes R :: "'r RegistryStore"
    and entries :: "'r \<Rightarrow> string \<Rightarrow> RegistryEntry option"
    and rok :: "'r \<Rightarrow> bool"
    and rvisits :: "string list \<Rightarrow> 'r \<Rightarrow> bool"
  assumes entries_key: "rok s \<Longrightarrow> entries s k = Some e \<Longrightarrow> re_capability_id e = k"
    and lease_unique: "rok s \<Longrightarrow> entries s k = Some e \<Longrightarrow> entries s k' = Some e' \<Longrightarrow>
          re_lease_id e = re_lease_id e' \<Longrightarrow> k = k'"
    and insert_ok: "rok s \<Longrightarrow> entries s (re_capability_id e) = None \<Longrightarrow>
          \<forall>k e'. entries s k = Some e' \<longrightarrow> re_lease_id e' \<noteq> re_lease_id e \<Longrightarrow>
          rg_insert R e s = (Inr u, s') \<Longrightarrow> rok s' \<and> entries s' = (entries s)(re_capability_id e \<mapsto> e)"
    and update_ok: "rok s \<Longrightarrow>
          \<forall>k e'. entries s k = Some e' \<longrightarrow> k \<noteq> re_capability_id e \<longrightarrow> re_lease_id e' \<noteq> re_lease_id e \<Longrightarrow>
          rg_update R e s = (Inr x, s') \<Longrightarrow>
          rok s' \<and> (if entries s (re_capability_id e) = None then x = None \<and> entries s' = entries s
                    else x = Some e \<and> entries s' = (entries s)(re_capability_id e \<mapsto> e))"
    and remove_None: "rok s \<Longrightarrow> rg_remove_by_lease R l s = (Inr None, s') \<Longrightarrow>
          rok s' \<and> entries s' = entries s \<and> (\<forall>k e. entries s k = Some e \<longrightarrow> re_lease_id e \<noteq> l)"
    and remove_Some: "rok s \<Longrightarrow> rg_remove_by_lease R l s = (Inr (Some e), s') \<Longrightarrow>
          rok s' \<and> entries s (re_capability_id e) = Some e \<and> re_lease_id e = l \<and>
          entries s' = (entries s)(re_capability_id e := None)"
    and get_ok: "rok s \<Longrightarrow> rg_get R k s = Inr x \<Longrightarrow> x = entries s k"
    and get_by_lease_ok: "rok s \<Longrightarrow> rg_get_by_lease R l s = Inr x \<Longrightarrow>
          (case x of None \<Rightarrow> \<forall>k e. entries s k = Some e \<longrightarrow> re_lease_id e \<noteq> l
           | Some e \<Rightarrow> entries s (re_capability_id e) = Some e \<and> re_lease_id e = l)"
    and list_all_ok: "rok s \<Longrightarrow> rvisits ks s \<Longrightarrow> rg_list_all R ks s = Inr es \<Longrightarrow>
          e \<in> set es \<longleftrightarrow> entries s (re_capability_id e) = Some e"
    and list_all_distinct: "rok s \<Longrightarrow> rvisits ks s \<Longrightarrow> rg_list_all R ks s = Inr es \<Longrightarrow>
          distinct (map re_capability_id es)"

section \<open>The in-memory store keeps it\<close>

named_theorems mem_registry_defs \<open>operations of the in-memory registry store\<close>

declare InMemoryRegistryStore_new_def [mem_registry_defs] InMemoryRegistryStore_insert_def [mem_registry_defs]
  InMemoryRegistryStore_update_def [mem_registry_defs] InMemoryRegistryStore_remove_by_lease_def [mem_registry_defs]
  InMemoryRegistryStore_get_def [mem_registry_defs] InMemoryRegistryStore_get_by_lease_def [mem_registry_defs]
  InMemoryRegistryStore_list_all_def [mem_registry_defs] InMemoryRegistryStore_ops_def [mem_registry_defs]

lemma registry_index_ok_new: "registry_index_ok InMemoryRegistryStore_new"
  by (simp add: registry_index_ok_def mem_registry_defs)

lemma registry_key: "registry_index_ok s \<Longrightarrow> fmlookup (rm_entries s) k = Some e \<Longrightarrow> re_capability_id e = k"
  by (simp add: registry_index_ok_def)

lemma registry_index: "registry_index_ok s \<Longrightarrow>
  fmlookup (rm_lease_index s) l = Some k \<longleftrightarrow> (\<exists>e. fmlookup (rm_entries s) k = Some e \<and> re_lease_id e = l)"
  by (simp add: registry_index_ok_def)

lemma registry_index_None: "registry_index_ok s \<Longrightarrow> fmlookup (rm_lease_index s) l = None \<Longrightarrow>
  fmlookup (rm_entries s) k = Some e \<Longrightarrow> re_lease_id e \<noteq> l"
  by (metis option.distinct(1) registry_index)

lemma registry_unique: "registry_index_ok s \<Longrightarrow> fmlookup (rm_entries s) k = Some e \<Longrightarrow>
  fmlookup (rm_entries s) k' = Some e' \<Longrightarrow> re_lease_id e = re_lease_id e' \<Longrightarrow> k = k'"
  by (metis option.inject registry_index)

lemma registry_index_ok_insert:
  assumes "registry_index_ok s" "fmlookup (rm_entries s) (re_capability_id e) = None"
    "\<forall>k e'. fmlookup (rm_entries s) k = Some e' \<longrightarrow> re_lease_id e' \<noteq> re_lease_id e"
  shows "registry_index_ok (snd (InMemoryRegistryStore_insert e s))"
  using assms unfolding registry_index_ok_def by (auto simp: mem_registry_defs)

lemma registry_index_ok_update:
  assumes "registry_index_ok s"
    "\<forall>k e'. fmlookup (rm_entries s) k = Some e' \<longrightarrow> k \<noteq> re_capability_id e \<longrightarrow> re_lease_id e' \<noteq> re_lease_id e"
  shows "registry_index_ok (snd (InMemoryRegistryStore_update e s))"
  using assms registry_unique[OF assms(1)] unfolding registry_index_ok_def
  by (auto simp: mem_registry_defs Let_def)

lemma registry_index_ok_remove:
  assumes "registry_index_ok s"
  shows "registry_index_ok (snd (InMemoryRegistryStore_remove_by_lease l s))"
  using assms registry_unique[OF assms(1)] unfolding registry_index_ok_def
  by (auto simp: mem_registry_defs split: option.splits)

interpretation mem_registry: registry_store InMemoryRegistryStore_ops "\<lambda>s. fmlookup (rm_entries s)"
  registry_index_ok "\<lambda>ks s. iterates ks (rm_entries s)"
proof (unfold_locales, goal_cases)
  case (1 s k e)
  then show ?case by (rule registry_key)
next
  case (2 s k e k' e')
  then show ?case by (rule registry_unique)
next
  case (3 s e u s')
  then show ?case using registry_index_ok_insert[OF 3(1,2,3)] by (auto simp: mem_registry_defs fun_eq_iff)
next
  case (4 s e x s')
  then show ?case using registry_index_ok_update[OF 4(1,2)]
    by (auto simp: mem_registry_defs fun_eq_iff Let_def split: if_splits)
next
  case (5 s l s')
  from 5 have "fmlookup (rm_lease_index s) l = None"
    by (cases "fmlookup (rm_lease_index s) l") (auto simp: mem_registry_defs registry_index[OF 5(1)])
  with 5 show ?case using registry_index_None[OF 5(1), of l] by (auto simp: mem_registry_defs)
next
  case (6 s l e s')
  then obtain k where k: "fmlookup (rm_lease_index s) l = Some k"
    by (cases "fmlookup (rm_lease_index s) l") (auto simp: mem_registry_defs)
  then obtain e' where "fmlookup (rm_entries s) k = Some e'" "re_lease_id e' = l"
    using registry_index[OF 6(1)] by blast
  with 6 k show ?case
    using registry_index_ok_remove[OF 6(1), of l] registry_key[OF 6(1)]
    by (auto simp: mem_registry_defs fun_eq_iff)
next
  case (7 s k x)
  then show ?case by (simp add: mem_registry_defs)
next
  case (8 s l x)
  show ?case
  proof (cases "fmlookup (rm_lease_index s) l")
    case None
    with 8 show ?thesis using registry_index_None[OF 8(1)] by (auto simp: mem_registry_defs)
  next
    case (Some k)
    then obtain e where "fmlookup (rm_entries s) k = Some e" "re_lease_id e = l"
      using registry_index[OF 8(1)] by blast
    with 8 Some show ?thesis using registry_key[OF 8(1)] by (auto simp: mem_registry_defs)
  qed
next
  case (9 s ks es e)
  then show ?case using registry_key[OF 9(1)]
    by (auto simp: mem_registry_defs in_iter_values_iterates)
next
  case (10 s ks es)
  then show ?case using registry_key[OF 10(1)]
    by (auto simp: mem_registry_defs iterates_def intro!: distinct_iter_values)
qed

end
