(* ===== verification/Lease.thy ===== *)
theory Lease
  imports Prelude
begin

text \<open>
  Leases: the record, the server-side policy and the store and grantor interfaces of
  \<^verbatim>\<open>coordin8-core/src/lease.rs\<close>, the \<^verbatim>\<open>LeaseManager\<close> of
  \<^verbatim>\<open>coordin8-lease/src/manager.rs\<close> and the reaper of \<^verbatim>\<open>coordin8-lease/src/reaper.rs\<close>.

  A trait object (\<^verbatim>\<open>Arc<dyn LeaseStore>\<close>, \<^verbatim>\<open>Arc<dyn Leasing>\<close>) is a record of operations over the
  implementation's own state. The trait's documented contract is a locale over such a record: the
  locale \<open>lease_store\<close> is what a provider promises, \<open>leasing\<close> is what the embedding service may rely
  on, and the \<open>sublocale\<close> below shows that \<open>LeaseManager\<close> turns the first into the second.
  A law is conditional on the operation having returned \<^verbatim>\<open>Ok\<close>, so that a store that can fail is
  within the contract.

  Clock readings and fresh identifiers are arguments, one per call of \<^verbatim>\<open>Utc::now()\<close> and
  \<^verbatim>\<open>Uuid::new_v4()\<close> in the source. The date arithmetic of the \<^verbatim>\<open>chrono\<close> crate is a parameter.
\<close>

section \<open>Date arithmetic\<close>

text \<open>
  The part of \<^verbatim>\<open>chrono\<close> that leases use: \<^verbatim>\<open>TimeDelta::try_seconds\<close>, \<^verbatim>\<open>checked_add_signed\<close> and the
  last representable instant \<^verbatim>\<open>MAX_UTC\<close>. A delta is its number of nanoseconds.
\<close>

record chrono =
  try_seconds :: "int \<Rightarrow> int option"
  checked_add_signed :: "time \<Rightarrow> int \<Rightarrow> time option"
  MAX_UTC :: time

text \<open>
  The documented behaviour relied on: a delta of seconds exists up to \<^verbatim>\<open>i64::MAX\<close> milliseconds, and is
  exact; the sum is exact when it is returned, never later than \<^verbatim>\<open>MAX_UTC\<close>, and is returned whenever it lies
  between the epoch and \<^verbatim>\<open>MAX_UTC\<close>.
\<close>

definition chrono_ok :: "chrono \<Rightarrow> bool" where
  "chrono_ok c \<longleftrightarrow>
     (\<forall>s d. try_seconds c s = Some d \<longrightarrow> d = s * 1000000000) \<and>
     (\<forall>s. 0 \<le> s \<and> s \<le> 9223372036854775 \<longrightarrow> try_seconds c s = Some (s * 1000000000)) \<and>
     (\<forall>t d t'. checked_add_signed c t d = Some t' \<longrightarrow> t' = t + d \<and> t' \<le> MAX_UTC c) \<and>
     (\<forall>t d. 0 \<le> t \<and> 0 \<le> d \<and> t + d \<le> MAX_UTC c \<longrightarrow> checked_add_signed c t d = Some (t + d))"

text \<open>Sums bounded by the last instant of the year 262142, chrono's own bound.\<close>

definition chrono_std :: chrono where
  "chrono_std = \<lparr>
     try_seconds = (\<lambda>s. if \<bar>s\<bar> \<le> 9223372036854775 then Some (s * 1000000000) else None),
     checked_add_signed = (\<lambda>t d. if \<bar>t + d\<bar> \<le> 8210266876799999999999 then Some (t + d) else None),
     MAX_UTC = 8210266876799999999999 \<rparr>"

section \<open>Lease records and policy\<close>

definition LEASE_ANY :: u64 where "LEASE_ANY = 0"

definition LEASE_FOREVER :: u64 where "LEASE_FOREVER = 18446744073709551615"

definition MAX_REPRESENTABLE_TTL_SECS :: u64 where
  "MAX_REPRESENTABLE_TTL_SECS = 100 * 365 * 24 * 60 * 60"

definition checked_expiry :: "chrono \<Rightarrow> time \<Rightarrow> u64 \<Rightarrow> time option" where
  "checked_expiry c frm ttl_secs =
     (if uint ttl_secs > 9223372036854775807 then None
      else case try_seconds c (uint ttl_secs) of
             None \<Rightarrow> None
           | Some delta \<Rightarrow> checked_add_signed c frm delta)"

record LeaseRecord =
  lr_lease_id :: string
  lr_resource_id :: string
  lr_granted_at :: time
  lr_expires_at :: time
  lr_ttl_seconds :: u64

definition is_expired :: "time \<Rightarrow> LeaseRecord \<Rightarrow> bool" where
  "is_expired now r =
     (if lr_ttl_seconds r = LEASE_FOREVER then False else now \<ge> lr_expires_at r)"

record LeaseConfig =
  max_ttl :: "u64 option"
  preferred_ttl :: u64

text \<open>The process environment is a function from variable names to their values.\<close>

definition from_env_for :: "(string \<Rightarrow> string option) \<Rightarrow> string option \<Rightarrow> LeaseConfig" where
  "from_env_for env namespace =
     (let namespaced = (\<lambda>suffix. case namespace of
            None \<Rightarrow> None
          | Some ns \<Rightarrow> env (to_uppercase ns @ ''_'' @ suffix));
          or_global = (\<lambda>suffix. case namespaced suffix of
            Some v \<Rightarrow> Some v
          | None \<Rightarrow> env suffix)
      in \<lparr> max_ttl = (case or_global ''MAX_LEASE_TTL'' of
             Some v \<Rightarrow> if eq_ignore_ascii_case v ''forever'' then None
                       else Some (case parse_u64 v of Some n \<Rightarrow> n | None \<Rightarrow> 3600)
           | None \<Rightarrow> Some 3600),
           preferred_ttl = (case Option.bind (or_global ''PREFERRED_LEASE_TTL'') parse_u64 of
             Some n \<Rightarrow> n
           | None \<Rightarrow> 300) \<rparr>)"

definition LeaseConfig_from_env :: "(string \<Rightarrow> string option) \<Rightarrow> LeaseConfig" where
  "LeaseConfig_from_env env = from_env_for env None"

definition negotiate :: "LeaseConfig \<Rightarrow> u64 \<Rightarrow> u64" where
  "negotiate cfg requested =
     (if requested = LEASE_ANY then preferred_ttl cfg
      else if requested = LEASE_FOREVER then
        (case max_ttl cfg of None \<Rightarrow> LEASE_FOREVER | Some mx \<Rightarrow> mx)
      else (case max_ttl cfg of
              None \<Rightarrow> if requested > MAX_REPRESENTABLE_TTL_SECS then LEASE_FOREVER else requested
            | Some mx \<Rightarrow> min requested mx))"

definition LeaseConfig_default :: LeaseConfig where
  "LeaseConfig_default = \<lparr>max_ttl = Some 3600, preferred_ttl = 300\<rparr>"

datatype ReclaimReason = Expired | Cancelled

record LeaseReclaimed =
  rc_record :: LeaseRecord
  rc_reason :: ReclaimReason

section \<open>The store interface\<close>

text \<open>
  The seven methods of the \<^verbatim>\<open>LeaseStore\<close> trait. \<open>ls_create\<close> takes the clock reading and the fresh
  identifier; \<open>ls_renew\<close> the clock reading; \<open>ls_get_by_resource\<close> and \<open>ls_list_expired\<close> the keys
  in the order they are visited, the latter also the clock reading at the visit of each lease.
\<close>

record 's LeaseStore =
  ls_create :: "time \<Rightarrow> string \<Rightarrow> string \<Rightarrow> u64 \<Rightarrow> 's \<Rightarrow> LeaseRecord result \<times> 's"
  ls_renew :: "time \<Rightarrow> string \<Rightarrow> u64 \<Rightarrow> 's \<Rightarrow> LeaseRecord result \<times> 's"
  ls_cancel :: "string \<Rightarrow> 's \<Rightarrow> unit result \<times> 's"
  ls_get :: "string \<Rightarrow> 's \<Rightarrow> LeaseRecord option result"
  ls_get_by_resource :: "string list \<Rightarrow> string \<Rightarrow> 's \<Rightarrow> LeaseRecord option result"
  ls_list_expired :: "(string \<Rightarrow> time) \<Rightarrow> string list \<Rightarrow> 's \<Rightarrow> LeaseRecord list result"
  ls_remove_if_unchanged :: "LeaseRecord \<Rightarrow> 's \<Rightarrow> bool result \<times> 's"

section \<open>The manager\<close>

text \<open>
  The manager's state: the store's state, the policy, and the values sent on \<^verbatim>\<open>expiry_tx\<close> so far,
  in order.
\<close>

record 's LeaseManager =
  lm_store :: 's
  lm_config :: LeaseConfig
  lm_expiry_tx :: "LeaseReclaimed list"

definition LeaseManager_new :: "'s \<Rightarrow> LeaseConfig \<Rightarrow> LeaseReclaimed list \<Rightarrow> 's LeaseManager" where
  "LeaseManager_new store config expiry_tx =
     \<lparr>lm_store = store, lm_config = config, lm_expiry_tx = expiry_tx\<rparr>"

definition LeaseManager_get :: "'s LeaseStore \<Rightarrow> string \<Rightarrow> 's LeaseManager \<Rightarrow> LeaseRecord option result" where
  "LeaseManager_get S lease_id m = ls_get S lease_id (lm_store m)"

text \<open>
  The loop of \<^verbatim>\<open>drain_expired\<close> awaits the store once per listed record, and other tasks run at those
  points. \<open>gaps\<close> gives what they do to the store before each removal; past its end nothing happens.
\<close>

fun drain_loop ::
  "'s LeaseStore \<Rightarrow> ('s \<Rightarrow> 's) list \<Rightarrow> LeaseRecord list \<Rightarrow> LeaseRecord list \<Rightarrow> 's \<Rightarrow> LeaseRecord list result \<times> 's"
where
  "drain_loop S gaps [] removed s = (Inr removed, s)"
| "drain_loop S gaps (record # expired) removed s =
     (let s0 = (case gaps of [] \<Rightarrow> s | g # _ \<Rightarrow> g s) in
      case ls_remove_if_unchanged S record s0 of
        (Inl e, s') \<Rightarrow> (Inl e, s')
      | (Inr True, s') \<Rightarrow> drain_loop S (tl gaps) expired (removed @ [record]) s'
      | (Inr False, s') \<Rightarrow> drain_loop S (tl gaps) expired removed s')"

definition drain_expired ::
  "'s LeaseStore \<Rightarrow> ('s \<Rightarrow> 's) list \<Rightarrow> (string \<Rightarrow> time) \<Rightarrow> string list \<Rightarrow> 's LeaseManager
   \<Rightarrow> LeaseRecord list result \<times> 's LeaseManager"
where
  "drain_expired S gaps now ks m =
     (case ls_list_expired S now ks (lm_store m) of
        Inl e \<Rightarrow> (Inl e, m)
      | Inr expired \<Rightarrow>
          (case drain_loop S gaps expired [] (lm_store m) of
             (r, s') \<Rightarrow> (r, m\<lparr>lm_store := s'\<rparr>)))"

definition LeaseManager_grant ::
  "'s LeaseStore \<Rightarrow> time \<Rightarrow> string \<Rightarrow> string \<Rightarrow> u64 \<Rightarrow> 's LeaseManager \<Rightarrow> LeaseRecord result \<times> 's LeaseManager"
where
  "LeaseManager_grant S now uid resource_id ttl_secs m =
     (let granted_ttl = negotiate (lm_config m) ttl_secs in
      case ls_create S now uid resource_id granted_ttl (lm_store m) of
        (Inl e, s') \<Rightarrow> (Inl e, m\<lparr>lm_store := s'\<rparr>)
      | (Inr record, s') \<Rightarrow> (Inr record, m\<lparr>lm_store := s'\<rparr>))"

text \<open>\<open>now1\<close> is the reading in \<^verbatim>\<open>is_expired\<close>, \<open>now2\<close> the one the store takes when it renews.\<close>

definition LeaseManager_renew ::
  "'s LeaseStore \<Rightarrow> time \<Rightarrow> time \<Rightarrow> string \<Rightarrow> u64 \<Rightarrow> 's LeaseManager \<Rightarrow> LeaseRecord result \<times> 's LeaseManager"
where
  "LeaseManager_renew S now1 now2 lease_id ttl_secs m =
     (case ls_get S lease_id (lm_store m) of
        Inl e \<Rightarrow> (Inl e, m)
      | Inr None \<Rightarrow> (Inl (LeaseNotFound lease_id), m)
      | Inr (Some record) \<Rightarrow>
          if is_expired now1 record then (Inl (LeaseExpired lease_id), m)
          else
            let granted_ttl = negotiate (lm_config m) ttl_secs in
            case ls_renew S now2 lease_id granted_ttl (lm_store m) of
              (Inl e, s') \<Rightarrow> (Inl e, m\<lparr>lm_store := s'\<rparr>)
            | (Inr record', s') \<Rightarrow> (Inr record', m\<lparr>lm_store := s'\<rparr>))"

definition LeaseManager_cancel ::
  "'s LeaseStore \<Rightarrow> string \<Rightarrow> 's LeaseManager \<Rightarrow> unit result \<times> 's LeaseManager"
where
  "LeaseManager_cancel S lease_id m =
     (case ls_get S lease_id (lm_store m) of
        Inl e \<Rightarrow> (Inl e, m)
      | Inr record \<Rightarrow>
          (case ls_cancel S lease_id (lm_store m) of
             (Inl e, s') \<Rightarrow> (Inl e, m\<lparr>lm_store := s'\<rparr>)
           | (Inr _, s') \<Rightarrow>
               (case record of
                  None \<Rightarrow> (Inr (), m\<lparr>lm_store := s'\<rparr>)
                | Some r \<Rightarrow>
                    (Inr (), m\<lparr>lm_store := s',
                              lm_expiry_tx := lm_expiry_tx m @ [\<lparr>rc_record = r, rc_reason = Cancelled\<rparr>]\<rparr>))))"

section \<open>The reaper\<close>

text \<open>
  One pass of the loop of \<^verbatim>\<open>run_reaper\<close>: a failed sweep is logged and dropped. The loop itself runs
  until its task is aborted, so \<open>run_reaper\<close> is the state after a given sequence of ticks.
\<close>

definition reaper_tick ::
  "'s LeaseStore \<Rightarrow> ('s \<Rightarrow> 's) list \<Rightarrow> (string \<Rightarrow> time) \<Rightarrow> string list \<Rightarrow> 's LeaseManager \<Rightarrow> 's LeaseManager"
where
  "reaper_tick S gaps now ks m =
     (case drain_expired S gaps now ks m of
        (Inr expired, m') \<Rightarrow>
          m'\<lparr>lm_expiry_tx := lm_expiry_tx m' @ map (\<lambda>r. \<lparr>rc_record = r, rc_reason = Expired\<rparr>) expired\<rparr>
      | (Inl e, m') \<Rightarrow> m')"

fun run_reaper ::
  "'s LeaseStore \<Rightarrow> (('s \<Rightarrow> 's) list \<times> (string \<Rightarrow> time) \<times> string list) list \<Rightarrow> 's LeaseManager \<Rightarrow> 's LeaseManager"
where
  "run_reaper S [] m = m"
| "run_reaper S ((gaps, now, ks) # ticks) m = run_reaper S ticks (reaper_tick S gaps now ks m)"

section \<open>The grantor interface\<close>

text \<open>The \<^verbatim>\<open>Leasing\<close> trait, and \<^verbatim>\<open>LeaseManager\<close> as an implementation of it.\<close>

record 'l Leasing =
  lg_grant :: "time \<Rightarrow> string \<Rightarrow> string \<Rightarrow> u64 \<Rightarrow> 'l \<Rightarrow> LeaseRecord result \<times> 'l"
  lg_renew :: "time \<Rightarrow> time \<Rightarrow> string \<Rightarrow> u64 \<Rightarrow> 'l \<Rightarrow> LeaseRecord result \<times> 'l"
  lg_cancel :: "string \<Rightarrow> 'l \<Rightarrow> unit result \<times> 'l"

definition Leasing_of_LeaseManager :: "'s LeaseStore \<Rightarrow> 's LeaseManager Leasing" where
  "Leasing_of_LeaseManager S = \<lparr>
     lg_grant = LeaseManager_grant S, lg_renew = LeaseManager_renew S, lg_cancel = LeaseManager_cancel S \<rparr>"

section \<open>Contracts\<close>

named_theorems lease_defs \<open>operations of the lease manager\<close>

declare LeaseManager_get_def [lease_defs] drain_expired_def [lease_defs] LeaseManager_grant_def [lease_defs]
  LeaseManager_renew_def [lease_defs] LeaseManager_cancel_def [lease_defs] reaper_tick_def [lease_defs]
  LeaseManager_new_def [lease_defs]

text \<open>
  What a \<^verbatim>\<open>LeaseStore\<close> promises. \<open>live\<close> is the table of leases a state holds, \<open>ok\<close> the store's own
  invariant.
\<close>

locale lease_store =
  fixes S :: "'s LeaseStore"
    and live :: "'s \<Rightarrow> string \<Rightarrow> LeaseRecord option"
    and ok :: "'s \<Rightarrow> bool"
  assumes live_key: "ok s \<Longrightarrow> live s k = Some r \<Longrightarrow> lr_lease_id r = k"
    and create_ok: "ok s \<Longrightarrow> live s uid = None \<Longrightarrow> ls_create S now uid res ttl s = (Inr r, s') \<Longrightarrow>
          lr_lease_id r = uid \<and> lr_resource_id r = res \<and> lr_ttl_seconds r = ttl \<and> live s' = (live s)(uid \<mapsto> r)"
    and create_inv: "ok s \<Longrightarrow> live s uid = None \<Longrightarrow> ok (snd (ls_create S now uid res ttl s))"
    and renew_ok: "ok s \<Longrightarrow> ls_renew S now lid ttl s = (Inr r, s') \<Longrightarrow>
          \<exists>r0. live s lid = Some r0 \<and> r = r0\<lparr>lr_expires_at := lr_expires_at r, lr_ttl_seconds := ttl\<rparr> \<and>
               live s' = (live s)(lid \<mapsto> r)"
    and renew_inv: "ok s \<Longrightarrow> ok (snd (ls_renew S now lid ttl s))"
    and cancel_ok: "ok s \<Longrightarrow> ls_cancel S lid s = (Inr u, s') \<Longrightarrow> live s' = (live s)(lid := None)"
    and cancel_inv: "ok s \<Longrightarrow> ok (snd (ls_cancel S lid s))"
    and get_ok: "ok s \<Longrightarrow> ls_get S lid s = Inr x \<Longrightarrow> x = live s lid"
    and list_expired_ok: "ok s \<Longrightarrow> ls_list_expired S clk ks s = Inr rs \<Longrightarrow> r \<in> set rs \<Longrightarrow>
          live s (lr_lease_id r) = Some r \<and> is_expired (clk (lr_lease_id r)) r"
    and list_expired_distinct: "ok s \<Longrightarrow> distinct ks \<Longrightarrow> ls_list_expired S clk ks s = Inr rs \<Longrightarrow>
          distinct (map lr_lease_id rs)"
    and remove_True: "ok s \<Longrightarrow> ls_remove_if_unchanged S r s = (Inr True, s') \<Longrightarrow>
          (\<exists>cur. live s (lr_lease_id r) = Some cur \<and> lr_expires_at cur = lr_expires_at r) \<and>
          live s' = (live s)(lr_lease_id r := None)"
    and remove_False: "ok s \<Longrightarrow> ls_remove_if_unchanged S r s = (Inr False, s') \<Longrightarrow>
          (\<forall>cur. live s (lr_lease_id r) = Some cur \<longrightarrow> lr_expires_at cur \<noteq> lr_expires_at r) \<and>
          live s' = live s"
    and remove_inv: "ok s \<Longrightarrow> ok (snd (ls_remove_if_unchanged S r s))"
begin

lemma remove_cases:
  assumes "ok s" "ls_remove_if_unchanged S r s = (Inr b, s')"
  shows "ok s'"
    "b \<longleftrightarrow> (\<exists>cur. live s (lr_lease_id r) = Some cur \<and> lr_expires_at cur = lr_expires_at r)"
    "live s' = (if b then (live s)(lr_lease_id r := None) else live s)"
  using assms remove_inv[OF assms(1), of r] remove_True[OF assms(1), of r s'] remove_False[OF assms(1), of r s']
  by (cases b; auto)+

lemma drain_loop_Cons_cases:
  assumes "drain_loop S gaps (r # rs) removed s = (Inr out, s')"
  obtains b s1 where
    "ls_remove_if_unchanged S r (case gaps of [] \<Rightarrow> s | g # _ \<Rightarrow> g s) = (Inr b, s1)"
    "drain_loop S (tl gaps) rs (if b then removed @ [r] else removed) s1 = (Inr out, s')"
  using assms by (auto simp: Let_def split: prod.splits sum.splits bool.splits)

text \<open>Undisturbed, the loop removes what was listed, all of it and nothing else.\<close>

lemma drain_loop_exact:
  assumes "ok s" "distinct (map lr_lease_id expired)"
    "\<forall>r \<in> set expired. live s (lr_lease_id r) = Some r"
    "drain_loop S [] expired removed s = (Inr out, s')"
  shows "ok s' \<and> out = removed @ expired \<and>
         live s' = (\<lambda>k. if k \<in> lr_lease_id ` set expired then None else live s k)"
  using assms
proof (induction expired arbitrary: removed s)
  case Nil
  then show ?case by auto
next
  case (Cons r rs)
  from drain_loop_Cons_cases[OF Cons.prems(4)] obtain b s1 where
    rem: "ls_remove_if_unchanged S r s = (Inr b, s1)" and
    rest: "drain_loop S [] rs (if b then removed @ [r] else removed) s1 = (Inr out, s')" by auto
  note rc = remove_cases[OF Cons.prems(1) rem]
  have b: b using rc(2) Cons.prems(3) by simp
  have live1: "live s1 = (live s)(lr_lease_id r := None)" using rc(3) b by simp
  have "lr_lease_id r' \<noteq> lr_lease_id r" if "r' \<in> set rs" for r'
    using Cons.prems(2) that by (simp, metis imageI)
  then have "\<forall>r' \<in> set rs. live s1 (lr_lease_id r') = Some r'"
    using Cons.prems(3) by (simp add: live1)
  from Cons.IH[OF rc(1) _ this rest] Cons.prems(2) b
  have IH: "ok s' \<and> out = (removed @ [r]) @ rs \<and>
      live s' = (\<lambda>k. if k \<in> lr_lease_id ` set rs then None else live s1 k)" by simp
  then show ?case using live1 by (auto simp: fun_eq_iff)
qed

text \<open>
  Disturbed by other tasks, the loop never removes a lease whose expiry differs from the listed one.
\<close>

lemma drain_loop_survives:
  assumes "ok s" "live s lid = Some cur"
    "\<forall>r \<in> set expired. lr_lease_id r = lid \<longrightarrow> lr_expires_at r \<noteq> lr_expires_at cur"
    "\<forall>g \<in> set gaps. \<forall>s. ok s \<longrightarrow> ok (g s) \<and> (live s lid = Some cur \<longrightarrow> live (g s) lid = Some cur)"
    "drain_loop S gaps expired removed s = (Inr out, s')"
  shows "ok s' \<and> live s' lid = Some cur \<and> (\<forall>r \<in> set out. r \<in> set removed \<or> lr_lease_id r \<noteq> lid)"
  using assms
proof (induction expired arbitrary: gaps removed s)
  case Nil
  then show ?case by auto
next
  case (Cons r rs)
  define s0 where "s0 = (case gaps of [] \<Rightarrow> s | g # _ \<Rightarrow> g s)"
  have s0: "ok s0" "live s0 lid = Some cur"
    using Cons.prems(1,2,4) by (auto simp: s0_def split: list.splits)
  from drain_loop_Cons_cases[OF Cons.prems(5)] obtain b s1 where
    rem: "ls_remove_if_unchanged S r s0 = (Inr b, s1)" and
    rest: "drain_loop S (tl gaps) rs (if b then removed @ [r] else removed) s1 = (Inr out, s')"
    by (auto simp: s0_def)
  note rc = remove_cases[OF s0(1) rem]
  have nb: "lr_lease_id r = lid \<Longrightarrow> \<not> b" using rc(2) s0(2) Cons.prems(3) by auto
  then have live1: "live s1 lid = Some cur" using rc(3) s0(2) by auto
  have gaps: "\<forall>g \<in> set (tl gaps). \<forall>s. ok s \<longrightarrow> ok (g s) \<and> (live s lid = Some cur \<longrightarrow> live (g s) lid = Some cur)"
    using Cons.prems(4) by (cases gaps) auto
  from Cons.IH[OF rc(1) live1 _ gaps rest] Cons.prems(3)
  have "ok s' \<and> live s' lid = Some cur \<and>
        (\<forall>x \<in> set out. x \<in> set (if b then removed @ [r] else removed) \<or> lr_lease_id x \<noteq> lid)" by simp
  then show ?case using nb by (auto split: if_splits)
qed

text \<open>The manager over any such store: what a successful call leaves behind.\<close>

lemma mgr_grant_ok:
  assumes "ok (lm_store m)" "live (lm_store m) uid = None"
    "LeaseManager_grant S now uid res ttl m = (Inr r, m')"
  shows "lr_lease_id r = uid \<and> lr_resource_id r = res \<and> lr_ttl_seconds r = negotiate (lm_config m) ttl \<and>
    live (lm_store m') = (live (lm_store m))(uid \<mapsto> r) \<and>
    lm_config m' = lm_config m \<and> lm_expiry_tx m' = lm_expiry_tx m"
  using assms(3) create_ok[OF assms(1,2)]
  by (auto simp: lease_defs Let_def split: prod.splits sum.splits)

lemma mgr_grant_inv:
  assumes "ok (lm_store m)" "live (lm_store m) uid = None"
  shows "ok (lm_store (snd (LeaseManager_grant S now uid res ttl m)))"
  using create_inv[OF assms]
  by (auto simp: lease_defs Let_def split: prod.splits sum.splits) (metis snd_conv)+

lemma mgr_renew_ok:
  assumes "ok (lm_store m)" "LeaseManager_renew S now1 now2 lid ttl m = (Inr r, m')"
  shows "\<exists>r0. live (lm_store m) lid = Some r0 \<and> \<not> is_expired now1 r0 \<and>
    r = r0\<lparr>lr_expires_at := lr_expires_at r, lr_ttl_seconds := negotiate (lm_config m) ttl\<rparr> \<and>
    live (lm_store m') = (live (lm_store m))(lid \<mapsto> r) \<and>
    lm_config m' = lm_config m \<and> lm_expiry_tx m' = lm_expiry_tx m"
  using assms(2) renew_ok[OF assms(1)] get_ok[OF assms(1)]
  by (fastforce simp: lease_defs Let_def split: prod.splits sum.splits option.splits if_splits)

lemma mgr_renew_inv:
  assumes "ok (lm_store m)"
  shows "ok (lm_store (snd (LeaseManager_renew S now1 now2 lid ttl m)))"
  using renew_inv[OF assms, of now2 lid "negotiate (lm_config m) ttl"] assms
  by (auto simp: lease_defs Let_def split: prod.splits sum.splits option.splits)

lemma mgr_cancel_ok:
  assumes "ok (lm_store m)" "LeaseManager_cancel S lid m = (Inr u, m')"
  shows "live (lm_store m') = (live (lm_store m))(lid := None) \<and> lm_config m' = lm_config m \<and>
    lm_expiry_tx m' = lm_expiry_tx m @
      (case live (lm_store m) lid of None \<Rightarrow> [] | Some r \<Rightarrow> [\<lparr>rc_record = r, rc_reason = Cancelled\<rparr>])"
  using assms(2) cancel_ok[OF assms(1)] get_ok[OF assms(1)]
  by (fastforce simp: lease_defs split: prod.splits sum.splits option.splits)

lemma mgr_cancel_inv:
  assumes "ok (lm_store m)"
  shows "ok (lm_store (snd (LeaseManager_cancel S lid m)))"
  using cancel_inv[OF assms, of lid] assms
  by (auto simp: lease_defs split: prod.splits sum.splits option.splits)

lemma drain_expired_exact:
  assumes "ok (lm_store m)" "distinct ks" "drain_expired S [] clk ks m = (Inr out, m')"
  shows "ok (lm_store m') \<and> ls_list_expired S clk ks (lm_store m) = Inr out \<and>
    live (lm_store m') = (\<lambda>k. if k \<in> lr_lease_id ` set out then None else live (lm_store m) k) \<and>
    lm_config m' = lm_config m \<and> lm_expiry_tx m' = lm_expiry_tx m"
proof -
  from assms(3) obtain expired s' where
    l: "ls_list_expired S clk ks (lm_store m) = Inr expired" and
    d: "drain_loop S [] expired [] (lm_store m) = (Inr out, s')" and m': "m' = m\<lparr>lm_store := s'\<rparr>"
    by (auto simp: lease_defs split: sum.splits prod.splits)
  have "\<forall>r \<in> set expired. live (lm_store m) (lr_lease_id r) = Some r"
    using list_expired_ok[OF assms(1) l] by blast
  from drain_loop_exact[OF assms(1) list_expired_distinct[OF assms(1,2) l] this d] l m'
  show ?thesis by auto
qed

text \<open>
  A lease that does not expire at any reading, or whose expiry was moved while the sweep was under way, is
  neither removed nor broadcast.
\<close>

lemma drain_expired_survives:
  assumes "ok (lm_store m)"
    "drain_expired S gaps clk ks m = (Inr out, m')" "gaps = g # gs"
    "ok (g (lm_store m))" "live (g (lm_store m)) lid = Some cur"
    "live (lm_store m) lid = Some old" "is_expired (clk lid) old \<longrightarrow> lr_expires_at old \<noteq> lr_expires_at cur"
    "\<forall>g \<in> set gs. \<forall>s. ok s \<longrightarrow> ok (g s) \<and> (live s lid = Some cur \<longrightarrow> live (g s) lid = Some cur)"
    "ls_list_expired S clk ks (lm_store m) = Inr (r # rs)"
  shows "ok (lm_store m') \<and> live (lm_store m') lid = Some cur \<and> lid \<notin> lr_lease_id ` set out"
proof -
  from assms(2,9) obtain s' where
    d: "drain_loop S gaps (r # rs) [] (lm_store m) = (Inr out, s')" and m': "m' = m\<lparr>lm_store := s'\<rparr>"
    by (auto simp: lease_defs simp del: drain_loop.simps split: sum.splits prod.splits)
  have ne: "\<forall>x \<in> set (r # rs). lr_lease_id x = lid \<longrightarrow> lr_expires_at x \<noteq> lr_expires_at cur"
    using list_expired_ok[OF assms(1,9)] assms(6,7) by fastforce
  have "drain_loop S ((\<lambda>s. s) # gs) (r # rs) [] (g (lm_store m)) = (Inr out, s')"
    using d by (auto simp: assms(3) Let_def split: prod.splits sum.splits bool.splits)
  from drain_loop_survives[OF assms(4,5) ne _ this] assms(8)
  show ?thesis using m' by auto
qed

end

text \<open>
  A store whose reads, cancellations and removals never fail and whose scan is complete. \<open>visits ks s\<close>
  says that \<open>ks\<close> is a possible order of the scan.
\<close>

locale total_lease_store = lease_store +
  fixes visits :: "string list \<Rightarrow> 's \<Rightarrow> bool"
  assumes get_total: "\<exists>x. ls_get S lid s = Inr x"
    and cancel_total: "\<exists>s'. ls_cancel S lid s = (Inr (), s')"
    and list_total: "\<exists>rs. ls_list_expired S clk ks s = Inr rs"
    and list_complete: "ok s \<Longrightarrow> visits ks s \<Longrightarrow> ls_list_expired S clk ks s = Inr rs \<Longrightarrow>
          live s k = Some r \<Longrightarrow> is_expired (clk k) r \<Longrightarrow> r \<in> set rs"
    and visits_distinct: "visits ks s \<Longrightarrow> distinct ks"
    and remove_total: "\<exists>b s'. ls_remove_if_unchanged S r s = (Inr b, s')"
begin

lemma drain_loop_total: "\<exists>out s'. drain_loop S gaps expired removed s = (Inr out, s')"
proof (induction expired arbitrary: gaps removed s)
  case (Cons r rs)
  obtain b s1 where "ls_remove_if_unchanged S r (case gaps of [] \<Rightarrow> s | g # _ \<Rightarrow> g s) = (Inr b, s1)"
    using remove_total by blast
  then show ?case using Cons by (cases b) (auto simp: Let_def)
qed simp

lemma drain_expired_total: "\<exists>out m'. drain_expired S gaps clk ks m = (Inr out, m')"
proof -
  obtain rs where "ls_list_expired S clk ks (lm_store m) = Inr rs" using list_total by blast
  with drain_loop_total[of gaps rs "[]" "lm_store m"] show ?thesis by (auto simp: lease_defs)
qed

text \<open>One undisturbed sweep removes and reports exactly the leases that are past their expiry.\<close>

lemma drain_expired_complete:
  assumes "ok (lm_store m)" "visits ks (lm_store m)" "drain_expired S [] clk ks m = (Inr out, m')"
  shows "ok (lm_store m')"
    "distinct (map lr_lease_id out)"
    "r \<in> set out \<longleftrightarrow> (\<exists>k. live (lm_store m) k = Some r \<and> is_expired (clk k) r)"
    "live (lm_store m') k =
       (case live (lm_store m) k of None \<Rightarrow> None | Some x \<Rightarrow> if is_expired (clk k) x then None else Some x)"
proof -
  note ex = drain_expired_exact[OF assms(1) visits_distinct[OF assms(2)] assms(3)]
  have l: "ls_list_expired S clk ks (lm_store m) = Inr out" using ex by blast
  show "ok (lm_store m')" using ex by blast
  show "distinct (map lr_lease_id out)"
    using list_expired_distinct[OF assms(1) visits_distinct[OF assms(2)] l] .
  have mem: "x \<in> set out \<longleftrightarrow> (\<exists>k. live (lm_store m) k = Some x \<and> is_expired (clk k) x)" for x
    using list_expired_ok[OF assms(1) l] list_complete[OF assms(1,2) l] by blast
  then show "r \<in> set out \<longleftrightarrow> (\<exists>k. live (lm_store m) k = Some r \<and> is_expired (clk k) r)" .
  have "k \<in> lr_lease_id ` set out \<longleftrightarrow> (\<exists>x. live (lm_store m) k = Some x \<and> is_expired (clk k) x)"
    using mem live_key[OF assms(1)] by (auto simp: image_iff)
  then show "live (lm_store m') k =
       (case live (lm_store m) k of None \<Rightarrow> None | Some x \<Rightarrow> if is_expired (clk k) x then None else Some x)"
    using ex by (auto split: option.splits)
qed

text \<open>
  A lease that is not expired at any reading of the clock outlives any number of sweeps, whatever the other
  tasks do in between, as long as they leave it alone.
\<close>

lemma run_reaper_keeps:
  assumes "ok (lm_store m)" "live (lm_store m) lid = Some cur"
    "\<forall>(gaps, clk, ks) \<in> set ticks. \<not> is_expired (clk lid) cur \<and>
       (\<forall>g \<in> set gaps. \<forall>s. ok s \<longrightarrow> ok (g s) \<and> (live s lid = Some cur \<longrightarrow> live (g s) lid = Some cur))"
  shows "ok (lm_store (run_reaper S ticks m)) \<and> live (lm_store (run_reaper S ticks m)) lid = Some cur \<and>
    (\<exists>sent. lm_expiry_tx (run_reaper S ticks m) = lm_expiry_tx m @ sent \<and>
            (\<forall>e \<in> set sent. lr_lease_id (rc_record e) \<noteq> lid))"
  using assms
proof (induction ticks arbitrary: m)
  case (Cons t ticks)
  obtain gaps clk ks where t: "t = (gaps, clk, ks)" by (cases t)
  obtain expired where l: "ls_list_expired S clk ks (lm_store m) = Inr expired" using list_total by blast
  obtain out s' where d: "drain_loop S gaps expired [] (lm_store m) = (Inr out, s')"
    using drain_loop_total by blast
  have "\<forall>r \<in> set expired. lr_lease_id r = lid \<longrightarrow> lr_expires_at r \<noteq> lr_expires_at cur"
    using list_expired_ok[OF Cons.prems(1) l] Cons.prems(2,3) t by fastforce
  from drain_loop_survives[OF Cons.prems(1,2) this _ d] Cons.prems(3) t
  have s': "ok s'" "live s' lid = Some cur" "\<forall>r \<in> set out. lr_lease_id r \<noteq> lid" by auto
  define m1 where "m1 = reaper_tick S gaps clk ks m"
  have m1: "lm_store m1 = s'"
    "lm_expiry_tx m1 = lm_expiry_tx m @ map (\<lambda>r. \<lparr>rc_record = r, rc_reason = Expired\<rparr>) out"
    by (simp_all add: m1_def lease_defs l d)
  have "ok (lm_store (run_reaper S ticks m1)) \<and> live (lm_store (run_reaper S ticks m1)) lid = Some cur \<and>
    (\<exists>sent. lm_expiry_tx (run_reaper S ticks m1) = lm_expiry_tx m1 @ sent \<and>
            (\<forall>e \<in> set sent. lr_lease_id (rc_record e) \<noteq> lid))"
    by (rule Cons.IH) (use Cons.prems(3) s' m1(1) in auto)
  then show ?case using s'(3) by (fastforce simp: t m1 simp flip: m1_def)
qed simp

end

text \<open>
  What the services that embed a grantor may rely on: \<open>live\<close> is the table of leases.
\<close>

locale leasing =
  fixes L :: "'l Leasing"
    and live :: "'l \<Rightarrow> string \<Rightarrow> LeaseRecord option"
    and ok :: "'l \<Rightarrow> bool"
  assumes grant_ok: "ok l \<Longrightarrow> live l uid = None \<Longrightarrow> lg_grant L now uid res ttl l = (Inr r, l') \<Longrightarrow>
          lr_lease_id r = uid \<and> lr_resource_id r = res \<and> live l' = (live l)(uid \<mapsto> r)"
    and grant_inv: "ok l \<Longrightarrow> live l uid = None \<Longrightarrow> ok (snd (lg_grant L now uid res ttl l))"
    and renew_ok: "ok l \<Longrightarrow> lg_renew L now1 now2 lid ttl l = (Inr r, l') \<Longrightarrow>
          \<exists>r0. live l lid = Some r0 \<and> \<not> is_expired now1 r0 \<and> lr_lease_id r = lid \<and>
               lr_resource_id r = lr_resource_id r0 \<and> live l' = (live l)(lid \<mapsto> r)"
    and renew_inv: "ok l \<Longrightarrow> ok (snd (lg_renew L now1 now2 lid ttl l))"
    and cancel_ok: "ok l \<Longrightarrow> lg_cancel L lid l = (Inr u, l') \<Longrightarrow> live l' = (live l)(lid := None)"
    and cancel_inv: "ok l \<Longrightarrow> ok (snd (lg_cancel L lid l))"

text \<open>The manager over a store that keeps its contract keeps the grantor's.\<close>

sublocale lease_store \<subseteq> mgr: leasing "Leasing_of_LeaseManager S" "\<lambda>m. live (lm_store m)" "\<lambda>m. ok (lm_store m)"
proof (unfold_locales, goal_cases)
  case (1 l uid now res ttl r l')
  then show ?case using mgr_grant_ok[OF 1(1,2)] by (simp add: Leasing_of_LeaseManager_def)
next
  case (2 l uid now res ttl)
  then show ?case using mgr_grant_inv by (simp add: Leasing_of_LeaseManager_def)
next
  case (3 l now1 now2 lid ttl r l')
  from mgr_renew_ok[of l now1 now2 lid ttl r l'] 3 obtain r0 where
    r0: "live (lm_store l) lid = Some r0" "\<not> is_expired now1 r0"
    "r = r0\<lparr>lr_expires_at := lr_expires_at r, lr_ttl_seconds := negotiate (lm_config l) ttl\<rparr>"
    "live (lm_store l') = (live (lm_store l))(lid \<mapsto> r)"
    by (auto simp: Leasing_of_LeaseManager_def)
  have "lr_lease_id r = lr_lease_id r0" "lr_resource_id r = lr_resource_id r0"
    by (subst r0(3), simp)+
  then show ?case using r0 live_key[OF 3(1) r0(1)] by auto
next
  case (4 l now1 now2 lid ttl)
  then show ?case using mgr_renew_inv by (simp add: Leasing_of_LeaseManager_def)
next
  case (5 l lid u l')
  then show ?case using mgr_cancel_ok by (simp add: Leasing_of_LeaseManager_def)
next
  case (6 l lid)
  then show ?case using mgr_cancel_inv by (simp add: Leasing_of_LeaseManager_def)
qed

end
