(* ===== verification/Local_Lease.thy ===== *)
theory Local_Lease
  imports Lease
begin

text \<open>
  The in-memory lease store of \<^verbatim>\<open>providers/local/src/lease_store.rs\<close>, its interpretation of the
  \<^verbatim>\<open>LeaseStore\<close> contract, and the properties of the lease manager and the reaper over it.
\<close>

section \<open>The store\<close>

definition expiry_for :: "chrono \<Rightarrow> time \<Rightarrow> u64 \<Rightarrow> time result" where
  "expiry_for c frm ttl_secs =
     (if ttl_secs = LEASE_FOREVER then Inr (MAX_UTC c)
      else case checked_expiry c frm ttl_secs of
             Some t \<Rightarrow> Inr t
           | None \<Rightarrow> Inl (Storage (''lease ttl out of range: '' @ show_u64 ttl_secs @ ''s'')))"

record InMemoryLeaseStore =
  leases :: "LeaseRecord dashmap"

definition InMemoryLeaseStore_new :: InMemoryLeaseStore where
  "InMemoryLeaseStore_new = \<lparr>leases = fmempty\<rparr>"

definition InMemoryLeaseStore_create ::
  "chrono \<Rightarrow> time \<Rightarrow> string \<Rightarrow> string \<Rightarrow> u64 \<Rightarrow> InMemoryLeaseStore \<Rightarrow> LeaseRecord result \<times> InMemoryLeaseStore"
where
  "InMemoryLeaseStore_create c now uid resource_id ttl_secs s =
     (case expiry_for c now ttl_secs of
        Inl e \<Rightarrow> (Inl e, s)
      | Inr expires_at \<Rightarrow>
          let record = \<lparr>lr_lease_id = uid, lr_resource_id = resource_id, lr_granted_at = now,
                        lr_expires_at = expires_at, lr_ttl_seconds = ttl_secs\<rparr>
          in (Inr record, s\<lparr>leases := fmupd (lr_lease_id record) record (leases s)\<rparr>))"

definition InMemoryLeaseStore_renew ::
  "chrono \<Rightarrow> time \<Rightarrow> string \<Rightarrow> u64 \<Rightarrow> InMemoryLeaseStore \<Rightarrow> LeaseRecord result \<times> InMemoryLeaseStore"
where
  "InMemoryLeaseStore_renew c now lease_id ttl_secs s =
     (case expiry_for c now ttl_secs of
        Inl e \<Rightarrow> (Inl e, s)
      | Inr new_expiry \<Rightarrow>
          (case fmlookup (leases s) lease_id of
             None \<Rightarrow> (Inl (LeaseNotFound lease_id), s)
           | Some entry \<Rightarrow>
               let entry' = entry\<lparr>lr_expires_at := new_expiry, lr_ttl_seconds := ttl_secs\<rparr>
               in (Inr entry', s\<lparr>leases := fmupd lease_id entry' (leases s)\<rparr>)))"

definition InMemoryLeaseStore_cancel :: "string \<Rightarrow> InMemoryLeaseStore \<Rightarrow> unit result \<times> InMemoryLeaseStore" where
  "InMemoryLeaseStore_cancel lease_id s = (Inr (), s\<lparr>leases := fmdrop lease_id (leases s)\<rparr>)"

definition InMemoryLeaseStore_get :: "string \<Rightarrow> InMemoryLeaseStore \<Rightarrow> LeaseRecord option result" where
  "InMemoryLeaseStore_get lease_id s = Inr (fmlookup (leases s) lease_id)"

definition InMemoryLeaseStore_get_by_resource ::
  "string list \<Rightarrow> string \<Rightarrow> InMemoryLeaseStore \<Rightarrow> LeaseRecord option result"
where
  "InMemoryLeaseStore_get_by_resource ks resource_id s =
     Inr (List.find (\<lambda>r. lr_resource_id r = resource_id) (iter_values ks (leases s)))"

definition InMemoryLeaseStore_list_expired ::
  "(string \<Rightarrow> time) \<Rightarrow> string list \<Rightarrow> InMemoryLeaseStore \<Rightarrow> LeaseRecord list result"
where
  "InMemoryLeaseStore_list_expired clk ks s =
     Inr (map snd (filter (\<lambda>(k, r). is_expired (clk k) r) (iter_entries ks (leases s))))"

definition InMemoryLeaseStore_remove_if_unchanged ::
  "LeaseRecord \<Rightarrow> InMemoryLeaseStore \<Rightarrow> bool result \<times> InMemoryLeaseStore"
where
  "InMemoryLeaseStore_remove_if_unchanged record s =
     (case fmlookup (leases s) (lr_lease_id record) of
        Some cur \<Rightarrow>
          if lr_expires_at cur = lr_expires_at record
          then (Inr True, s\<lparr>leases := fmdrop (lr_lease_id record) (leases s)\<rparr>)
          else (Inr False, s)
      | None \<Rightarrow> (Inr False, s))"

definition InMemoryLeaseStore_ops :: "chrono \<Rightarrow> InMemoryLeaseStore LeaseStore" where
  "InMemoryLeaseStore_ops c = \<lparr>
     ls_create = InMemoryLeaseStore_create c,
     ls_renew = InMemoryLeaseStore_renew c,
     ls_cancel = InMemoryLeaseStore_cancel,
     ls_get = InMemoryLeaseStore_get,
     ls_get_by_resource = InMemoryLeaseStore_get_by_resource,
     ls_list_expired = InMemoryLeaseStore_list_expired,
     ls_remove_if_unchanged = InMemoryLeaseStore_remove_if_unchanged \<rparr>"

text \<open>The store's invariant: a record is stored under its own identifier.\<close>

definition lease_keys_ok :: "InMemoryLeaseStore \<Rightarrow> bool" where
  "lease_keys_ok s \<longleftrightarrow> fmpred (\<lambda>k r. lr_lease_id r = k) (leases s)"

text \<open>Small states for concrete runs: an empty manager, and the same after one grant of a minute.\<close>

definition demo_mgr :: "InMemoryLeaseStore LeaseManager" where
  "demo_mgr = LeaseManager_new InMemoryLeaseStore_new LeaseConfig_default []"

definition demo_lease :: LeaseRecord where
  "demo_lease = \<lparr>lr_lease_id = ''l1'', lr_resource_id = ''res'', lr_granted_at = 1000,
     lr_expires_at = 60000001000, lr_ttl_seconds = 60\<rparr>"

definition demo_mgr1 :: "InMemoryLeaseStore LeaseManager" where
  "demo_mgr1 = LeaseManager_new \<lparr>leases = fmupd ''l1'' demo_lease fmempty\<rparr> LeaseConfig_default []"

section \<open>The contract holds\<close>

named_theorems mem_lease_defs \<open>operations of the in-memory lease store\<close>

declare InMemoryLeaseStore_create_def [mem_lease_defs] InMemoryLeaseStore_renew_def [mem_lease_defs]
  InMemoryLeaseStore_cancel_def [mem_lease_defs] InMemoryLeaseStore_get_def [mem_lease_defs]
  InMemoryLeaseStore_get_by_resource_def [mem_lease_defs]
  InMemoryLeaseStore_remove_if_unchanged_def [mem_lease_defs] InMemoryLeaseStore_ops_def [mem_lease_defs]
  InMemoryLeaseStore_new_def [mem_lease_defs]

lemma lease_keys_okD: "lease_keys_ok s \<Longrightarrow> fmlookup (leases s) k = Some r \<Longrightarrow> lr_lease_id r = k"
  by (auto simp: lease_keys_ok_def)

lemma lease_keys_ok_upd: "lease_keys_ok s \<Longrightarrow> lr_lease_id r = k \<Longrightarrow> lease_keys_ok (s\<lparr>leases := fmupd k r (leases s)\<rparr>)"
  by (auto simp: lease_keys_ok_def)

lemma lease_keys_ok_drop: "lease_keys_ok s \<Longrightarrow> lease_keys_ok (s\<lparr>leases := fmdrop k (leases s)\<rparr>)"
  by (auto simp: lease_keys_ok_def)

lemma mem_list_expired_iff:
  assumes "InMemoryLeaseStore_list_expired clk ks s = Inr rs"
  shows "r \<in> set rs \<longleftrightarrow> (\<exists>k \<in> set ks. fmlookup (leases s) k = Some r \<and> is_expired (clk k) r)"
proof -
  have rs: "rs = map snd (filter (\<lambda>(k, r). is_expired (clk k) r) (iter_entries ks (leases s)))"
    using assms by (simp add: InMemoryLeaseStore_list_expired_def)
  show ?thesis unfolding rs by (force simp: iter_simps)
qed

lemma mem_list_expired_distinct:
  assumes "lease_keys_ok s" "distinct ks" "InMemoryLeaseStore_list_expired clk ks s = Inr rs"
  shows "distinct (map lr_lease_id rs)"
proof -
  have rs: "rs = map snd (filter (\<lambda>(k, r). is_expired (clk k) r) (iter_entries ks (leases s)))"
    using assms(3) by (simp add: InMemoryLeaseStore_list_expired_def)
  have "map lr_lease_id rs = map fst (filter (\<lambda>(k, r). is_expired (clk k) r) (iter_entries ks (leases s)))"
    unfolding rs by (auto simp: iter_simps dest: lease_keys_okD[OF assms(1)])
  then show ?thesis using assms(2) by (simp add: distinct_map_filter iter_simps)
qed

interpretation mem_lease: total_lease_store "InMemoryLeaseStore_ops c" "\<lambda>s. fmlookup (leases s)" lease_keys_ok
  "\<lambda>ks s. iterates ks (leases s)" for c
proof (unfold_locales, goal_cases)
  case (5 s now lid ttl)
  then show ?case
    by (auto simp: mem_lease_defs Let_def intro!: lease_keys_ok_upd dest: lease_keys_okD
             split: sum.splits option.splits)
next
  case (9 s clk ks rs r)
  then show ?case
    using mem_list_expired_iff[of clk ks s rs r] by (auto simp: InMemoryLeaseStore_ops_def dest: lease_keys_okD)
next
  case (10 s ks clk rs)
  then show ?case using mem_list_expired_distinct by (auto simp: InMemoryLeaseStore_ops_def)
next
  case (17 s ks clk rs k r)
  then show ?case
    using mem_list_expired_iff[of clk ks s rs r] by (auto simp: InMemoryLeaseStore_ops_def dest: iterates_mem)
qed (auto simp: mem_lease_defs fun_eq_iff Let_def iterates_def InMemoryLeaseStore_list_expired_def
       intro: lease_keys_ok_upd lease_keys_ok_drop dest: lease_keys_okD
       split: sum.splits option.splits if_splits)

section \<open>Expiry arithmetic\<close>

lemma chrono_std_ok: "chrono_ok chrono_std"
  by (auto simp: chrono_ok_def chrono_std_def split: if_splits)

lemma chrono_try_seconds:
  "chrono_ok c \<Longrightarrow> 0 \<le> s \<Longrightarrow> s \<le> 9223372036854775 \<Longrightarrow> try_seconds c s = Some (s * 1000000000)"
  unfolding chrono_ok_def by blast

lemma chrono_add:
  "chrono_ok c \<Longrightarrow> 0 \<le> t \<Longrightarrow> 0 \<le> d \<Longrightarrow> t + d \<le> MAX_UTC c \<Longrightarrow> checked_add_signed c t d = Some (t + d)"
  unfolding chrono_ok_def by blast

lemma chrono_delta: "chrono_ok c \<Longrightarrow> try_seconds c s = Some d \<Longrightarrow> d = s * 1000000000"
  unfolding chrono_ok_def by blast

lemma chrono_sum: "chrono_ok c \<Longrightarrow> checked_add_signed c t d = Some t' \<Longrightarrow> t' = t + d \<and> t' \<le> MAX_UTC c"
  unfolding chrono_ok_def by blast

lemma checked_expiry_Some:
  assumes "chrono_ok c" "checked_expiry c now ttl = Some t"
  shows "t = now + uint ttl * 1000000000 \<and> t \<le> MAX_UTC c"
  using assms(2) chrono_delta[OF assms(1)] chrono_sum[OF assms(1)]
  by (auto simp: checked_expiry_def split: if_splits option.splits)

lemma expiry_for_Inr:
  assumes "chrono_ok c" "expiry_for c now ttl = Inr t"
  shows "t = (if ttl = LEASE_FOREVER then MAX_UTC c else now + uint ttl * 1000000000) \<and> t \<le> MAX_UTC c"
  using assms checked_expiry_Some[OF assms(1), of now ttl]
  by (auto simp: expiry_for_def split: if_splits option.splits)

lemma uint_MAX_REPRESENTABLE: "ttl \<le> MAX_REPRESENTABLE_TTL_SECS \<Longrightarrow> uint ttl \<le> 3153600000"
  by (simp add: MAX_REPRESENTABLE_TTL_SECS_def word_le_def)

lemma checked_expiry_representable:
  assumes "chrono_ok c" "ttl \<le> MAX_REPRESENTABLE_TTL_SECS" "0 \<le> now" "now + 3153600000000000000 \<le> MAX_UTC c"
  shows "checked_expiry c now ttl = Some (now + uint ttl * 1000000000)"
proof -
  have u: "uint ttl \<le> 3153600000" "0 \<le> uint ttl" using uint_MAX_REPRESENTABLE[OF assms(2)] by auto
  have "try_seconds c (uint ttl) = Some (uint ttl * 1000000000)"
    using u by (intro chrono_try_seconds assms(1)) auto
  moreover have "checked_add_signed c now (uint ttl * 1000000000) = Some (now + uint ttl * 1000000000)"
    using assms(3,4) u by (intro chrono_add assms(1)) auto
  ultimately show ?thesis using u by (simp add: checked_expiry_def)
qed

lemma negotiate_uncapped:
  assumes "max_ttl cfg = None" "requested \<noteq> LEASE_ANY"
  shows "negotiate cfg requested = LEASE_FOREVER \<or> negotiate cfg requested \<le> MAX_REPRESENTABLE_TTL_SECS"
  using assms by (auto simp: negotiate_def)

lemma LEASE_FOREVER_minus: "LEASE_FOREVER = - 1"
  by (simp add: LEASE_FOREVER_def)

lemma negotiate_capped:
  assumes "max_ttl cfg = Some mx" "requested \<noteq> LEASE_ANY"
  shows "negotiate cfg requested = min requested mx"
proof -
  have "mx \<le> LEASE_FOREVER"
    by (metis LEASE_FOREVER_minus word_n1_ge)
  then show ?thesis using assms by (auto simp: negotiate_def min_def)
qed

section \<open>Properties of the manager and the reaper\<close>

text \<open>
  a grant that succeeds stores one new lease under the fresh identifier and touches no other; its TTL is
  the negotiated one, its expiry is the grant time plus that TTL (or the far-future sentinel for an
  indefinite lease), a configured cap bounds every explicit request, and nothing is broadcast.
\<close>

theorem grant_spec:
  assumes "chrono_ok c" "lease_keys_ok (lm_store m)" "fmlookup (leases (lm_store m)) uid = None"
    "LeaseManager_grant (InMemoryLeaseStore_ops c) now uid res ttl m = (Inr r, m')"
  shows "LeaseManager_get (InMemoryLeaseStore_ops c) uid m' = Inr (Some r) \<and>
    (\<forall>k. k \<noteq> uid \<longrightarrow> fmlookup (leases (lm_store m')) k = fmlookup (leases (lm_store m)) k) \<and>
    lr_ttl_seconds r = negotiate (lm_config m) ttl \<and>
    lr_expires_at r = (if lr_ttl_seconds r = LEASE_FOREVER then MAX_UTC c
                       else now + uint (lr_ttl_seconds r) * 1000000000) \<and>
    (\<forall>mx. max_ttl (lm_config m) = Some mx \<longrightarrow> ttl \<noteq> LEASE_ANY \<longrightarrow> lr_ttl_seconds r = min ttl mx) \<and>
    lm_expiry_tx m' = lm_expiry_tx m"
proof (intro conjI)
  note g = mem_lease.mgr_grant_ok[OF assms(2-4)]
  show "LeaseManager_get (InMemoryLeaseStore_ops c) uid m' = Inr (Some r)"
    using g by (simp add: LeaseManager_get_def mem_lease_defs)
  show "\<forall>k. k \<noteq> uid \<longrightarrow> fmlookup (leases (lm_store m')) k = fmlookup (leases (lm_store m)) k"
    using g by simp
  show ttl: "lr_ttl_seconds r = negotiate (lm_config m) ttl" using g by simp
  obtain t where "expiry_for c now (negotiate (lm_config m) ttl) = Inr t" "lr_expires_at r = t"
    using assms(4) by (auto simp: lease_defs mem_lease_defs Let_def split: sum.splits)
  then show "lr_expires_at r = (if lr_ttl_seconds r = LEASE_FOREVER then MAX_UTC c
                        else now + uint (lr_ttl_seconds r) * 1000000000)"
    using expiry_for_Inr[OF assms(1)] ttl by metis
  show "\<forall>mx. max_ttl (lm_config m) = Some mx \<longrightarrow> ttl \<noteq> LEASE_ANY \<longrightarrow> lr_ttl_seconds r = min ttl mx"
    using ttl negotiate_capped by simp
  show "lm_expiry_tx m' = lm_expiry_tx m" using g by simp
qed

lemmas demo_defs = demo_mgr_def demo_mgr1_def demo_lease_def LeaseConfig_default_def chrono_std_def

lemma demo_grant:
  "LeaseManager_grant (InMemoryLeaseStore_ops chrono_std) 1000 ''l1'' ''res'' 60 demo_mgr = (Inr demo_lease, demo_mgr1)"
  by (simp add: lease_defs mem_lease_defs demo_defs expiry_for_def checked_expiry_def negotiate_def
    LEASE_ANY_def LEASE_FOREVER_def Let_def)

lemma demo_keys_ok: "lease_keys_ok (lm_store demo_mgr)" "lease_keys_ok (lm_store demo_mgr1)"
  by (auto simp: lease_keys_ok_def demo_defs lease_defs mem_lease_defs)

theorem grant_spec_witness:
  "LeaseManager_get (InMemoryLeaseStore_ops chrono_std) ''l1'' demo_mgr1 = Inr (Some demo_lease) \<and>
   lr_ttl_seconds demo_lease = min 60 3600"
proof -
  have f: "fmlookup (leases (lm_store demo_mgr)) ''l1'' = None"
    by (simp add: demo_defs lease_defs mem_lease_defs)
  have "max_ttl (lm_config demo_mgr) = Some 3600" by (simp add: demo_defs lease_defs)
  then show ?thesis
    using grant_spec[OF chrono_std_ok demo_keys_ok(1) f demo_grant] by (auto simp: LEASE_ANY_def)
qed

text \<open>
  With no cap configured, no explicit request can overflow the date arithmetic: the manager negotiates
  every request to an indefinite lease or to one of at most a hundred years, and the grant succeeds at any
  time more than a hundred years before the end of the calendar.
\<close>

theorem uncapped_grant_succeeds:
  assumes "chrono_ok c" "max_ttl (lm_config m) = None" "ttl \<noteq> LEASE_ANY"
    "0 \<le> now" "now + 3153600000000000000 \<le> MAX_UTC c"
  shows "\<exists>r m'. LeaseManager_grant (InMemoryLeaseStore_ops c) now uid res ttl m = (Inr r, m')"
proof -
  have "\<exists>t. expiry_for c now (negotiate (lm_config m) ttl) = Inr t"
    using negotiate_uncapped[OF assms(2,3)] checked_expiry_representable[OF assms(1) _ assms(4,5)]
    by (auto simp: expiry_for_def)
  then show ?thesis by (auto simp: lease_defs mem_lease_defs Let_def)
qed

theorem uncapped_grant_succeeds_witness:
  "\<exists>r m'. LeaseManager_grant (InMemoryLeaseStore_ops chrono_std) 0 ''l'' ''res'' 9999999999999
     (LeaseManager_new InMemoryLeaseStore_new \<lparr>max_ttl = None, preferred_ttl = 300\<rparr> []) = (Inr r, m')"
  by (rule uncapped_grant_succeeds[OF chrono_std_ok])
     (simp_all add: LeaseManager_new_def LEASE_ANY_def chrono_std_def)

text \<open>
  renewing. An unknown lease is \<^verbatim>\<open>LeaseNotFound\<close>, one past its expiry is \<^verbatim>\<open>LeaseExpired\<close> and is not
  resurrected, and neither changes anything; a successful renewal keeps identity, resource and grant time,
  takes the negotiated TTL, and leaves a lease that is not expired before the new expiry.
\<close>

theorem renew_branches:
  assumes "chrono_ok c" "lease_keys_ok (lm_store m)"
  shows "(fmlookup (leases (lm_store m)) lid = None \<longrightarrow>
      LeaseManager_renew (InMemoryLeaseStore_ops c) now1 now2 lid ttl m = (Inl (LeaseNotFound lid), m)) \<and>
    (\<forall>r. fmlookup (leases (lm_store m)) lid = Some r \<longrightarrow> is_expired now1 r \<longrightarrow>
      LeaseManager_renew (InMemoryLeaseStore_ops c) now1 now2 lid ttl m = (Inl (LeaseExpired lid), m)) \<and>
    (\<forall>r' m'. LeaseManager_renew (InMemoryLeaseStore_ops c) now1 now2 lid ttl m = (Inr r', m') \<longrightarrow>
      (\<exists>r0. fmlookup (leases (lm_store m)) lid = Some r0 \<and>
        lr_lease_id r' = lid \<and> lr_resource_id r' = lr_resource_id r0 \<and> lr_granted_at r' = lr_granted_at r0 \<and>
        lr_ttl_seconds r' = negotiate (lm_config m) ttl \<and>
        fmlookup (leases (lm_store m')) = (fmlookup (leases (lm_store m)))(lid \<mapsto> r') \<and>
        (\<forall>t. t < now2 + uint (lr_ttl_seconds r') * 1000000000 \<longrightarrow> \<not> is_expired t r')))"
proof (intro conjI allI impI)
  fix r' m'
  assume ren: "LeaseManager_renew (InMemoryLeaseStore_ops c) now1 now2 lid ttl m = (Inr r', m')"
  then obtain r0 t where r0: "fmlookup (leases (lm_store m)) lid = Some r0"
    and t: "expiry_for c now2 (negotiate (lm_config m) ttl) = Inr t"
    and r': "r' = r0\<lparr>lr_expires_at := t, lr_ttl_seconds := negotiate (lm_config m) ttl\<rparr>"
    and m': "m' = m\<lparr>lm_store := lm_store m\<lparr>leases := fmupd lid r' (leases (lm_store m))\<rparr>\<rparr>"
    by (auto simp: lease_defs mem_lease_defs Let_def split: option.splits if_splits sum.splits)
  have "\<not> is_expired x r'" if "x < now2 + uint (lr_ttl_seconds r') * 1000000000" for x
    using that expiry_for_Inr[OF assms(1) t] by (auto simp: is_expired_def r')
  with r0 r' m' lease_keys_okD[OF assms(2) r0]
  show "\<exists>r0. fmlookup (leases (lm_store m)) lid = Some r0 \<and>
        lr_lease_id r' = lid \<and> lr_resource_id r' = lr_resource_id r0 \<and> lr_granted_at r' = lr_granted_at r0 \<and>
        lr_ttl_seconds r' = negotiate (lm_config m) ttl \<and>
        fmlookup (leases (lm_store m')) = (fmlookup (leases (lm_store m)))(lid \<mapsto> r') \<and>
        (\<forall>t. t < now2 + uint (lr_ttl_seconds r') * 1000000000 \<longrightarrow> \<not> is_expired t r')"
    by auto
qed (auto simp: lease_defs mem_lease_defs)

theorem renew_branches_witness:
  "LeaseManager_renew (InMemoryLeaseStore_ops chrono_std) 60000001000 60000001001 ''l1'' 60 demo_mgr1
     = (Inl (LeaseExpired ''l1''), demo_mgr1)"
proof -
  have "fmlookup (leases (lm_store demo_mgr1)) ''l1'' = Some demo_lease" "is_expired 60000001000 demo_lease"
    by (simp_all add: demo_defs lease_defs is_expired_def LEASE_FOREVER_def)
  then show ?thesis using renew_branches[OF chrono_std_ok demo_keys_ok(2), of "''l1''"] by blast
qed

text \<open>
  Cancelling always succeeds and removes the lease, and broadcasts the reclaimed record exactly once, with
  reason \<^verbatim>\<open>Cancelled\<close>, exactly when the lease existed; cancelling again is a silent no-op.
\<close>

theorem cancel_once:
  assumes "lease_keys_ok (lm_store m)"
  shows "\<exists>m'. LeaseManager_cancel (InMemoryLeaseStore_ops c) lid m = (Inr (), m') \<and>
    fmlookup (leases (lm_store m')) = (fmlookup (leases (lm_store m)))(lid := None) \<and>
    lm_expiry_tx m' = lm_expiry_tx m @
      (case fmlookup (leases (lm_store m)) lid of
         None \<Rightarrow> [] | Some r \<Rightarrow> [\<lparr>rc_record = r, rc_reason = Cancelled\<rparr>]) \<and>
    LeaseManager_cancel (InMemoryLeaseStore_ops c) lid m' = (Inr (), m')"
proof -
  obtain m' where c: "LeaseManager_cancel (InMemoryLeaseStore_ops c) lid m = (Inr (), m')"
    by (cases "fmlookup (leases (lm_store m)) lid") (auto simp: lease_defs mem_lease_defs)
  have "LeaseManager_cancel (InMemoryLeaseStore_ops c) lid m' = (Inr (), m')"
    using c by (auto simp: lease_defs mem_lease_defs split: option.splits)
  with c mem_lease.mgr_cancel_ok[OF assms c] show ?thesis by auto
qed

theorem cancel_once_witness:
  "\<exists>m'. LeaseManager_cancel (InMemoryLeaseStore_ops chrono_std) ''l1'' demo_mgr1 = (Inr (), m') \<and>
    lm_expiry_tx m' = [\<lparr>rc_record = demo_lease, rc_reason = Cancelled\<rparr>]"
  using cancel_once[OF demo_keys_ok(2), of chrono_std "''l1''"] by (auto simp: demo_mgr1_def lease_defs)

text \<open>
  C8: one sweep of the reaper, whatever the order in which the table is scanned, removes exactly the leases
  that were past their expiry when visited, keeps every other one, and broadcasts each removed lease once
  with reason \<^verbatim>\<open>Expired\<close>.
\<close>

theorem reaper_tick_exact:
  assumes "lease_keys_ok (lm_store m)" "iterates ks (leases (lm_store m))"
  shows "\<exists>out. lm_expiry_tx (reaper_tick (InMemoryLeaseStore_ops c) [] clk ks m) =
      lm_expiry_tx m @ map (\<lambda>r. \<lparr>rc_record = r, rc_reason = Expired\<rparr>) out \<and>
    distinct (map lr_lease_id out) \<and>
    (\<forall>r. r \<in> set out \<longleftrightarrow> (\<exists>k. fmlookup (leases (lm_store m)) k = Some r \<and> is_expired (clk k) r)) \<and>
    (\<forall>k. fmlookup (leases (lm_store (reaper_tick (InMemoryLeaseStore_ops c) [] clk ks m))) k =
       (case fmlookup (leases (lm_store m)) k of
          None \<Rightarrow> None | Some x \<Rightarrow> if is_expired (clk k) x then None else Some x))"
proof -
  obtain out m' where d: "drain_expired (InMemoryLeaseStore_ops c) [] clk ks m = (Inr out, m')"
    using mem_lease.drain_expired_total by blast
  have "lm_expiry_tx m' = lm_expiry_tx m"
    using mem_lease.drain_expired_exact[OF assms(1) mem_lease.visits_distinct[OF assms(2)] d] by blast
  with d mem_lease.drain_expired_complete[OF assms d] show ?thesis
    by (intro exI[of _ out]) (simp add: reaper_tick_def)
qed

theorem reaper_tick_exact_witness:
  "\<exists>out. lm_expiry_tx (reaper_tick (InMemoryLeaseStore_ops chrono_std) [] (\<lambda>k. 60000001000) [''l1''] demo_mgr1) =
      map (\<lambda>r. \<lparr>rc_record = r, rc_reason = Expired\<rparr>) out \<and> demo_lease \<in> set out"
proof -
  have it: "iterates [''l1''] (leases (lm_store demo_mgr1))"
    by (simp add: demo_mgr1_def lease_defs iterates_def)
  have "fmlookup (leases (lm_store demo_mgr1)) ''l1'' = Some demo_lease" "is_expired 60000001000 demo_lease"
    "lm_expiry_tx demo_mgr1 = []"
    by (simp_all add: demo_defs lease_defs is_expired_def LEASE_FOREVER_def)
  then show ?thesis
    using reaper_tick_exact[OF demo_keys_ok(2) it, of chrono_std "\<lambda>k. 60000001000"] by fastforce
qed

text \<open>
  C30: the reaper does not kill a lease that is renewed while the sweep is under way. If the store renews
  a listed lease after the listing and before the removals, the sweep leaves the renewed lease in place and does not report it.
\<close>

theorem renewed_mid_sweep_survives:
  assumes "chrono_ok c" "lease_keys_ok (lm_store m)" "iterates ks (leases (lm_store m))"
    "fmlookup (leases (lm_store m)) lid = Some old" "is_expired (clk lid) old"
    "lr_expires_at old \<le> now" "now < MAX_UTC c" "ttl \<noteq> 0"
    "InMemoryLeaseStore_renew c now lid ttl (lm_store m) = (Inr cur, s1)"
  shows "\<exists>out m'. drain_expired (InMemoryLeaseStore_ops c)
        [\<lambda>s. snd (InMemoryLeaseStore_renew c now lid ttl s)] clk ks m = (Inr out, m') \<and>
      fmlookup (leases (lm_store m')) lid = Some cur \<and> lid \<notin> lr_lease_id ` set out"
proof -
  let ?g = "\<lambda>s. snd (InMemoryLeaseStore_renew c now lid ttl s)"
  obtain out m' where d: "drain_expired (InMemoryLeaseStore_ops c) [?g] clk ks m = (Inr out, m')"
    using mem_lease.drain_expired_total by blast
  have ren: "ls_renew (InMemoryLeaseStore_ops c) now lid ttl (lm_store m) = (Inr cur, s1)"
    using assms(9) by (simp add: InMemoryLeaseStore_ops_def)
  have g: "?g (lm_store m) = s1" "lease_keys_ok s1"
    using assms(9) mem_lease.renew_inv[OF assms(2), where c = c, of now lid ttl] ren by auto
  have cur: "fmlookup (leases s1) lid = Some cur"
    using mem_lease.renew_ok[OF assms(2) ren] by auto
  obtain t where "expiry_for c now ttl = Inr t" "lr_expires_at cur = t"
    using assms(9) by (auto simp: InMemoryLeaseStore_renew_def Let_def split: sum.splits option.splits)
  then have "lr_expires_at cur = (if ttl = LEASE_FOREVER then MAX_UTC c else now + uint ttl * 1000000000)"
    using expiry_for_Inr[OF assms(1)] by blast
  moreover have "0 < uint ttl" using assms(8) by (simp add: word_neq_0_conv word_less_def)
  ultimately have new: "lr_expires_at old \<noteq> lr_expires_at cur" using assms(6,7) by (auto split: if_splits)
  obtain rs where rs: "ls_list_expired (InMemoryLeaseStore_ops c) clk ks (lm_store m) = Inr rs"
    using mem_lease.list_total by blast
  have "old \<in> set rs" using mem_lease.list_complete[OF assms(2,3) rs assms(4,5)] .
  then obtain r rs' where "rs = r # rs'" by (cases rs) auto
  with mem_lease.drain_expired_survives[OF assms(2) d refl, of lid cur old r rs'] g cur new assms(4) rs d
  show ?thesis by auto
qed

theorem renewed_mid_sweep_survives_witness:
  "\<exists>out m'. drain_expired (InMemoryLeaseStore_ops chrono_std)
        [\<lambda>s. snd (InMemoryLeaseStore_renew chrono_std 60000001000 ''l1'' 60 s)] (\<lambda>k. 60000001000) [''l1''] demo_mgr1
        = (Inr out, m') \<and>
      fmlookup (leases (lm_store m')) ''l1'' = Some (demo_lease\<lparr>lr_expires_at := 120000001000\<rparr>) \<and>
      ''l1'' \<notin> lr_lease_id ` set out"
proof -
  have it: "iterates [''l1''] (leases (lm_store demo_mgr1))"
    by (simp add: demo_mgr1_def lease_defs iterates_def)
  show ?thesis
    by (rule renewed_mid_sweep_survives[OF chrono_std_ok demo_keys_ok(2) it, where old = demo_lease])
       (simp_all add: demo_defs lease_defs is_expired_def LEASE_FOREVER_def InMemoryLeaseStore_renew_def
         expiry_for_def checked_expiry_def Let_def)
qed

text \<open>
  an indefinite lease is never reaped. However many sweeps run, at whatever times, and whatever other
  tasks do to other leases in between, it stays in the table unchanged and is never broadcast.
\<close>

theorem forever_never_reaped:
  assumes "lease_keys_ok (lm_store m)" "fmlookup (leases (lm_store m)) lid = Some r"
    "lr_ttl_seconds r = LEASE_FOREVER"
    "\<forall>(gaps, clk, ks) \<in> set ticks. \<forall>g \<in> set gaps. \<forall>s. lease_keys_ok s \<longrightarrow>
       lease_keys_ok (g s) \<and> fmlookup (leases (g s)) lid = fmlookup (leases s) lid"
  shows "fmlookup (leases (lm_store (run_reaper (InMemoryLeaseStore_ops c) ticks m))) lid = Some r \<and>
    (\<exists>sent. lm_expiry_tx (run_reaper (InMemoryLeaseStore_ops c) ticks m) = lm_expiry_tx m @ sent \<and>
       (\<forall>e \<in> set sent. lr_lease_id (rc_record e) \<noteq> lid))"
proof -
  have "\<forall>(gaps, clk, ks) \<in> set ticks. \<not> is_expired (clk lid) r \<and>
       (\<forall>g \<in> set gaps. \<forall>s. lease_keys_ok s \<longrightarrow>
          lease_keys_ok (g s) \<and> (fmlookup (leases s) lid = Some r \<longrightarrow> fmlookup (leases (g s)) lid = Some r))"
    using assms(3,4) by (fastforce simp: is_expired_def)
  from mem_lease.run_reaper_keeps[OF assms(1,2) this] show ?thesis by blast
qed

theorem forever_never_reaped_witness:
  "fmlookup (leases (lm_store (run_reaper (InMemoryLeaseStore_ops chrono_std)
     [([], (\<lambda>k. 9000000000000000000), [''l1'']), ([], (\<lambda>k. 9000000000000000001), [''l1''])]
     (LeaseManager_new \<lparr>leases = fmupd ''l1'' (demo_lease\<lparr>lr_ttl_seconds := LEASE_FOREVER\<rparr>) fmempty\<rparr>
        LeaseConfig_default [])))) ''l1'' = Some (demo_lease\<lparr>lr_ttl_seconds := LEASE_FOREVER\<rparr>)"
proof -
  let ?m = "LeaseManager_new \<lparr>leases = fmupd ''l1'' (demo_lease\<lparr>lr_ttl_seconds := LEASE_FOREVER\<rparr>) fmempty\<rparr>
        LeaseConfig_default []"
  have "lease_keys_ok (lm_store ?m)"
    "fmlookup (leases (lm_store ?m)) ''l1'' = Some (demo_lease\<lparr>lr_ttl_seconds := LEASE_FOREVER\<rparr>)"
    by (auto simp: lease_keys_ok_def lease_defs demo_lease_def)
  from forever_never_reaped[OF this, where c = chrono_std and ticks =
     "[([], (\<lambda>k. 9000000000000000000), [''l1'']), ([], (\<lambda>k. 9000000000000000001), [''l1''])]"]
  show ?thesis by simp
qed

end
