(* ===== verification/Shutdown.thy ===== *)
theory Shutdown
  imports Prelude
begin

text \<open>
  Ending long-lived server streams at shutdown, \<^verbatim>\<open>coordin8-core/src/shutdown.rs\<close>. The wrapped stream is
  a polling function over its own state; the shutdown future's answer at each poll is an argument.
\<close>

datatype 'a poll = Ready 'a | Pending

record ('i, 'a) EndOnShutdown =
  eos_inner :: 'i
  eos_final_item :: "'a option"
  eos_done :: bool

definition end_stream :: "'i \<Rightarrow> 'a \<Rightarrow> ('i, 'a) EndOnShutdown" where
  "end_stream stream final_item = \<lparr>eos_inner = stream, eos_final_item = Some final_item, eos_done = False\<rparr>"

definition poll_next ::
  "('i \<Rightarrow> 'a option poll \<times> 'i) \<Rightarrow> bool \<Rightarrow> ('i, 'a) EndOnShutdown \<Rightarrow> 'a option poll \<times> ('i, 'a) EndOnShutdown"
where
  "poll_next inner_poll fired this =
     (if eos_done this then (Ready None, this)
      else if fired then
        (Ready (eos_final_item this), this\<lparr>eos_done := True, eos_final_item := None\<rparr>)
      else (case inner_poll (eos_inner this) of
              (r, i) \<Rightarrow> (r, this\<lparr>eos_inner := i\<rparr>)))"

text \<open>The answers to a sequence of polls, and those of the wrapped stream alone.\<close>

fun polls :: "('i \<Rightarrow> 'a option poll \<times> 'i) \<Rightarrow> bool list \<Rightarrow> ('i, 'a) EndOnShutdown \<Rightarrow> 'a option poll list" where
  "polls inner_poll [] this = []"
| "polls inner_poll (fired # rest) this =
     (case poll_next inner_poll fired this of (r, this') \<Rightarrow> r # polls inner_poll rest this')"

fun inner_polls :: "('i \<Rightarrow> 'a option poll \<times> 'i) \<Rightarrow> nat \<Rightarrow> 'i \<Rightarrow> 'a option poll list" where
  "inner_polls inner_poll 0 i = []"
| "inner_polls inner_poll (Suc n) i = (case inner_poll i of (r, i') \<Rightarrow> r # inner_polls inner_poll n i')"

lemma polls_done: "eos_done this \<Longrightarrow> polls inner_poll fs this = replicate (length fs) (Ready None)"
  by (induction fs) (auto simp: poll_next_def)

lemma polls_before:
  "\<not> eos_done this \<Longrightarrow>
   polls inner_poll (replicate n False @ True # rest) this =
   inner_polls inner_poll n (eos_inner this) @ Ready (eos_final_item this) # replicate (length rest) (Ready None)"
  by (induction n arbitrary: this) (auto simp: poll_next_def polls_done split: prod.splits)

text \<open>
  A stream wrapped for shutdown passes the inner stream's answers through until the signal fires, then
  yields the final item exactly once, whatever the inner stream still had to offer, and has ended from then
  on.
\<close>

theorem end_stream_spec:
  "polls inner_poll (replicate n False @ True # rest) (end_stream i final) =
   inner_polls inner_poll n i @ Ready (Some final) # replicate (length rest) (Ready None)"
  by (simp add: polls_before end_stream_def)

end
