(* ===== verification/Lease_Service.thy ===== *)
theory Lease_Service
  imports Local_Lease Shutdown
begin

text \<open>
  The gRPC front of a lease manager, \<^verbatim>\<open>coordin8-lease/src/service.rs\<close>. A handler is a function from the
  request and the manager to the response or status and the new manager. The server stream of \<^verbatim>\<open>WatchExpiry\<close> is
  the list of items it yields for a given list of broadcast receptions.
\<close>

section \<open>Messages\<close>

record Lease =
  pl_lease_id :: string
  pl_resource_id :: string
  pl_granted_at :: "Timestamp option"
  pl_expires_at :: "Timestamp option"
  pl_ttl_seconds :: u64
  pl_grantor_host :: string
  pl_grantor_port :: u32

record ExpiryEvent =
  xe_lease_id :: string
  xe_resource_id :: string
  xe_expired_at :: "Timestamp option"
  xe_reason :: int

record RenewResult =
  rr_lease_id :: string
  rr_lease :: "Lease option"
  rr_error_message :: string

record LeaseServiceImpl =
  grantor_host :: string
  grantor_port :: u16

section \<open>Handlers\<close>

definition record_to_proto :: "LeaseServiceImpl \<Rightarrow> LeaseRecord \<Rightarrow> Lease" where
  "record_to_proto svc r = \<lparr>
     pl_lease_id = lr_lease_id r, pl_resource_id = lr_resource_id r,
     pl_granted_at = to_timestamp (lr_granted_at r), pl_expires_at = to_timestamp (lr_expires_at r),
     pl_ttl_seconds = lr_ttl_seconds r,
     pl_grantor_host = grantor_host svc, pl_grantor_port = ucast (grantor_port svc) \<rparr>"

definition RENEW_ALL_MAX_ITEMS :: nat where "RENEW_ALL_MAX_ITEMS = 1000"

definition renew_status :: "error \<Rightarrow> status" where
  "renew_status e = (case e of
     LeaseNotFound _ \<Rightarrow> Status Code_NotFound (error_to_string e)
   | LeaseExpired _ \<Rightarrow> Status Code_FailedPrecondition (error_to_string e)
   | _ \<Rightarrow> Status Code_Internal (error_to_string e))"

definition LeaseService_grant ::
  "'s LeaseStore \<Rightarrow> LeaseServiceImpl \<Rightarrow> time \<Rightarrow> string \<Rightarrow> string \<Rightarrow> u64 \<Rightarrow> 's LeaseManager \<Rightarrow> Lease rpc \<times> 's LeaseManager"
where
  "LeaseService_grant S svc now uid resource_id ttl_seconds m =
     (case LeaseManager_grant S now uid resource_id ttl_seconds m of
        (Inr record, m') \<Rightarrow> (Inr (record_to_proto svc record), m')
      | (Inl e, m') \<Rightarrow> (Inl (Status Code_Internal (error_to_string e)), m'))"

definition LeaseService_renew ::
  "'s LeaseStore \<Rightarrow> LeaseServiceImpl \<Rightarrow> time \<Rightarrow> time \<Rightarrow> string \<Rightarrow> u64 \<Rightarrow> 's LeaseManager \<Rightarrow> Lease rpc \<times> 's LeaseManager"
where
  "LeaseService_renew S svc now1 now2 lease_id ttl_seconds m =
     (case LeaseManager_renew S now1 now2 lease_id ttl_seconds m of
        (Inr record, m') \<Rightarrow> (Inr (record_to_proto svc record), m')
      | (Inl e, m') \<Rightarrow> (Inl (renew_status e), m'))"

text \<open>Each item of the request comes with the two clock readings its renewal makes.\<close>

definition renew_item_result :: "LeaseServiceImpl \<Rightarrow> string \<Rightarrow> LeaseRecord result \<Rightarrow> RenewResult" where
  "renew_item_result svc lease_id r = (case r of
     Inr record \<Rightarrow> \<lparr>rr_lease_id = lease_id, rr_lease = Some (record_to_proto svc record), rr_error_message = []\<rparr>
   | Inl e \<Rightarrow> \<lparr>rr_lease_id = lease_id, rr_lease = None, rr_error_message = error_to_string e\<rparr>)"

fun renew_all_loop ::
  "'s LeaseStore \<Rightarrow> LeaseServiceImpl \<Rightarrow> ((time \<times> time) \<times> string \<times> u64) list \<Rightarrow> RenewResult list \<Rightarrow> 's LeaseManager
   \<Rightarrow> RenewResult list \<times> 's LeaseManager"
where
  "renew_all_loop S svc [] results m = (results, m)"
| "renew_all_loop S svc (((now1, now2), lease_id, ttl_seconds) # items) results m =
     (case LeaseManager_renew S now1 now2 lease_id ttl_seconds m of
        (r, m') \<Rightarrow> renew_all_loop S svc items (results @ [renew_item_result svc lease_id r]) m')"

definition LeaseService_renew_all ::
  "'s LeaseStore \<Rightarrow> LeaseServiceImpl \<Rightarrow> ((time \<times> time) \<times> string \<times> u64) list \<Rightarrow> 's LeaseManager
   \<Rightarrow> RenewResult list rpc \<times> 's LeaseManager"
where
  "LeaseService_renew_all S svc items m =
     (if length items > RENEW_ALL_MAX_ITEMS then
        (Inl (Status Code_InvalidArgument
           (''RenewAll accepts at most '' @ show_nat RENEW_ALL_MAX_ITEMS @ '' items per call, got '' @
            show_nat (length items) @ '' '' @ em_dash @ '' split into multiple calls'')), m)
      else (case renew_all_loop S svc items [] m of (results, m') \<Rightarrow> (Inr results, m')))"

definition LeaseService_cancel ::
  "'s LeaseStore \<Rightarrow> string \<Rightarrow> 's LeaseManager \<Rightarrow> unit rpc \<times> 's LeaseManager"
where
  "LeaseService_cancel S lease_id m =
     (case LeaseManager_cancel S lease_id m of
        (Inr _, m') \<Rightarrow> (Inr (), m')
      | (Inl e, m') \<Rightarrow> (Inl (Status Code_Internal (error_to_string e)), m'))"

text \<open>The proto enum numbers \<^verbatim>\<open>EXPIRED\<close> as 0 and \<^verbatim>\<open>CANCELLED\<close> as 1.\<close>

fun ProtoReclaimReason :: "ReclaimReason \<Rightarrow> int" where
  "ProtoReclaimReason Expired = 0"
| "ProtoReclaimReason Cancelled = 1"

fun watch_expiry_item :: "string \<Rightarrow> LeaseReclaimed recv \<Rightarrow> ExpiryEvent rpc option" where
  "watch_expiry_item filter_resource (Received ev) =
     (if filter_resource = [] \<or> filter_resource = lr_resource_id (rc_record ev)
      then Some (Inr \<lparr>xe_lease_id = lr_lease_id (rc_record ev), xe_resource_id = lr_resource_id (rc_record ev),
                      xe_expired_at = to_timestamp (lr_expires_at (rc_record ev)),
                      xe_reason = ProtoReclaimReason (rc_reason ev)\<rparr>)
      else None)"
| "watch_expiry_item filter_resource (Lagged n) =
     Some (Inl (Status Code_DataLoss ''watcher lagged; resubscribe and re-snapshot''))"
| "watch_expiry_item filter_resource Closed = None"

definition watch_expiry :: "string \<Rightarrow> LeaseReclaimed recv list \<Rightarrow> ExpiryEvent rpc list" where
  "watch_expiry filter_resource rx = List.map_filter (watch_expiry_item filter_resource) (takeWhile (\<lambda>r. r \<noteq> Closed) rx)"

section \<open>Batched renewal\<close>

lemma mem_renew_fst:
  "fst (LeaseManager_renew (InMemoryLeaseStore_ops c) n1 n2 lid ttl m) =
   (case fmlookup (leases (lm_store m)) lid of
      None \<Rightarrow> Inl (LeaseNotFound lid)
    | Some r \<Rightarrow> if is_expired n1 r then Inl (LeaseExpired lid)
        else case expiry_for c n2 (negotiate (lm_config m) ttl) of
               Inl e \<Rightarrow> Inl e
             | Inr t \<Rightarrow> Inr (r\<lparr>lr_expires_at := t, lr_ttl_seconds := negotiate (lm_config m) ttl\<rparr>))"
  by (simp add: lease_defs mem_lease_defs Let_def split: option.split sum.split)

lemma mem_renew_snd:
  assumes "lid \<noteq> lid'"
  shows "fmlookup (leases (lm_store (snd (LeaseManager_renew (InMemoryLeaseStore_ops c) n1 n2 lid' ttl m)))) lid =
      fmlookup (leases (lm_store m)) lid"
    "lm_config (snd (LeaseManager_renew (InMemoryLeaseStore_ops c) n1 n2 lid' ttl m)) = lm_config m"
  using assms by (auto simp: lease_defs mem_lease_defs Let_def split: option.splits sum.splits)

lemma mem_renew_other:
  assumes "lid \<noteq> lid'"
  shows "fst (LeaseManager_renew (InMemoryLeaseStore_ops c) n1 n2 lid ttl
           (snd (LeaseManager_renew (InMemoryLeaseStore_ops c) n1' n2' lid' ttl' m))) =
         fst (LeaseManager_renew (InMemoryLeaseStore_ops c) n1 n2 lid ttl m)"
  unfolding mem_renew_fst mem_renew_snd[OF assms] ..

lemma renew_all_loop_results:
  assumes "distinct (map (\<lambda>i. fst (snd i)) items)"
  shows "fst (renew_all_loop (InMemoryLeaseStore_ops c) svc items results m) =
    results @ map (\<lambda>((now1, now2), lid, ttl).
      renew_item_result svc lid (fst (LeaseManager_renew (InMemoryLeaseStore_ops c) now1 now2 lid ttl m))) items"
  using assms
proof (induction items arbitrary: results m)
  case (Cons i items)
  obtain now1 now2 lid ttl where i: "i = ((now1, now2), lid, ttl)" by (metis prod.collapse)
  let ?ren = "LeaseManager_renew (InMemoryLeaseStore_ops c) now1 now2 lid ttl m"
  have "map (\<lambda>((n1, n2), l, t). renew_item_result svc l
          (fst (LeaseManager_renew (InMemoryLeaseStore_ops c) n1 n2 l t (snd ?ren)))) items =
        map (\<lambda>((n1, n2), l, t). renew_item_result svc l
          (fst (LeaseManager_renew (InMemoryLeaseStore_ops c) n1 n2 l t m))) items"
    using Cons.prems i by (intro map_cong refl) (auto simp: image_iff intro!: arg_cong[of _ _ "renew_item_result svc _"] mem_renew_other)
  then show ?case using Cons by (cases ?ren) (simp add: i)
qed simp

text \<open>
  \<^verbatim>\<open>RenewAll\<close> refuses a batch of more than a thousand items without renewing any; otherwise it answers each
  item, in order, with what renewing that lease alone would have answered, so that one failing item
  affects no other.
\<close>

theorem renew_all_itemwise:
  assumes "distinct (map (\<lambda>i. fst (snd i)) items)"
  shows "if length items > 1000
    then (\<exists>msg. LeaseService_renew_all (InMemoryLeaseStore_ops c) svc items m = (Inl (Status Code_InvalidArgument msg), m))
    else fst (LeaseService_renew_all (InMemoryLeaseStore_ops c) svc items m) =
      Inr (map (\<lambda>((now1, now2), lid, ttl).
        renew_item_result svc lid (fst (LeaseManager_renew (InMemoryLeaseStore_ops c) now1 now2 lid ttl m))) items)"
  using renew_all_loop_results[OF assms, of c svc "[]" m]
  by (auto simp: LeaseService_renew_all_def RENEW_ALL_MAX_ITEMS_def split: prod.split)

theorem renew_all_itemwise_witness:
  "fst (LeaseService_renew_all (InMemoryLeaseStore_ops chrono_std) \<lparr>grantor_host = ''h'', grantor_port = 9001\<rparr>
      [((2000, 2001), ''nope'', 60), ((2002, 2003), ''l1'', 60)] demo_mgr1) =
   Inr [\<lparr>rr_lease_id = ''nope'', rr_lease = None, rr_error_message = ''lease not found: nope''\<rparr>,
        renew_item_result \<lparr>grantor_host = ''h'', grantor_port = 9001\<rparr> ''l1''
          (Inr (demo_lease\<lparr>lr_expires_at := 60000002003\<rparr>))]"
  using renew_all_itemwise[of "[((2000, 2001), ''nope'', 60), ((2002, 2003), ''l1'', 60)]" chrono_std
      "\<lparr>grantor_host = ''h'', grantor_port = 9001\<rparr>" demo_mgr1]
  by (simp add: lease_defs mem_lease_defs demo_defs renew_item_result_def expiry_for_def checked_expiry_def
      negotiate_def LEASE_ANY_def LEASE_FOREVER_def is_expired_def Let_def)

end
