(* ===== verification/Registry.thy ===== *)
theory Registry
  imports Matcher Registry_Store Lease_Service
begin

text \<open>
  The Registry: the index of \<^verbatim>\<open>coordin8-registry/src/store.rs\<close>, the handlers of
  \<^verbatim>\<open>coordin8-registry/src/service.rs\<close> and the reclaim cascade that \<^verbatim>\<open>coordin8-djinn/src/services.rs\<close> wires to the
  Registry's own lease manager. The handlers are written over any store and any grantor; the locale
  \<open>registry_service\<close> assumes the two contracts, and is interpreted on the in-memory providers.
\<close>

section \<open>The index\<close>

definition RegistryIndex_register :: "'r RegistryStore \<Rightarrow> RegistryEntry \<Rightarrow> 'r \<Rightarrow> unit result \<times> 'r" where
  "RegistryIndex_register R entry s = rg_insert R entry s"

definition RegistryIndex_update :: "'r RegistryStore \<Rightarrow> RegistryEntry \<Rightarrow> 'r \<Rightarrow> RegistryEntry option result \<times> 'r" where
  "RegistryIndex_update R entry s = rg_update R entry s"

definition RegistryIndex_get :: "'r RegistryStore \<Rightarrow> string \<Rightarrow> 'r \<Rightarrow> RegistryEntry option result" where
  "RegistryIndex_get R capability_id s = rg_get R capability_id s"

definition RegistryIndex_get_by_lease :: "'r RegistryStore \<Rightarrow> string \<Rightarrow> 'r \<Rightarrow> RegistryEntry option result" where
  "RegistryIndex_get_by_lease R lease_id s = rg_get_by_lease R lease_id s"

definition RegistryIndex_unregister_by_lease ::
  "'r RegistryStore \<Rightarrow> string \<Rightarrow> 'r \<Rightarrow> RegistryEntry option result \<times> 'r"
where
  "RegistryIndex_unregister_by_lease R lease_id s = rg_remove_by_lease R lease_id s"

text \<open>The attributes an entry is matched on: its own, with the interface under \<^verbatim>\<open>interface\<close>.\<close>

definition combined_attrs :: "RegistryEntry \<Rightarrow> attrs" where
  "combined_attrs e = fmupd ''interface'' (re_interface e) (re_attrs e)"

definition RegistryIndex_lookup ::
  "'r RegistryStore \<Rightarrow> string list \<Rightarrow> attrs \<Rightarrow> 'r \<Rightarrow> RegistryEntry option result"
where
  "RegistryIndex_lookup R ks template s =
     (let ops = parse_template template in
      case rg_list_all R ks s of
        Inl e \<Rightarrow> Inl e
      | Inr all_entries \<Rightarrow> Inr (List.find (\<lambda>e. matches ops (combined_attrs e)) all_entries))"

definition RegistryIndex_lookup_all ::
  "'r RegistryStore \<Rightarrow> string list \<Rightarrow> attrs \<Rightarrow> 'r \<Rightarrow> RegistryEntry list result"
where
  "RegistryIndex_lookup_all R ks template s =
     (let ops = parse_template template in
      case rg_list_all R ks s of
        Inl e \<Rightarrow> Inl e
      | Inr all_entries \<Rightarrow> Inr (filter (\<lambda>e. matches ops (combined_attrs e)) all_entries))"

section \<open>The service\<close>

record RegistryChangedEvent =
  rce_event_type :: int
  rce_entry :: RegistryEntry

record Capability =
  cap_capability_id :: string
  cap_interface :: string
  cap_attrs :: attrs
  cap_transport :: "TransportConfig option"

record RegistryEvent =
  rev_type :: int
  rev_capability :: "Capability option"

record RegisterRequest =
  rq_interface :: string
  rq_attrs :: attrs
  rq_ttl_seconds :: u64
  rq_transport :: "TransportConfig option"
  rq_capability_id :: string
  rq_lease_id :: string

record RegisterResponse =
  rp_capability_id :: string
  rp_lease :: "Lease option"

record ModifyAttrsRequest =
  mq_capability_id :: string
  mq_add_attrs :: attrs
  mq_remove_attrs :: "string list"
  mq_lease_id :: string

text \<open>
  The service's state: the store behind the index, the grantor, the events sent on \<^verbatim>\<open>event_tx\<close> so far,
  and the address stamped onto leases.
\<close>

record ('r, 'l) RegistryServiceImpl =
  rsv_index :: 'r
  rsv_lease_manager :: 'l
  rsv_event_tx :: "RegistryChangedEvent list"
  rsv_grantor_host :: string
  rsv_grantor_port :: u16

definition entry_to_capability :: "RegistryEntry \<Rightarrow> Capability" where
  "entry_to_capability e = \<lparr>
     cap_capability_id = re_capability_id e, cap_interface = re_interface e, cap_attrs = re_attrs e,
     cap_transport = map_option (\<lambda>t. \<lparr>transport_type = transport_type t, config = config t\<rparr>) (re_transport e) \<rparr>"

definition check_owner :: "RegistryEntry \<Rightarrow> string \<Rightarrow> unit rpc" where
  "check_owner existing presented =
     (if presented = [] \<or> presented \<noteq> re_lease_id existing
      then Inl (Status Code_PermissionDenied ''lease_id does not match the entry's current lease'')
      else Inr ())"

fun transport_eq :: "TransportConfig option \<Rightarrow> TransportConfig option \<Rightarrow> bool" where
  "transport_eq None None = True"
| "transport_eq (Some a) (Some b) = (transport_type a = transport_type b \<and> config a = config b)"
| "transport_eq _ _ = False"

definition RegistryServiceImpl_lease_to_proto :: "('r, 'l) RegistryServiceImpl \<Rightarrow> LeaseRecord \<Rightarrow> Lease" where
  "RegistryServiceImpl_lease_to_proto svc lease = \<lparr>
     pl_lease_id = lr_lease_id lease, pl_resource_id = lr_resource_id lease,
     pl_granted_at = to_timestamp (lr_granted_at lease), pl_expires_at = to_timestamp (lr_expires_at lease),
     pl_ttl_seconds = lr_ttl_seconds lease,
     pl_grantor_host = rsv_grantor_host svc, pl_grantor_port = ucast (rsv_grantor_port svc) \<rparr>"

definition internal_status :: "error \<Rightarrow> status" where
  "internal_status e = Status Code_Internal (error_to_string e)"

text \<open>
  Re-registration (a capability id is given) and new registration. \<open>cap_uid\<close> and \<open>lease_uid\<close> are the fresh
  identifiers of the capability and its lease.
\<close>

definition RegistryService_reregister ::
  "'r RegistryStore \<Rightarrow> 'l Leasing \<Rightarrow> time \<Rightarrow> time \<Rightarrow> RegisterRequest \<Rightarrow> ('r, 'l) RegistryServiceImpl
   \<Rightarrow> RegisterResponse rpc \<times> ('r, 'l) RegistryServiceImpl"
where
  "RegistryService_reregister R L now1 now2 r svc =
     (case RegistryIndex_get R (rq_capability_id r) (rsv_index svc) of
        Inl e \<Rightarrow> (Inl (internal_status e), svc)
      | Inr None \<Rightarrow> (Inl (Status Code_NotFound (''capability not found: '' @ rq_capability_id r)), svc)
      | Inr (Some existing) \<Rightarrow>
          (case check_owner existing (rq_lease_id r) of
             Inl st \<Rightarrow> (Inl st, svc)
           | Inr _ \<Rightarrow>
               (case lg_renew L now1 now2 (re_lease_id existing) (rq_ttl_seconds r) (rsv_lease_manager svc) of
                  (Inl e, l') \<Rightarrow>
                    (Inl (Status Code_FailedPrecondition (error_to_string e)), svc\<lparr>rsv_lease_manager := l'\<rparr>)
                | (Inr lease, l') \<Rightarrow>
                    let svc1 = svc\<lparr>rsv_lease_manager := l'\<rparr>;
                        entry = \<lparr>re_capability_id = rq_capability_id r, re_lease_id = re_lease_id existing,
                                 re_interface = rq_interface r, re_attrs = rq_attrs r, re_transport = rq_transport r\<rparr>;
                        changed = (re_interface existing \<noteq> re_interface entry \<or>
                                   re_attrs existing \<noteq> re_attrs entry \<or>
                                   \<not> transport_eq (re_transport existing) (re_transport entry));
                        resp = \<lparr>rp_capability_id = rq_capability_id r,
                                rp_lease = Some (RegistryServiceImpl_lease_to_proto svc lease)\<rparr>
                    in if changed then
                         (case RegistryIndex_update R entry (rsv_index svc1) of
                            (Inl e, s') \<Rightarrow> (Inl (internal_status e), svc1\<lparr>rsv_index := s'\<rparr>)
                          | (Inr _, s') \<Rightarrow>
                              (Inr resp, svc1\<lparr>rsv_index := s',
                                 rsv_event_tx := rsv_event_tx svc1 @ [\<lparr>rce_event_type = 2, rce_entry = entry\<rparr>]\<rparr>))
                       else (Inr resp, svc1))))"

definition RegistryService_register_new ::
  "'r RegistryStore \<Rightarrow> 'l Leasing \<Rightarrow> time \<Rightarrow> string \<Rightarrow> string \<Rightarrow> RegisterRequest \<Rightarrow> ('r, 'l) RegistryServiceImpl
   \<Rightarrow> RegisterResponse rpc \<times> ('r, 'l) RegistryServiceImpl"
where
  "RegistryService_register_new R L now cap_uid lease_uid r svc =
     (case lg_grant L now lease_uid (''registry:'' @ cap_uid) (rq_ttl_seconds r) (rsv_lease_manager svc) of
        (Inl e, l') \<Rightarrow> (Inl (internal_status e), svc\<lparr>rsv_lease_manager := l'\<rparr>)
      | (Inr lease, l') \<Rightarrow>
          let svc1 = svc\<lparr>rsv_lease_manager := l'\<rparr>;
              entry = \<lparr>re_capability_id = cap_uid, re_lease_id = lr_lease_id lease,
                       re_interface = rq_interface r, re_attrs = rq_attrs r, re_transport = rq_transport r\<rparr>
          in case RegistryIndex_register R entry (rsv_index svc1) of
               (Inl e, s') \<Rightarrow> (Inl (internal_status e), svc1\<lparr>rsv_index := s'\<rparr>)
             | (Inr _, s') \<Rightarrow>
                 (Inr \<lparr>rp_capability_id = cap_uid, rp_lease = Some (RegistryServiceImpl_lease_to_proto svc lease)\<rparr>,
                  svc1\<lparr>rsv_index := s',
                       rsv_event_tx := rsv_event_tx svc1 @ [\<lparr>rce_event_type = 0, rce_entry = entry\<rparr>]\<rparr>))"

definition RegistryService_register ::
  "'r RegistryStore \<Rightarrow> 'l Leasing \<Rightarrow> time \<Rightarrow> time \<Rightarrow> string \<Rightarrow> string \<Rightarrow> RegisterRequest \<Rightarrow> ('r, 'l) RegistryServiceImpl
   \<Rightarrow> RegisterResponse rpc \<times> ('r, 'l) RegistryServiceImpl"
where
  "RegistryService_register R L now1 now2 cap_uid lease_uid r svc =
     (if rq_capability_id r \<noteq> [] then RegistryService_reregister R L now1 now2 r svc
      else RegistryService_register_new R L now1 cap_uid lease_uid r svc)"

definition RegistryService_modify_attrs ::
  "'r RegistryStore \<Rightarrow> ModifyAttrsRequest \<Rightarrow> ('r, 'l) RegistryServiceImpl \<Rightarrow> Capability rpc \<times> ('r, 'l) RegistryServiceImpl"
where
  "RegistryService_modify_attrs R r svc =
     (case RegistryIndex_get R (mq_capability_id r) (rsv_index svc) of
        Inl e \<Rightarrow> (Inl (internal_status e), svc)
      | Inr None \<Rightarrow> (Inl (Status Code_NotFound (''capability not found: '' @ mq_capability_id r)), svc)
      | Inr (Some existing) \<Rightarrow>
          (case check_owner existing (mq_lease_id r) of
             Inl st \<Rightarrow> (Inl st, svc)
           | Inr _ \<Rightarrow>
               let attrs1 = fold fmdrop (mq_remove_attrs r) (re_attrs existing);
                   attrs2 = fmadd attrs1 (mq_add_attrs r);
                   entry = existing\<lparr>re_attrs := attrs2\<rparr>
               in case RegistryIndex_update R entry (rsv_index svc) of
                    (Inl e, s') \<Rightarrow> (Inl (internal_status e), svc\<lparr>rsv_index := s'\<rparr>)
                  | (Inr _, s') \<Rightarrow>
                      (Inr (entry_to_capability entry),
                       svc\<lparr>rsv_index := s',
                           rsv_event_tx := rsv_event_tx svc @ [\<lparr>rce_event_type = 2, rce_entry = entry\<rparr>]\<rparr>)))"

definition RegistryService_lookup ::
  "'r RegistryStore \<Rightarrow> string list \<Rightarrow> attrs \<Rightarrow> ('r, 'l) RegistryServiceImpl \<Rightarrow> Capability rpc"
where
  "RegistryService_lookup R ks template svc =
     (case RegistryIndex_lookup R ks template (rsv_index svc) of
        Inl e \<Rightarrow> Inl (internal_status e)
      | Inr (Some entry) \<Rightarrow> Inr (entry_to_capability entry)
      | Inr None \<Rightarrow> Inl (Status Code_NotFound ''no matching capability''))"

definition RegistryService_lookup_all ::
  "'r RegistryStore \<Rightarrow> string list \<Rightarrow> attrs \<Rightarrow> ('r, 'l) RegistryServiceImpl \<Rightarrow> Capability list rpc"
where
  "RegistryService_lookup_all R ks template svc =
     (case RegistryIndex_lookup_all R ks template (rsv_index svc) of
        Inl e \<Rightarrow> Inl (internal_status e)
      | Inr entries \<Rightarrow> Inr (map entry_to_capability entries))"

fun watch_item :: "attrs \<Rightarrow> RegistryChangedEvent recv \<Rightarrow> RegistryEvent rpc option" where
  "watch_item template (Received evt) =
     (if matches (parse_template template) (combined_attrs (rce_entry evt))
      then Some (Inr \<lparr>rev_type = rce_event_type evt, rev_capability = Some (entry_to_capability (rce_entry evt))\<rparr>)
      else None)"
| "watch_item template (Lagged n) =
     Some (Inl (Status Code_DataLoss ''watcher lagged; resubscribe and re-snapshot''))"
| "watch_item template Closed = None"

definition RegistryService_watch :: "attrs \<Rightarrow> RegistryChangedEvent recv list \<Rightarrow> RegistryEvent rpc list" where
  "RegistryService_watch template rx = List.map_filter (watch_item template) (takeWhile (\<lambda>r. r \<noteq> Closed) rx)"

section \<open>The reclaim cascade\<close>

text \<open>
  The loop of \<^verbatim>\<open>spawn_cascade\<close> over the receptions of a lease manager's broadcast: handle, skip over a lag,
  stop when the channel closes.
\<close>

fun spawn_cascade :: "(LeaseReclaimed \<Rightarrow> 'st \<Rightarrow> 'st) \<Rightarrow> LeaseReclaimed recv list \<Rightarrow> 'st \<Rightarrow> 'st" where
  "spawn_cascade handler [] st = st"
| "spawn_cascade handler (Received event # rx) st = spawn_cascade handler rx (handler event st)"
| "spawn_cascade handler (Lagged n # rx) st = spawn_cascade handler rx st"
| "spawn_cascade handler (Closed # rx) st = st"

text \<open>The Registry's handler.\<close>

definition registry_cascade ::
  "'r RegistryStore \<Rightarrow> LeaseReclaimed \<Rightarrow> ('r, 'l) RegistryServiceImpl \<Rightarrow> ('r, 'l) RegistryServiceImpl"
where
  "registry_cascade R ev svc =
     (case RegistryIndex_unregister_by_lease R (lr_lease_id (rc_record ev)) (rsv_index svc) of
        (Inr (Some entry), s') \<Rightarrow>
          svc\<lparr>rsv_index := s', rsv_event_tx := rsv_event_tx svc @ [\<lparr>rce_event_type = 1, rce_entry = entry\<rparr>]\<rparr>
      | (_, s') \<Rightarrow> svc\<lparr>rsv_index := s'\<rparr>)"

abbreviation mem_leasing :: "chrono \<Rightarrow> InMemoryLeaseStore LeaseManager Leasing" where
  "mem_leasing c \<equiv> Leasing_of_LeaseManager (InMemoryLeaseStore_ops c)"

type_synonym mem_registry = "(InMemoryRegistryStore, InMemoryLeaseStore LeaseManager) RegistryServiceImpl"

abbreviation live_leases :: "InMemoryLeaseStore LeaseManager \<Rightarrow> string \<Rightarrow> LeaseRecord option" where
  "live_leases m \<equiv> fmlookup (leases (lm_store m))"

text \<open>The invariants of the two in-memory providers together.\<close>

definition mem_registry_ok :: "mem_registry \<Rightarrow> bool" where
  "mem_registry_ok svc \<longleftrightarrow>
     registry_index_ok (rsv_index svc) \<and> lease_keys_ok (lm_store (rsv_lease_manager svc))"

text \<open>A Registry with one service registered, for concrete runs.\<close>

definition demo_entry :: RegistryEntry where
  "demo_entry = \<lparr>re_capability_id = ''cap1'', re_lease_id = ''l1'', re_interface = ''Greeter'',
     re_attrs = fmupd ''zone'' ''eu'' fmempty, re_transport = None\<rparr>"

definition demo_registry :: mem_registry where
  "demo_registry = \<lparr>
     rsv_index = \<lparr>rm_entries = fmupd ''cap1'' demo_entry fmempty, rm_lease_index = fmupd ''l1'' ''cap1'' fmempty\<rparr>,
     rsv_lease_manager = demo_mgr1, rsv_event_tx = [], rsv_grantor_host = ''h'', rsv_grantor_port = 9002\<rparr>"

section \<open>What the handlers guarantee\<close>

named_theorems registry_defs \<open>handlers of the Registry\<close>

declare RegistryIndex_register_def [registry_defs] RegistryIndex_update_def [registry_defs]
  RegistryIndex_get_def [registry_defs] RegistryIndex_unregister_by_lease_def [registry_defs]
  RegistryIndex_lookup_def [registry_defs] RegistryIndex_lookup_all_def [registry_defs]
  RegistryService_reregister_def [registry_defs] RegistryService_register_new_def [registry_defs]
  RegistryService_register_def [registry_defs] RegistryService_modify_attrs_def [registry_defs]
  registry_cascade_def [registry_defs]

lemma transport_eq_iff [simp]: "transport_eq a b \<longleftrightarrow> a = b"
  by (cases "(a, b)" rule: transport_eq.cases) auto

lemma check_owner_Inr [simp]: "check_owner e l = Inr u \<longleftrightarrow> l = re_lease_id e \<and> l \<noteq> []"
  by (auto simp: check_owner_def)

lemma fmlookup_fold_fmdrop: "fmlookup (fold fmdrop ks m) k = (if k \<in> set ks then None else fmlookup m k)"
  by (induction ks arbitrary: m) auto

locale registry_service =
  lease: leasing L live lok + reg: registry_store R entries rok rvisits
  for L :: "'l Leasing" and live lok and R :: "'r RegistryStore" and entries rok rvisits
begin

text \<open>The two invariants together.\<close>

definition svc_ok :: "('r, 'l) RegistryServiceImpl \<Rightarrow> bool" where
  "svc_ok svc \<longleftrightarrow> rok (rsv_index svc) \<and> lok (rsv_lease_manager svc)"

lemma register_new_ok:
  assumes "svc_ok svc" "live (rsv_lease_manager svc) luid = None"
    "entries (rsv_index svc) cuid = None"
    "\<forall>k e. entries (rsv_index svc) k = Some e \<longrightarrow> re_lease_id e \<noteq> luid"
    "RegistryService_register_new R L now cuid luid r svc = (Inr resp, svc')"
  obtains lease entry where
    "svc_ok svc'" "entry = \<lparr>re_capability_id = cuid, re_lease_id = luid, re_interface = rq_interface r,
                            re_attrs = rq_attrs r, re_transport = rq_transport r\<rparr>"
    "entries (rsv_index svc') = (entries (rsv_index svc))(cuid \<mapsto> entry)"
    "live (rsv_lease_manager svc') = (live (rsv_lease_manager svc))(luid \<mapsto> lease)"
    "lr_lease_id lease = luid" "lr_resource_id lease = ''registry:'' @ cuid"
    "rsv_event_tx svc' = rsv_event_tx svc @ [\<lparr>rce_event_type = 0, rce_entry = entry\<rparr>]"
    "resp = \<lparr>rp_capability_id = cuid, rp_lease = Some (RegistryServiceImpl_lease_to_proto svc lease)\<rparr>"
proof -
  from assms(5) obtain lease l' u s' where
    g: "lg_grant L now luid (''registry:'' @ cuid) (rq_ttl_seconds r) (rsv_lease_manager svc) = (Inr lease, l')" and
    i: "rg_insert R \<lparr>re_capability_id = cuid, re_lease_id = lr_lease_id lease, re_interface = rq_interface r,
          re_attrs = rq_attrs r, re_transport = rq_transport r\<rparr> (rsv_index svc) = (Inr u, s')" and
    svc': "resp = \<lparr>rp_capability_id = cuid, rp_lease = Some (RegistryServiceImpl_lease_to_proto svc lease)\<rparr>"
      "svc' = svc\<lparr>rsv_lease_manager := l', rsv_index := s', rsv_event_tx := rsv_event_tx svc @
         [\<lparr>rce_event_type = 0, rce_entry = \<lparr>re_capability_id = cuid, re_lease_id = lr_lease_id lease,
           re_interface = rq_interface r, re_attrs = rq_attrs r, re_transport = rq_transport r\<rparr>\<rparr>]\<rparr>"
    by (auto simp: registry_defs Let_def split: prod.splits sum.splits)
  have ok: "rok (rsv_index svc)" "lok (rsv_lease_manager svc)" using assms(1) by (auto simp: svc_ok_def)
  note go = lease.grant_ok[OF ok(2) assms(2) g]
  have "rok s' \<and> entries s' = (entries (rsv_index svc))(cuid \<mapsto>
      \<lparr>re_capability_id = cuid, re_lease_id = luid, re_interface = rq_interface r,
       re_attrs = rq_attrs r, re_transport = rq_transport r\<rparr>)"
    using reg.insert_ok[OF ok(1) _ _ i] assms(3,4) go by simp
  moreover have "lok l'" using lease.grant_inv[OF ok(2) assms(2), of now "''registry:'' @ cuid" "rq_ttl_seconds r"] g by simp
  ultimately show thesis using that go svc' by (simp add: svc_ok_def)
qed

lemma not_owner_register:
  assumes "svc_ok svc" "entries (rsv_index svc) (rq_capability_id r) = Some e" "rq_lease_id r \<noteq> re_lease_id e"
    "rg_get R (rq_capability_id r) (rsv_index svc) = Inr x"
  shows "RegistryService_reregister R L now1 now2 r svc =
    (Inl (Status Code_PermissionDenied ''lease_id does not match the entry's current lease''), svc)"
  using assms reg.get_ok[OF _ assms(4)] by (auto simp: registry_defs check_owner_def svc_ok_def)

lemma reregister_ok:
  assumes "svc_ok svc" "RegistryService_reregister R L now1 now2 r svc = (Inr resp, svc')"
  obtains old lease entry where
    "svc_ok svc'" "entries (rsv_index svc) (rq_capability_id r) = Some old" "rq_lease_id r = re_lease_id old"
    "entry = \<lparr>re_capability_id = rq_capability_id r, re_lease_id = re_lease_id old, re_interface = rq_interface r,
              re_attrs = rq_attrs r, re_transport = rq_transport r\<rparr>"
    "entries (rsv_index svc') = (entries (rsv_index svc))(rq_capability_id r \<mapsto> entry)"
    "live (rsv_lease_manager svc') = (live (rsv_lease_manager svc))(re_lease_id old \<mapsto> lease)"
    "live (rsv_lease_manager svc) (re_lease_id old) \<noteq> None"
    "rsv_event_tx svc' = rsv_event_tx svc @ (if entry = old then [] else [\<lparr>rce_event_type = 2, rce_entry = entry\<rparr>])"
proof -
  have ok: "rok (rsv_index svc)" "lok (rsv_lease_manager svc)" using assms(1) by (auto simp: svc_ok_def)
  from assms(2) obtain old where get: "rg_get R (rq_capability_id r) (rsv_index svc) = Inr (Some old)"
    and own: "rq_lease_id r = re_lease_id old" "rq_lease_id r \<noteq> []"
    by (auto simp: registry_defs Let_def split: sum.splits option.splits prod.splits if_splits)
  define entry where "entry = \<lparr>re_capability_id = rq_capability_id r, re_lease_id = re_lease_id old,
     re_interface = rq_interface r, re_attrs = rq_attrs r, re_transport = rq_transport r\<rparr>"
  have old: "entries (rsv_index svc) (rq_capability_id r) = Some old" using reg.get_ok[OF ok(1) get] by simp
  have key: "re_capability_id old = rq_capability_id r" using reg.entries_key[OF ok(1) old] .
  have chg: "(re_interface old \<noteq> re_interface entry \<or> re_attrs old \<noteq> re_attrs entry \<or>
      re_transport old \<noteq> re_transport entry) \<longleftrightarrow> entry \<noteq> old"
    unfolding entry_def by (cases old) (use key in auto)
  have co: "check_owner old (rq_lease_id r) = Inr ()" using own by simp
  from assms(2) obtain lease l' where
    ren: "lg_renew L now1 now2 (re_lease_id old) (rq_ttl_seconds r) (rsv_lease_manager svc) = (Inr lease, l')"
    by (auto simp: registry_defs Let_def get co split: sum.splits prod.splits)
  note ro = lease.renew_ok[OF ok(2) ren]
  have lok: "lok l'" using lease.renew_inv[OF ok(2)] ren by (metis snd_conv)
  have others: "\<forall>k e'. entries (rsv_index svc) k = Some e' \<longrightarrow> k \<noteq> re_capability_id entry \<longrightarrow> re_lease_id e' \<noteq> re_lease_id entry"
    using reg.lease_unique[OF ok(1) old] by (auto simp: entry_def)
  show thesis
  proof (cases "entry = old")
    case True
    then have "svc' = svc\<lparr>rsv_lease_manager := l'\<rparr>"
      using assms(2) chg by (auto simp: registry_defs Let_def get co ren entry_def[symmetric])
    then show thesis
      using that[of old entry lease] ok lok ro old own True key by (auto simp: svc_ok_def entry_def fun_eq_iff)
  next
    case False
    then obtain x s' where up: "rg_update R entry (rsv_index svc) = (Inr x, s')"
      and svc': "svc' = svc\<lparr>rsv_lease_manager := l', rsv_index := s',
        rsv_event_tx := rsv_event_tx svc @ [\<lparr>rce_event_type = 2, rce_entry = entry\<rparr>]\<rparr>"
      using assms(2) chg
      by (auto simp: registry_defs Let_def get co ren entry_def[symmetric] split: sum.splits prod.splits if_splits)
    from reg.update_ok[OF ok(1) others up] old
    have "rok s'" "entries s' = (entries (rsv_index svc))(rq_capability_id r \<mapsto> entry)"
      by (auto simp: entry_def split: if_splits)
    then show thesis
      using that[of old entry lease] lok ro old own False svc' by (auto simp: svc_ok_def entry_def)
  qed
qed

lemma modify_attrs_ok:
  assumes "svc_ok svc" "RegistryService_modify_attrs R r svc = (Inr cap, svc')"
  obtains old entry where
    "svc_ok svc'" "entries (rsv_index svc) (mq_capability_id r) = Some old" "mq_lease_id r = re_lease_id old"
    "entry = old\<lparr>re_attrs := fmadd (fold fmdrop (mq_remove_attrs r) (re_attrs old)) (mq_add_attrs r)\<rparr>"
    "entries (rsv_index svc') = (entries (rsv_index svc))(mq_capability_id r \<mapsto> entry)"
    "rsv_lease_manager svc' = rsv_lease_manager svc"
    "rsv_event_tx svc' = rsv_event_tx svc @ [\<lparr>rce_event_type = 2, rce_entry = entry\<rparr>]"
    "cap = entry_to_capability entry"
proof -
  have ok: "rok (rsv_index svc)" "lok (rsv_lease_manager svc)" using assms(1) by (auto simp: svc_ok_def)
  from assms(2) obtain old where get: "rg_get R (mq_capability_id r) (rsv_index svc) = Inr (Some old)"
    and own: "mq_lease_id r = re_lease_id old" "mq_lease_id r \<noteq> []"
    by (auto simp: registry_defs Let_def split: sum.splits option.splits prod.splits)
  define entry where "entry = old\<lparr>re_attrs := fmadd (fold fmdrop (mq_remove_attrs r) (re_attrs old)) (mq_add_attrs r)\<rparr>"
  have old: "entries (rsv_index svc) (mq_capability_id r) = Some old" using reg.get_ok[OF ok(1) get] by simp
  have key: "re_capability_id entry = mq_capability_id r" using reg.entries_key[OF ok(1) old] by (simp add: entry_def)
  have co: "check_owner old (mq_lease_id r) = Inr ()" using own by simp
  obtain x s' where up: "rg_update R entry (rsv_index svc) = (Inr x, s')"
    and svc': "svc' = svc\<lparr>rsv_index := s', rsv_event_tx := rsv_event_tx svc @ [\<lparr>rce_event_type = 2, rce_entry = entry\<rparr>]\<rparr>"
      "cap = entry_to_capability entry"
    using assms(2)
    by (auto simp: registry_defs Let_def get co entry_def[symmetric] split: sum.splits prod.splits)
  have others: "\<forall>k e'. entries (rsv_index svc) k = Some e' \<longrightarrow> k \<noteq> re_capability_id entry \<longrightarrow> re_lease_id e' \<noteq> re_lease_id entry"
    using reg.lease_unique[OF ok(1) old] key by (auto simp: entry_def)
  from reg.update_ok[OF ok(1) others up] old key
  have "rok s'" "entries s' = (entries (rsv_index svc))(mq_capability_id r \<mapsto> entry)" by auto
  then show thesis using that[of old entry] ok old own svc' by (auto simp: svc_ok_def entry_def)
qed

lemma not_owner_modify:
  assumes "svc_ok svc" "entries (rsv_index svc) (mq_capability_id r) = Some e" "mq_lease_id r \<noteq> re_lease_id e"
    "rg_get R (mq_capability_id r) (rsv_index svc) = Inr x"
  shows "RegistryService_modify_attrs R r svc =
    (Inl (Status Code_PermissionDenied ''lease_id does not match the entry's current lease''), svc)"
  using assms reg.get_ok[OF _ assms(4)] by (auto simp: registry_defs check_owner_def svc_ok_def)

lemma cascade_ok:
  assumes "svc_ok svc" "rg_remove_by_lease R (lr_lease_id (rc_record ev)) (rsv_index svc) = (Inr x, s')"
  shows "svc_ok (registry_cascade R ev svc)"
    "rsv_lease_manager (registry_cascade R ev svc) = rsv_lease_manager svc"
    "entries (rsv_index (registry_cascade R ev svc)) k =
      (case entries (rsv_index svc) k of
         None \<Rightarrow> None
       | Some e \<Rightarrow> if re_lease_id e = lr_lease_id (rc_record ev) then None else Some e)"
    "rsv_event_tx (registry_cascade R ev svc) = rsv_event_tx svc @
      (case x of None \<Rightarrow> [] | Some e \<Rightarrow> [\<lparr>rce_event_type = 1, rce_entry = e\<rparr>])"
    "x = Some e \<Longrightarrow> entries (rsv_index svc) (re_capability_id e) = Some e \<and> re_lease_id e = lr_lease_id (rc_record ev)"
    "x = None \<Longrightarrow> entries (rsv_index svc) j = Some e' \<Longrightarrow> re_lease_id e' \<noteq> lr_lease_id (rc_record ev)"
proof -
  have ok: "rok (rsv_index svc)" "lok (rsv_lease_manager svc)" using assms(1) by (auto simp: svc_ok_def)
  show "rsv_lease_manager (registry_cascade R ev svc) = rsv_lease_manager svc"
    "rsv_event_tx (registry_cascade R ev svc) = rsv_event_tx svc @
      (case x of None \<Rightarrow> [] | Some e \<Rightarrow> [\<lparr>rce_event_type = 1, rce_entry = e\<rparr>])"
    using assms(2) by (auto simp: registry_defs split: option.splits)
  have idx: "rsv_index (registry_cascade R ev svc) = s'"
    using assms(2) by (auto simp: registry_defs split: option.splits)
  show "x = Some e \<Longrightarrow> entries (rsv_index svc) (re_capability_id e) = Some e \<and> re_lease_id e = lr_lease_id (rc_record ev)"
    using reg.remove_Some[OF ok(1), of _ e s'] assms(2) by auto
  show "x = None \<Longrightarrow> entries (rsv_index svc) j = Some e' \<Longrightarrow> re_lease_id e' \<noteq> lr_lease_id (rc_record ev)"
    using reg.remove_None[OF ok(1), of _ s'] assms(2) by auto
  have "rok s'" using reg.remove_Some[OF ok(1)] reg.remove_None[OF ok(1)] assms(2) by (cases x) auto
  then show "svc_ok (registry_cascade R ev svc)"
    using ok idx \<open>rsv_lease_manager (registry_cascade R ev svc) = rsv_lease_manager svc\<close> by (simp add: svc_ok_def)
  show "entries (rsv_index (registry_cascade R ev svc)) k =
      (case entries (rsv_index svc) k of
         None \<Rightarrow> None
       | Some e \<Rightarrow> if re_lease_id e = lr_lease_id (rc_record ev) then None else Some e)"
  proof (cases x)
    case None
    then show ?thesis
      using reg.remove_None[OF ok(1), of _ s'] assms(2) by (auto simp: idx split: option.splits)
  next
    case (Some e0)
    then have r: "entries (rsv_index svc) (re_capability_id e0) = Some e0" "re_lease_id e0 = lr_lease_id (rc_record ev)"
      "entries s' = (entries (rsv_index svc))(re_capability_id e0 := None)"
      using reg.remove_Some[OF ok(1), of _ e0 s'] assms(2) by auto
    show ?thesis
    proof (cases "k = re_capability_id e0")
      case True
      then show ?thesis using r by (simp add: idx)
    next
      case False
      have "re_lease_id e1 \<noteq> re_lease_id e0" if "entries (rsv_index svc) k = Some e1" for e1
        using reg.lease_unique[OF ok(1) r(1) that] False by metis
      then show ?thesis using r False by (simp add: idx split: option.split)
    qed
  qed
qed

lemma lookup_ok:
  assumes "rok s" "rvisits ks s" "RegistryIndex_lookup R ks t s = Inr x"
  shows "case x of
      Some e \<Rightarrow> entries s (re_capability_id e) = Some e \<and> matches (parse_template t) (combined_attrs e)
    | None \<Rightarrow> \<forall>k e. entries s k = Some e \<longrightarrow> \<not> matches (parse_template t) (combined_attrs e)"
proof -
  from assms(3) obtain es where es: "rg_list_all R ks s = Inr es"
    and x: "x = List.find (\<lambda>e. matches (parse_template t) (combined_attrs e)) es"
    by (auto simp: registry_defs Let_def split: sum.splits)
  show ?thesis
  proof (cases x)
    case None
    then have "\<forall>e \<in> set es. \<not> matches (parse_template t) (combined_attrs e)" using x by (simp add: find_eq_None)
    then show ?thesis using None reg.list_all_ok[OF assms(1,2) es] reg.entries_key[OF assms(1)] by fastforce
  next
    case (Some e)
    with x have "e \<in> set es" "matches (parse_template t) (combined_attrs e)"
      using find_eq_Some_prop[of "\<lambda>e. matches (parse_template t) (combined_attrs e)" es e] by simp_all
    then show ?thesis using Some reg.list_all_ok[OF assms(1,2) es, of e] by simp
  qed
qed

lemma lookup_all_ok:
  assumes "rok s" "rvisits ks s" "RegistryIndex_lookup_all R ks t s = Inr es"
  shows "distinct (map re_capability_id es)"
    "e \<in> set es \<longleftrightarrow> entries s (re_capability_id e) = Some e \<and> matches (parse_template t) (combined_attrs e)"
  using assms(3) reg.list_all_ok[OF assms(1,2)] reg.list_all_distinct[OF assms(1,2)]
  by (auto simp: registry_defs Let_def distinct_map_filter split: sum.splits)

end

interpretation mem_rs: registry_service "mem_leasing c" live_leases "\<lambda>m. lease_keys_ok (lm_store m)"
  InMemoryRegistryStore_ops "\<lambda>s. fmlookup (rm_entries s)" registry_index_ok "\<lambda>ks s. iterates ks (rm_entries s)" for c
  by unfold_locales

lemma mem_svc_ok [simp]: "mem_rs.svc_ok svc \<longleftrightarrow> mem_registry_ok svc"
  by (simp add: mem_rs.svc_ok_def mem_registry_ok_def)

section \<open>Properties\<close>

abbreviation mem_register where
  "mem_register c \<equiv> RegistryService_register InMemoryRegistryStore_ops (mem_leasing c)"

abbreviation mem_entries :: "mem_registry \<Rightarrow> string \<Rightarrow> RegistryEntry option" where
  "mem_entries svc \<equiv> fmlookup (rm_entries (rsv_index svc))"

lemma mem_get_Inr [simp]: "rg_get InMemoryRegistryStore_ops k s = Inr (fmlookup (rm_entries s) k)"
  by (simp add: mem_registry_defs)

lemma mem_update_total: "\<exists>x s'. rg_update InMemoryRegistryStore_ops e s = (Inr x, s')"
  by (simp add: mem_registry_defs Let_def)

lemma mem_insert_total: "\<exists>s'. rg_insert InMemoryRegistryStore_ops e s = (Inr (), s')"
  by (simp add: mem_registry_defs)

lemma mem_remove_total: "\<exists>x s'. rg_remove_by_lease InMemoryRegistryStore_ops l s = (Inr x, s')"
  by (cases "fmlookup (rm_lease_index s) l") (auto simp: mem_registry_defs)

text \<open>
  C9: a new registration is stored under its fresh capability id with exactly the requested data, is backed
  by a live lease on \<^verbatim>\<open>registry:<id>\<close> and announced once as \<^verbatim>\<open>REGISTERED\<close>; when that lease is later reclaimed,
  this entry and no other disappears, announced once as \<^verbatim>\<open>EXPIRED\<close>.
\<close>

theorem registered_until_reclaimed:
  assumes "mem_registry_ok svc" "live_leases (rsv_lease_manager svc) luid = None" "mem_entries svc cuid = None"
    "\<forall>k e. mem_entries svc k = Some e \<longrightarrow> re_lease_id e \<noteq> luid"
    "rq_capability_id r = []"
    "mem_register c now1 now2 cuid luid r svc = (Inr resp, svc')"
  shows "\<exists>entry lease. entry = \<lparr>re_capability_id = cuid, re_lease_id = luid, re_interface = rq_interface r,
        re_attrs = rq_attrs r, re_transport = rq_transport r\<rparr> \<and>
      rp_capability_id resp = cuid \<and>
      mem_entries svc' = (mem_entries svc)(cuid \<mapsto> entry) \<and>
      live_leases (rsv_lease_manager svc') luid = Some lease \<and> lr_resource_id lease = ''registry:'' @ cuid \<and>
      rsv_event_tx svc' = rsv_event_tx svc @ [\<lparr>rce_event_type = 0, rce_entry = entry\<rparr>] \<and>
      (\<forall>ev. lr_lease_id (rc_record ev) = luid \<longrightarrow>
         mem_entries (registry_cascade InMemoryRegistryStore_ops ev svc') = mem_entries svc \<and>
         rsv_event_tx (registry_cascade InMemoryRegistryStore_ops ev svc') =
           rsv_event_tx svc' @ [\<lparr>rce_event_type = 1, rce_entry = entry\<rparr>])"
proof -
  have reg: "RegistryService_register_new InMemoryRegistryStore_ops (mem_leasing c) now1 cuid luid r svc = (Inr resp, svc')"
    using assms(5,6) by (simp add: RegistryService_register_def)
  have sok: "mem_rs.svc_ok svc" using assms(1) by simp
  obtain lease entry where sok': "mem_rs.svc_ok svc'" and entry: "entry = \<lparr>re_capability_id = cuid, re_lease_id = luid,
        re_interface = rq_interface r, re_attrs = rq_attrs r, re_transport = rq_transport r\<rparr>"
    and ents: "mem_entries svc' = (mem_entries svc)(cuid \<mapsto> entry)"
    and live: "live_leases (rsv_lease_manager svc') = (live_leases (rsv_lease_manager svc))(luid \<mapsto> lease)"
    and res: "lr_resource_id lease = ''registry:'' @ cuid"
    and tx: "rsv_event_tx svc' = rsv_event_tx svc @ [\<lparr>rce_event_type = 0, rce_entry = entry\<rparr>]"
    and resp: "resp = \<lparr>rp_capability_id = cuid, rp_lease = Some (RegistryServiceImpl_lease_to_proto svc lease)\<rparr>"
    by (rule mem_rs.register_new_ok[OF sok assms(2-4) reg]) blast
  have casc: "mem_entries (registry_cascade InMemoryRegistryStore_ops ev svc') = mem_entries svc \<and>
         rsv_event_tx (registry_cascade InMemoryRegistryStore_ops ev svc') =
           rsv_event_tx svc' @ [\<lparr>rce_event_type = 1, rce_entry = entry\<rparr>]"
    if ev: "lr_lease_id (rc_record ev) = luid" for ev
  proof -
    obtain x s' where rm: "rg_remove_by_lease InMemoryRegistryStore_ops (lr_lease_id (rc_record ev)) (rsv_index svc') = (Inr x, s')"
      using mem_remove_total by blast
    note ca = mem_rs.cascade_ok[OF sok' rm]
    have ent: "mem_entries svc' cuid = Some entry" "re_lease_id entry = luid" using ents entry by simp_all
    obtain e1 where x: "x = Some e1" using ca(6)[OF _ ent(1)] ent(2) ev by (cases x) auto
    have "mem_entries svc' (re_capability_id e1) = Some e1" "re_lease_id e1 = luid" using ca(5)[OF x] ev by auto
    then have "e1 = entry" using assms(4) by (simp add: ents split: if_splits)
    moreover have "mem_entries (registry_cascade InMemoryRegistryStore_ops ev svc') k = mem_entries svc k" for k
      unfolding ca(3)[of k] using ents ent(2) assms(3,4) ev by (simp split: option.split)
    ultimately show ?thesis using ca(4) x by (simp add: fun_eq_iff)
  qed
  show ?thesis
    by (intro exI[of _ entry] exI[of _ lease] conjI allI impI)
       (use entry ents live res tx resp casc in simp_all)
qed

lemma demo_registry_ok: "mem_registry_ok demo_registry"
  by (auto simp: mem_registry_ok_def registry_index_ok_def demo_registry_def demo_entry_def demo_keys_ok)

theorem registered_until_reclaimed_witness:
  "\<exists>resp svc'. mem_register chrono_std 2000 2000 ''cap2'' ''l2''
       \<lparr>rq_interface = ''Clock'', rq_attrs = fmempty, rq_ttl_seconds = 60, rq_transport = None,
        rq_capability_id = [], rq_lease_id = []\<rparr> demo_registry = (Inr resp, svc') \<and>
     mem_entries svc' ''cap2'' \<noteq> None \<and>
     mem_entries (registry_cascade InMemoryRegistryStore_ops
       \<lparr>rc_record = demo_lease\<lparr>lr_lease_id := ''l2''\<rparr>, rc_reason = Expired\<rparr> svc') = mem_entries demo_registry"
proof -
  let ?r = "\<lparr>rq_interface = ''Clock'', rq_attrs = fmempty, rq_ttl_seconds = 60, rq_transport = None,
        rq_capability_id = [], rq_lease_id = []\<rparr>"
  obtain resp svc' where reg: "mem_register chrono_std 2000 2000 ''cap2'' ''l2'' ?r demo_registry = (Inr resp, svc')"
    by (simp add: registry_defs mem_registry_defs Leasing_of_LeaseManager_def lease_defs mem_lease_defs
      demo_registry_def demo_defs expiry_for_def checked_expiry_def negotiate_def LEASE_ANY_def LEASE_FOREVER_def Let_def)
  have "live_leases (rsv_lease_manager demo_registry) ''l2'' = None" "mem_entries demo_registry ''cap2'' = None"
    "\<forall>k e. mem_entries demo_registry k = Some e \<longrightarrow> re_lease_id e \<noteq> ''l2''"
    by (simp_all add: demo_registry_def demo_entry_def demo_mgr1_def lease_defs)
  from registered_until_reclaimed[OF demo_registry_ok this _ reg] reg show ?thesis by fastforce
qed

text \<open>
  C36: only the holder of an entry's current lease can change it. A re-registration or an attribute change
  that presents any other lease id, or none, is answered \<^verbatim>\<open>PERMISSION_DENIED\<close> and changes neither the store,
  nor any lease, nor the event stream.
\<close>

theorem only_owner_changes_entry:
  assumes "mem_registry_ok svc"
  shows "(\<forall>e. mem_entries svc (rq_capability_id r) = Some e \<longrightarrow> rq_lease_id r \<noteq> re_lease_id e \<longrightarrow>
       rq_capability_id r \<noteq> [] \<longrightarrow>
       (\<exists>msg. mem_register c now1 now2 cuid luid r svc = (Inl (Status Code_PermissionDenied msg), svc))) \<and>
    (\<forall>e. mem_entries svc (mq_capability_id q) = Some e \<longrightarrow> mq_lease_id q \<noteq> re_lease_id e \<longrightarrow>
       (\<exists>msg. RegistryService_modify_attrs InMemoryRegistryStore_ops q svc = (Inl (Status Code_PermissionDenied msg), svc)))"
  using mem_rs.not_owner_register[OF _ _ _ mem_get_Inr, of svc r] mem_rs.not_owner_modify[OF _ _ _ mem_get_Inr, of svc q] assms
  by (auto simp: RegistryService_register_def)

theorem only_owner_changes_entry_witness:
  "\<exists>msg. RegistryService_modify_attrs InMemoryRegistryStore_ops
     \<lparr>mq_capability_id = ''cap1'', mq_add_attrs = fmempty, mq_remove_attrs = [''zone''], mq_lease_id = ''l9''\<rparr> demo_registry
     = (Inl (Status Code_PermissionDenied msg), demo_registry)"
  using only_owner_changes_entry[OF demo_registry_ok,
    of undefined undefined undefined undefined undefined undefined "\<lparr>mq_capability_id = ''cap1'', mq_add_attrs = fmempty, mq_remove_attrs = [''zone''], mq_lease_id = ''l9''\<rparr>"]
  by (simp add: demo_registry_def demo_entry_def)

text \<open>
  A successful re-registration keeps the capability id and the lease, replaces interface, attributes and
  transport by the requested ones, renews the lease, and announces \<^verbatim>\<open>MODIFIED\<close> exactly when something
  other than the lease changed: a pure renewal wakes no watcher.
\<close>

theorem reregister_effect:
  assumes "mem_registry_ok svc" "rq_capability_id r \<noteq> []"
    "mem_register c now1 now2 cuid luid r svc = (Inr resp, svc')"
  shows "\<exists>old entry. mem_entries svc (rq_capability_id r) = Some old \<and> rq_lease_id r = re_lease_id old \<and>
      entry = \<lparr>re_capability_id = rq_capability_id r, re_lease_id = re_lease_id old, re_interface = rq_interface r,
               re_attrs = rq_attrs r, re_transport = rq_transport r\<rparr> \<and>
      mem_entries svc' = (mem_entries svc)(rq_capability_id r \<mapsto> entry) \<and>
      live_leases (rsv_lease_manager svc) (re_lease_id old) \<noteq> None \<and>
      live_leases (rsv_lease_manager svc') (re_lease_id old) \<noteq> None \<and>
      rsv_event_tx svc' = rsv_event_tx svc @
        (if entry = old then [] else [\<lparr>rce_event_type = 2, rce_entry = entry\<rparr>])"
proof -
  have re: "RegistryService_reregister InMemoryRegistryStore_ops (mem_leasing c) now1 now2 r svc = (Inr resp, svc')"
    using assms(2,3) by (simp add: RegistryService_register_def)
  have sok: "mem_rs.svc_ok svc" using assms(1) by simp
  obtain old lease entry where o: "mem_entries svc (rq_capability_id r) = Some old" "rq_lease_id r = re_lease_id old"
    "entry = \<lparr>re_capability_id = rq_capability_id r, re_lease_id = re_lease_id old, re_interface = rq_interface r,
              re_attrs = rq_attrs r, re_transport = rq_transport r\<rparr>"
    "mem_entries svc' = (mem_entries svc)(rq_capability_id r \<mapsto> entry)"
    "live_leases (rsv_lease_manager svc') = (live_leases (rsv_lease_manager svc))(re_lease_id old \<mapsto> lease)"
    "live_leases (rsv_lease_manager svc) (re_lease_id old) \<noteq> None"
    "rsv_event_tx svc' = rsv_event_tx svc @ (if entry = old then [] else [\<lparr>rce_event_type = 2, rce_entry = entry\<rparr>])"
    by (rule mem_rs.reregister_ok[OF sok re]) blast
  have "live_leases (rsv_lease_manager svc') (re_lease_id old) \<noteq> None" using o(5) by simp
  with o(1-4,6,7) show ?thesis by blast
qed

theorem reregister_effect_witness:
  "\<exists>resp svc'. mem_register chrono_std 2000 2001 ''x'' ''y''
       \<lparr>rq_interface = ''Greeter'', rq_attrs = fmupd ''zone'' ''eu'' fmempty, rq_ttl_seconds = 60, rq_transport = None,
        rq_capability_id = ''cap1'', rq_lease_id = ''l1''\<rparr> demo_registry = (Inr resp, svc') \<and>
     rsv_event_tx svc' = []"
proof -
  let ?r = "\<lparr>rq_interface = ''Greeter'', rq_attrs = fmupd ''zone'' ''eu'' fmempty, rq_ttl_seconds = 60,
        rq_transport = None, rq_capability_id = ''cap1'', rq_lease_id = ''l1''\<rparr>"
  obtain resp svc' where reg: "mem_register chrono_std 2000 2001 ''x'' ''y'' ?r demo_registry = (Inr resp, svc')"
    by (simp add: registry_defs mem_registry_defs Leasing_of_LeaseManager_def lease_defs mem_lease_defs check_owner_def
      demo_registry_def demo_entry_def demo_defs expiry_for_def checked_expiry_def negotiate_def is_expired_def
      LEASE_ANY_def LEASE_FOREVER_def Let_def)
  from reregister_effect[OF demo_registry_ok _ reg] reg show ?thesis
    by (auto simp: demo_registry_def demo_entry_def)
qed

text \<open>
  Changing attributes removes the listed keys and then adds the given ones, so that a key in both ends up
  with the added value; identity, lease, interface and transport stay, and \<^verbatim>\<open>MODIFIED\<close> is announced once.
\<close>

theorem modify_attrs_effect:
  assumes "mem_registry_ok svc" "RegistryService_modify_attrs InMemoryRegistryStore_ops q svc = (Inr cap, svc')"
  shows "\<exists>old attrs'. mem_entries svc (mq_capability_id q) = Some old \<and>
      mem_entries svc' = (mem_entries svc)(mq_capability_id q \<mapsto> old\<lparr>re_attrs := attrs'\<rparr>) \<and>
      (\<forall>k. fmlookup attrs' k =
         (case fmlookup (mq_add_attrs q) k of
            Some v \<Rightarrow> Some v
          | None \<Rightarrow> if k \<in> set (mq_remove_attrs q) then None else fmlookup (re_attrs old) k)) \<and>
      cap = entry_to_capability (old\<lparr>re_attrs := attrs'\<rparr>) \<and>
      rsv_event_tx svc' = rsv_event_tx svc @ [\<lparr>rce_event_type = 2, rce_entry = old\<lparr>re_attrs := attrs'\<rparr>\<rparr>]"
proof -
  have sok: "mem_rs.svc_ok svc" using assms(1) by simp
  obtain old entry where o: "mem_entries svc (mq_capability_id q) = Some old"
    "entry = old\<lparr>re_attrs := fmadd (fold fmdrop (mq_remove_attrs q) (re_attrs old)) (mq_add_attrs q)\<rparr>"
    "mem_entries svc' = (mem_entries svc)(mq_capability_id q \<mapsto> entry)"
    "rsv_event_tx svc' = rsv_event_tx svc @ [\<lparr>rce_event_type = 2, rce_entry = entry\<rparr>]"
    "cap = entry_to_capability entry"
    by (rule mem_rs.modify_attrs_ok[OF sok assms(2)]) blast
  let ?a = "fmadd (fold fmdrop (mq_remove_attrs q) (re_attrs old)) (mq_add_attrs q)"
  have "fmlookup ?a k = (case fmlookup (mq_add_attrs q) k of
            Some v \<Rightarrow> Some v
          | None \<Rightarrow> if k \<in> set (mq_remove_attrs q) then None else fmlookup (re_attrs old) k)" for k
    by (auto simp: fmlookup_fold_fmdrop fmlookup_dom_iff split: option.splits)
  with o show ?thesis by (intro exI[of _ old] exI[of _ ?a]) simp
qed

theorem modify_attrs_effect_witness:
  "\<exists>cap svc'. RegistryService_modify_attrs InMemoryRegistryStore_ops
      \<lparr>mq_capability_id = ''cap1'', mq_add_attrs = fmupd ''zone'' ''us'' fmempty, mq_remove_attrs = [''zone''],
       mq_lease_id = ''l1''\<rparr> demo_registry = (Inr cap, svc') \<and>
    fmlookup (cap_attrs cap) ''zone'' = Some ''us''"
proof -
  let ?q = "\<lparr>mq_capability_id = ''cap1'', mq_add_attrs = fmupd ''zone'' ''us'' fmempty, mq_remove_attrs = [''zone''],
       mq_lease_id = ''l1''\<rparr>"
  obtain cap svc' where m: "RegistryService_modify_attrs InMemoryRegistryStore_ops ?q demo_registry = (Inr cap, svc')"
    by (simp add: registry_defs mem_registry_defs check_owner_def demo_registry_def demo_entry_def Let_def)
  from modify_attrs_effect[OF demo_registry_ok m] obtain a old where
    e: "\<forall>k. fmlookup a k =
         (case fmlookup (mq_add_attrs ?q) k of
            Some v \<Rightarrow> Some v
          | None \<Rightarrow> if k \<in> set (mq_remove_attrs ?q) then None else fmlookup (re_attrs old) k)"
      "cap = entry_to_capability (old\<lparr>re_attrs := a\<rparr>)"
    by blast
  have "fmlookup a ''zone'' = Some ''us''" using e(1)[rule_format, of "''zone''"] by simp
  with m e(2) show ?thesis by (auto simp: entry_to_capability_def)
qed



end
