(* ===== verification/Txn.thy ===== *)
theory Txn
  imports Txn_Store Allowlist Registry
begin

text \<open>
  The transaction manager, \<^verbatim>\<open>coordin8-txn/src/manager.rs\<close>, and its gRPC front,
  \<^verbatim>\<open>coordin8-txn/src/service.rs\<close>: begin, enlist, abort, abort on lease expiry, and two-phase commit.

  The participants and the network between them and the manager are a parameter: a function that answers
  a call, over a state of its own. Calls that the code makes in parallel (\<^verbatim>\<open>join_all\<close>) take effect in an
  order given as an argument, and their results are collected by position, as \<^verbatim>\<open>join_all\<close> does.
\<close>

section \<open>Participants\<close>

datatype participant_call =
    CallPrepare string string
  | CallCommit string string
  | CallAbort string string
  | CallPrepareAndCommit string string

datatype net_reply = InvalidEndpoint string | ConnectFailed string | RpcFailed string | Reply int

type_synonym 'w net = "participant_call \<Rightarrow> 'w \<Rightarrow> net_reply \<times> 'w"

text \<open>The error text of a failed call: \<^verbatim>\<open>connect_to\<close>, \<^verbatim>\<open>connect\<close> and the call itself.\<close>

fun call_result :: "string \<Rightarrow> string \<Rightarrow> net_reply \<Rightarrow> int result" where
  "call_result rpc endpoint (InvalidEndpoint m) = Inl (Internal (''invalid endpoint '' @ quoted endpoint @ '': '' @ m))"
| "call_result rpc endpoint (ConnectFailed m) = Inl (Internal (''connect to '' @ endpoint @ '' failed: '' @ m))"
| "call_result rpc endpoint (RpcFailed m) = Inl (Internal (rpc @ '' rpc to '' @ endpoint @ '' failed: '' @ m))"
| "call_result rpc endpoint (Reply v) = Inr v"

definition vote_from_i32 :: "int \<Rightarrow> PrepareVote" where
  "vote_from_i32 v = (if v = 0 then VotePrepared else if v = 1 then VoteNotChanged else VoteAborted)"

definition call_prepare :: "'w net \<Rightarrow> string \<Rightarrow> string \<Rightarrow> 'w \<Rightarrow> PrepareVote result \<times> 'w" where
  "call_prepare N endpoint txn_id w =
     (case N (CallPrepare endpoint txn_id) w of
        (reply, w') \<Rightarrow> (map_sum id vote_from_i32 (call_result ''prepare'' endpoint reply), w'))"

definition call_commit :: "'w net \<Rightarrow> string \<Rightarrow> string \<Rightarrow> 'w \<Rightarrow> unit result \<times> 'w" where
  "call_commit N endpoint txn_id w =
     (case N (CallCommit endpoint txn_id) w of
        (reply, w') \<Rightarrow> (map_sum id (\<lambda>_. ()) (call_result ''commit'' endpoint reply), w'))"

definition call_abort :: "'w net \<Rightarrow> string \<Rightarrow> string \<Rightarrow> 'w \<Rightarrow> unit result \<times> 'w" where
  "call_abort N endpoint txn_id w =
     (case N (CallAbort endpoint txn_id) w of
        (reply, w') \<Rightarrow> (map_sum id (\<lambda>_. ()) (call_result ''abort'' endpoint reply), w'))"

definition call_prepare_and_commit :: "'w net \<Rightarrow> string \<Rightarrow> string \<Rightarrow> 'w \<Rightarrow> PrepareVote result \<times> 'w" where
  "call_prepare_and_commit N endpoint txn_id w =
     (case N (CallPrepareAndCommit endpoint txn_id) w of
        (reply, w') \<Rightarrow> (map_sum id vote_from_i32 (call_result ''prepare_and_commit'' endpoint reply), w'))"

text \<open>\<^verbatim>\<open>join_all\<close>: every future runs once, in the order given; the results come back by position.\<close>

fun run_in_order :: "nat list \<Rightarrow> ('w \<Rightarrow> 'r \<times> 'w) list \<Rightarrow> 'w \<Rightarrow> (nat \<times> 'r) list \<times> 'w" where
  "run_in_order [] futs w = ([], w)"
| "run_in_order (i # is) futs w =
     (case (futs ! i) w of
        (r, w1) \<Rightarrow> (case run_in_order is futs w1 of (rs, w2) \<Rightarrow> ((i, r) # rs, w2)))"

definition join_all :: "nat list \<Rightarrow> ('w \<Rightarrow> 'r \<times> 'w) list \<Rightarrow> 'w \<Rightarrow> 'r list \<times> 'w" where
  "join_all order futs w =
     (case run_in_order order futs w of
        (rs, w') \<Rightarrow> (List.map_filter (map_of rs) [0..<length futs], w'))"

text \<open>A schedule gives, for every phase and number of calls, an order in which each call runs once.\<close>

definition schedule_ok :: "(nat \<Rightarrow> nat \<Rightarrow> nat list) \<Rightarrow> bool" where
  "schedule_ok sched \<longleftrightarrow> (\<forall>ph n. distinct (sched ph n) \<and> set (sched ph n) = {..<n})"

section \<open>The manager\<close>

record ('s, 'l, 'w) TxnManager =
  tm_store :: 's
  tm_lease_manager :: 'l
  tm_allowlist :: ParticipantAllowlist
  tm_world :: 'w

definition TxnManager_begin ::
  "'s TxnStore \<Rightarrow> 'l Leasing \<Rightarrow> time \<Rightarrow> time \<Rightarrow> string \<Rightarrow> string \<Rightarrow> u64 \<Rightarrow> ('s, 'l, 'w) TxnManager
   \<Rightarrow> (string \<times> LeaseRecord) result \<times> ('s, 'l, 'w) TxnManager"
where
  "TxnManager_begin T L now1 now2 txn_uid lease_uid ttl_secs m =
     (case lg_grant L now1 lease_uid (''txn:'' @ txn_uid) ttl_secs (tm_lease_manager m) of
        (Inl e, l') \<Rightarrow> (Inl e, m\<lparr>tm_lease_manager := l'\<rparr>)
      | (Inr lease, l') \<Rightarrow>
          let m1 = m\<lparr>tm_lease_manager := l'\<rparr>;
              record = \<lparr>tx_txn_id = txn_uid, tx_lease_id = lr_lease_id lease, tx_state = Active,
                        tx_participants = [], tx_begun_at = now2\<rparr>
          in case ts_create T record (tm_store m1) of
               (Inl e, s') \<Rightarrow> (Inl e, m1\<lparr>tm_store := s'\<rparr>)
             | (Inr _, s') \<Rightarrow> (Inr (txn_uid, lease), m1\<lparr>tm_store := s'\<rparr>))"

definition TxnManager_enlist ::
  "'s TxnStore \<Rightarrow> string \<Rightarrow> string \<Rightarrow> u64 \<Rightarrow> ('s, 'l, 'w) TxnManager \<Rightarrow> unit result \<times> ('s, 'l, 'w) TxnManager"
where
  "TxnManager_enlist T txn_id endpoint crash_count m =
     (case check (tm_allowlist m) endpoint of
        Inl e \<Rightarrow> (Inl e, m)
      | Inr _ \<Rightarrow>
          (case ts_add_participant T txn_id \<lparr>pr_endpoint = endpoint, pr_crash_count = crash_count\<rparr> (tm_store m) of
             (Inl e, s') \<Rightarrow> (Inl e, m\<lparr>tm_store := s'\<rparr>)
           | (Inr _, s') \<Rightarrow> (Inr (), m\<lparr>tm_store := s'\<rparr>)))"

definition TxnManager_fetch ::
  "'s TxnStore \<Rightarrow> string \<Rightarrow> ('s, 'l, 'w) TxnManager \<Rightarrow> TransactionRecord result"
where
  "TxnManager_fetch T txn_id m =
     (case ts_get T txn_id (tm_store m) of
        Inl e \<Rightarrow> Inl e
      | Inr None \<Rightarrow> Inl (TransactionNotFound txn_id)
      | Inr (Some r) \<Rightarrow> Inr r)"

definition TxnManager_get_state ::
  "'s TxnStore \<Rightarrow> string \<Rightarrow> ('s, 'l, 'w) TxnManager \<Rightarrow> TransactionState result"
where
  "TxnManager_get_state T txn_id m = map_sum id tx_state (TxnManager_fetch T txn_id m)"

definition do_abort_participants ::
  "'w net \<Rightarrow> nat list \<Rightarrow> string \<Rightarrow> ParticipantRecord list \<Rightarrow> 'w \<Rightarrow> 'w"
where
  "do_abort_participants N order txn_id participants w =
     snd (join_all order (map (\<lambda>p. call_abort N (pr_endpoint p) txn_id) participants) w)"

text \<open>\<^verbatim>\<open>lease_manager.cancel(..).await.ok()\<close>: the outcome is dropped.\<close>

definition cancel_lease :: "'l Leasing \<Rightarrow> string \<Rightarrow> ('s, 'l, 'w) TxnManager \<Rightarrow> ('s, 'l, 'w) TxnManager" where
  "cancel_lease L lease_id m = m\<lparr>tm_lease_manager := snd (lg_cancel L lease_id (tm_lease_manager m))\<rparr>"

definition TxnManager_abort_expired ::
  "'s TxnStore \<Rightarrow> 'w net \<Rightarrow> (nat \<Rightarrow> nat \<Rightarrow> nat list) \<Rightarrow> string \<Rightarrow> ('s, 'l, 'w) TxnManager
   \<Rightarrow> unit result \<times> ('s, 'l, 'w) TxnManager"
where
  "TxnManager_abort_expired T N sched txn_id m =
     (case ts_update_state_if T txn_id Active Aborted (tm_store m) of
        (Inr False, s') \<Rightarrow> (Inr (), m\<lparr>tm_store := s'\<rparr>)
      | (Inl (TransactionNotFound x), s') \<Rightarrow> (Inr (), m\<lparr>tm_store := s'\<rparr>)
      | (Inl e, s') \<Rightarrow> (Inl e, m\<lparr>tm_store := s'\<rparr>)
      | (Inr True, s') \<Rightarrow>
          let m1 = m\<lparr>tm_store := s'\<rparr> in
          case ts_get T txn_id (tm_store m1) of
            Inl e \<Rightarrow> (Inl e, m1)
          | Inr None \<Rightarrow> (Inr (), m1)
          | Inr (Some txn) \<Rightarrow>
              (Inr (), m1\<lparr>tm_world := do_abort_participants N (sched 0 (length (tx_participants txn))) txn_id
                                      (tx_participants txn) (tm_world m1)\<rparr>))"

definition TxnManager_abort ::
  "'s TxnStore \<Rightarrow> 'l Leasing \<Rightarrow> 'w net \<Rightarrow> (nat \<Rightarrow> nat \<Rightarrow> nat list) \<Rightarrow> string \<Rightarrow> ('s, 'l, 'w) TxnManager
   \<Rightarrow> unit result \<times> ('s, 'l, 'w) TxnManager"
where
  "TxnManager_abort T L N sched txn_id m =
     (case ts_update_state_if T txn_id Active Aborted (tm_store m) of
        (Inl e, s') \<Rightarrow> (Inl e, m\<lparr>tm_store := s'\<rparr>)
      | (Inr False, s') \<Rightarrow>
          let m1 = m\<lparr>tm_store := s'\<rparr> in
          (case TxnManager_fetch T txn_id m1 of
             Inl e \<Rightarrow> (Inl e, m1)
           | Inr txn \<Rightarrow>
               (case tx_state txn of
                  Committed \<Rightarrow> (Inl (TransactionTerminal txn_id), m1)
                | Aborted \<Rightarrow> (Inr (), m1)
                | _ \<Rightarrow> (Inl (TransactionCommitInProgress txn_id), m1)))
      | (Inr True, s') \<Rightarrow>
          let m1 = m\<lparr>tm_store := s'\<rparr> in
          (case TxnManager_fetch T txn_id m1 of
             Inl e \<Rightarrow> (Inl e, m1)
           | Inr txn \<Rightarrow>
               (Inr (), cancel_lease L (tx_lease_id txn)
                  (m1\<lparr>tm_world := do_abort_participants N (sched 0 (length (tx_participants txn))) txn_id
                                   (tx_participants txn) (tm_world m1)\<rparr>))))"

section \<open>Commit\<close>

fun show_state :: "TransactionState \<Rightarrow> string" where
  "show_state Active = ''Active''"
| "show_state Voting = ''Voting''"
| "show_state Prepared = ''Prepared''"
| "show_state Committed = ''Committed''"
| "show_state Aborted = ''Aborted''"

definition TxnManager_transition ::
  "'s TxnStore \<Rightarrow> string \<Rightarrow> TransactionState \<Rightarrow> TransactionState \<Rightarrow> ('s, 'l, 'w) TxnManager
   \<Rightarrow> unit result \<times> ('s, 'l, 'w) TxnManager"
where
  "TxnManager_transition T txn_id frm to_state m =
     (case ts_update_state_if T txn_id frm to_state (tm_store m) of
        (Inl e, s') \<Rightarrow> (Inl e, m\<lparr>tm_store := s'\<rparr>)
      | (Inr True, s') \<Rightarrow> (Inr (), m\<lparr>tm_store := s'\<rparr>)
      | (Inr False, s') \<Rightarrow>
          (Inl (Internal (''transaction '' @ txn_id @ '': expected state '' @ show_state frm @ '' during commit'')),
           m\<lparr>tm_store := s'\<rparr>))"

text \<open>A transition followed by the end of the commit: cancel the lease and return \<open>res\<close>.\<close>

definition finish_commit ::
  "'s TxnStore \<Rightarrow> 'l Leasing \<Rightarrow> string \<Rightarrow> string \<Rightarrow> TransactionState \<Rightarrow> TransactionState \<Rightarrow> unit result
   \<Rightarrow> ('s, 'l, 'w) TxnManager \<Rightarrow> unit result \<times> ('s, 'l, 'w) TxnManager"
where
  "finish_commit T L txn_id lease_id frm to_state res m =
     (case TxnManager_transition T txn_id frm to_state m of
        (Inl e, m') \<Rightarrow> (Inl e, m')
      | (Inr _, m') \<Rightarrow> (res, cancel_lease L lease_id m'))"

text \<open>One participant: \<^verbatim>\<open>PrepareAndCommit\<close>. A failed call leaves the transaction in \<open>Voting\<close>.\<close>

definition commit_single ::
  "'s TxnStore \<Rightarrow> 'l Leasing \<Rightarrow> 'w net \<Rightarrow> string \<Rightarrow> TransactionRecord \<Rightarrow> ParticipantRecord
   \<Rightarrow> ('s, 'l, 'w) TxnManager \<Rightarrow> unit result \<times> ('s, 'l, 'w) TxnManager"
where
  "commit_single T L N txn_id txn p m =
     (case call_prepare_and_commit N (pr_endpoint p) txn_id (tm_world m) of
        (r, w') \<Rightarrow>
          let m1 = m\<lparr>tm_world := w'\<rparr> in
          (case r of
             Inr VoteAborted \<Rightarrow>
               finish_commit T L txn_id (tx_lease_id txn) Voting Aborted (Inl (TransactionAborted txn_id)) m1
           | Inr _ \<Rightarrow> finish_commit T L txn_id (tx_lease_id txn) Voting Committed (Inr ()) m1
           | Inl e \<Rightarrow> (Inl (TransactionOutcomeUnknown txn_id), m1)))"

text \<open>
  The scan of the votes: the endpoints that voted \<open>VotePrepared\<close> before the scan stopped, and whether it stopped at an
  abort vote or a failed call.
\<close>

fun tally :: "(string \<times> PrepareVote result) list \<Rightarrow> string list \<Rightarrow> string list \<times> bool" where
  "tally [] prepared_eps = (prepared_eps, False)"
| "tally ((ep, result) # rest) prepared_eps =
     (case result of
        Inr VotePrepared \<Rightarrow> tally rest (prepared_eps @ [ep])
      | Inr VoteNotChanged \<Rightarrow> tally rest prepared_eps
      | Inr VoteAborted \<Rightarrow> (prepared_eps, True)
      | Inl e \<Rightarrow> (prepared_eps, True))"

definition commit_phase2 ::
  "'s TxnStore \<Rightarrow> 'l Leasing \<Rightarrow> 'w net \<Rightarrow> (nat \<Rightarrow> nat \<Rightarrow> nat list) \<Rightarrow> string \<Rightarrow> TransactionRecord \<Rightarrow> string list
   \<Rightarrow> ('s, 'l, 'w) TxnManager \<Rightarrow> unit result \<times> ('s, 'l, 'w) TxnManager"
where
  "commit_phase2 T L N sched txn_id txn prepared_eps m =
     (case TxnManager_transition T txn_id Voting Prepared m of
        (Inl e, m1) \<Rightarrow> (Inl e, m1)
      | (Inr _, m1) \<Rightarrow>
          (case join_all (sched 1 (length prepared_eps)) (map (\<lambda>ep. call_commit N ep txn_id) prepared_eps) (tm_world m1) of
             (commit_results, w') \<Rightarrow>
               finish_commit T L txn_id (tx_lease_id txn) Prepared Committed (Inr ()) (m1\<lparr>tm_world := w'\<rparr>)))"

text \<open>Prepare failed: record the abort, tell every participant, cancel the lease.\<close>

definition commit_rollback ::
  "'s TxnStore \<Rightarrow> 'l Leasing \<Rightarrow> 'w net \<Rightarrow> (nat \<Rightarrow> nat \<Rightarrow> nat list) \<Rightarrow> string \<Rightarrow> TransactionRecord
   \<Rightarrow> ('s, 'l, 'w) TxnManager \<Rightarrow> unit result \<times> ('s, 'l, 'w) TxnManager"
where
  "commit_rollback T L N sched txn_id txn m =
     (case TxnManager_transition T txn_id Voting Aborted m of
        (Inl e, m1) \<Rightarrow> (Inl e, m1)
      | (Inr _, m1) \<Rightarrow>
          (Inl (TransactionAborted txn_id),
           cancel_lease L (tx_lease_id txn)
             (m1\<lparr>tm_world := do_abort_participants N (sched 1 (length (tx_participants txn))) txn_id
                              (tx_participants txn) (tm_world m1)\<rparr>)))"

definition commit_many ::
  "'s TxnStore \<Rightarrow> 'l Leasing \<Rightarrow> 'w net \<Rightarrow> (nat \<Rightarrow> nat \<Rightarrow> nat list) \<Rightarrow> string \<Rightarrow> TransactionRecord
   \<Rightarrow> ('s, 'l, 'w) TxnManager \<Rightarrow> unit result \<times> ('s, 'l, 'w) TxnManager"
where
  "commit_many T L N sched txn_id txn m =
     (let participants = tx_participants txn in
      case join_all (sched 0 (length participants))
             (map (\<lambda>p w. case call_prepare N (pr_endpoint p) txn_id w of (r, w') \<Rightarrow> ((pr_endpoint p, r), w')) participants)
             (tm_world m) of
        (prepare_results, w1) \<Rightarrow>
          let m1 = m\<lparr>tm_world := w1\<rparr> in
          (case tally prepare_results [] of
             (prepared_eps, abort_reason) \<Rightarrow>
               if abort_reason then commit_rollback T L N sched txn_id txn m1
               else commit_phase2 T L N sched txn_id txn prepared_eps m1))"

definition TxnManager_commit ::
  "'s TxnStore \<Rightarrow> 'l Leasing \<Rightarrow> 'w net \<Rightarrow> (nat \<Rightarrow> nat \<Rightarrow> nat list) \<Rightarrow> string \<Rightarrow> ('s, 'l, 'w) TxnManager
   \<Rightarrow> unit result \<times> ('s, 'l, 'w) TxnManager"
where
  "TxnManager_commit T L N sched txn_id m =
     (case ts_update_state_if T txn_id Active Voting (tm_store m) of
        (Inl e, s') \<Rightarrow> (Inl e, m\<lparr>tm_store := s'\<rparr>)
      | (Inr False, s') \<Rightarrow>
          let m1 = m\<lparr>tm_store := s'\<rparr> in
          (case TxnManager_fetch T txn_id m1 of
             Inl e \<Rightarrow> (Inl e, m1)
           | Inr txn \<Rightarrow>
               (case tx_state txn of
                  Committed \<Rightarrow> (Inr (), m1)
                | Aborted \<Rightarrow> (Inl (TransactionAborted txn_id), m1)
                | _ \<Rightarrow> (Inl (TransactionCommitInProgress txn_id), m1)))
      | (Inr True, s') \<Rightarrow>
          let m1 = m\<lparr>tm_store := s'\<rparr> in
          (case TxnManager_fetch T txn_id m1 of
             Inl e \<Rightarrow> (Inl e, m1)
           | Inr txn \<Rightarrow>
               (case tx_participants txn of
                  [] \<Rightarrow> finish_commit T L txn_id (tx_lease_id txn) Voting Committed (Inr ()) m1
                | [p] \<Rightarrow> commit_single T L N txn_id txn p m1
                | _ \<Rightarrow> commit_many T L N sched txn_id txn m1)))"

section \<open>The enlister, the cascade and the service\<close>

definition LocalTxnEnlister_enlist ::
  "'s TxnStore \<Rightarrow> string \<Rightarrow> string \<Rightarrow> ('s, 'l, 'w) TxnManager \<Rightarrow> unit result \<times> ('s, 'l, 'w) TxnManager"
where
  "LocalTxnEnlister_enlist T txn_id endpoint m = TxnManager_enlist T txn_id endpoint 0 m"

definition txn_cascade ::
  "'s TxnStore \<Rightarrow> 'w net \<Rightarrow> (nat \<Rightarrow> nat \<Rightarrow> nat list) \<Rightarrow> LeaseReclaimed \<Rightarrow> ('s, 'l, 'w) TxnManager \<Rightarrow> ('s, 'l, 'w) TxnManager"
where
  "txn_cascade T N sched ev m =
     (case strip_prefix (lr_resource_id (rc_record ev)) ''txn:'' of
        Some txn_id \<Rightarrow> snd (TxnManager_abort_expired T N sched txn_id m)
      | None \<Rightarrow> m)"

definition txn_map_err :: "error \<Rightarrow> status" where
  "txn_map_err e = (case e of
     Unavailable _ \<Rightarrow> Status Code_Unavailable (error_to_string e)
   | InvalidArgument _ \<Rightarrow> Status Code_InvalidArgument (error_to_string e)
   | PermissionDenied _ \<Rightarrow> Status Code_PermissionDenied (error_to_string e)
   | TransactionCommitInProgress _ \<Rightarrow> Status Code_FailedPrecondition (error_to_string e)
   | TransactionOutcomeUnknown _ \<Rightarrow> Status Code_Unknown (error_to_string e)
   | _ \<Rightarrow> Status Code_Internal (error_to_string e))"

fun state_to_proto :: "TransactionState \<Rightarrow> int" where
  "state_to_proto Active = 0"
| "state_to_proto Voting = 1"
| "state_to_proto Prepared = 2"
| "state_to_proto Committed = 3"
| "state_to_proto Aborted = 4"

definition TxnService_begin ::
  "'s TxnStore \<Rightarrow> 'l Leasing \<Rightarrow> LeaseServiceImpl \<Rightarrow> time \<Rightarrow> time \<Rightarrow> string \<Rightarrow> string \<Rightarrow> u64 \<Rightarrow> ('s, 'l, 'w) TxnManager
   \<Rightarrow> (string \<times> Lease) rpc \<times> ('s, 'l, 'w) TxnManager"
where
  "TxnService_begin T L svc now1 now2 txn_uid lease_uid ttl_seconds m =
     (case TxnManager_begin T L now1 now2 txn_uid lease_uid ttl_seconds m of
        (Inl e, m') \<Rightarrow> (Inl (txn_map_err e), m')
      | (Inr (txn_id, lease), m') \<Rightarrow> (Inr (txn_id, record_to_proto svc lease), m'))"

definition TxnService_enlist ::
  "'s TxnStore \<Rightarrow> string \<Rightarrow> string \<Rightarrow> u64 \<Rightarrow> ('s, 'l, 'w) TxnManager \<Rightarrow> unit rpc \<times> ('s, 'l, 'w) TxnManager"
where
  "TxnService_enlist T txn_id endpoint crash_count m =
     (case TxnManager_enlist T txn_id endpoint crash_count m of (r, m') \<Rightarrow> (map_err txn_map_err r, m'))"

definition TxnService_get_state :: "'s TxnStore \<Rightarrow> string \<Rightarrow> ('s, 'l, 'w) TxnManager \<Rightarrow> int rpc" where
  "TxnService_get_state T txn_id m =
     (case TxnManager_get_state T txn_id m of
        Inl e \<Rightarrow> Inl (Status Code_NotFound (error_to_string e))
      | Inr st \<Rightarrow> Inr (state_to_proto st))"

definition TxnService_commit ::
  "'s TxnStore \<Rightarrow> 'l Leasing \<Rightarrow> 'w net \<Rightarrow> (nat \<Rightarrow> nat \<Rightarrow> nat list) \<Rightarrow> string \<Rightarrow> ('s, 'l, 'w) TxnManager
   \<Rightarrow> unit rpc \<times> ('s, 'l, 'w) TxnManager"
where
  "TxnService_commit T L N sched txn_id m =
     (case TxnManager_commit T L N sched txn_id m of
        (r, m') \<Rightarrow>
          (map_err (\<lambda>e. case e of
             TransactionAborted _ \<Rightarrow> Status Code_Aborted (error_to_string e)
           | TransactionNotFound _ \<Rightarrow> Status Code_NotFound (error_to_string e)
           | _ \<Rightarrow> txn_map_err e) r, m'))"

definition TxnService_abort ::
  "'s TxnStore \<Rightarrow> 'l Leasing \<Rightarrow> 'w net \<Rightarrow> (nat \<Rightarrow> nat \<Rightarrow> nat list) \<Rightarrow> string \<Rightarrow> ('s, 'l, 'w) TxnManager
   \<Rightarrow> unit rpc \<times> ('s, 'l, 'w) TxnManager"
where
  "TxnService_abort T L N sched txn_id m =
     (case TxnManager_abort T L N sched txn_id m of (r, m') \<Rightarrow> (map_err txn_map_err r, m'))"

end
