(* ===== verification/Txn_Commit.thy ===== *)
theory Txn_Commit
  imports Txn
begin

text \<open>
  What the transaction manager guarantees: the outcome of a commit and the calls it makes to the
  participants, for any behaviour of the network and any order of the parallel calls; abort and expiry;
  enlisting.
\<close>

section \<open>A network that remembers\<close>

text \<open>Any network, with the history of the calls made and the replies they got.\<close>

type_synonym 'w recorded = "'w \<times> (participant_call \<times> net_reply) list"

definition record_net :: "'w net \<Rightarrow> 'w recorded net" where
  "record_net N call st =
     (case st of (w, log) \<Rightarrow> (case N call w of (reply, w') \<Rightarrow> (reply, (w', log @ [(call, reply)]))))"

type_synonym 'w mem_txn_mgr = "(InMemoryTxnStore, InMemoryLeaseStore LeaseManager, 'w recorded) TxnManager"

abbreviation calls_of :: "'w mem_txn_mgr \<Rightarrow> (participant_call \<times> net_reply) list" where
  "calls_of m \<equiv> snd (tm_world m)"

abbreviation txn_of :: "('w mem_txn_mgr) \<Rightarrow> string \<Rightarrow> TransactionRecord option" where
  "txn_of m \<equiv> fmlookup (tm_records (tm_store m))"

abbreviation mem_commit where
  "mem_commit c N \<equiv> TxnManager_commit InMemoryTxnStore_ops (mem_leasing c) (record_net N)"

abbreviation mem_abort where
  "mem_abort c N \<equiv> TxnManager_abort InMemoryTxnStore_ops (mem_leasing c) (record_net N)"

abbreviation mem_abort_expired where
  "mem_abort_expired N \<equiv> TxnManager_abort_expired InMemoryTxnStore_ops (record_net N)"

text \<open>A reply a commit may go ahead on.\<close>

definition votes_yes :: "net_reply \<Rightarrow> bool" where
  "votes_yes r \<longleftrightarrow> r = Reply 0 \<or> r = Reply 1"

section \<open>Parallel calls\<close>

text \<open>A future that makes one call and converts the reply.\<close>

definition call_fut :: "'w recorded net \<Rightarrow> participant_call \<Rightarrow> (net_reply \<Rightarrow> 'r) \<Rightarrow> 'w recorded \<Rightarrow> 'r \<times> 'w recorded" where
  "call_fut N call conv w = (case N call w of (reply, w') \<Rightarrow> (conv reply, w'))"

lemma run_in_order_recorded:
  assumes "set order \<subseteq> {..<length xs}"
  shows "\<exists>rep w'. run_in_order order (map (\<lambda>x. call_fut (record_net N) (call x) (conv x)) xs) (w, log) =
    (map (\<lambda>(i, r). (i, conv (xs ! i) r)) (zip order rep), (w', log @ map (\<lambda>(i, r). (call (xs ! i), r)) (zip order rep))) \<and>
    length rep = length order"
  using assms
proof (induction order arbitrary: w log)
  case Nil
  then show ?case by simp
next
  case (Cons i order)
  then have i: "i < length xs" by simp
  obtain r w1 where N: "N (call (xs ! i)) w = (r, w1)" by (metis prod.collapse)
  obtain rep w' where IH: "run_in_order order (map (\<lambda>x. call_fut (record_net N) (call x) (conv x)) xs) (w1, log @ [(call (xs ! i), r)]) =
      (map (\<lambda>(i, r). (i, conv (xs ! i) r)) (zip order rep),
       (w', (log @ [(call (xs ! i), r)]) @ map (\<lambda>(i, r). (call (xs ! i), r)) (zip order rep)))"
    "length rep = length order"
    using Cons.IH[of w1 "log @ [(call (xs ! i), r)]"] Cons.prems by auto
  have "call_fut (record_net N) (call (xs ! i)) (conv (xs ! i)) (w, log) = (conv (xs ! i) r, (w1, log @ [(call (xs ! i), r)]))"
    by (simp add: call_fut_def record_net_def N)
  then show ?case by (intro exI[of _ "r # rep"] exI[of _ w']) (simp add: i IH)
qed

lemma map_of_zip_perm:
  assumes "distinct order" "set order = {..<n}" "length rep = length order"
  shows "\<exists>g. rep = map g order"
proof -
  let ?g = "\<lambda>i. the (map_of (zip order rep) i)"
  have "map ?g order = rep"
    using assms(1,3) by (intro nth_equalityI) (simp_all add: map_of_zip_nth)
  then show ?thesis by metis
qed

text \<open>Whatever the order, each call is made once and its result lands at its position.\<close>

lemma join_all_recorded:
  assumes "distinct order" "set order = {..<length xs}"
  obtains rep w' where
    "join_all order (map (\<lambda>x. call_fut (record_net N) (call x) (conv x)) xs) (w, log) =
       (map (\<lambda>i. conv (xs ! i) (rep i)) [0..<length xs], (w', log @ map (\<lambda>i. (call (xs ! i), rep i)) order))"
proof -
  obtain reps w' where r: "run_in_order order (map (\<lambda>x. call_fut (record_net N) (call x) (conv x)) xs) (w, log) =
    (map (\<lambda>(i, r). (i, conv (xs ! i) r)) (zip order reps), (w', log @ map (\<lambda>(i, r). (call (xs ! i), r)) (zip order reps)))"
    "length reps = length order"
    using run_in_order_recorded[of order xs N call conv w log] assms(2) by blast
  obtain rep where rep: "reps = map rep order" using map_of_zip_perm[OF assms r(2)] by blast
  have z: "zip order reps = map (\<lambda>i. (i, rep i)) order" by (simp add: rep zip_map2 zip_same_conv_map)
  have m: "map_of (map (\<lambda>i. (i, conv (xs ! i) (rep i))) order) i = Some (conv (xs ! i) (rep i))" if "i < length xs" for i
    using that assms(2) by (simp add: map_of_map_restrict)
  have "List.map_filter (map_of (map (\<lambda>i. (i, conv (xs ! i) (rep i))) order)) [0..<length xs] =
      map (\<lambda>i. conv (xs ! i) (rep i)) [0..<length xs]"
    using m by (simp add: List.map_filter_def cong: filter_cong)
  then show thesis using that[of rep w'] r by (simp add: join_all_def z comp_def)
qed

lemma tally_yes:
  "\<forall>x \<in> set rs. snd x = Inr VotePrepared \<or> snd x = Inr VoteNotChanged \<Longrightarrow>
   tally rs acc = (acc @ map fst (filter (\<lambda>x. snd x = Inr VotePrepared) rs), False)"
  by (induction rs acc rule: tally.induct) auto

lemma tally_no:
  "x \<in> set rs \<Longrightarrow> snd x \<noteq> Inr VotePrepared \<Longrightarrow> snd x \<noteq> Inr VoteNotChanged \<Longrightarrow> snd (tally rs acc)"
  by (induction rs acc rule: tally.induct) (auto split: sum.splits PrepareVote.splits)

lemma vote_of_reply:
  "map_sum id vote_from_i32 (call_result rpc ep r) = Inr VotePrepared \<longleftrightarrow> r = Reply 0"
  "map_sum id vote_from_i32 (call_result rpc ep r) = Inr VoteNotChanged \<longleftrightarrow> r = Reply 1"
  by (cases r; simp add: vote_from_i32_def)+

section \<open>The in-memory store under the manager\<close>

lemma mem_cas_Some [simp]:
  "fmlookup (tm_records s) k = Some r \<Longrightarrow>
   ts_update_state_if InMemoryTxnStore_ops k expected new s =
     (if tx_state r = expected
      then (Inr True, s\<lparr>tm_records := fmupd k (r\<lparr>tx_state := new\<rparr>) (tm_records s)\<rparr>)
      else (Inr False, s))"
  by (simp add: mem_txn_defs)

lemma mem_cas_None [simp]:
  "fmlookup (tm_records s) k = None \<Longrightarrow>
   ts_update_state_if InMemoryTxnStore_ops k expected new s = (Inl (TransactionNotFound k), s)"
  by (simp add: mem_txn_defs)

lemma mem_txn_get [simp]: "ts_get InMemoryTxnStore_ops k s = Inr (fmlookup (tm_records s) k)"
  by (simp add: mem_txn_defs)

lemma mem_cancel_live [simp]:
  "live_leases (snd (lg_cancel (mem_leasing c) lid l)) = (live_leases l)(lid := None)"
  by (cases "live_leases l lid") (auto simp: Leasing_of_LeaseManager_def lease_defs mem_lease_defs)

named_theorems txn_defs \<open>operations of the transaction manager\<close>

declare TxnManager_fetch_def [txn_defs] TxnManager_transition_def [txn_defs] finish_commit_def [txn_defs]
  cancel_lease_def [txn_defs]

text \<open>A finished transition: the record's new state, and the lease gone.\<close>

lemma mem_finish_commit:
  assumes "txn_of m tid = Some r" "tx_state r = frm"
  shows "finish_commit InMemoryTxnStore_ops (mem_leasing c) tid lid frm st res m =
    (res, cancel_lease (mem_leasing c) lid
      (m\<lparr>tm_store := tm_store m\<lparr>tm_records := fmupd tid (r\<lparr>tx_state := st\<rparr>) (tm_records (tm_store m))\<rparr>\<rparr>))"
  using assms by (simp add: txn_defs)

lemma prepare_futs:
  "map (\<lambda>p w. case call_prepare N (pr_endpoint p) tid w of (r, w') \<Rightarrow> ((pr_endpoint p, r), w')) ps =
   map (\<lambda>p. call_fut N (CallPrepare (pr_endpoint p) tid)
          (\<lambda>reply. (pr_endpoint p, map_sum id vote_from_i32 (call_result ''prepare'' (pr_endpoint p) reply)))) ps"
  by (simp add: call_prepare_def call_fut_def fun_eq_iff split: prod.split)

lemma commit_futs:
  "map (\<lambda>ep. call_commit N ep tid) eps =
   map (\<lambda>ep. call_fut N (CallCommit ep tid) (\<lambda>reply. map_sum id (\<lambda>_. ()) (call_result ''commit'' ep reply))) eps"
  by (simp add: call_commit_def call_fut_def fun_eq_iff split: prod.split)

lemma abort_futs:
  "map (\<lambda>p. call_abort N (pr_endpoint p) tid) ps =
   map (\<lambda>p. call_fut N (CallAbort (pr_endpoint p) tid)
     (\<lambda>reply. map_sum id (\<lambda>_. ()) (call_result ''abort'' (pr_endpoint p) reply))) ps"
  by (simp add: call_abort_def call_fut_def fun_eq_iff split: prod.split)

lemma do_abort_recorded:
  assumes "distinct order" "set order = {..<length ps}"
  obtains acks w' where "do_abort_participants (record_net N) order tid ps (w, log) =
    (w', log @ map (\<lambda>i. (CallAbort (pr_endpoint (ps ! i)) tid, acks i)) order)"
  unfolding do_abort_participants_def abort_futs
  by (rule join_all_recorded[OF assms, where call = "\<lambda>p. CallAbort (pr_endpoint p) tid" and N = N and w = w and log = log
        and conv = "\<lambda>p reply. map_sum id (\<lambda>_. ()) (call_result ''abort'' (pr_endpoint p) reply)"])
     (metis snd_conv that)

lemma schedule_okD: "schedule_ok sched \<Longrightarrow> distinct (sched ph n)" "schedule_ok sched \<Longrightarrow> set (sched ph n) = {..<n}"
  by (auto simp: schedule_ok_def)

section \<open>Two-phase commit\<close>

lemma commit_phase2_outcome:
  assumes "schedule_ok sched" "txn_of m tid = Some txn" "tx_state txn = Voting"
  obtains acks m' where
    "commit_phase2 InMemoryTxnStore_ops (mem_leasing c) (record_net N) sched tid txn eps m = (Inr (), m')"
    "txn_of m' = (txn_of m)(tid \<mapsto> txn\<lparr>tx_state := Committed\<rparr>)"
    "live_leases (tm_lease_manager m') = (live_leases (tm_lease_manager m))(tx_lease_id txn := None)"
    "calls_of m' = calls_of m @ map (\<lambda>j. (CallCommit (eps ! j) tid, acks j)) (sched 1 (length eps))"
proof -
  obtain w log where w: "tm_world m = (w, log)" by (metis prod.collapse)
  obtain acks w2 where co: "join_all (sched 1 (length eps)) (map (\<lambda>ep. call_commit (record_net N) ep tid) eps) (w, log) =
      (map (\<lambda>j. map_sum id (\<lambda>_. ()) (call_result ''commit'' (eps ! j) (acks j))) [0..<length eps],
       (w2, log @ map (\<lambda>j. (CallCommit (eps ! j) tid, acks j)) (sched 1 (length eps))))"
    unfolding commit_futs
    by (rule join_all_recorded[OF schedule_okD[OF assms(1)], where call = "\<lambda>ep. CallCommit ep tid"
          and conv = "\<lambda>ep reply. map_sum id (\<lambda>_. ()) (call_result ''commit'' ep reply)"]) blast
  show thesis
    by (rule that[of _ acks]) (use assms(2,3) w co in \<open>auto simp: commit_phase2_def txn_defs fun_eq_iff\<close>)
qed

lemma commit_rollback_outcome:
  assumes "schedule_ok sched" "txn_of m tid = Some txn" "tx_state txn = Voting"
  obtains acks m' where
    "commit_rollback InMemoryTxnStore_ops (mem_leasing c) (record_net N) sched tid txn m = (Inl (TransactionAborted tid), m')"
    "txn_of m' = (txn_of m)(tid \<mapsto> txn\<lparr>tx_state := Aborted\<rparr>)"
    "live_leases (tm_lease_manager m') = (live_leases (tm_lease_manager m))(tx_lease_id txn := None)"
    "calls_of m' = calls_of m @
       map (\<lambda>i. (CallAbort (pr_endpoint (tx_participants txn ! i)) tid, acks i)) (sched 1 (length (tx_participants txn)))"
proof -
  obtain w log where w: "tm_world m = (w, log)" by (metis prod.collapse)
  let ?ps = "tx_participants txn"
  obtain acks w2 where ab: "do_abort_participants (record_net N) (sched 1 (length ?ps)) tid ?ps (w, log) =
        (w2, log @ map (\<lambda>i. (CallAbort (pr_endpoint (?ps ! i)) tid, acks i)) (sched 1 (length ?ps)))"
    by (rule do_abort_recorded[OF schedule_okD[OF assms(1)]]) blast
  show thesis
    by (rule that[of _ acks]) (use assms(2,3) w ab in \<open>auto simp: commit_rollback_def txn_defs fun_eq_iff\<close>)
qed

lemma commit_many_outcome:
  assumes sched: "schedule_ok sched" and txn: "txn_of m tid = Some txn" "tx_state txn = Voting"
  defines "ps \<equiv> tx_participants txn"
  shows "\<exists>vote res m' acks. commit_many InMemoryTxnStore_ops (mem_leasing c) (record_net N) sched tid txn m = (res, m') \<and>
    live_leases (tm_lease_manager m') = (live_leases (tm_lease_manager m))(tx_lease_id txn := None) \<and>
    (let n = length ps; yes = filter (\<lambda>i. vote i = Reply 0) [0..<n];
         prepares = map (\<lambda>i. (CallPrepare (pr_endpoint (ps ! i)) tid, vote i)) (sched 0 n) in
     if \<forall>i < n. votes_yes (vote i)
     then res = Inr () \<and> txn_of m' = (txn_of m)(tid \<mapsto> txn\<lparr>tx_state := Committed\<rparr>) \<and>
       calls_of m' = calls_of m @ prepares @
         map (\<lambda>j. (CallCommit (pr_endpoint (ps ! (yes ! j))) tid, acks j)) (sched 1 (length yes))
     else res = Inl (TransactionAborted tid) \<and> txn_of m' = (txn_of m)(tid \<mapsto> txn\<lparr>tx_state := Aborted\<rparr>) \<and>
       calls_of m' = calls_of m @ prepares @ map (\<lambda>i. (CallAbort (pr_endpoint (ps ! i)) tid, acks i)) (sched 1 n))"
proof -
  obtain w log where w: "tm_world m = (w, log)" by (metis prod.collapse)
  obtain vote w1 where pr: "join_all (sched 0 (length ps))
      (map (\<lambda>p w. case call_prepare (record_net N) (pr_endpoint p) tid w of (r, w') \<Rightarrow> ((pr_endpoint p, r), w')) ps) (w, log) =
      (map (\<lambda>i. (pr_endpoint (ps ! i), map_sum id vote_from_i32 (call_result ''prepare'' (pr_endpoint (ps ! i)) (vote i))))
         [0..<length ps],
       (w1, log @ map (\<lambda>i. (CallPrepare (pr_endpoint (ps ! i)) tid, vote i)) (sched 0 (length ps))))"
    unfolding prepare_futs
    by (rule join_all_recorded[OF schedule_okD[OF sched], where call = "\<lambda>p. CallPrepare (pr_endpoint p) tid"
          and conv = "\<lambda>p reply. (pr_endpoint p, map_sum id vote_from_i32 (call_result ''prepare'' (pr_endpoint p) reply))"]) blast
  let ?rs = "map (\<lambda>i. (pr_endpoint (ps ! i), map_sum id vote_from_i32 (call_result ''prepare'' (pr_endpoint (ps ! i)) (vote i))))
         [0..<length ps]"
  let ?log1 = "log @ map (\<lambda>i. (CallPrepare (pr_endpoint (ps ! i)) tid, vote i)) (sched 0 (length ps))"
  define m1 where "m1 = m\<lparr>tm_world := (w1, ?log1)\<rparr>"
  have m1: "txn_of m1 tid = Some txn" "tx_state txn = Voting" using txn by (simp_all add: m1_def)
  have cm: "commit_many InMemoryTxnStore_ops (mem_leasing c) (record_net N) sched tid txn m =
      (case tally ?rs [] of
         (prepared_eps, abort_reason) \<Rightarrow>
           if abort_reason then commit_rollback InMemoryTxnStore_ops (mem_leasing c) (record_net N) sched tid txn m1
           else commit_phase2 InMemoryTxnStore_ops (mem_leasing c) (record_net N) sched tid txn prepared_eps m1)"
    unfolding commit_many_def Let_def ps_def[symmetric] w pr prod.case m1_def ..
  show ?thesis
  proof (cases "\<forall>i < length ps. votes_yes (vote i)")
    case True
    let ?yes = "filter (\<lambda>i. vote i = Reply 0) [0..<length ps]"
    have t: "tally ?rs [] = (map (\<lambda>i. pr_endpoint (ps ! i)) ?yes, False)"
      using True by (subst tally_yes) (auto simp: votes_yes_def vote_of_reply filter_map comp_def)
    obtain acks m' where p2: "commit_phase2 InMemoryTxnStore_ops (mem_leasing c) (record_net N) sched tid txn
        (map (\<lambda>i. pr_endpoint (ps ! i)) ?yes) m1 = (Inr (), m')"
      "txn_of m' = (txn_of m1)(tid \<mapsto> txn\<lparr>tx_state := Committed\<rparr>)"
      "live_leases (tm_lease_manager m') = (live_leases (tm_lease_manager m1))(tx_lease_id txn := None)"
      "calls_of m' = calls_of m1 @ map (\<lambda>j. (CallCommit (map (\<lambda>i. pr_endpoint (ps ! i)) ?yes ! j) tid, acks j))
         (sched 1 (length (map (\<lambda>i. pr_endpoint (ps ! i)) ?yes)))"
      by (rule commit_phase2_outcome[OF sched m1]) blast
    have "map (\<lambda>j. (CallCommit (map (\<lambda>i. pr_endpoint (ps ! i)) ?yes ! j) tid, acks j)) (sched 1 (length ?yes)) =
        map (\<lambda>j. (CallCommit (pr_endpoint (ps ! (?yes ! j))) tid, acks j)) (sched 1 (length ?yes))"
      using schedule_okD(2)[OF sched] by (intro map_cong refl) simp
    with p2 True show ?thesis
      by (intro exI[of _ vote] exI[of _ "Inr ()"] exI[of _ m'] exI[of _ acks])
         (auto simp: cm t m1_def w Let_def)
  next
    case False
    then obtain i where "i < length ps" "\<not> votes_yes (vote i)" by blast
    then have "snd (tally ?rs [])"
      by (intro tally_no[of "?rs ! i"]) (auto simp: votes_yes_def vote_of_reply)
    then obtain eps where t: "tally ?rs [] = (eps, True)" by (cases "tally ?rs []") auto
    obtain acks m' where ab: "commit_rollback InMemoryTxnStore_ops (mem_leasing c) (record_net N) sched tid txn m1 =
        (Inl (TransactionAborted tid), m')"
      "txn_of m' = (txn_of m1)(tid \<mapsto> txn\<lparr>tx_state := Aborted\<rparr>)"
      "live_leases (tm_lease_manager m') = (live_leases (tm_lease_manager m1))(tx_lease_id txn := None)"
      "calls_of m' = calls_of m1 @ map (\<lambda>i. (CallAbort (pr_endpoint (ps ! i)) tid, acks i)) (sched 1 (length ps))"
      unfolding ps_def by (rule commit_rollback_outcome[OF sched m1]) blast
    with False show ?thesis
      by (intro exI[of _ vote] exI[of _ "Inl (TransactionAborted tid)"] exI[of _ m'] exI[of _ acks])
         (auto simp: cm t m1_def w Let_def)
  qed
qed

lemma mem_commit_claim:
  assumes "txn_of m tid = Some txn" "tx_state txn = Active"
  shows "mem_commit c N sched tid m =
    (let txn' = txn\<lparr>tx_state := Voting\<rparr>;
         m1 = m\<lparr>tm_store := tm_store m\<lparr>tm_records := fmupd tid txn' (tm_records (tm_store m))\<rparr>\<rparr>
     in case tx_participants txn of
          [] \<Rightarrow> finish_commit InMemoryTxnStore_ops (mem_leasing c) tid (tx_lease_id txn') Voting Committed (Inr ()) m1
        | [p] \<Rightarrow> commit_single InMemoryTxnStore_ops (mem_leasing c) (record_net N) tid txn' p m1
        | _ \<Rightarrow> commit_many InMemoryTxnStore_ops (mem_leasing c) (record_net N) sched tid txn' m1)"
  using assms by (simp add: TxnManager_commit_def txn_defs Let_def)

text \<open>
  C1: two-phase commit is all or nothing, whatever the network does and in whatever order the parallel calls take effect.
  With two or more participants every one is asked to prepare, once. If all vote prepared or unchanged, the transaction is
  committed and exactly those that voted prepared are told to commit; if any vote is an abort, unknown or lost, the
  transaction is aborted and every participant is told to abort. No participant is ever told to commit in an aborted
  transaction, and the transaction's lease is gone either way.
\<close>

theorem commit_two_phase:
  assumes "schedule_ok sched" "txn_of m tid = Some txn" "tx_state txn = Active" "2 \<le> length (tx_participants txn)"
  shows "\<exists>vote res m' acks. mem_commit c N sched tid m = (res, m') \<and>
    live_leases (tm_lease_manager m') = (live_leases (tm_lease_manager m))(tx_lease_id txn := None) \<and>
    (let ps = tx_participants txn; n = length ps; yes = filter (\<lambda>i. vote i = Reply 0) [0..<n];
         prepares = map (\<lambda>i. (CallPrepare (pr_endpoint (ps ! i)) tid, vote i)) (sched 0 n) in
     if \<forall>i < n. votes_yes (vote i)
     then res = Inr () \<and> txn_of m' = (txn_of m)(tid \<mapsto> txn\<lparr>tx_state := Committed\<rparr>) \<and>
       calls_of m' = calls_of m @ prepares @
         map (\<lambda>j. (CallCommit (pr_endpoint (ps ! (yes ! j))) tid, acks j)) (sched 1 (length yes))
     else res = Inl (TransactionAborted tid) \<and> txn_of m' = (txn_of m)(tid \<mapsto> txn\<lparr>tx_state := Aborted\<rparr>) \<and>
       calls_of m' = calls_of m @ prepares @ map (\<lambda>i. (CallAbort (pr_endpoint (ps ! i)) tid, acks i)) (sched 1 n))"
proof -
  obtain p q ps where ps: "tx_participants txn = p # q # ps"
    using assms(4) by (cases "tx_participants txn"; cases "tl (tx_participants txn)") auto
  let ?m1 = "m\<lparr>tm_store := tm_store m\<lparr>tm_records := fmupd tid (txn\<lparr>tx_state := Voting\<rparr>) (tm_records (tm_store m))\<rparr>\<rparr>"
  have c: "mem_commit c N sched tid m =
      commit_many InMemoryTxnStore_ops (mem_leasing c) (record_net N) sched tid (txn\<lparr>tx_state := Voting\<rparr>) ?m1"
    using mem_commit_claim[OF assms(2,3)] ps by (simp add: Let_def)
  have "txn_of ?m1 tid = Some (txn\<lparr>tx_state := Voting\<rparr>)" "tx_state (txn\<lparr>tx_state := Voting\<rparr>) = Voting" by simp_all
  from commit_many_outcome[OF assms(1) this, of c N] show ?thesis
    unfolding c by (simp add: Let_def fmlookup_fmupd_fun cong: if_cong)
qed

definition demo_txn :: TransactionRecord where
  "demo_txn = \<lparr>tx_txn_id = ''t1'', tx_lease_id = ''l1'', tx_state = Active,
     tx_participants = [\<lparr>pr_endpoint = ''a:1'', pr_crash_count = 0\<rparr>, \<lparr>pr_endpoint = ''b:2'', pr_crash_count = 0\<rparr>],
     tx_begun_at = 1000\<rparr>"

definition demo_txn_mgr :: "TransactionRecord \<Rightarrow> unit mem_txn_mgr" where
  "demo_txn_mgr txn = \<lparr>tm_store = \<lparr>tm_records = fmupd ''t1'' txn fmempty\<rparr>, tm_lease_manager = demo_mgr1,
     tm_allowlist = allow_all, tm_world = ((), [])\<rparr>"

text \<open>A network in which \<^verbatim>\<open>b:2\<close> votes to abort and everything else succeeds.\<close>

definition demo_net :: "unit net" where
  "demo_net call w = (if call = CallPrepare ''b:2'' ''t1'' then Reply 2 else Reply 0, w)"

definition seq_schedule :: "nat \<Rightarrow> nat \<Rightarrow> nat list" where
  "seq_schedule ph n = [0..<n]"

lemma seq_schedule_ok: "schedule_ok seq_schedule"
  by (auto simp: schedule_ok_def seq_schedule_def)

theorem commit_two_phase_witness:
  "\<exists>res m'. mem_commit chrono_std demo_net seq_schedule ''t1'' (demo_txn_mgr demo_txn) = (res, m') \<and>
     live_leases (tm_lease_manager m') ''l1'' = None \<and>
     (txn_of m' ''t1'' = Some (demo_txn\<lparr>tx_state := Committed\<rparr>) \<and> res = Inr () \<or>
      txn_of m' ''t1'' = Some (demo_txn\<lparr>tx_state := Aborted\<rparr>) \<and> res = Inl (TransactionAborted ''t1''))"
proof -
  have "txn_of (demo_txn_mgr demo_txn) ''t1'' = Some demo_txn" "tx_state demo_txn = Active"
    "2 \<le> length (tx_participants demo_txn)"
    by (simp_all add: demo_txn_mgr_def demo_txn_def)
  from commit_two_phase[OF seq_schedule_ok this, of chrono_std demo_net] obtain res m' where
    "mem_commit chrono_std demo_net seq_schedule ''t1'' (demo_txn_mgr demo_txn) = (res, m')"
    "live_leases (tm_lease_manager m') = (live_leases (tm_lease_manager (demo_txn_mgr demo_txn)))(tx_lease_id demo_txn := None)"
    "res = Inr () \<and> txn_of m' = (txn_of (demo_txn_mgr demo_txn))(''t1'' \<mapsto> demo_txn\<lparr>tx_state := Committed\<rparr>) \<or>
     res = Inl (TransactionAborted ''t1'') \<and> txn_of m' = (txn_of (demo_txn_mgr demo_txn))(''t1'' \<mapsto> demo_txn\<lparr>tx_state := Aborted\<rparr>)"
    by (auto simp: Let_def split: if_splits)
  then show ?thesis by (auto simp: demo_txn_def)
qed

text \<open>
  C29: commits that need no voting round. A transaction without participants commits at once. With one participant, that
  participant prepares and commits in a single call; its vote decides, and if the call fails the outcome is reported as
  unknown and the transaction stays in \<open>Voting\<close> with its lease, rather than being declared aborted.
\<close>

theorem commit_without_vote_round:
  assumes "txn_of m tid = Some txn" "tx_state txn = Active" "tx_participants txn = [] \<or> tx_participants txn = [p]"
  shows "\<exists>reply res m'. mem_commit c N sched tid m = (res, m') \<and>
    calls_of m' = calls_of m @ (if tx_participants txn = [] then [] else [(CallPrepareAndCommit (pr_endpoint p) tid, reply)]) \<and>
    (let st = (if tx_participants txn = [] \<or> votes_yes reply then Committed
               else if \<exists>v. reply = Reply v then Aborted else Voting) in
     txn_of m' = (txn_of m)(tid \<mapsto> txn\<lparr>tx_state := st\<rparr>) \<and>
     res = (if st = Committed then Inr () else if st = Aborted then Inl (TransactionAborted tid)
            else Inl (TransactionOutcomeUnknown tid)) \<and>
     live_leases (tm_lease_manager m') =
       (if st = Voting then live_leases (tm_lease_manager m)
        else (live_leases (tm_lease_manager m))(tx_lease_id txn := None)))"
proof -
  obtain w log where w: "tm_world m = (w, log)" by (metis prod.collapse)
  obtain reply w1 where N: "N (CallPrepareAndCommit (pr_endpoint p) tid) w = (reply, w1)" by (metis prod.collapse)
  note claim = mem_commit_claim[OF assms(1,2), of c N sched]
  show ?thesis
  proof (cases "tx_participants txn = []")
    case True
    then show ?thesis using claim by (auto simp: Let_def txn_defs fmlookup_fmupd_fun)
  next
    case False
    with assms(3) have ps: "tx_participants txn = [p]" by simp
    show ?thesis
      by (rule exI[of _ reply], cases reply)
         (use claim ps in \<open>auto simp: Let_def txn_defs commit_single_def call_prepare_and_commit_def record_net_def w N
            votes_yes_def vote_from_i32_def fmlookup_fmupd_fun\<close>)
  qed
qed

theorem commit_without_vote_round_witness:
  "\<exists>res m'. mem_commit chrono_std demo_net seq_schedule ''t1'' (demo_txn_mgr (demo_txn\<lparr>tx_participants := []\<rparr>)) = (res, m') \<and>
     res = Inr () \<and> calls_of m' = []"
proof -
  let ?t = "demo_txn\<lparr>tx_participants := []\<rparr>"
  have "txn_of (demo_txn_mgr ?t) ''t1'' = Some ?t" "tx_state ?t = Active" "tx_participants ?t = [] \<or> tx_participants ?t = [p]" for p
    by (simp_all add: demo_txn_mgr_def demo_txn_def)
  from commit_without_vote_round[OF this, where c = chrono_std and N = demo_net and sched = seq_schedule] show ?thesis
    by (auto simp: Let_def demo_txn_mgr_def)
qed

text \<open>
  committing or aborting a transaction that is no longer active changes nothing and calls nobody. A committed transaction
  commits again quietly and refuses an abort; an aborted one aborts again quietly and refuses a commit; while
  a commit is under way both are refused; an unknown transaction is not found.
\<close>

theorem settled_transactions_stay:
  assumes "case txn_of m tid of Some txn \<Rightarrow> tx_state txn \<noteq> Active | None \<Rightarrow> True"
  shows "mem_commit c N sched tid m =
      ((case txn_of m tid of
          None \<Rightarrow> Inl (TransactionNotFound tid)
        | Some txn \<Rightarrow> (case tx_state txn of
            Committed \<Rightarrow> Inr ()
          | Aborted \<Rightarrow> Inl (TransactionAborted tid)
          | _ \<Rightarrow> Inl (TransactionCommitInProgress tid))), m) \<and>
    mem_abort c N sched tid m =
      ((case txn_of m tid of
          None \<Rightarrow> Inl (TransactionNotFound tid)
        | Some txn \<Rightarrow> (case tx_state txn of
            Committed \<Rightarrow> Inl (TransactionTerminal tid)
          | Aborted \<Rightarrow> Inr ()
          | _ \<Rightarrow> Inl (TransactionCommitInProgress tid))), m) \<and>
    mem_abort_expired N sched tid m = (Inr (), m)"
  using assms
  by (cases "txn_of m tid")
     (auto simp: TxnManager_commit_def TxnManager_abort_def TxnManager_abort_expired_def txn_defs Let_def
       split: TransactionState.splits)

theorem settled_transactions_stay_witness:
  "mem_commit chrono_std demo_net seq_schedule ''t1'' (demo_txn_mgr (demo_txn\<lparr>tx_state := Aborted\<rparr>)) =
     (Inl (TransactionAborted ''t1''), demo_txn_mgr (demo_txn\<lparr>tx_state := Aborted\<rparr>))"
  using settled_transactions_stay[of "demo_txn_mgr (demo_txn\<lparr>tx_state := Aborted\<rparr>)" "''t1''" chrono_std demo_net seq_schedule]
  by (simp add: demo_txn_mgr_def)

text \<open>
  aborting an active transaction, by request or because its lease was reclaimed, records the abort and tells every
  participant to abort, once each; a requested abort also cancels the lease.
\<close>

theorem abort_active:
  assumes "schedule_ok sched" "txn_of m tid = Some txn" "tx_state txn = Active"
  shows "\<exists>acks m'. mem_abort c N sched tid m = (Inr (), m') \<and>
      txn_of m' = (txn_of m)(tid \<mapsto> txn\<lparr>tx_state := Aborted\<rparr>) \<and>
      live_leases (tm_lease_manager m') = (live_leases (tm_lease_manager m))(tx_lease_id txn := None) \<and>
      calls_of m' = calls_of m @ map (\<lambda>i. (CallAbort (pr_endpoint (tx_participants txn ! i)) tid, acks i))
        (sched 0 (length (tx_participants txn))) \<and>
      (\<forall>ev. lr_resource_id (rc_record ev) = ''txn:'' @ tid \<longrightarrow>
         txn_cascade InMemoryTxnStore_ops (record_net N) sched ev m = m'\<lparr>tm_lease_manager := tm_lease_manager m\<rparr>)"
proof -
  obtain w log where w: "tm_world m = (w, log)" by (metis prod.collapse)
  let ?ps = "tx_participants txn"
  obtain acks w2 where ab: "do_abort_participants (record_net N) (sched 0 (length ?ps)) tid ?ps (w, log) =
        (w2, log @ map (\<lambda>i. (CallAbort (pr_endpoint (?ps ! i)) tid, acks i)) (sched 0 (length ?ps)))"
    by (rule do_abort_recorded[OF schedule_okD[OF assms(1)]]) blast
  show ?thesis
    by (rule exI[of _ acks])
       (use assms(2,3) w ab in \<open>auto simp: TxnManager_abort_def TxnManager_abort_expired_def txn_cascade_def txn_defs
          strip_prefix_def Let_def fmlookup_fmupd_fun\<close>)
qed

theorem abort_active_witness:
  "\<exists>m'. mem_abort chrono_std demo_net seq_schedule ''t1'' (demo_txn_mgr demo_txn) = (Inr (), m') \<and>
     map fst (calls_of m') = [CallAbort ''a:1'' ''t1'', CallAbort ''b:2'' ''t1'']"
proof -
  have "txn_of (demo_txn_mgr demo_txn) ''t1'' = Some demo_txn" "tx_state demo_txn = Active"
    by (simp_all add: demo_txn_mgr_def demo_txn_def)
  from abort_active[OF seq_schedule_ok this, of chrono_std demo_net] obtain acks m' where
    m': "mem_abort chrono_std demo_net seq_schedule ''t1'' (demo_txn_mgr demo_txn) = (Inr (), m')" and
    calls: "calls_of m' = calls_of (demo_txn_mgr demo_txn) @ map (\<lambda>i. (CallAbort (pr_endpoint (tx_participants demo_txn ! i)) ''t1'', acks i))
        (seq_schedule 0 (length (tx_participants demo_txn)))"
    by blast
  have "calls_of (demo_txn_mgr demo_txn) = []" by (simp add: demo_txn_mgr_def)
  moreover have "seq_schedule 0 (length (tx_participants demo_txn)) = [0, 1]"
    by (simp add: seq_schedule_def demo_txn_def)
  moreover have "map (\<lambda>i. pr_endpoint (tx_participants demo_txn ! i)) [0, 1] = [''a:1'', ''b:2'']"
    by (simp add: demo_txn_def)
  ultimately have "map fst (calls_of m') = [CallAbort ''a:1'' ''t1'', CallAbort ''b:2'' ''t1'']"
    using calls by simp
  then show ?thesis using m' by (intro exI[of _ m'] conjI)
qed

text \<open>
  Enlisting. A participant is added only when its endpoint passes the allowlist and the transaction is active, at the end of
  the list and nowhere else; in every other case the call fails and the manager is unchanged, so a rejected
  endpoint is never stored and hence never dialled.
\<close>

theorem enlist_guarded:
  "TxnManager_enlist InMemoryTxnStore_ops tid ep crash m =
     (case check (tm_allowlist m) ep of
        Inl e \<Rightarrow> (Inl e, m)
      | Inr _ \<Rightarrow>
          (case fmlookup (tm_records (tm_store m)) tid of
             None \<Rightarrow> (Inl (TransactionNotFound tid), m)
           | Some txn \<Rightarrow>
               if tx_state txn = Active
               then (Inr (), m\<lparr>tm_store := tm_store m\<lparr>tm_records := fmupd tid
                       (txn\<lparr>tx_participants := tx_participants txn @ [\<lparr>pr_endpoint = ep, pr_crash_count = crash\<rparr>]\<rparr>)
                       (tm_records (tm_store m))\<rparr>\<rparr>)
               else (Inl (TransactionTerminal tid), m)))"
  by (simp add: TxnManager_enlist_def mem_txn_defs split: sum.split option.split)

end
