(* ===== verification/Txn_Race.thy ===== *)
theory Txn_Race
  imports Txn_Commit
begin

text \<open>
  Concurrent use of one transaction. The manager's methods run as independent tasks that meet only in the store, whose
  operations are atomic; between two of them anything may happen. The step relation interleaves the
  store operations of any number of commits, aborts, lease expiries and enlists of one transaction, with
  arbitrary steps on other transactions. Each step is the store operation of the model itself; a commit in
  progress is represented by the point it has reached in \<^verbatim>\<open>TxnManager::commit\<close>.
\<close>

section \<open>The step relation\<close>

datatype commit_pc =
    NotStarted
  | Rejected
  | Claimed
  | Fetched "ParticipantRecord list"
  | Unknown
  | InPhase2
  | Done TransactionState
  | Broken

record race =
  ra_store :: InMemoryTxnStore
  ra_pc :: "nat \<Rightarrow> commit_pc"

abbreviation cas :: "string \<Rightarrow> TransactionState \<Rightarrow> TransactionState \<Rightarrow> InMemoryTxnStore \<Rightarrow> bool result \<times> InMemoryTxnStore" where
  "cas \<equiv> ts_update_state_if InMemoryTxnStore_ops"

text \<open>
  \<open>Broken\<close> is where \<^verbatim>\<open>transition\<close> lands when its compare-and-set fails, the case its comment calls an
  invariant violation.
\<close>

inductive race_step :: "string \<Rightarrow> race \<Rightarrow> race \<Rightarrow> bool" for tid :: string where
  enlist: "ts_add_participant InMemoryTxnStore_ops tid p (ra_store r) = (x, s') \<Longrightarrow>
     race_step tid r (r\<lparr>ra_store := s'\<rparr>)"
| abort: "cas tid Active Aborted (ra_store r) = (x, s') \<Longrightarrow> race_step tid r (r\<lparr>ra_store := s'\<rparr>)"
| claim: "ra_pc r t = NotStarted \<Longrightarrow> cas tid Active Voting (ra_store r) = (x, s') \<Longrightarrow>
     race_step tid r (r\<lparr>ra_store := s', ra_pc := (ra_pc r)(t := if x = Inr True then Claimed else Rejected)\<rparr>)"
| fetch: "ra_pc r t = Claimed \<Longrightarrow> ts_get InMemoryTxnStore_ops tid (ra_store r) = Inr (Some txn) \<Longrightarrow>
     race_step tid r (r\<lparr>ra_pc := (ra_pc r)(t := Fetched (tx_participants txn))\<rparr>)"
| commit_small: "ra_pc r t = Fetched ps \<Longrightarrow> length ps < 2 \<Longrightarrow> cas tid Voting Committed (ra_store r) = (x, s') \<Longrightarrow>
     race_step tid r (r\<lparr>ra_store := s', ra_pc := (ra_pc r)(t := if x = Inr True then Done Committed else Broken)\<rparr>)"
| vote_abort: "ra_pc r t = Fetched ps \<Longrightarrow> ps \<noteq> [] \<Longrightarrow> cas tid Voting Aborted (ra_store r) = (x, s') \<Longrightarrow>
     race_step tid r (r\<lparr>ra_store := s', ra_pc := (ra_pc r)(t := if x = Inr True then Done Aborted else Broken)\<rparr>)"
| outcome_unknown: "ra_pc r t = Fetched [p] \<Longrightarrow> race_step tid r (r\<lparr>ra_pc := (ra_pc r)(t := Unknown)\<rparr>)"
| prepared: "ra_pc r t = Fetched ps \<Longrightarrow> length ps \<ge> 2 \<Longrightarrow> cas tid Voting Prepared (ra_store r) = (x, s') \<Longrightarrow>
     race_step tid r (r\<lparr>ra_store := s', ra_pc := (ra_pc r)(t := if x = Inr True then InPhase2 else Broken)\<rparr>)"
| phase2: "ra_pc r t = InPhase2 \<Longrightarrow> cas tid Prepared Committed (ra_store r) = (x, s') \<Longrightarrow>
     race_step tid r (r\<lparr>ra_store := s', ra_pc := (ra_pc r)(t := if x = Inr True then Done Committed else Broken)\<rparr>)"
| other: "fmlookup (tm_records s') tid = fmlookup (tm_records (ra_store r)) tid \<Longrightarrow>
     race_step tid r (r\<lparr>ra_store := s'\<rparr>)"

text \<open>A transaction just begun, with no commit in progress.\<close>

definition race_init :: "string \<Rightarrow> race \<Rightarrow> bool" where
  "race_init tid r \<longleftrightarrow>
     (\<exists>txn. fmlookup (tm_records (ra_store r)) tid = Some txn \<and> tx_state txn = Active) \<and> (\<forall>t. ra_pc r t = NotStarted)"

definition idle :: "commit_pc \<Rightarrow> bool" where
  "idle pc \<longleftrightarrow> pc = NotStarted \<or> pc = Rejected"

text \<open>Where the one commit that owns the transaction can be, by the state of the record.\<close>

fun owner_at :: "TransactionRecord \<Rightarrow> commit_pc \<Rightarrow> bool" where
  "owner_at txn Claimed = (tx_state txn = Voting)"
| "owner_at txn (Fetched ps) = (tx_state txn = Voting \<and> ps = tx_participants txn)"
| "owner_at txn Unknown = (tx_state txn = Voting)"
| "owner_at txn InPhase2 = (tx_state txn = Prepared)"
| "owner_at txn (Done st) = (tx_state txn = st \<and> (st = Committed \<or> st = Aborted))"
| "owner_at txn _ = False"

definition race_inv :: "string \<Rightarrow> race \<Rightarrow> bool" where
  "race_inv tid r \<longleftrightarrow>
     (\<exists>txn. fmlookup (tm_records (ra_store r)) tid = Some txn \<and>
        ((tx_state txn = Active \<or> tx_state txn = Aborted) \<and> (\<forall>t. idle (ra_pc r t)) \<or>
         (\<exists>t. owner_at txn (ra_pc r t) \<and> (\<forall>t'. t' \<noteq> t \<longrightarrow> idle (ra_pc r t')))))"

section \<open>The invariant\<close>

lemma race_inv_idle:
  "fmlookup (tm_records (ra_store r)) tid = Some txn \<Longrightarrow> tx_state txn = Active \<or> tx_state txn = Aborted \<Longrightarrow>
   \<forall>t. idle (ra_pc r t) \<Longrightarrow> race_inv tid r"
  by (auto simp: race_inv_def)

lemma race_inv_owner:
  "fmlookup (tm_records (ra_store r)) tid = Some txn \<Longrightarrow> owner_at txn (ra_pc r t) \<Longrightarrow>
   \<forall>t'. t' \<noteq> t \<longrightarrow> idle (ra_pc r t') \<Longrightarrow> race_inv tid r"
  by (auto simp: race_inv_def)

lemma race_invE:
  assumes "race_inv tid r"
  obtains (Idle) txn where "fmlookup (tm_records (ra_store r)) tid = Some txn"
      "tx_state txn = Active \<or> tx_state txn = Aborted" "\<forall>t. idle (ra_pc r t)"
  | (Owned) txn t where "fmlookup (tm_records (ra_store r)) tid = Some txn" "owner_at txn (ra_pc r t)"
      "\<forall>t'. t' \<noteq> t \<longrightarrow> idle (ra_pc r t')"
  using assms unfolding race_inv_def by blast

lemma owner_not_Active: "owner_at txn pc \<Longrightarrow> tx_state txn \<noteq> Active"
  by (cases "(txn, pc)" rule: owner_at.cases) auto

lemma idle_simps [simp]: "idle NotStarted" "idle Rejected" "\<not> idle Claimed" "\<not> idle (Fetched ps)"
  "\<not> idle Unknown" "\<not> idle InPhase2" "\<not> idle (Done st)" "\<not> idle Broken"
  by (simp_all add: idle_def)

lemma race_inv_step:
  assumes "race_step tid r r'" "race_inv tid r"
  shows "race_inv tid r'"
  using assms(2)
proof (cases rule: race_invE)
  case (Idle txn)
  from assms(1) show ?thesis
  proof cases
    case (enlist p x s')
    then show ?thesis using Idle by (auto simp: mem_txn_defs intro!: race_inv_idle split: if_splits)
  next
    case (abort x s')
    then show ?thesis using Idle by (auto intro!: race_inv_idle split: if_splits)
  next
    case (claim t x s')
    show ?thesis
    proof (cases "tx_state txn = Active")
      case True
      then show ?thesis using Idle claim by (auto intro!: race_inv_owner[where t = t])
    next
      case False
      then show ?thesis using Idle claim by (auto intro!: race_inv_idle)
    qed
  next
    case (other s')
    then show ?thesis using Idle by (auto intro!: race_inv_idle)
  qed (use Idle(3) in \<open>metis idle_simps\<close>)+
next
  case (Owned txn u)
  have na: "tx_state txn \<noteq> Active" using Owned(2) by (rule owner_not_Active)
  have t_u: "t = u" if "\<not> idle (ra_pc r t)" for t using Owned(3) that by blast
  from assms(1) show ?thesis
  proof cases
    case (enlist p x s')
    then show ?thesis using Owned na by (auto simp: mem_txn_defs intro!: race_inv_owner[where t = u])
  next
    case (abort x s')
    then show ?thesis using Owned na by (auto intro!: race_inv_owner[where t = u])
  next
    case (claim t x s')
    then have "t \<noteq> u" using Owned(2) by auto
    then show ?thesis using Owned na claim by (auto intro!: race_inv_owner[where t = u])
  next
    case (fetch t txn')
    then show ?thesis using Owned t_u[of t] by (auto intro!: race_inv_owner[where t = u])
  next
    case (commit_small t ps x s')
    then show ?thesis using Owned t_u[of t] by (auto intro!: race_inv_owner[where t = u])
  next
    case (vote_abort t ps x s')
    then show ?thesis using Owned t_u[of t] by (auto intro!: race_inv_owner[where t = u])
  next
    case (outcome_unknown t p)
    then show ?thesis using Owned t_u[of t] by (auto intro!: race_inv_owner[where t = u])
  next
    case (prepared t ps x s')
    then show ?thesis using Owned t_u[of t] by (auto intro!: race_inv_owner[where t = u])
  next
    case (phase2 t x s')
    then show ?thesis using Owned t_u[of t] by (auto intro!: race_inv_owner[where t = u])
  next
    case (other s')
    then show ?thesis using Owned by (auto intro!: race_inv_owner[where t = u])
  qed
qed

lemma race_inv_init: "race_init tid r \<Longrightarrow> race_inv tid r"
  by (auto simp: race_init_def intro: race_inv_idle)

lemma race_inv_reachable: "(race_step tid)\<^sup>*\<^sup>* r r' \<Longrightarrow> race_inv tid r \<Longrightarrow> race_inv tid r'"
  by (induction rule: rtranclp_induct) (auto intro: race_inv_step)

text \<open>A race: task 0 claims the transaction, task 1 is rejected, an abort comes too late.\<close>

definition demo_race :: "TransactionState \<Rightarrow> commit_pc \<Rightarrow> commit_pc \<Rightarrow> race" where
  "demo_race st a b = \<lparr>ra_store = \<lparr>tm_records = fmupd ''t1'' (demo_txn\<lparr>tx_state := st\<rparr>) fmempty\<rparr>,
     ra_pc = (\<lambda>_. NotStarted)(0 := a, 1 := b)\<rparr>"

lemma demo_race_init: "race_init ''t1'' (demo_race Active NotStarted NotStarted)"
  by (simp add: race_init_def demo_race_def)

lemma demo_race_run:
  "(race_step ''t1'')\<^sup>*\<^sup>* (demo_race Active NotStarted NotStarted) (demo_race Voting Claimed Rejected)"
proof -
  have "race_step ''t1'' (demo_race Active NotStarted NotStarted) (demo_race Voting Claimed NotStarted)"
    using race_step.claim[of "demo_race Active NotStarted NotStarted" 0 "''t1''"]
    by (auto simp: demo_race_def fun_upd_twist fmupd_idem)
  moreover have "race_step ''t1'' (demo_race Voting Claimed NotStarted) (demo_race Voting Claimed Rejected)"
    using race_step.claim[of "demo_race Voting Claimed NotStarted" 1 "''t1''"]
    by (auto simp: demo_race_def)
  ultimately show ?thesis by (meson r_into_rtranclp rtranclp_trans)
qed

text \<open>
  C2: whatever interleaving of commits, aborts, expiries and enlists a transaction sees, at most one commit ever owns it, the
  participants that commit works with are the participants on record, and none of its later transitions fails: the
  internal error for an unexpected state during commit cannot occur.
\<close>

theorem one_commit_owns_transaction:
  assumes "race_init tid r" "(race_step tid)\<^sup>*\<^sup>* r r'"
  shows "(\<forall>t t'. \<not> idle (ra_pc r' t) \<longrightarrow> \<not> idle (ra_pc r' t') \<longrightarrow> t = t') \<and>
    (\<forall>t. ra_pc r' t \<noteq> Broken) \<and>
    (\<exists>txn. fmlookup (tm_records (ra_store r')) tid = Some txn \<and>
       (\<forall>t ps. ra_pc r' t = Fetched ps \<longrightarrow> ps = tx_participants txn \<and> tx_state txn = Voting) \<and>
       (\<forall>t st. ra_pc r' t = Done st \<longrightarrow> tx_state txn = st))"
proof -
  have "race_inv tid r'" using race_inv_reachable[OF assms(2) race_inv_init[OF assms(1)]] .
  then show ?thesis
  proof (cases rule: race_invE)
    case (Idle txn)
    then show ?thesis by (metis idle_simps)
  next
    case (Owned txn u)
    have "\<not> idle (ra_pc r' t) \<Longrightarrow> t = u" for t using Owned(3) by blast
    moreover have "ra_pc r' u \<noteq> Broken" using Owned(2) by auto
    ultimately show ?thesis using Owned by (metis idle_simps owner_at.simps(2,5))
  qed
qed

theorem one_commit_owns_transaction_witness:
  "idle (ra_pc (demo_race Voting Claimed Rejected) 1) \<and> ra_pc (demo_race Voting Claimed Rejected) 0 \<noteq> Broken"
proof -
  have "\<not> idle (ra_pc (demo_race Voting Claimed Rejected) 0)" by (simp add: demo_race_def)
  then show ?thesis using one_commit_owns_transaction[OF demo_race_init demo_race_run] by (metis zero_neq_one)
qed

text \<open>
  C26: once a transaction is committed or aborted it stays so, with the same participants, under any further interleaving;
  and from the moment a commit has claimed it no participant is added.
\<close>

theorem outcome_is_final:
  assumes "(race_step tid)\<^sup>*\<^sup>* r r'" "race_inv tid r" "fmlookup (tm_records (ra_store r)) tid = Some txn"
    "tx_state txn \<noteq> Active"
  shows "\<exists>txn'. fmlookup (tm_records (ra_store r')) tid = Some txn' \<and> tx_participants txn' = tx_participants txn \<and>
    tx_state txn' \<noteq> Active \<and> (tx_state txn \<in> {Committed, Aborted} \<longrightarrow> tx_state txn' = tx_state txn)"
  using assms(1)
proof (induction rule: rtranclp_induct)
  case base
  then show ?case using assms(3,4) by auto
next
  case (step y z)
  then obtain t1 where t1: "fmlookup (tm_records (ra_store y)) tid = Some t1" "tx_participants t1 = tx_participants txn"
    "tx_state t1 \<noteq> Active" "tx_state txn \<in> {Committed, Aborted} \<longrightarrow> tx_state t1 = tx_state txn" by blast
  from step.hyps(2) t1 show ?case
    by cases (auto simp: mem_txn_defs split: if_splits)
qed

theorem outcome_is_final_witness:
  "\<exists>txn'. fmlookup (tm_records (ra_store (demo_race Aborted NotStarted Rejected))) ''t1'' = Some txn' \<and> tx_state txn' = Aborted"
proof -
  have "(race_step ''t1'')\<^sup>*\<^sup>* (demo_race Aborted NotStarted NotStarted) (demo_race Aborted NotStarted Rejected)"
    using race_step.claim[of "demo_race Aborted NotStarted NotStarted" 1 "''t1''"] by (auto simp: demo_race_def)
  moreover have "race_inv ''t1'' (demo_race Aborted NotStarted NotStarted)"
    by (rule race_inv_idle) (auto simp: demo_race_def)
  ultimately show ?thesis
    using outcome_is_final[of "''t1''" "demo_race Aborted NotStarted NotStarted" "demo_race Aborted NotStarted Rejected" "demo_txn\<lparr>tx_state := Aborted\<rparr>"]
    by (auto simp: demo_race_def)
qed

section \<open>The handlers follow the steps\<close>

lemma steps_trans: "race_step tid a b \<Longrightarrow> (race_step tid)\<^sup>*\<^sup>* b c \<Longrightarrow> (race_step tid)\<^sup>*\<^sup>* a c"
  by (rule converse_rtranclp_into_rtranclp)

text \<open>The decisive part of a commit, from a claimed and fetched transaction.\<close>

lemma decide_steps:
  assumes "fmlookup (tm_records (tm_store m)) tid = Some txn" "tx_state txn = Voting" "pc t = Fetched (tx_participants txn)"
    "(res, m') = (case tx_participants txn of
          [] \<Rightarrow> finish_commit InMemoryTxnStore_ops (mem_leasing c) tid lid Voting Committed (Inr ()) m
        | [p] \<Rightarrow> commit_single InMemoryTxnStore_ops (mem_leasing c) N tid txn p m
        | _ \<Rightarrow> commit_many InMemoryTxnStore_ops (mem_leasing c) N sched tid txn m)"
  shows "\<exists>pc'. (race_step tid)\<^sup>*\<^sup>* \<lparr>ra_store = tm_store m, ra_pc = pc\<rparr> \<lparr>ra_store = tm_store m', ra_pc = pc(t := pc')\<rparr>"
proof -
  let ?s = "tm_store m"
  let ?r = "\<lparr>ra_store = ?s, ra_pc = pc\<rparr>"
  let ?to = "\<lambda>st. ?s\<lparr>tm_records := fmupd tid (txn\<lparr>tx_state := st\<rparr>) (tm_records ?s)\<rparr>"
  have small: "(race_step tid)\<^sup>*\<^sup>* ?r \<lparr>ra_store = ?to Committed, ra_pc = pc(t := Done Committed)\<rparr>"
    if "length (tx_participants txn) < 2"
    using race_step.commit_small[of ?r t _ tid, OF _ that] assms(1-3) by (auto intro!: r_into_rtranclp)
  have ab: "(race_step tid)\<^sup>*\<^sup>* ?r \<lparr>ra_store = ?to Aborted, ra_pc = pc(t := Done Aborted)\<rparr>"
    if "tx_participants txn \<noteq> []"
    using race_step.vote_abort[of ?r t _ tid, OF _ that] assms(1-3) by (auto intro!: r_into_rtranclp)
  have unk: "(race_step tid)\<^sup>*\<^sup>* ?r \<lparr>ra_store = ?s, ra_pc = pc(t := Unknown)\<rparr>"
    if "tx_participants txn = [p]" for p
    using race_step.outcome_unknown[of ?r t p tid] that assms(3) by (auto intro!: r_into_rtranclp)
  have p1: "race_step tid ?r \<lparr>ra_store = ?to Prepared, ra_pc = pc(t := InPhase2)\<rparr>"
    if "2 \<le> length (tx_participants txn)"
    using race_step.prepared[of ?r t _ tid, OF _ that] assms(1-3) by auto
  have p2: "race_step tid \<lparr>ra_store = ?to Prepared, ra_pc = pc(t := InPhase2)\<rparr>
      \<lparr>ra_store = ?to Committed, ra_pc = pc(t := Done Committed)\<rparr>"
    using race_step.phase2[of "\<lparr>ra_store = ?to Prepared, ra_pc = pc(t := InPhase2)\<rparr>" t tid] by auto
  have many: "(race_step tid)\<^sup>*\<^sup>* ?r \<lparr>ra_store = ?to Committed, ra_pc = pc(t := Done Committed)\<rparr>"
    if "2 \<le> length (tx_participants txn)"
    using p1[OF that] p2 by (blast intro: steps_trans)
  show ?thesis
  proof (cases "tx_participants txn")
    case Nil
    then have "tm_store m' = ?to Committed" using assms(1,2,4) by (simp add: txn_defs)
    then show ?thesis using small Nil by auto
  next
    case (Cons p ps)
    show ?thesis
    proof (cases ps)
      case Nil
      have "tm_store m' = ?to Committed \<or> tm_store m' = ?to Aborted \<or> tm_store m' = ?s"
        using assms(1,2,4) Cons Nil
        by (auto simp: txn_defs commit_single_def Let_def split: prod.splits sum.splits PrepareVote.splits)
      then show ?thesis using small ab unk[of p] Cons Nil by fastforce
    next
      case C2: (Cons q qs)
      have "tm_store m' = ?to Committed \<or> tm_store m' = ?to Aborted"
        using assms(1,2,4) Cons C2
        by (auto simp: txn_defs commit_many_def commit_rollback_def commit_phase2_def Let_def split: prod.splits if_splits)
      then show ?thesis using many ab Cons C2 by fastforce
    qed
  qed
qed

lemma cas_abort_step:
  "cas tid Active Aborted s = (x, s') \<Longrightarrow> (race_step tid)\<^sup>*\<^sup>* \<lparr>ra_store = s, ra_pc = pc\<rparr> \<lparr>ra_store = s', ra_pc = pc\<rparr>"
  using race_step.abort[of tid "\<lparr>ra_store = s, ra_pc = pc\<rparr>"] by (auto intro!: r_into_rtranclp)

lemma abort_refines_steps:
  "(race_step tid)\<^sup>*\<^sup>* \<lparr>ra_store = tm_store m, ra_pc = pc\<rparr>
     \<lparr>ra_store = tm_store (snd (TxnManager_abort InMemoryTxnStore_ops (mem_leasing c) N sched tid m)), ra_pc = pc\<rparr>"
  "(race_step tid)\<^sup>*\<^sup>* \<lparr>ra_store = tm_store m, ra_pc = pc\<rparr>
     \<lparr>ra_store = tm_store (snd (TxnManager_abort_expired InMemoryTxnStore_ops N sched tid m)), ra_pc = pc\<rparr>"
proof -
  obtain x s' where cas: "cas tid Active Aborted (tm_store m) = (x, s')" by (metis prod.collapse)
  then have "tm_store (snd (TxnManager_abort InMemoryTxnStore_ops (mem_leasing c) N sched tid m)) = s'"
    "tm_store (snd (TxnManager_abort_expired InMemoryTxnStore_ops N sched tid m)) = s'"
    by (auto simp: TxnManager_abort_def TxnManager_abort_expired_def txn_defs Let_def
        split: sum.split option.split bool.split TransactionState.split prod.split error.split)
  then show "(race_step tid)\<^sup>*\<^sup>* \<lparr>ra_store = tm_store m, ra_pc = pc\<rparr>
      \<lparr>ra_store = tm_store (snd (TxnManager_abort InMemoryTxnStore_ops (mem_leasing c) N sched tid m)), ra_pc = pc\<rparr>"
    "(race_step tid)\<^sup>*\<^sup>* \<lparr>ra_store = tm_store m, ra_pc = pc\<rparr>
      \<lparr>ra_store = tm_store (snd (TxnManager_abort_expired InMemoryTxnStore_ops N sched tid m)), ra_pc = pc\<rparr>"
    using cas_abort_step[OF cas] by simp_all
qed

lemma enlist_refines_steps:
  "(race_step tid)\<^sup>*\<^sup>* \<lparr>ra_store = tm_store m, ra_pc = pc\<rparr>
     \<lparr>ra_store = tm_store (snd (TxnManager_enlist InMemoryTxnStore_ops tid ep crash m)), ra_pc = pc\<rparr>"
proof (cases "check (tm_allowlist m) ep")
  case (Inl e)
  then show ?thesis by (simp add: TxnManager_enlist_def)
next
  case (Inr u)
  obtain x s' where "ts_add_participant InMemoryTxnStore_ops tid \<lparr>pr_endpoint = ep, pr_crash_count = crash\<rparr> (tm_store m) = (x, s')"
    by (metis prod.collapse)
  then show ?thesis
    using Inr race_step.enlist[of tid _ "\<lparr>ra_store = tm_store m, ra_pc = pc\<rparr>" x s']
    by (auto simp: TxnManager_enlist_def intro!: r_into_rtranclp split: sum.split)
qed

lemma commit_refines_steps:
  assumes "pc t = NotStarted"
  shows "\<exists>pc'. (race_step tid)\<^sup>*\<^sup>* \<lparr>ra_store = tm_store m, ra_pc = pc\<rparr>
      \<lparr>ra_store = tm_store (snd (TxnManager_commit InMemoryTxnStore_ops (mem_leasing c) N sched tid m)), ra_pc = pc(t := pc')\<rparr>"
proof (cases "\<exists>txn. fmlookup (tm_records (tm_store m)) tid = Some txn \<and> tx_state txn = Active")
  case True
  then obtain txn where txn: "fmlookup (tm_records (tm_store m)) tid = Some txn" "tx_state txn = Active" by blast
  let ?txn = "txn\<lparr>tx_state := Voting\<rparr>"
  let ?s = "tm_store m\<lparr>tm_records := fmupd tid ?txn (tm_records (tm_store m))\<rparr>"
  let ?pc = "pc(t := Fetched (tx_participants txn))"
  obtain res m' where run: "TxnManager_commit InMemoryTxnStore_ops (mem_leasing c) N sched tid m = (res, m')"
    by (metis prod.collapse)
  then have d: "(res, m') = (case tx_participants ?txn of
          [] \<Rightarrow> finish_commit InMemoryTxnStore_ops (mem_leasing c) tid (tx_lease_id txn) Voting Committed (Inr ()) (m\<lparr>tm_store := ?s\<rparr>)
        | [p] \<Rightarrow> commit_single InMemoryTxnStore_ops (mem_leasing c) N tid ?txn p (m\<lparr>tm_store := ?s\<rparr>)
        | _ \<Rightarrow> commit_many InMemoryTxnStore_ops (mem_leasing c) N sched tid ?txn (m\<lparr>tm_store := ?s\<rparr>))"
    using txn by (simp add: TxnManager_commit_def TxnManager_fetch_def Let_def split: list.splits)
  have 1: "race_step tid \<lparr>ra_store = tm_store m, ra_pc = pc\<rparr> \<lparr>ra_store = ?s, ra_pc = pc(t := Claimed)\<rparr>"
    using race_step.claim[of "\<lparr>ra_store = tm_store m, ra_pc = pc\<rparr>" t tid] assms txn by simp
  have 2: "race_step tid \<lparr>ra_store = ?s, ra_pc = pc(t := Claimed)\<rparr> \<lparr>ra_store = ?s, ra_pc = ?pc\<rparr>"
    using race_step.fetch[of "\<lparr>ra_store = ?s, ra_pc = pc(t := Claimed)\<rparr>" t tid] by simp
  have "\<exists>pc'. (race_step tid)\<^sup>*\<^sup>* \<lparr>ra_store = ?s, ra_pc = ?pc\<rparr> \<lparr>ra_store = tm_store m', ra_pc = ?pc(t := pc')\<rparr>"
    using decide_steps[of "m\<lparr>tm_store := ?s\<rparr>" tid ?txn ?pc t, OF _ _ _ d] by simp
  then show ?thesis using steps_trans[OF 1 steps_trans[OF 2]] run by fastforce
next
  case False
  obtain x s' where cas: "cas tid Active Voting (tm_store m) = (x, s')" "x \<noteq> Inr True" "s' = tm_store m"
    using False by (cases "fmlookup (tm_records (tm_store m)) tid") auto
  then have st: "tm_store (snd (TxnManager_commit InMemoryTxnStore_ops (mem_leasing c) N sched tid m)) = tm_store m"
    using False by (auto simp: TxnManager_commit_def Let_def TxnManager_fetch_def
        split: sum.splits bool.splits option.splits TransactionState.split)
  show ?thesis
    using race_step.claim[of "\<lparr>ra_store = tm_store m, ra_pc = pc\<rparr>" t tid x s'] assms cas
    unfolding st by (auto intro!: r_into_rtranclp)
qed



end
