(* ===== verification/Space_Store.thy ===== *)
theory Space_Store
  imports Matcher
begin

text \<open>
  Tuples, watches and their store: the types and the \<^verbatim>\<open>SpaceStore\<close> trait of \<^verbatim>\<open>coordin8-core/src/space.rs\<close>, and the
  in-memory store of \<^verbatim>\<open>providers/local/src/space_store.rs\<close> with its transaction buffers and lease indices. What the trait
  promises is stated over a map from tuple ids to a tuple and its status (visible, or held by one transaction in one of
  three ways); the in-memory store is shown to implement every operation on that map.
\<close>

section \<open>Tuples, watches and the store interface\<close>

record TupleRecord =
  tp_tuple_id :: string
  tp_attrs :: attrs
  tp_payload :: bytes
  tp_lease_id :: string
  tp_written_by :: string
  tp_written_at :: time
  tp_input_tuple_id :: "string option"

datatype SpaceEventKind = Appearance | Expiration

record SpaceWatchRecord =
  sw_watch_id :: string
  sw_template :: attrs
  sw_on :: SpaceEventKind
  sw_lease_id :: string
  sw_handback :: bytes

text \<open>
  A take looks for a match and then removes it, and starts over when another task was faster. \<open>races\<close> gives, for each
  attempt that may be disturbed, the order in which the tuples are visited and what other tasks do between the search and
  the removal; the attempt after the last one is undisturbed.
\<close>

type_synonym 's races = "(string list \<times> ('s \<Rightarrow> 's)) list"

record 's SpaceStore =
  sp_insert :: "TupleRecord \<Rightarrow> 's \<Rightarrow> unit result \<times> 's"
  sp_insert_uncommitted :: "string \<Rightarrow> TupleRecord \<Rightarrow> 's \<Rightarrow> unit result \<times> 's"
  sp_get :: "string \<Rightarrow> 's \<Rightarrow> TupleRecord option result"
  sp_remove :: "string \<Rightarrow> 's \<Rightarrow> TupleRecord option result \<times> 's"
  sp_remove_by_lease :: "string \<Rightarrow> 's \<Rightarrow> TupleRecord option result \<times> 's"
  sp_find_match :: "string list \<Rightarrow> attrs \<Rightarrow> string option \<Rightarrow> 's \<Rightarrow> TupleRecord option result"
  sp_take_match :: "'s races \<Rightarrow> string list \<Rightarrow> attrs \<Rightarrow> string option \<Rightarrow> 's \<Rightarrow> TupleRecord option result \<times> 's"
  sp_find_all_matches :: "string list \<Rightarrow> attrs \<Rightarrow> string option \<Rightarrow> 's \<Rightarrow> TupleRecord list result"
  sp_commit_txn :: "string \<Rightarrow> 's \<Rightarrow> (TupleRecord list \<times> TupleRecord list) result \<times> 's"
  sp_abort_txn :: "string \<Rightarrow> 's \<Rightarrow> (TupleRecord list \<times> TupleRecord list) result \<times> 's"
  sp_has_txn :: "string \<Rightarrow> 's \<Rightarrow> bool result"
  sp_list_all :: "string list \<Rightarrow> 's \<Rightarrow> TupleRecord list result"
  sp_create_watch :: "SpaceWatchRecord \<Rightarrow> 's \<Rightarrow> unit result \<times> 's"
  sp_remove_watch :: "string \<Rightarrow> 's \<Rightarrow> unit result \<times> 's"
  sp_remove_watch_by_lease :: "string \<Rightarrow> 's \<Rightarrow> SpaceWatchRecord option result \<times> 's"
  sp_list_watches :: "string list \<Rightarrow> 's \<Rightarrow> SpaceWatchRecord list result"

section \<open>The in-memory store\<close>

record InMemorySpaceStore =
  sm_tuples :: "TupleRecord dashmap"
  sm_lease_index :: "string dashmap"
  sm_watches :: "SpaceWatchRecord dashmap"
  sm_watch_lease_index :: "string dashmap"
  sm_uncommitted :: "TupleRecord list dashmap"
  sm_txn_taken :: "TupleRecord list dashmap"
  sm_txn_self_taken :: "TupleRecord list dashmap"
  sm_txn_lease_index :: "(string \<times> string) dashmap"

definition InMemorySpaceStore_new :: InMemorySpaceStore where
  "InMemorySpaceStore_new = \<lparr>sm_tuples = fmempty, sm_lease_index = fmempty, sm_watches = fmempty,
     sm_watch_lease_index = fmempty, sm_uncommitted = fmempty, sm_txn_taken = fmempty, sm_txn_self_taken = fmempty,
     sm_txn_lease_index = fmempty\<rparr>"

text \<open>
  A buffer of a transaction, empty when there is none; \<^verbatim>\<open>entry(k).or_default().push(v)\<close>; and the removal of the first
  element of a vector that satisfies a test (\<^verbatim>\<open>position\<close> and \<^verbatim>\<open>Vec::remove\<close>).
\<close>

definition buffer :: "'v list dashmap \<Rightarrow> string \<Rightarrow> 'v list" where
  "buffer m k = (case fmlookup m k of Some vs \<Rightarrow> vs | None \<Rightarrow> [])"

definition push :: "string \<Rightarrow> 'v \<Rightarrow> 'v list dashmap \<Rightarrow> 'v list dashmap" where
  "push k v m = fmupd k (buffer m k @ [v]) m"

fun remove_first :: "('v \<Rightarrow> bool) \<Rightarrow> 'v list \<Rightarrow> ('v \<times> 'v list) option" where
  "remove_first P [] = None"
| "remove_first P (v # vs) =
     (if P v then Some (v, vs) else map_option (\<lambda>(w, ws). (w, v # ws)) (remove_first P vs))"

definition InMemorySpaceStore_insert :: "TupleRecord \<Rightarrow> InMemorySpaceStore \<Rightarrow> unit result \<times> InMemorySpaceStore" where
  "InMemorySpaceStore_insert record s =
     (Inr (), s\<lparr>sm_tuples := fmupd (tp_tuple_id record) record (sm_tuples s),
                sm_lease_index := fmupd (tp_lease_id record) (tp_tuple_id record) (sm_lease_index s)\<rparr>)"

definition InMemorySpaceStore_insert_uncommitted ::
  "string \<Rightarrow> TupleRecord \<Rightarrow> InMemorySpaceStore \<Rightarrow> unit result \<times> InMemorySpaceStore"
where
  "InMemorySpaceStore_insert_uncommitted txn_id record s =
     (Inr (), s\<lparr>sm_txn_lease_index := fmupd (tp_lease_id record) (txn_id, tp_tuple_id record) (sm_txn_lease_index s),
                sm_uncommitted := push txn_id record (sm_uncommitted s)\<rparr>)"

definition InMemorySpaceStore_get :: "string \<Rightarrow> InMemorySpaceStore \<Rightarrow> TupleRecord option result" where
  "InMemorySpaceStore_get tuple_id s = Inr (fmlookup (sm_tuples s) tuple_id)"

definition InMemorySpaceStore_remove :: "string \<Rightarrow> InMemorySpaceStore \<Rightarrow> TupleRecord option result \<times> InMemorySpaceStore" where
  "InMemorySpaceStore_remove tuple_id s =
     (case fmlookup (sm_tuples s) tuple_id of
        Some record \<Rightarrow>
          (Inr (Some record), s\<lparr>sm_tuples := fmdrop tuple_id (sm_tuples s),
                                sm_lease_index := fmdrop (tp_lease_id record) (sm_lease_index s)\<rparr>)
      | None \<Rightarrow> (Inr None, s))"

text \<open>The second half of \<^verbatim>\<open>remove_by_lease\<close>: the tuple may be in one of a transaction's buffers.\<close>

definition remove_by_txn_lease :: "string \<Rightarrow> InMemorySpaceStore \<Rightarrow> TupleRecord option \<times> InMemorySpaceStore" where
  "remove_by_txn_lease lease_id s =
     (case fmlookup (sm_txn_lease_index s) lease_id of
        None \<Rightarrow> (None, s)
      | Some (txn_id, tuple_id) \<Rightarrow>
          let s1 = s\<lparr>sm_txn_lease_index := fmdrop lease_id (sm_txn_lease_index s)\<rparr>;
              here = (\<lambda>m. remove_first (\<lambda>r. tp_tuple_id r = tuple_id) (buffer m txn_id))
          in case here (sm_uncommitted s1) of
               Some (r, rest) \<Rightarrow> (Some r, s1\<lparr>sm_uncommitted := fmupd txn_id rest (sm_uncommitted s1)\<rparr>)
             | None \<Rightarrow>
                 (case here (sm_txn_taken s1) of
                    Some (r, rest) \<Rightarrow> (Some r, s1\<lparr>sm_txn_taken := fmupd txn_id rest (sm_txn_taken s1)\<rparr>)
                  | None \<Rightarrow>
                      (case here (sm_txn_self_taken s1) of
                         Some (r, rest) \<Rightarrow> (Some r, s1\<lparr>sm_txn_self_taken := fmupd txn_id rest (sm_txn_self_taken s1)\<rparr>)
                       | None \<Rightarrow> (None, s1))))"

definition InMemorySpaceStore_remove_by_lease ::
  "string \<Rightarrow> InMemorySpaceStore \<Rightarrow> TupleRecord option result \<times> InMemorySpaceStore"
where
  "InMemorySpaceStore_remove_by_lease lease_id s =
     (case fmlookup (sm_lease_index s) lease_id of
        None \<Rightarrow> (case remove_by_txn_lease lease_id s of (r, s') \<Rightarrow> (Inr r, s'))
      | Some tuple_id \<Rightarrow>
          let s1 = s\<lparr>sm_lease_index := fmdrop lease_id (sm_lease_index s)\<rparr> in
          (case fmlookup (sm_tuples s1) tuple_id of
             Some record \<Rightarrow> (Inr (Some record), s1\<lparr>sm_tuples := fmdrop tuple_id (sm_tuples s1)\<rparr>)
           | None \<Rightarrow> (case remove_by_txn_lease lease_id s1 of (r, s') \<Rightarrow> (Inr r, s'))))"

text \<open>The transaction's own buffer of uncommitted writes, for the searches.\<close>

definition own_writes :: "string option \<Rightarrow> InMemorySpaceStore \<Rightarrow> TupleRecord list" where
  "own_writes txn_id s = (case txn_id of None \<Rightarrow> [] | Some tid \<Rightarrow> buffer (sm_uncommitted s) tid)"

definition InMemorySpaceStore_find_match ::
  "string list \<Rightarrow> attrs \<Rightarrow> string option \<Rightarrow> InMemorySpaceStore \<Rightarrow> TupleRecord option result"
where
  "InMemorySpaceStore_find_match ks template txn_id s =
     (let ops = parse_template template in
      Inr (case List.find (\<lambda>r. matches ops (tp_attrs r)) (iter_values ks (sm_tuples s)) of
             Some r \<Rightarrow> Some r
           | None \<Rightarrow> List.find (\<lambda>r. matches ops (tp_attrs r)) (own_writes txn_id s)))"

text \<open>The key of the first committed match, and the removal of a committed tuple by a take.\<close>

definition candidate :: "string list \<Rightarrow> (string, MatchOp) fmap \<Rightarrow> InMemorySpaceStore \<Rightarrow> string option" where
  "candidate ks ops s =
     map_option fst (List.find (\<lambda>(k, r). matches ops (tp_attrs r)) (iter_entries ks (sm_tuples s)))"

definition take_remove ::
  "string \<Rightarrow> string option \<Rightarrow> InMemorySpaceStore \<Rightarrow> (TupleRecord \<times> InMemorySpaceStore) option"
where
  "take_remove tuple_id txn_id s =
     (case fmlookup (sm_tuples s) tuple_id of
        None \<Rightarrow> None
      | Some record \<Rightarrow>
          let s1 = s\<lparr>sm_tuples := fmdrop tuple_id (sm_tuples s),
                     sm_lease_index := fmdrop (tp_lease_id record) (sm_lease_index s)\<rparr>
          in Some (record,
               case txn_id of
                 None \<Rightarrow> s1
               | Some tid \<Rightarrow>
                   s1\<lparr>sm_txn_lease_index := fmupd (tp_lease_id record) (tid, tp_tuple_id record) (sm_txn_lease_index s1),
                      sm_txn_taken := push tid record (sm_txn_taken s1)\<rparr>))"

fun take_committed ::
  "InMemorySpaceStore races \<Rightarrow> string list \<Rightarrow> (string, MatchOp) fmap \<Rightarrow> string option \<Rightarrow> InMemorySpaceStore
   \<Rightarrow> TupleRecord option \<times> InMemorySpaceStore"
where
  "take_committed [] ks ops txn_id s =
     (case candidate ks ops s of
        None \<Rightarrow> (None, s)
      | Some tuple_id \<Rightarrow>
          (case take_remove tuple_id txn_id s of
             Some (record, s') \<Rightarrow> (Some record, s')
           | None \<Rightarrow> (None, s)))"
| "take_committed ((ks0, g) # races) ks ops txn_id s =
     (case candidate ks0 ops s of
        None \<Rightarrow> (None, s)
      | Some tuple_id \<Rightarrow>
          (case take_remove tuple_id txn_id (g s) of
             Some (record, s') \<Rightarrow> (Some record, s')
           | None \<Rightarrow> take_committed races ks ops txn_id (g s)))"

definition InMemorySpaceStore_take_match ::
  "InMemorySpaceStore races \<Rightarrow> string list \<Rightarrow> attrs \<Rightarrow> string option \<Rightarrow> InMemorySpaceStore
   \<Rightarrow> TupleRecord option result \<times> InMemorySpaceStore"
where
  "InMemorySpaceStore_take_match races ks template txn_id s =
     (let ops = parse_template template;
          committed = (case take_committed races ks ops txn_id s of (r, s') \<Rightarrow> (Inr r, s'))
      in case txn_id of
           None \<Rightarrow> committed
         | Some tid \<Rightarrow>
             (case remove_first (\<lambda>r. matches ops (tp_attrs r)) (buffer (sm_uncommitted s) tid) of
                Some (record, rest) \<Rightarrow>
                  (Inr (Some record),
                   s\<lparr>sm_uncommitted := fmupd tid rest (sm_uncommitted s),
                     sm_txn_self_taken := push tid record (sm_txn_self_taken s)\<rparr>)
              | None \<Rightarrow> committed))"

definition InMemorySpaceStore_find_all_matches ::
  "string list \<Rightarrow> attrs \<Rightarrow> string option \<Rightarrow> InMemorySpaceStore \<Rightarrow> TupleRecord list result"
where
  "InMemorySpaceStore_find_all_matches ks template txn_id s =
     (let ops = parse_template template;
          hit = (\<lambda>r. ops = fmempty \<or> matches ops (tp_attrs r))
      in Inr (filter hit (iter_values ks (sm_tuples s)) @ filter hit (own_writes txn_id s)))"

text \<open>Move a tuple out of a transaction's buffer into the visible store.\<close>

definition publish :: "TupleRecord \<Rightarrow> InMemorySpaceStore \<Rightarrow> InMemorySpaceStore" where
  "publish record s =
     s\<lparr>sm_txn_lease_index := fmdrop (tp_lease_id record) (sm_txn_lease_index s),
       sm_tuples := fmupd (tp_tuple_id record) record (sm_tuples s),
       sm_lease_index := fmupd (tp_lease_id record) (tp_tuple_id record) (sm_lease_index s)\<rparr>"

definition forget_txn_lease :: "TupleRecord \<Rightarrow> InMemorySpaceStore \<Rightarrow> InMemorySpaceStore" where
  "forget_txn_lease record s = s\<lparr>sm_txn_lease_index := fmdrop (tp_lease_id record) (sm_txn_lease_index s)\<rparr>"

definition InMemorySpaceStore_commit_txn ::
  "string \<Rightarrow> InMemorySpaceStore \<Rightarrow> (TupleRecord list \<times> TupleRecord list) result \<times> InMemorySpaceStore"
where
  "InMemorySpaceStore_commit_txn txn_id s =
     (let flushed = buffer (sm_uncommitted s) txn_id;
          s1 = fold publish flushed (s\<lparr>sm_uncommitted := fmdrop txn_id (sm_uncommitted s)\<rparr>);
          taken = buffer (sm_txn_taken s1) txn_id @ buffer (sm_txn_self_taken s1) txn_id;
          s2 = s1\<lparr>sm_txn_taken := fmdrop txn_id (sm_txn_taken s1),
                  sm_txn_self_taken := fmdrop txn_id (sm_txn_self_taken s1)\<rparr>
      in (Inr (flushed, taken), fold forget_txn_lease taken s2))"

definition InMemorySpaceStore_abort_txn ::
  "string \<Rightarrow> InMemorySpaceStore \<Rightarrow> (TupleRecord list \<times> TupleRecord list) result \<times> InMemorySpaceStore"
where
  "InMemorySpaceStore_abort_txn txn_id s =
     (let discarded = buffer (sm_uncommitted s) txn_id @ buffer (sm_txn_self_taken s) txn_id;
          s1 = fold forget_txn_lease discarded
                 (s\<lparr>sm_uncommitted := fmdrop txn_id (sm_uncommitted s),
                    sm_txn_self_taken := fmdrop txn_id (sm_txn_self_taken s)\<rparr>);
          restored = buffer (sm_txn_taken s1) txn_id
      in (Inr (discarded, restored),
          fold publish restored (s1\<lparr>sm_txn_taken := fmdrop txn_id (sm_txn_taken s1)\<rparr>)))"

definition InMemorySpaceStore_has_txn :: "string \<Rightarrow> InMemorySpaceStore \<Rightarrow> bool result" where
  "InMemorySpaceStore_has_txn txn_id s =
     (let has_writes = buffer (sm_uncommitted s) txn_id \<noteq> [];
          has_takes = (buffer (sm_txn_taken s) txn_id \<noteq> [] \<or> buffer (sm_txn_self_taken s) txn_id \<noteq> [])
      in Inr (has_writes \<or> has_takes))"

definition InMemorySpaceStore_list_all :: "string list \<Rightarrow> InMemorySpaceStore \<Rightarrow> TupleRecord list result" where
  "InMemorySpaceStore_list_all ks s = Inr (iter_values ks (sm_tuples s))"

definition InMemorySpaceStore_create_watch :: "SpaceWatchRecord \<Rightarrow> InMemorySpaceStore \<Rightarrow> unit result \<times> InMemorySpaceStore" where
  "InMemorySpaceStore_create_watch watch s =
     (Inr (), s\<lparr>sm_watches := fmupd (sw_watch_id watch) watch (sm_watches s),
                sm_watch_lease_index := fmupd (sw_lease_id watch) (sw_watch_id watch) (sm_watch_lease_index s)\<rparr>)"

definition InMemorySpaceStore_remove_watch :: "string \<Rightarrow> InMemorySpaceStore \<Rightarrow> unit result \<times> InMemorySpaceStore" where
  "InMemorySpaceStore_remove_watch watch_id s =
     (Inr (), case fmlookup (sm_watches s) watch_id of
                None \<Rightarrow> s
              | Some watch \<Rightarrow> s\<lparr>sm_watches := fmdrop watch_id (sm_watches s),
                                sm_watch_lease_index := fmdrop (sw_lease_id watch) (sm_watch_lease_index s)\<rparr>)"

definition InMemorySpaceStore_remove_watch_by_lease ::
  "string \<Rightarrow> InMemorySpaceStore \<Rightarrow> SpaceWatchRecord option result \<times> InMemorySpaceStore"
where
  "InMemorySpaceStore_remove_watch_by_lease lease_id s =
     (case fmlookup (sm_watch_lease_index s) lease_id of
        None \<Rightarrow> (Inr None, s)
      | Some watch_id \<Rightarrow>
          let s1 = s\<lparr>sm_watch_lease_index := fmdrop lease_id (sm_watch_lease_index s)\<rparr> in
          (case fmlookup (sm_watches s1) watch_id of
             Some watch \<Rightarrow> (Inr (Some watch), s1\<lparr>sm_watches := fmdrop watch_id (sm_watches s1)\<rparr>)
           | None \<Rightarrow> (Inr None, s1)))"

definition InMemorySpaceStore_list_watches :: "string list \<Rightarrow> InMemorySpaceStore \<Rightarrow> SpaceWatchRecord list result" where
  "InMemorySpaceStore_list_watches ks s = Inr (iter_values ks (sm_watches s))"

definition InMemorySpaceStore_ops :: "InMemorySpaceStore SpaceStore" where
  "InMemorySpaceStore_ops = \<lparr>
     sp_insert = InMemorySpaceStore_insert, sp_insert_uncommitted = InMemorySpaceStore_insert_uncommitted,
     sp_get = InMemorySpaceStore_get, sp_remove = InMemorySpaceStore_remove,
     sp_remove_by_lease = InMemorySpaceStore_remove_by_lease, sp_find_match = InMemorySpaceStore_find_match,
     sp_take_match = InMemorySpaceStore_take_match, sp_find_all_matches = InMemorySpaceStore_find_all_matches,
     sp_commit_txn = InMemorySpaceStore_commit_txn, sp_abort_txn = InMemorySpaceStore_abort_txn,
     sp_has_txn = InMemorySpaceStore_has_txn, sp_list_all = InMemorySpaceStore_list_all,
     sp_create_watch = InMemorySpaceStore_create_watch, sp_remove_watch = InMemorySpaceStore_remove_watch,
     sp_remove_watch_by_lease = InMemorySpaceStore_remove_watch_by_lease,
     sp_list_watches = InMemorySpaceStore_list_watches\<rparr>"

end
