(* ===== verification/Space_View.thy ===== *)
theory Space_View
  imports Space_Store
begin

text \<open>
  What a space store promises. The contract is stated over a view: each tuple id maps to its tuple and a status, visible
  to everyone or held by one transaction. Every operation of the trait is an operation on the view; the in-memory store,
  with its five maps and two lease indices, is shown to implement each of them.
\<close>

section \<open>The view\<close>

datatype tuple_status = Visible | Written string | Taken string | SelfTaken string

type_synonym space_view = "string \<Rightarrow> (TupleRecord \<times> tuple_status) option"

fun held_by :: "tuple_status \<Rightarrow> string option" where
  "held_by Visible = None"
| "held_by (Written t) = Some t"
| "held_by (Taken t) = Some t"
| "held_by (SelfTaken t) = Some t"

text \<open>What a caller sees: the visible tuples and, inside a transaction, its own writes.\<close>

fun seen_by :: "string option \<Rightarrow> tuple_status \<Rightarrow> bool" where
  "seen_by txn Visible = True"
| "seen_by txn (Written t) = (txn = Some t)"
| "seen_by txn _ = False"

definition sees :: "string option \<Rightarrow> attrs \<Rightarrow> space_view \<Rightarrow> TupleRecord \<Rightarrow> bool" where
  "sees txn template m r \<longleftrightarrow>
     (\<exists>st. m (tp_tuple_id r) = Some (r, st) \<and> seen_by txn st \<and> matches (parse_template template) (tp_attrs r))"

definition view_ok :: "space_view \<Rightarrow> bool" where
  "view_ok m \<longleftrightarrow>
     (\<forall>k r st. m k = Some (r, st) \<longrightarrow> tp_tuple_id r = k) \<and>
     (\<forall>k r st k' r' st'. m k = Some (r, st) \<longrightarrow> m k' = Some (r', st') \<longrightarrow> tp_lease_id r = tp_lease_id r' \<longrightarrow> k = k')"

definition unused :: "TupleRecord \<Rightarrow> space_view \<Rightarrow> bool" where
  "unused r m \<longleftrightarrow> m (tp_tuple_id r) = None \<and> (\<forall>k r' st. m k = Some (r', st) \<longrightarrow> tp_lease_id r' \<noteq> tp_lease_id r)"

text \<open>The operations on the view.\<close>

fun after_commit :: "tuple_status \<Rightarrow> tuple_status option" where
  "after_commit (Written t) = Some Visible"
| "after_commit (Taken t) = None"
| "after_commit (SelfTaken t) = None"
| "after_commit Visible = Some Visible"

fun after_abort :: "tuple_status \<Rightarrow> tuple_status option" where
  "after_abort (Written t) = None"
| "after_abort (SelfTaken t) = None"
| "after_abort (Taken t) = Some Visible"
| "after_abort Visible = Some Visible"

fun after_take :: "string option \<Rightarrow> tuple_status \<Rightarrow> tuple_status option" where
  "after_take txn (Written t) = Some (SelfTaken t)"
| "after_take txn st = map_option Taken txn"

definition settle :: "(tuple_status \<Rightarrow> tuple_status option) \<Rightarrow> string \<Rightarrow> space_view \<Rightarrow> space_view" where
  "settle f t m = (\<lambda>k. case m k of
       None \<Rightarrow> None
     | Some (r, st) \<Rightarrow> if held_by st = Some t then map_option (Pair r) (f st) else Some (r, st))"

definition view_take :: "string option \<Rightarrow> TupleRecord \<Rightarrow> space_view \<Rightarrow> space_view" where
  "view_take txn r m = m(tp_tuple_id r :=
     (case m (tp_tuple_id r) of None \<Rightarrow> None | Some (r', st) \<Rightarrow> map_option (Pair r) (after_take txn st)))"

text \<open>
  What other tasks may do to the store while a take is between its search and its removal: anything that keeps the
  contract and does not put a different tuple under an id in use (ids are fresh).
\<close>

definition interference :: "('s \<Rightarrow> space_view \<Rightarrow> bool) \<Rightarrow> ('s \<Rightarrow> 's) \<Rightarrow> bool" where
  "interference view g \<longleftrightarrow>
     (\<forall>s m. view s m \<longrightarrow> (\<exists>m'. view (g s) m' \<and> (\<forall>k r st r' st'. m k = Some (r, st) \<longrightarrow> m' k = Some (r', st') \<longrightarrow> r' = r)))"

section \<open>The contract\<close>

locale space_store =
  fixes S :: "'s SpaceStore"
    and view :: "'s \<Rightarrow> space_view \<Rightarrow> bool"
    and visits :: "string list \<Rightarrow> 's \<Rightarrow> bool"
    and wview :: "'s \<Rightarrow> string \<Rightarrow> SpaceWatchRecord option"
    and wok :: "'s \<Rightarrow> bool"
  assumes view_is_ok: "view s m \<Longrightarrow> view_ok m"
    and insert_ok: "view s m \<Longrightarrow> unused r m \<Longrightarrow> sp_insert S r s = (Inr u, s') \<Longrightarrow>
          view s' (m(tp_tuple_id r \<mapsto> (r, Visible)))"
    and insert_uncommitted_ok: "view s m \<Longrightarrow> unused r m \<Longrightarrow> sp_insert_uncommitted S t r s = (Inr u, s') \<Longrightarrow>
          view s' (m(tp_tuple_id r \<mapsto> (r, Written t)))"
    and get_ok: "view s m \<Longrightarrow> sp_get S k s = Inr x \<Longrightarrow> x = Some r \<longleftrightarrow> m k = Some (r, Visible)"
    and remove_ok: "view s m \<Longrightarrow> sp_remove S k s = (Inr x, s') \<Longrightarrow>
          (\<forall>r. x = Some r \<longleftrightarrow> m k = Some (r, Visible)) \<and> view s' (if x = None then m else m(k := None))"
    and remove_by_lease_ok: "view s m \<Longrightarrow> sp_remove_by_lease S l s = (Inr x, s') \<Longrightarrow>
          (\<forall>r. x = Some r \<longleftrightarrow> (\<exists>st. m (tp_tuple_id r) = Some (r, st) \<and> tp_lease_id r = l)) \<and>
          view s' (case x of None \<Rightarrow> m | Some r \<Rightarrow> m(tp_tuple_id r := None))"
    and find_match_ok: "view s m \<Longrightarrow> visits ks s \<Longrightarrow> sp_find_match S ks template txn s = Inr x \<Longrightarrow>
          (case x of Some r \<Rightarrow> sees txn template m r | None \<Rightarrow> \<forall>r. \<not> sees txn template m r)"
    and take_match_Some: "view s m \<Longrightarrow> \<forall>(ks0, g) \<in> set races. interference view g \<Longrightarrow>
          sp_take_match S races ks template txn s = (Inr (Some r), s') \<Longrightarrow>
          \<exists>s1 m1. view s1 m1 \<and> (races = [] \<longrightarrow> s1 = s \<and> m1 = m) \<and> sees txn template m1 r \<and> view s' (view_take txn r m1)"
    and take_match_None: "view s m \<Longrightarrow> visits ks s \<Longrightarrow> sp_take_match S [] ks template txn s = (Inr None, s') \<Longrightarrow>
          (\<forall>r. \<not> sees txn template m r) \<and> view s' m"
    and take_match_view: "view s m \<Longrightarrow> \<forall>(ks0, g) \<in> set races. interference view g \<Longrightarrow>
          \<exists>m'. view (snd (sp_take_match S races ks template txn s)) m'"
    and find_all_ok: "view s m \<Longrightarrow> visits ks s \<Longrightarrow> sp_find_all_matches S ks template txn s = Inr rs \<Longrightarrow>
          distinct rs \<and> (\<forall>r. r \<in> set rs \<longleftrightarrow> sees txn template m r)"
    and commit_ok: "view s m \<Longrightarrow> sp_commit_txn S t s = (Inr (flushed, taken), s') \<Longrightarrow>
          view s' (settle after_commit t m) \<and> distinct flushed \<and> distinct taken \<and>
          (\<forall>r. r \<in> set flushed \<longleftrightarrow> m (tp_tuple_id r) = Some (r, Written t)) \<and>
          (\<forall>r. r \<in> set taken \<longleftrightarrow> m (tp_tuple_id r) = Some (r, Taken t) \<or> m (tp_tuple_id r) = Some (r, SelfTaken t))"
    and abort_ok: "view s m \<Longrightarrow> sp_abort_txn S t s = (Inr (discarded, restored), s') \<Longrightarrow>
          view s' (settle after_abort t m) \<and> distinct discarded \<and> distinct restored \<and>
          (\<forall>r. r \<in> set discarded \<longleftrightarrow> m (tp_tuple_id r) = Some (r, Written t) \<or> m (tp_tuple_id r) = Some (r, SelfTaken t)) \<and>
          (\<forall>r. r \<in> set restored \<longleftrightarrow> m (tp_tuple_id r) = Some (r, Taken t))"
    and has_txn_ok: "view s m \<Longrightarrow> sp_has_txn S t s = Inr b \<Longrightarrow>
          b \<longleftrightarrow> (\<exists>k r st. m k = Some (r, st) \<and> held_by st = Some t)"
    and create_watch_view: "view s m \<Longrightarrow> view (snd (sp_create_watch S w s)) m"
    and create_watch_ok: "wok s \<Longrightarrow> \<forall>k w'. wview s k = Some w' \<longrightarrow> sw_lease_id w' \<noteq> sw_lease_id w \<Longrightarrow>
          wview s (sw_watch_id w) = None \<Longrightarrow> sp_create_watch S w s = (Inr u, s') \<Longrightarrow>
          wok s' \<and> wview s' = (wview s)(sw_watch_id w \<mapsto> w)"
    and remove_watch_view: "view s m \<Longrightarrow> view (snd (sp_remove_watch_by_lease S l s)) m"
    and remove_watch_by_lease_ok: "wok s \<Longrightarrow> sp_remove_watch_by_lease S l s = (Inr y, s') \<Longrightarrow>
          wok s' \<and> (\<forall>w. y = Some w \<longleftrightarrow> wview s (sw_watch_id w) = Some w \<and> sw_lease_id w = l) \<and>
          wview s' = (case y of None \<Rightarrow> wview s | Some w \<Rightarrow> (wview s)(sw_watch_id w := None))"

section \<open>The in-memory store implements it\<close>

text \<open>
  The store against the view, map by map: the visible tuples, a buffer of the transactions, the lease index of the
  visible tuples and that of the held ones.
\<close>

definition tuples_rel :: "TupleRecord dashmap \<Rightarrow> space_view \<Rightarrow> bool" where
  "tuples_rel T m \<longleftrightarrow> (\<forall>k r. fmlookup T k = Some r \<longleftrightarrow> m k = Some (r, Visible))"

definition buffer_rel :: "(string \<Rightarrow> tuple_status) \<Rightarrow> TupleRecord list dashmap \<Rightarrow> space_view \<Rightarrow> bool" where
  "buffer_rel st B m \<longleftrightarrow>
     (\<forall>t. distinct (buffer B t) \<and> (\<forall>r. r \<in> set (buffer B t) \<longleftrightarrow> m (tp_tuple_id r) = Some (r, st t)))"

definition lease_rel :: "string dashmap \<Rightarrow> space_view \<Rightarrow> bool" where
  "lease_rel I m \<longleftrightarrow> (\<forall>l k. fmlookup I l = Some k \<longleftrightarrow> (\<exists>r. m k = Some (r, Visible) \<and> tp_lease_id r = l))"

definition txn_lease_rel :: "(string \<times> string) dashmap \<Rightarrow> space_view \<Rightarrow> bool" where
  "txn_lease_rel I m \<longleftrightarrow>
     (\<forall>l t k. fmlookup I l = Some (t, k) \<longleftrightarrow> (\<exists>r st. m k = Some (r, st) \<and> tp_lease_id r = l \<and> held_by st = Some t))"

definition space_rel :: "InMemorySpaceStore \<Rightarrow> space_view \<Rightarrow> bool" where
  "space_rel s m \<longleftrightarrow> view_ok m \<and> tuples_rel (sm_tuples s) m \<and> buffer_rel Written (sm_uncommitted s) m \<and>
     buffer_rel Taken (sm_txn_taken s) m \<and> buffer_rel SelfTaken (sm_txn_self_taken s) m \<and>
     lease_rel (sm_lease_index s) m \<and> txn_lease_rel (sm_txn_lease_index s) m"

named_theorems space_defs \<open>operations of the in-memory space store\<close>

declare InMemorySpaceStore_insert_def [space_defs] InMemorySpaceStore_insert_uncommitted_def [space_defs]
  InMemorySpaceStore_get_def [space_defs] InMemorySpaceStore_remove_def [space_defs]
  InMemorySpaceStore_find_match_def [space_defs] InMemorySpaceStore_find_all_matches_def [space_defs]
  InMemorySpaceStore_has_txn_def [space_defs] InMemorySpaceStore_list_all_def [space_defs]
  InMemorySpaceStore_create_watch_def [space_defs] InMemorySpaceStore_remove_watch_def [space_defs]
  InMemorySpaceStore_remove_watch_by_lease_def [space_defs] InMemorySpaceStore_ops_def [space_defs]

lemma buffer_simps [simp]:
  "buffer (fmupd k vs b) t = (if t = k then vs else buffer b t)"
  "buffer (fmdrop k b) t = (if t = k then [] else buffer b t)"
  "buffer (push k v b) t = (if t = k then buffer b k @ [v] else buffer b t)"
  "buffer fmempty t = []"
  by (auto simp: buffer_def push_def)

lemma remove_first_Some:
  "remove_first P vs = Some (v, rest) \<Longrightarrow> P v \<and> (\<exists>a b. vs = a @ v # b \<and> rest = a @ b \<and> (\<forall>x \<in> set a. \<not> P x))"
proof (induction vs arbitrary: rest)
  case Nil
  then show ?case by simp
next
  case (Cons x vs)
  show ?case
  proof (cases "P x")
    case True
    then show ?thesis using Cons.prems by (auto intro: exI[of _ "[]"])
  next
    case False
    then obtain r' where r': "remove_first P vs = Some (v, r')" "rest = x # r'" using Cons.prems by auto
    from Cons.IH[OF r'(1)] obtain a b where "P v" "vs = a @ v # b" "r' = a @ b" "\<forall>y \<in> set a. \<not> P y" by blast
    then have "P v \<and> x # vs = (x # a) @ v # b \<and> rest = (x # a) @ b \<and> (\<forall>y \<in> set (x # a). \<not> P y)"
      using r'(2) False by simp
    then show ?thesis by blast
  qed
qed

lemma remove_first_None: "remove_first P vs = None \<longleftrightarrow> (\<forall>v \<in> set vs. \<not> P v)"
  by (induction vs) auto

lemma remove_first_distinct:
  assumes "remove_first P vs = Some (v, rest)" "distinct vs"
  shows "P v" "v \<in> set vs" "distinct rest" "set rest = set vs - {v}"
  using remove_first_Some[OF assms(1)] assms(2) by auto

lemma view_okD:
  assumes "view_ok m" "m k = Some (r, st)"
  shows view_key: "tp_tuple_id r = k"
    and view_lease: "m k' = Some (r', st') \<Longrightarrow> tp_lease_id r' = tp_lease_id r \<Longrightarrow> k' = k"
  using assms unfolding view_ok_def by metis+

lemma view_ok_upd:
  "view_ok m \<Longrightarrow> unused r m \<Longrightarrow> view_ok (m(tp_tuple_id r \<mapsto> (r, st)))"
  unfolding view_ok_def unused_def by (auto split: if_splits) metis+

lemma view_ok_drop: "view_ok m \<Longrightarrow> view_ok (m(k := None))"
  unfolding view_ok_def by (simp split: if_splits)

lemma view_ok_sub:
  assumes "view_ok m" "\<And>k r st. m' k = Some (r, st) \<Longrightarrow> \<exists>st'. m k = Some (r, st')"
  shows "view_ok m'"
  using assms unfolding view_ok_def by meson

section \<open>Each map under a change of one tuple\<close>

named_theorems rel_intros \<open>how the parts of the store follow a change of the view\<close>

abbreviation has_status :: "(tuple_status \<Rightarrow> bool) \<Rightarrow> (TupleRecord \<times> tuple_status) option \<Rightarrow> bool" where
  "has_status P x \<equiv> case x of None \<Rightarrow> False | Some (r, st) \<Rightarrow> P st"

definition lease_only :: "string \<Rightarrow> string \<Rightarrow> space_view \<Rightarrow> bool" where
  "lease_only l k m \<longleftrightarrow> (\<forall>k' r st. m k' = Some (r, st) \<longrightarrow> tp_lease_id r = l \<longrightarrow> k' = k)"

lemma lease_only_unused: "unused r m \<Longrightarrow> lease_only (tp_lease_id r) k m"
  by (auto simp: unused_def lease_only_def)

lemma lease_only_view: "view_ok m \<Longrightarrow> m k = Some (r, st) \<Longrightarrow> lease_only (tp_lease_id r) k m"
  unfolding lease_only_def by (metis view_lease)

lemma tuples_rel_other [rel_intros]:
  "tuples_rel T m \<Longrightarrow> \<not> has_status ((=) Visible) (m k) \<Longrightarrow> \<not> has_status ((=) Visible) x \<Longrightarrow> tuples_rel T (m(k := x))"
  unfolding tuples_rel_def by (auto split: option.splits)

lemma tuples_rel_drop [rel_intros]:
  "tuples_rel T m \<Longrightarrow> \<not> has_status ((=) Visible) x \<Longrightarrow> tuples_rel (fmdrop k T) (m(k := x))"
  unfolding tuples_rel_def by (auto split: option.splits)

lemma tuples_rel_upd [rel_intros]:
  "tuples_rel T m \<Longrightarrow> tuples_rel (fmupd k r T) (m(k \<mapsto> (r, Visible)))"
  unfolding tuples_rel_def by auto

lemma buffer_rel_other [rel_intros]:
  "buffer_rel st B m \<Longrightarrow> \<not> has_status (\<lambda>s. s \<in> range st) (m k) \<Longrightarrow> \<not> has_status (\<lambda>s. s \<in> range st) x \<Longrightarrow>
   buffer_rel st B (m(k := x))"
  unfolding buffer_rel_def by (auto split: option.splits)

lemma buffer_rel_push [rel_intros]:
  "buffer_rel st B m \<Longrightarrow> inj st \<Longrightarrow> \<not> has_status (\<lambda>s. s \<in> range st) (m k) \<Longrightarrow> tp_tuple_id r = k \<Longrightarrow>
   buffer_rel st (push t r B) (m(k \<mapsto> (r, st t)))"
  unfolding buffer_rel_def by (auto split: option.splits dest: injD)

lemma buffer_rel_remove [rel_intros]:
  "buffer_rel st B m \<Longrightarrow> inj st \<Longrightarrow> \<not> has_status (\<lambda>s. s \<in> range st) x \<Longrightarrow> tp_tuple_id r = k \<Longrightarrow> distinct rest \<Longrightarrow>
   set rest = set (buffer B t) - {r} \<Longrightarrow> m k = Some (r, st t) \<Longrightarrow> buffer_rel st (fmupd t rest B) (m(k := x))"
  unfolding buffer_rel_def by (auto split: option.splits dest: injD)

lemma lease_rel_other [rel_intros]:
  "lease_rel I m \<Longrightarrow> \<not> has_status ((=) Visible) (m k) \<Longrightarrow> \<not> has_status ((=) Visible) x \<Longrightarrow> lease_rel I (m(k := x))"
  unfolding lease_rel_def by (auto split: option.splits)

lemma lease_rel_drop [rel_intros]:
  assumes "lease_rel I m" "view_ok m" "tp_lease_id r = l" "\<not> has_status ((=) Visible) x" "m k = Some (r, Visible)"
  shows "lease_rel (fmdrop l I) (m(k := x))"
proof -
  have "fmlookup (fmdrop l I) l' = Some k' \<longleftrightarrow> (\<exists>r. (m(k := x)) k' = Some (r, Visible) \<and> tp_lease_id r = l')" for l' k'
  proof (cases "l' = l")
    case True
    have "k' = k" if "m k' = Some (r', Visible)" "tp_lease_id r' = l" for r'
      using view_lease[OF assms(2,5) that(1)] that(2) assms(3) by simp
    with True show ?thesis using assms(4) by (auto split: option.splits)
  next
    case False
    then show ?thesis using assms(1,3,4,5) unfolding lease_rel_def by (auto split: option.splits)
  qed
  then show ?thesis unfolding lease_rel_def by blast
qed

lemma lease_rel_upd [rel_intros]:
  "lease_rel I m \<Longrightarrow> \<not> has_status ((=) Visible) (m k) \<Longrightarrow>
   lease_only l k m \<Longrightarrow> tp_lease_id r = l \<Longrightarrow>
   lease_rel (fmupd l k I) (m(k \<mapsto> (r, Visible)))"
  unfolding lease_rel_def lease_only_def by (auto split: option.splits)

lemma txn_lease_rel_other [rel_intros]:
  "txn_lease_rel I m \<Longrightarrow> \<not> has_status (\<lambda>st. held_by st \<noteq> None) (m k) \<Longrightarrow> \<not> has_status (\<lambda>st. held_by st \<noteq> None) x \<Longrightarrow>
   txn_lease_rel I (m(k := x))"
  unfolding txn_lease_rel_def by (auto split: option.splits)

lemma txn_lease_rel_drop [rel_intros]:
  assumes "txn_lease_rel I m" "view_ok m" "tp_lease_id r = l" "\<not> has_status (\<lambda>st. held_by st \<noteq> None) x" "m k = Some (r, st)"
  shows "txn_lease_rel (fmdrop l I) (m(k := x))"
proof -
  have "fmlookup (fmdrop l I) l' = Some (t, k') \<longleftrightarrow>
      (\<exists>r st. (m(k := x)) k' = Some (r, st) \<and> tp_lease_id r = l' \<and> held_by st = Some t)" for l' t k'
  proof (cases "l' = l")
    case True
    have "k' = k" if "m k' = Some (r', st')" "tp_lease_id r' = l" for r' st'
      using view_lease[OF assms(2,5) that(1)] that(2) assms(3) by simp
    with True show ?thesis using assms(4) by (auto split: option.splits)
  next
    case False
    then show ?thesis using assms(1,3,4,5) unfolding txn_lease_rel_def by (auto split: option.splits)
  qed
  then show ?thesis unfolding txn_lease_rel_def by blast
qed

lemma txn_lease_rel_upd [rel_intros]:
  "txn_lease_rel I m \<Longrightarrow> \<not> has_status (\<lambda>st. held_by st \<noteq> None) (m k) \<Longrightarrow>
   lease_only l k m \<Longrightarrow> tp_lease_id r = l \<Longrightarrow> held_by st = Some t \<Longrightarrow>
   txn_lease_rel (fmupd l (t, k) I) (m(k \<mapsto> (r, st)))"
  unfolding txn_lease_rel_def lease_only_def by (auto split: option.splits)

lemma txn_lease_rel_same [rel_intros]:
  "txn_lease_rel I m \<Longrightarrow> held_by st = held_by st' \<Longrightarrow> m k = Some (r, st) \<Longrightarrow> txn_lease_rel I (m(k \<mapsto> (r, st')))"
  unfolding txn_lease_rel_def by auto

lemma inj_status [simp]: "inj Written" "inj Taken" "inj SelfTaken"
  by (auto intro: injI)

section \<open>Operation by operation\<close>

lemma space_relD:
  assumes "space_rel s m"
  shows space_rel_view: "view_ok m"
    and space_rel_tuples: "tuples_rel (sm_tuples s) m"
    and space_rel_unc: "buffer_rel Written (sm_uncommitted s) m"
    and space_rel_taken: "buffer_rel Taken (sm_txn_taken s) m"
    and space_rel_self: "buffer_rel SelfTaken (sm_txn_self_taken s) m"
    and space_rel_lease: "lease_rel (sm_lease_index s) m"
    and space_rel_txn_lease: "txn_lease_rel (sm_txn_lease_index s) m"
  using assms unfolding space_rel_def by blast+

lemma buffer_relD:
  assumes "buffer_rel st B m"
  shows "distinct (buffer B t)" "r \<in> set (buffer B t) \<longleftrightarrow> m (tp_tuple_id r) = Some (r, st t)"
  using assms unfolding buffer_rel_def by blast+

lemma space_rel_new: "space_rel InMemorySpaceStore_new (\<lambda>_. None)"
  by (simp add: space_rel_def view_ok_def InMemorySpaceStore_new_def tuples_rel_def buffer_rel_def lease_rel_def
      txn_lease_rel_def)

lemma unusedD: "unused r m \<Longrightarrow> m (tp_tuple_id r) = None" "unused r m \<Longrightarrow> m k = Some (r', st) \<Longrightarrow> tp_lease_id r' \<noteq> tp_lease_id r"
  by (auto simp: unused_def)

lemma space_rel_insert:
  assumes "space_rel s m" "unused r m"
  shows "space_rel (snd (InMemorySpaceStore_insert r s)) (m(tp_tuple_id r \<mapsto> (r, Visible)))"
  using unusedD(1)[OF assms(2)] lease_only_unused[OF assms(2)] space_relD[OF assms(1)] view_ok_upd[OF space_rel_view[OF assms(1)] assms(2)]
  unfolding space_rel_def InMemorySpaceStore_insert_def
  by simp (intro conjI; (rule rel_intros; (assumption | (auto; fail))))

lemma space_rel_insert_uncommitted:
  assumes "space_rel s m" "unused r m"
  shows "space_rel (snd (InMemorySpaceStore_insert_uncommitted t r s)) (m(tp_tuple_id r \<mapsto> (r, Written t)))"
  using unusedD(1)[OF assms(2)] lease_only_unused[OF assms(2)] space_relD[OF assms(1)] view_ok_upd[OF space_rel_view[OF assms(1)] assms(2)]
  unfolding space_rel_def InMemorySpaceStore_insert_uncommitted_def
  by simp (intro conjI; (rule rel_intros; (assumption | (auto; fail))))

lemma space_rel_remove:
  assumes "space_rel s m" "m k = Some (r, Visible)"
  shows "space_rel (s\<lparr>sm_tuples := fmdrop k (sm_tuples s), sm_lease_index := fmdrop (tp_lease_id r) (sm_lease_index s)\<rparr>)
    (m(k := None))"
  using assms(2) space_relD[OF assms(1)] view_ok_drop[OF space_rel_view[OF assms(1)]]
  unfolding space_rel_def
  by simp (intro conjI; (rule rel_intros; (assumption | (auto; fail))))


text \<open>Moving a tuple from the visible store into a transaction, and from its writes to its own takes.\<close>

lemma view_ok_restatus:
  "view_ok m \<Longrightarrow> m k = Some (r, st) \<Longrightarrow> view_ok (m(k \<mapsto> (r, st')))"
  by (erule view_ok_sub) (auto split: if_splits)

lemma space_rel_take_visible:
  assumes "space_rel s m" "m k = Some (r, Visible)"
  shows "space_rel (s\<lparr>sm_tuples := fmdrop k (sm_tuples s), sm_lease_index := fmdrop (tp_lease_id r) (sm_lease_index s),
      sm_txn_lease_index := fmupd (tp_lease_id r) (t, k) (sm_txn_lease_index s),
      sm_txn_taken := push t r (sm_txn_taken s)\<rparr>) (m(k \<mapsto> (r, Taken t)))"
  using assms(2) space_relD[OF assms(1)] view_ok_restatus[OF space_rel_view[OF assms(1)] assms(2)]
    view_key[OF space_rel_view[OF assms(1)] assms(2)] lease_only_view[OF space_rel_view[OF assms(1)] assms(2)]
  unfolding space_rel_def
  by simp (intro conjI; (rule rel_intros; (assumption | (auto; fail))))

lemma space_rel_take_own:
  assumes "space_rel s m" "m k = Some (r, Written t)" "distinct rest"
    "set rest = set (buffer (sm_uncommitted s) t) - {r}"
  shows "space_rel (s\<lparr>sm_uncommitted := fmupd t rest (sm_uncommitted s),
      sm_txn_self_taken := push t r (sm_txn_self_taken s)\<rparr>) (m(k \<mapsto> (r, SelfTaken t)))"
  using assms(2-) space_relD[OF assms(1)] view_ok_restatus[OF space_rel_view[OF assms(1)] assms(2)]
    view_key[OF space_rel_view[OF assms(1)] assms(2)]
  unfolding space_rel_def
  by simp (intro conjI; (rule rel_intros; (assumption | (auto; fail))))

text \<open>Dropping a held tuple from whichever buffer it is in.\<close>

lemma space_rel_drop_unc:
  assumes "space_rel s m" "m k = Some (r, Written t)" "distinct rest" "set rest = set (buffer (sm_uncommitted s) t) - {r}"
  shows "space_rel (s\<lparr>sm_txn_lease_index := fmdrop (tp_lease_id r) (sm_txn_lease_index s),
        sm_uncommitted := fmupd t rest (sm_uncommitted s)\<rparr>) (m(k := None))"
  using assms(2-) space_relD[OF assms(1)] view_ok_drop[OF space_rel_view[OF assms(1)]]
    view_key[OF space_rel_view[OF assms(1)] assms(2)]
  unfolding space_rel_def
  by simp (intro conjI; (rule rel_intros; (assumption | (auto; fail))))

lemma space_rel_drop_taken:
  assumes "space_rel s m" "m k = Some (r, Taken t)" "distinct rest" "set rest = set (buffer (sm_txn_taken s) t) - {r}"
  shows "space_rel (s\<lparr>sm_txn_lease_index := fmdrop (tp_lease_id r) (sm_txn_lease_index s),
        sm_txn_taken := fmupd t rest (sm_txn_taken s)\<rparr>) (m(k := None))"
  using assms(2-) space_relD[OF assms(1)] view_ok_drop[OF space_rel_view[OF assms(1)]]
    view_key[OF space_rel_view[OF assms(1)] assms(2)]
  unfolding space_rel_def
  by simp (intro conjI; (rule rel_intros; (assumption | (auto; fail))))

lemma space_rel_drop_self:
  assumes "space_rel s m" "m k = Some (r, SelfTaken t)" "distinct rest" "set rest = set (buffer (sm_txn_self_taken s) t) - {r}"
  shows "space_rel (s\<lparr>sm_txn_lease_index := fmdrop (tp_lease_id r) (sm_txn_lease_index s),
        sm_txn_self_taken := fmupd t rest (sm_txn_self_taken s)\<rparr>) (m(k := None))"
  using assms(2-) space_relD[OF assms(1)] view_ok_drop[OF space_rel_view[OF assms(1)]]
    view_key[OF space_rel_view[OF assms(1)] assms(2)]
  unfolding space_rel_def
  by simp (intro conjI; (rule rel_intros; (assumption | (auto; fail))))

text \<open>The end of a transaction.\<close>

lemma lookup_fold_fmupd:
  assumes "\<And>r r'. r \<in> set rs \<Longrightarrow> r' \<in> set rs \<Longrightarrow> f r = f r' \<Longrightarrow> g r = g r'"
  shows "fmlookup (fold (\<lambda>r. fmupd (f r) (g r)) rs M) k = Some v \<longleftrightarrow>
    (\<exists>r \<in> set rs. f r = k \<and> g r = v) \<or> (k \<notin> f ` set rs \<and> fmlookup M k = Some v)"
  using assms
proof (induction rs arbitrary: M)
  case Nil
  then show ?case by simp
next
  case (Cons r rs)
  have "fmlookup (fold (\<lambda>r. fmupd (f r) (g r)) rs (fmupd (f r) (g r) M)) k = Some v \<longleftrightarrow>
      (\<exists>r \<in> set rs. f r = k \<and> g r = v) \<or> (k \<notin> f ` set rs \<and> fmlookup (fmupd (f r) (g r) M) k = Some v)"
    using Cons.prems by (intro Cons.IH) auto
  moreover have "(k \<in> f ` set rs \<and> f r = k \<and> g r = v) \<longrightarrow> (\<exists>r \<in> set rs. f r = k \<and> g r = v)"
    using Cons.prems by (metis (no_types, lifting) image_iff list.set_intros)
  ultimately show ?case by auto
qed

lemma lookup_fold_fmdrop:
  "fmlookup (fold (\<lambda>r. fmdrop (f r)) rs M) k = (if k \<in> f ` set rs then None else fmlookup M k)"
  by (induction rs arbitrary: M) auto

lemma fold_publish:
  "fold publish rs s = s\<lparr>sm_txn_lease_index := fold (\<lambda>r. fmdrop (tp_lease_id r)) rs (sm_txn_lease_index s),
     sm_tuples := fold (\<lambda>r. fmupd (tp_tuple_id r) r) rs (sm_tuples s),
     sm_lease_index := fold (\<lambda>r. fmupd (tp_lease_id r) (tp_tuple_id r)) rs (sm_lease_index s)\<rparr>"
  by (induction rs arbitrary: s) (simp_all add: publish_def)

lemma fold_forget:
  "fold forget_txn_lease rs s = s\<lparr>sm_txn_lease_index := fold (\<lambda>r. fmdrop (tp_lease_id r)) rs (sm_txn_lease_index s)\<rparr>"
  by (induction rs arbitrary: s) (simp_all add: forget_txn_lease_def)

lemma settle_eq_Some:
  "settle f t m k = Some (r, st) \<longleftrightarrow>
     m k = Some (r, st) \<and> held_by st \<noteq> Some t \<or> (\<exists>st0. m k = Some (r, st0) \<and> held_by st0 = Some t \<and> f st0 = Some st)"
  by (auto simp: settle_def split: option.splits if_splits prod.splits)

lemma settle_commit [simp]:
  "settle after_commit t m k = Some (r, Visible) \<longleftrightarrow> m k = Some (r, Visible) \<or> m k = Some (r, Written t)"
  "held_by st = Some t' \<Longrightarrow> settle after_commit t m k = Some (r, st) \<longleftrightarrow> m k = Some (r, st) \<and> t' \<noteq> t"
  unfolding settle_eq_Some by (auto elim!: held_by.elims after_commit.elims)

lemma settle_abort [simp]:
  "settle after_abort t m k = Some (r, Visible) \<longleftrightarrow> m k = Some (r, Visible) \<or> m k = Some (r, Taken t)"
  "held_by st = Some t' \<Longrightarrow> settle after_abort t m k = Some (r, st) \<longleftrightarrow> m k = Some (r, st) \<and> t' \<noteq> t"
  unfolding settle_eq_Some by (auto elim!: held_by.elims after_abort.elims)

lemma view_ok_settle: "view_ok m \<Longrightarrow> view_ok (settle f t m)"
  by (erule view_ok_sub) (auto simp: settle_eq_Some)

lemma buffer_members:
  assumes "buffer_rel st B m"
  shows "r \<in> set (buffer B t) \<Longrightarrow> m (tp_tuple_id r) = Some (r, st t)"
  using buffer_relD(2)[OF assms] by blast

lemma tuples_rel_settle:
  assumes "tuples_rel T m" "view_ok m" "buffer_rel C B m"
    "\<And>k r. m' k = Some (r, Visible) \<longleftrightarrow> m k = Some (r, Visible) \<or> m k = Some (r, C t)"
  shows "tuples_rel (fold (\<lambda>r. fmupd (tp_tuple_id r) r) (buffer B t) T) m'"
proof -
  have "fmlookup (fold (\<lambda>r. fmupd (tp_tuple_id r) r) (buffer B t) T) k = Some v \<longleftrightarrow> m' k = Some (v, Visible)" for k v
  proof -
    have "fmlookup (fold (\<lambda>r. fmupd (tp_tuple_id r) r) (buffer B t) T) k = Some v \<longleftrightarrow>
        (\<exists>r \<in> set (buffer B t). tp_tuple_id r = k \<and> r = v) \<or> (k \<notin> tp_tuple_id ` set (buffer B t) \<and> fmlookup T k = Some v)"
      by (rule lookup_fold_fmupd) (metis buffer_members[OF assms(3)] option.inject prod.inject)
    also have "\<dots> \<longleftrightarrow> m k = Some (v, C t) \<or> m k = Some (v, Visible)"
      using assms(1) view_key[OF assms(2), of k v] buffer_relD(2)[OF assms(3)] unfolding tuples_rel_def by fastforce
    finally show ?thesis using assms(4) by blast
  qed
  then show ?thesis unfolding tuples_rel_def by blast
qed

lemma lease_rel_settle:
  assumes "lease_rel I m" "view_ok m" "buffer_rel C B m"
    "\<And>k r. m' k = Some (r, Visible) \<longleftrightarrow> m k = Some (r, Visible) \<or> m k = Some (r, C t)"
  shows "lease_rel (fold (\<lambda>r. fmupd (tp_lease_id r) (tp_tuple_id r)) (buffer B t) I) m'"
proof -
  have "fmlookup (fold (\<lambda>r. fmupd (tp_lease_id r) (tp_tuple_id r)) (buffer B t) I) l = Some k \<longleftrightarrow>
      (\<exists>r. m' k = Some (r, Visible) \<and> tp_lease_id r = l)" for l k
  proof -
    have "fmlookup (fold (\<lambda>r. fmupd (tp_lease_id r) (tp_tuple_id r)) (buffer B t) I) l = Some k \<longleftrightarrow>
        (\<exists>r \<in> set (buffer B t). tp_lease_id r = l \<and> tp_tuple_id r = k) \<or>
        (l \<notin> tp_lease_id ` set (buffer B t) \<and> fmlookup I l = Some k)"
      by (rule lookup_fold_fmupd) (metis buffer_members[OF assms(3)] view_lease[OF assms(2)])
    also have "\<dots> \<longleftrightarrow> (\<exists>r. m k = Some (r, C t) \<and> tp_lease_id r = l) \<or> (\<exists>r. m k = Some (r, Visible) \<and> tp_lease_id r = l)"
    proof (cases "\<exists>r \<in> set (buffer B t). tp_lease_id r = l")
      case True
      then obtain r where r: "m (tp_tuple_id r) = Some (r, C t)" "tp_lease_id r = l" "r \<in> set (buffer B t)"
        using buffer_members[OF assms(3)] by blast
      have "k = tp_tuple_id r" if "m k = Some (r', st)" "tp_lease_id r' = l" for r' st
        using view_lease[OF assms(2) r(1) that(1)] that(2) r(2) by simp
      then show ?thesis using r buffer_members[OF assms(3)] by (metis image_eqI)
    next
      case False
      then have "\<not> (\<exists>r. m k = Some (r, C t) \<and> tp_lease_id r = l)"
        using buffer_relD(2)[OF assms(3)] view_key[OF assms(2)] by metis
      then show ?thesis using False assms(1) unfolding lease_rel_def by blast
    qed
    finally show ?thesis using assms(4) by blast
  qed
  then show ?thesis unfolding lease_rel_def by blast
qed

lemma txn_lease_rel_settle:
  assumes "txn_lease_rel I m" "view_ok m"
    "\<And>r. r \<in> set rs \<longleftrightarrow> (\<exists>st. m (tp_tuple_id r) = Some (r, st) \<and> held_by st = Some t)"
    "\<And>k r st t'. held_by st = Some t' \<Longrightarrow> m' k = Some (r, st) \<longleftrightarrow> m k = Some (r, st) \<and> t' \<noteq> t"
  shows "txn_lease_rel (fold (\<lambda>r. fmdrop (tp_lease_id r)) rs I) m'"
proof -
  have "fmlookup (fold (\<lambda>r. fmdrop (tp_lease_id r)) rs I) l = Some (t', k) \<longleftrightarrow>
      (\<exists>r st. m' k = Some (r, st) \<and> tp_lease_id r = l \<and> held_by st = Some t')" for l t' k
  proof -
    have "l \<in> tp_lease_id ` set rs \<longleftrightarrow> t' = t" if "m k = Some (r, st)" "tp_lease_id r = l" "held_by st = Some t'" for r st
    proof
      assume "l \<in> tp_lease_id ` set rs"
      then obtain r' st' where r': "m (tp_tuple_id r') = Some (r', st')" "held_by st' = Some t" "tp_lease_id r' = l"
        using assms(3) by auto
      have "k = tp_tuple_id r'" using view_lease[OF assms(2) r'(1) that(1)] that(2) r'(3) by simp
      then show "t' = t" using that r' by simp
    next
      assume "t' = t"
      then have "r \<in> set rs" using assms(3) that view_key[OF assms(2) that(1)] by blast
      then show "l \<in> tp_lease_id ` set rs" using that(2) by blast
    qed
    moreover have "(\<exists>r st. m' k = Some (r, st) \<and> tp_lease_id r = l \<and> held_by st = Some t') \<longleftrightarrow>
        (\<exists>r st. m k = Some (r, st) \<and> tp_lease_id r = l \<and> held_by st = Some t') \<and> t' \<noteq> t"
      using assms(4) by blast
    ultimately show ?thesis using assms(1) unfolding lookup_fold_fmdrop txn_lease_rel_def
      by (auto split: if_splits)
  qed
  then show ?thesis unfolding txn_lease_rel_def by blast
qed

lemma buffer_rel_settle:
  assumes "buffer_rel C B m" "\<And>k r t'. m' k = Some (r, C t') \<longleftrightarrow> m k = Some (r, C t') \<and> t' \<noteq> t"
  shows "buffer_rel C (fmdrop t B) m'"
  using assms unfolding buffer_rel_def by auto

lemma space_rel_commit:
  assumes "space_rel s m"
  shows "space_rel (snd (InMemorySpaceStore_commit_txn t s)) (settle after_commit t m)"
proof -
  note d = space_relD[OF assms]
  have txn: "txn_lease_rel (fold (\<lambda>r. fmdrop (tp_lease_id r))
      (buffer (sm_uncommitted s) t @ buffer (sm_txn_taken s) t @ buffer (sm_txn_self_taken s) t) (sm_txn_lease_index s))
      (settle after_commit t m)"
    by (rule txn_lease_rel_settle[OF d(7) d(1)])
       (auto simp: buffer_relD(2)[OF d(3)] buffer_relD(2)[OF d(4)] buffer_relD(2)[OF d(5)] elim!: held_by.elims)
  show ?thesis
    using txn d view_ok_settle[OF d(1)]
    unfolding space_rel_def InMemorySpaceStore_commit_txn_def Let_def fold_publish fold_forget
    by (auto intro!: tuples_rel_settle[where C = Written] lease_rel_settle[where C = Written] buffer_rel_settle)
qed

lemma space_rel_abort:
  assumes "space_rel s m"
  shows "space_rel (snd (InMemorySpaceStore_abort_txn t s)) (settle after_abort t m)"
proof -
  note d = space_relD[OF assms]
  have txn: "txn_lease_rel (fold (\<lambda>r. fmdrop (tp_lease_id r))
      ((buffer (sm_uncommitted s) t @ buffer (sm_txn_self_taken s) t) @ buffer (sm_txn_taken s) t) (sm_txn_lease_index s))
      (settle after_abort t m)"
    by (rule txn_lease_rel_settle[OF d(7) d(1)])
       (auto simp: buffer_relD(2)[OF d(3)] buffer_relD(2)[OF d(4)] buffer_relD(2)[OF d(5)] elim!: held_by.elims)
  show ?thesis
    using txn d view_ok_settle[OF d(1)]
    unfolding space_rel_def InMemorySpaceStore_abort_txn_def Let_def fold_publish fold_forget
    by (auto intro!: tuples_rel_settle[where C = Taken] lease_rel_settle[where C = Taken] buffer_rel_settle)
qed

text \<open>Removal by lease.\<close>

lemma by_tuple_id:
  assumes "buffer_rel C B m" "remove_first (\<lambda>r. tp_tuple_id r = k) (buffer B t) = Some (r, rest)"
  shows "m k = Some (r, C t)" "distinct rest" "set rest = set (buffer B t) - {r}"
  using remove_first_distinct[OF assms(2) buffer_relD(1)[OF assms(1)]] buffer_members[OF assms(1)] by auto

lemma not_by_tuple_id:
  assumes "buffer_rel C B m" "view_ok m" "remove_first (\<lambda>r. tp_tuple_id r = k) (buffer B t) = None"
  shows "m k \<noteq> Some (r, C t)"
proof
  assume r: "m k = Some (r, C t)"
  then have k: "tp_tuple_id r = k" by (rule view_key[OF assms(2)])
  with r have "r \<in> set (buffer B t)" using buffer_relD(2)[OF assms(1)] by simp
  then show False using assms(3) k unfolding remove_first_None by blast
qed

lemma lease_lookup_None:
  assumes "space_rel s m"
  shows "fmlookup (sm_lease_index s) l = None \<Longrightarrow> m k = Some (r, Visible) \<Longrightarrow> tp_lease_id r \<noteq> l"
    and "fmlookup (sm_txn_lease_index s) l = None \<Longrightarrow> m k = Some (r, st) \<Longrightarrow> held_by st = Some t \<Longrightarrow> tp_lease_id r \<noteq> l"
  using space_rel_lease[OF assms] space_rel_txn_lease[OF assms] unfolding lease_rel_def txn_lease_rel_def
  by (metis option.distinct(1))+

lemma status_cases: "st = Visible \<or> (\<exists>t. held_by st = Some t)"
  by (cases st) auto

lemma remove_by_txn_lease_rel:
  assumes "space_rel s m" "remove_by_txn_lease l s = (x, s')" "\<And>k r. m k = Some (r, Visible) \<Longrightarrow> tp_lease_id r \<noteq> l"
  shows "(\<forall>r. x = Some r \<longleftrightarrow> (\<exists>st. m (tp_tuple_id r) = Some (r, st) \<and> tp_lease_id r = l)) \<and>
    space_rel s' (case x of None \<Rightarrow> m | Some r \<Rightarrow> m(tp_tuple_id r := None))"
proof (cases "fmlookup (sm_txn_lease_index s) l")
  case None
  then have "x = None" "s' = s" using assms(2) by (simp_all add: remove_by_txn_lease_def)
  moreover have "m k = Some (r, st) \<Longrightarrow> tp_lease_id r \<noteq> l" for k r st
    using status_cases[of st] lease_lookup_None(2)[OF assms(1) None] assms(3) by blast
  ultimately show ?thesis using assms(1) by auto
next
  case (Some tk)
  obtain t k where tk: "tk = (t, k)" by (cases tk)
  note d = space_relD[OF assms(1)]
  obtain r st where r: "m k = Some (r, st)" "tp_lease_id r = l" "held_by st = Some t"
    using d(7) Some tk unfolding txn_lease_rel_def by blast
  have k: "tp_tuple_id r = k" by (rule view_key[OF d(1) r(1)])
  have only: "(\<exists>st. m (tp_tuple_id r') = Some (r', st) \<and> tp_lease_id r' = l) \<longleftrightarrow> r' = r" for r'
    using view_lease[OF d(1) r(1)] r k by (metis option.inject prod.inject)
  have "x = Some r \<and> space_rel s' (m(k := None))"
  proof -
    consider "st = Written t" | "st = Taken t" | "st = SelfTaken t" using r(3) by (cases st) auto
    then show ?thesis
    proof cases
      case 1
      then obtain r' rest where f: "remove_first (\<lambda>r. tp_tuple_id r = k) (buffer (sm_uncommitted s) t) = Some (r', rest)"
        using not_by_tuple_id[OF d(3) d(1), of k t r] r(1)
        by (cases "remove_first (\<lambda>r. tp_tuple_id r = k) (buffer (sm_uncommitted s) t)") auto
      have "r' = r" using by_tuple_id(1)[OF d(3) f] r(1) by simp
      then show ?thesis
        using assms(2) Some tk f space_rel_drop_unc[OF assms(1) _ by_tuple_id(2,3)[OF d(3) f]] r(1,2) 1
        by (auto simp: remove_by_txn_lease_def Let_def)
    next
      case 2
      then obtain r' rest where f: "remove_first (\<lambda>r. tp_tuple_id r = k) (buffer (sm_txn_taken s) t) = Some (r', rest)"
        using not_by_tuple_id[OF d(4) d(1), of k t r] r(1)
        by (cases "remove_first (\<lambda>r. tp_tuple_id r = k) (buffer (sm_txn_taken s) t)") auto
      have "r' = r" using by_tuple_id(1)[OF d(4) f] r(1) by simp
      moreover have "remove_first (\<lambda>r. tp_tuple_id r = k) (buffer (sm_uncommitted s) t) = None"
        using by_tuple_id(1)[OF d(3)] r(1) 2 by (cases "remove_first (\<lambda>r. tp_tuple_id r = k) (buffer (sm_uncommitted s) t)") auto
      ultimately show ?thesis
        using assms(2) Some tk f space_rel_drop_taken[OF assms(1) _ by_tuple_id(2,3)[OF d(4) f]] r(1,2) 2
        by (auto simp: remove_by_txn_lease_def Let_def)
    next
      case 3
      then obtain r' rest where f: "remove_first (\<lambda>r. tp_tuple_id r = k) (buffer (sm_txn_self_taken s) t) = Some (r', rest)"
        using not_by_tuple_id[OF d(5) d(1), of k t r] r(1)
        by (cases "remove_first (\<lambda>r. tp_tuple_id r = k) (buffer (sm_txn_self_taken s) t)") auto
      have "r' = r" using by_tuple_id(1)[OF d(5) f] r(1) by simp
      moreover have "remove_first (\<lambda>r. tp_tuple_id r = k) (buffer (sm_uncommitted s) t) = None"
        using by_tuple_id(1)[OF d(3)] r(1) 3 by (cases "remove_first (\<lambda>r. tp_tuple_id r = k) (buffer (sm_uncommitted s) t)") auto
      moreover have "remove_first (\<lambda>r. tp_tuple_id r = k) (buffer (sm_txn_taken s) t) = None"
        using by_tuple_id(1)[OF d(4)] r(1) 3 by (cases "remove_first (\<lambda>r. tp_tuple_id r = k) (buffer (sm_txn_taken s) t)") auto
      ultimately show ?thesis
        using assms(2) Some tk f space_rel_drop_self[OF assms(1) _ by_tuple_id(2,3)[OF d(5) f]] r(1,2) 3
        by (auto simp: remove_by_txn_lease_def Let_def)
    qed
  qed
  then show ?thesis using only k by auto
qed

lemma remove_by_lease_rel:
  assumes "space_rel s m" "InMemorySpaceStore_remove_by_lease l s = (Inr x, s')"
  shows "(\<forall>r. x = Some r \<longleftrightarrow> (\<exists>st. m (tp_tuple_id r) = Some (r, st) \<and> tp_lease_id r = l)) \<and>
    space_rel s' (case x of None \<Rightarrow> m | Some r \<Rightarrow> m(tp_tuple_id r := None))"
proof (cases "fmlookup (sm_lease_index s) l")
  case None
  then show ?thesis
    using assms remove_by_txn_lease_rel[OF assms(1)] lease_lookup_None(1)[OF assms(1) None]
    by (auto simp: InMemorySpaceStore_remove_by_lease_def split: prod.splits)
next
  case (Some k)
  note d = space_relD[OF assms(1)]
  obtain r where r: "m k = Some (r, Visible)" "tp_lease_id r = l" using d(6) Some unfolding lease_rel_def by blast
  have k: "tp_tuple_id r = k" by (rule view_key[OF d(1) r(1)])
  have only: "(\<exists>st. m (tp_tuple_id r') = Some (r', st) \<and> tp_lease_id r' = l) \<longleftrightarrow> r' = r" for r'
    using view_lease[OF d(1) r(1)] r k by (metis option.inject prod.inject)
  have "fmlookup (sm_tuples s) k = Some r" using d(2) r(1) unfolding tuples_rel_def by blast
  then have "x = Some r" "s' = s\<lparr>sm_tuples := fmdrop k (sm_tuples s), sm_lease_index := fmdrop l (sm_lease_index s)\<rparr>"
    using assms(2) Some by (cases s, auto simp: InMemorySpaceStore_remove_by_lease_def Let_def)
  then show ?thesis using space_rel_remove[OF assms(1) r(1)] r(2) only k by auto
qed

text \<open>Searching.\<close>

lemma iter_visible:
  assumes "space_rel s m"
  shows "r \<in> set (iter_values ks (sm_tuples s)) \<Longrightarrow> m (tp_tuple_id r) = Some (r, Visible)"
    "iterates ks (sm_tuples s) \<Longrightarrow> m (tp_tuple_id r) = Some (r, Visible) \<Longrightarrow> r \<in> set (iter_values ks (sm_tuples s))"
proof -
  have t: "fmlookup (sm_tuples s) k = Some r \<longleftrightarrow> m k = Some (r, Visible)" for k
    using space_rel_tuples[OF assms] unfolding tuples_rel_def by blast
  show "m (tp_tuple_id r) = Some (r, Visible)" if "r \<in> set (iter_values ks (sm_tuples s))"
  proof -
    from that obtain k where "fmlookup (sm_tuples s) k = Some r" by (auto simp: in_iter_values)
    then have m: "m k = Some (r, Visible)" by (simp add: t)
    then show ?thesis using view_key[OF space_rel_view[OF assms] m] by simp
  qed
  show "r \<in> set (iter_values ks (sm_tuples s))" if "iterates ks (sm_tuples s)" "m (tp_tuple_id r) = Some (r, Visible)"
    using that(2) unfolding in_iter_values_iterates[OF that(1)] t[symmetric] by blast
qed

lemma own_writes_iff:
  "space_rel s m \<Longrightarrow> r \<in> set (own_writes txn s) \<longleftrightarrow> (\<exists>t. txn = Some t \<and> m (tp_tuple_id r) = Some (r, Written t))"
  by (auto simp: own_writes_def buffer_relD(2)[OF space_rel_unc] split: option.splits)

lemma sees_iff:
  "sees txn template m r \<longleftrightarrow> matches (parse_template template) (tp_attrs r) \<and>
     (m (tp_tuple_id r) = Some (r, Visible) \<or> (\<exists>t. txn = Some t \<and> m (tp_tuple_id r) = Some (r, Written t)))"
  by (auto simp: sees_def elim!: seen_by.elims)

lemma find_match_rel:
  assumes "space_rel s m" "iterates ks (sm_tuples s)" "InMemorySpaceStore_find_match ks template txn s = Inr x"
  shows "case x of Some r \<Rightarrow> sees txn template m r | None \<Rightarrow> \<forall>r. \<not> sees txn template m r"
proof -
  let ?P = "\<lambda>r. matches (parse_template template) (tp_attrs r)"
  have x: "x = (case List.find ?P (iter_values ks (sm_tuples s)) of Some r \<Rightarrow> Some r | None \<Rightarrow> List.find ?P (own_writes txn s))"
    using assms(3) by (simp add: InMemorySpaceStore_find_match_def Let_def)
  show ?thesis
  proof (cases "List.find ?P (iter_values ks (sm_tuples s))")
    case (Some r)
    then show ?thesis using x find_eq_Some_prop[OF Some] iter_visible(1)[OF assms(1)] by (auto simp: sees_iff)
  next
    case None
    have nv: "\<not> (?P r \<and> m (tp_tuple_id r) = Some (r, Visible))" for r
      using None iter_visible(2)[OF assms(1,2)] unfolding find_eq_None by blast
    show ?thesis
    proof (cases "List.find ?P (own_writes txn s)")
      case (Some r)
      then show ?thesis using x None find_eq_Some_prop[OF Some] own_writes_iff[OF assms(1)] by (auto simp: sees_iff)
    next
      case n: None
      then have "x = None" using x None by simp
      moreover have "\<not> sees txn template m r" for r
        using n nv[of r] own_writes_iff[OF assms(1), of r txn] unfolding find_eq_None sees_iff by blast
      ultimately show ?thesis by simp
    qed
  qed
qed

lemma matches_no_ops [simp]: "matches fmempty a"
  by (simp add: matches_iff_lookup)

lemma find_all_rel:
  assumes "space_rel s m" "iterates ks (sm_tuples s)" "InMemorySpaceStore_find_all_matches ks template txn s = Inr rs"
  shows "distinct rs \<and> (\<forall>r. r \<in> set rs \<longleftrightarrow> sees txn template m r)"
proof -
  let ?P = "\<lambda>r. parse_template template = fmempty \<or> matches (parse_template template) (tp_attrs r)"
  have P: "?P r \<longleftrightarrow> matches (parse_template template) (tp_attrs r)" for r
    by (cases "parse_template template = fmempty") simp_all
  have rs: "rs = filter ?P (iter_values ks (sm_tuples s)) @ filter ?P (own_writes txn s)"
    using assms(3) by (simp add: InMemorySpaceStore_find_all_matches_def Let_def)
  have "distinct (iter_values ks (sm_tuples s))"
  proof -
    have "fmlookup (sm_tuples s) k = Some v \<Longrightarrow> tp_tuple_id v = k" for k v
      using space_rel_tuples[OF assms(1)] view_key[OF space_rel_view[OF assms(1)]] unfolding tuples_rel_def by blast
    then have "distinct (map tp_tuple_id (iter_values ks (sm_tuples s)))"
      using assms(2) unfolding iterates_def by (intro distinct_iter_values) auto
    then show ?thesis by (simp add: distinct_map)
  qed
  moreover have "distinct (own_writes txn s)"
    using buffer_relD(1)[OF space_rel_unc[OF assms(1)]] by (simp add: own_writes_def split: option.splits)
  moreover have "r \<in> set (iter_values ks (sm_tuples s)) \<Longrightarrow> r \<notin> set (own_writes txn s)" for r
    using iter_visible(1)[OF assms(1)] own_writes_iff[OF assms(1)] by fastforce
  moreover have "r \<in> set (iter_values ks (sm_tuples s)) \<longleftrightarrow> m (tp_tuple_id r) = Some (r, Visible)" for r
    using iter_visible[OF assms(1)] assms(2) by blast
  ultimately show ?thesis
    unfolding rs by (auto simp: P sees_iff own_writes_iff[OF assms(1)])
qed

text \<open>Taking.\<close>

lemma candidate_Some:
  assumes "candidate ks ops s = Some k"
  obtains r where "fmlookup (sm_tuples s) k = Some r" "matches ops (tp_attrs r)"
  using assms find_eq_Some_prop unfolding candidate_def by (fastforce simp: in_iter_entries)

lemma candidate_None:
  "candidate ks ops s = None \<Longrightarrow> iterates ks (sm_tuples s) \<Longrightarrow> fmlookup (sm_tuples s) k = Some r \<Longrightarrow> \<not> matches ops (tp_attrs r)"
  unfolding candidate_def by (auto simp: find_eq_None) (metis case_prodI in_iter_entries iterates_mem)

lemma take_remove_rel:
  assumes "space_rel s m" "take_remove k txn s = Some (r, s')"
  shows "m k = Some (r, Visible)" "tp_tuple_id r = k" "space_rel s' (view_take txn r m)"
proof -
  have "fmlookup (sm_tuples s) k = Some r" using assms(2) by (simp add: take_remove_def Let_def split: option.splits)
  then show v: "m k = Some (r, Visible)" using space_rel_tuples[OF assms(1)] unfolding tuples_rel_def by blast
  then show k: "tp_tuple_id r = k" by (rule view_key[OF space_rel_view[OF assms(1)]])
  show "space_rel s' (view_take txn r m)"
  proof (cases txn)
    case None
    then show ?thesis using space_rel_remove[OF assms(1) v] assms(2) v k
      by (auto simp: take_remove_def view_take_def Let_def split: option.splits)
  next
    case (Some t)
    then show ?thesis using space_rel_take_visible[OF assms(1) v, of t] assms(2) v k
      by (auto simp: take_remove_def view_take_def Let_def split: option.splits)
  qed
qed

lemma take_committed_Some:
  assumes "space_rel s m" "\<forall>(ks0, g) \<in> set races. interference space_rel g"
    "take_committed races ks ops txn s = (Some r, s')"
  shows "\<exists>s1 m1. space_rel s1 m1 \<and> (races = [] \<longrightarrow> s1 = s \<and> m1 = m) \<and> m1 (tp_tuple_id r) = Some (r, Visible) \<and>
    matches ops (tp_attrs r) \<and> space_rel s' (view_take txn r m1)"
  using assms
proof (induction races ks ops txn s arbitrary: m rule: take_committed.induct)
  case (1 ks ops txn s)
  then obtain k where k: "candidate ks ops s = Some k" "take_remove k txn s = Some (r, s')" by (auto split: option.splits)
  obtain r' where "fmlookup (sm_tuples s) k = Some r'" "matches ops (tp_attrs r')" using k(1) by (rule candidate_Some)
  moreover have "fmlookup (sm_tuples s) k = Some r" using k(2) by (simp add: take_remove_def Let_def split: option.splits)
  ultimately show ?case using take_remove_rel[OF 1(1) k(2)] 1(1) by auto
next
  case (2 ks0 g races ks ops txn s)
  then obtain k where k: "candidate ks0 ops s = Some k" by (auto split: option.splits)
  obtain r0 where r0: "fmlookup (sm_tuples s) k = Some r0" "matches ops (tp_attrs r0)" using k by (rule candidate_Some)
  have "interference space_rel g" using 2(3) by simp
  then obtain m1 where m1: "space_rel (g s) m1" "\<And>k r st r' st'. m k = Some (r, st) \<Longrightarrow> m1 k = Some (r', st') \<Longrightarrow> r' = r"
    using 2(2) unfolding interference_def by blast
  show ?case
  proof (cases "take_remove k txn (g s)")
    case None
    then have "take_committed races ks ops txn (g s) = (Some r, s')" using 2(4) k by simp
    then show ?thesis using 2(1)[OF k None m1(1)] 2(3) by fastforce
  next
    case (Some p)
    then have t: "take_remove k txn (g s) = Some (r, s')" using 2(4) k by (cases p) simp
    have "m k = Some (r0, Visible)" using space_rel_tuples[OF 2(2)] r0(1) unfolding tuples_rel_def by blast
    then have "r = r0" using m1(2) take_remove_rel(1)[OF m1(1) t] by blast
    then show ?thesis using take_remove_rel[OF m1(1) t] m1(1) r0(2) by auto
  qed
qed

lemma take_match_Some_rel:
  assumes "space_rel s m" "\<forall>(ks0, g) \<in> set races. interference space_rel g"
    "InMemorySpaceStore_take_match races ks template txn s = (Inr (Some r), s')"
  shows "\<exists>s1 m1. space_rel s1 m1 \<and> (races = [] \<longrightarrow> s1 = s \<and> m1 = m) \<and> sees txn template m1 r \<and> space_rel s' (view_take txn r m1)"
proof (cases "\<exists>t rest. txn = Some t \<and>
    remove_first (\<lambda>r. matches (parse_template template) (tp_attrs r)) (buffer (sm_uncommitted s) t) = Some (r, rest) \<and>
    s' = s\<lparr>sm_uncommitted := fmupd t rest (sm_uncommitted s), sm_txn_self_taken := push t r (sm_txn_self_taken s)\<rparr>")
  case True
  then obtain t rest where t: "txn = Some t"
    "remove_first (\<lambda>r. matches (parse_template template) (tp_attrs r)) (buffer (sm_uncommitted s) t) = Some (r, rest)"
    "s' = s\<lparr>sm_uncommitted := fmupd t rest (sm_uncommitted s), sm_txn_self_taken := push t r (sm_txn_self_taken s)\<rparr>"
    by blast
  note u = space_rel_unc[OF assms(1)]
  note f = remove_first_distinct[OF t(2) buffer_relD(1)[OF u]]
  have m: "m (tp_tuple_id r) = Some (r, Written t)" using buffer_members[OF u f(2)] .
  have "space_rel s' (view_take txn r m)"
    using space_rel_take_own[OF assms(1) m f(3,4)] m t by (simp add: view_take_def)
  then show ?thesis using m f(1) t(1) assms(1) by (auto simp: sees_iff)
next
  case False
  then have "take_committed races ks (parse_template template) txn s = (Some r, s')"
    using assms(3) by (auto simp: InMemorySpaceStore_take_match_def Let_def split: option.splits prod.splits)
  from take_committed_Some[OF assms(1,2) this] show ?thesis by (auto simp: sees_iff)
qed

lemma take_committed_view:
  "space_rel s m \<Longrightarrow> \<forall>(ks0, g) \<in> set races. interference space_rel g \<Longrightarrow>
   take_committed races ks ops txn s = (None, s') \<Longrightarrow> \<exists>m'. space_rel s' m'"
proof (induction races ks ops txn s arbitrary: m rule: take_committed.induct)
  case (1 ks ops txn s)
  then show ?case by (auto split: option.splits)
next
  case (2 ks0 g races ks ops txn s)
  have "interference space_rel g" using 2(3) by simp
  then obtain m1 where m1: "space_rel (g s) m1" using 2(2) unfolding interference_def by blast
  show ?case
  proof (cases "candidate ks0 ops s")
    case None
    then show ?thesis using 2(2,4) by auto
  next
    case (Some k)
    then have "take_remove k txn (g s) = None" "take_committed races ks ops txn (g s) = (None, s')"
      using 2(4) by (auto split: option.splits)
    then show ?thesis using 2(1)[OF Some _ m1] 2(3) by auto
  qed
qed

lemma take_match_view_rel:
  assumes "space_rel s m" "\<forall>(ks0, g) \<in> set races. interference space_rel g"
  shows "\<exists>m'. space_rel (snd (InMemorySpaceStore_take_match races ks template txn s)) m'"
proof -
  obtain x s' where t: "InMemorySpaceStore_take_match races ks template txn s = (Inr x, s')"
    by (cases "InMemorySpaceStore_take_match races ks template txn s")
       (auto simp: InMemorySpaceStore_take_match_def Let_def split: prod.splits option.splits)
  show ?thesis
  proof (cases x)
    case None
    then have "take_committed races ks (parse_template template) txn s = (None, s')"
      using t by (auto simp: InMemorySpaceStore_take_match_def Let_def split: option.splits prod.splits)
    from take_committed_view[OF assms this] show ?thesis using t by simp
  next
    case (Some r)
    then show ?thesis using take_match_Some_rel[OF assms, of ks template txn r s'] t by auto
  qed
qed

lemma take_match_None_rel:
  assumes "space_rel s m" "iterates ks (sm_tuples s)" "InMemorySpaceStore_take_match [] ks template txn s = (Inr None, s')"
  shows "(\<forall>r. \<not> sees txn template m r) \<and> s' = s"
proof -
  let ?P = "\<lambda>r. matches (parse_template template) (tp_attrs r)"
  have own: "r \<in> set (own_writes txn s) \<Longrightarrow> \<not> ?P r" for r
    using assms(3) by (auto simp: InMemorySpaceStore_take_match_def own_writes_def Let_def remove_first_None split: option.splits)
  have "take_committed [] ks (parse_template template) txn s = (None, s')"
    using assms(3) by (auto simp: InMemorySpaceStore_take_match_def Let_def split: option.splits prod.splits)
  then have c: "candidate ks (parse_template template) s = None" "s' = s"
    by (auto simp: take_remove_def Let_def split: option.splits elim!: candidate_Some)
  have "fmlookup (sm_tuples s) k = Some r \<Longrightarrow> \<not> ?P r" for k r
    by (rule candidate_None[OF c(1) assms(2)])
  then have "\<not> sees txn template m r" for r
    using own[of r] own_writes_iff[OF assms(1), of r txn] space_rel_tuples[OF assms(1)]
    unfolding sees_iff tuples_rel_def by blast
  then show ?thesis using c(2) by blast
qed

lemma has_txn_rel:
  assumes "space_rel s m"
  shows "InMemorySpaceStore_has_txn t s = Inr (\<exists>k r st. m k = Some (r, st) \<and> held_by st = Some t)"
proof -
  note d = space_relD[OF assms]
  have mem: "buffer B t \<noteq> [] \<longleftrightarrow> (\<exists>k r. m k = Some (r, C t))" if "buffer_rel C B m" for B C
  proof
    assume "buffer B t \<noteq> []"
    then obtain r where "r \<in> set (buffer B t)" by (cases "buffer B t") auto
    then show "\<exists>k r. m k = Some (r, C t)" using buffer_members[OF that] by blast
  next
    assume "\<exists>k r. m k = Some (r, C t)"
    then obtain k r where r: "m k = Some (r, C t)" by blast
    then have "r \<in> set (buffer B t)" using view_key[OF d(1) r] buffer_relD(2)[OF that] by simp
    then show "buffer B t \<noteq> []" by auto
  qed
  have "(\<exists>k r st. m k = Some (r, st) \<and> held_by st = Some t) \<longleftrightarrow>
      (\<exists>k r. m k = Some (r, Written t)) \<or> (\<exists>k r. m k = Some (r, Taken t)) \<or> (\<exists>k r. m k = Some (r, SelfTaken t))"
    by (auto elim!: held_by.elims) (metis held_by.simps)+
  then show ?thesis
    unfolding InMemorySpaceStore_has_txn_def Let_def mem[OF d(3)] mem[OF d(4)] mem[OF d(5)] by simp
qed

text \<open>Watches.\<close>

definition watches_ok :: "InMemorySpaceStore \<Rightarrow> bool" where
  "watches_ok s \<longleftrightarrow>
     (\<forall>k w. fmlookup (sm_watches s) k = Some w \<longrightarrow> sw_watch_id w = k) \<and>
     (\<forall>l k. fmlookup (sm_watch_lease_index s) l = Some k \<longleftrightarrow> (\<exists>w. fmlookup (sm_watches s) k = Some w \<and> sw_lease_id w = l))"

lemma space_rel_watch_irrelevant:
  "space_rel (s\<lparr>sm_watches := a\<rparr>) m = space_rel s m" "space_rel (s\<lparr>sm_watch_lease_index := b\<rparr>) m = space_rel s m"
  by (simp_all add: space_rel_def)

lemma watches_ok_create:
  assumes "watches_ok s" "\<forall>k w'. fmlookup (sm_watches s) k = Some w' \<longrightarrow> sw_lease_id w' \<noteq> sw_lease_id w"
    "fmlookup (sm_watches s) (sw_watch_id w) = None"
  shows "watches_ok (snd (InMemorySpaceStore_create_watch w s))"
  using assms unfolding watches_ok_def by (auto simp: space_defs)

lemma watch_by_lease_rel:
  assumes "watches_ok s" "InMemorySpaceStore_remove_watch_by_lease l s = (Inr x, s')"
  shows "watches_ok s' \<and> (\<forall>w. x = Some w \<longleftrightarrow> fmlookup (sm_watches s) (sw_watch_id w) = Some w \<and> sw_lease_id w = l) \<and>
    fmlookup (sm_watches s') = (case x of None \<Rightarrow> fmlookup (sm_watches s)
                                | Some w \<Rightarrow> (fmlookup (sm_watches s))(sw_watch_id w := None))"
proof (cases "fmlookup (sm_watch_lease_index s) l")
  case None
  then have "fmlookup (sm_watches s) k = Some w \<Longrightarrow> sw_lease_id w \<noteq> l" for k w
    using assms(1) unfolding watches_ok_def by (metis option.distinct(1))
  moreover have "x = None" "s' = s" using assms(2) None by (simp_all add: InMemorySpaceStore_remove_watch_by_lease_def)
  ultimately show ?thesis using assms(1) by auto
next
  case (Some k)
  then obtain w where w: "fmlookup (sm_watches s) k = Some w" "sw_lease_id w = l"
    using assms(1) unfolding watches_ok_def by blast
  have k: "sw_watch_id w = k" using assms(1) w(1) unfolding watches_ok_def by blast
  have only: "k' = k" if "fmlookup (sm_watches s) k' = Some w'" "sw_lease_id w' = l" for k' w'
    using assms(1) Some that unfolding watches_ok_def by (metis option.inject)
  have x: "x = Some w" "s' = s\<lparr>sm_watch_lease_index := fmdrop l (sm_watch_lease_index s), sm_watches := fmdrop k (sm_watches s)\<rparr>"
    using assms(2) Some w by (simp_all add: InMemorySpaceStore_remove_watch_by_lease_def Let_def)
  have "(w = w') \<longleftrightarrow> fmlookup (sm_watches s) (sw_watch_id w') = Some w' \<and> sw_lease_id w' = l" for w'
    using only[of "sw_watch_id w'" w'] w k by auto
  moreover have "watches_ok s'"
  proof -
    have "fmlookup (sm_watch_lease_index s') l' = Some k' \<longleftrightarrow> (\<exists>w. fmlookup (sm_watches s') k' = Some w \<and> sw_lease_id w = l')" for l' k'
    proof (cases "l' = l")
      case True
      then show ?thesis using only x(2) by auto
    next
      case False
      have "fmlookup (sm_watch_lease_index s) l' = Some k' \<longleftrightarrow> (\<exists>w. fmlookup (sm_watches s) k' = Some w \<and> sw_lease_id w = l')"
        using assms(1) unfolding watches_ok_def by blast
      then show ?thesis using False w x(2) by (cases "k' = k") auto
    qed
    moreover have "fmlookup (sm_watches s') k' = Some w' \<Longrightarrow> sw_watch_id w' = k'" for k' w'
      using assms(1) x(2) unfolding watches_ok_def by (auto split: if_splits)
    ultimately show ?thesis unfolding watches_ok_def by blast
  qed
  ultimately show ?thesis using x k by (auto simp: fmlookup_fmdrop_fun)
qed

interpretation mem_space: space_store InMemorySpaceStore_ops space_rel "\<lambda>ks s. iterates ks (sm_tuples s)"
  "\<lambda>s. fmlookup (sm_watches s)" watches_ok
proof (unfold_locales, goal_cases)
  case (1 s m)
  then show ?case by (rule space_rel_view)
next
  case (2 s m r u s')
  then show ?case using space_rel_insert[OF 2(1,2)] by (simp add: InMemorySpaceStore_ops_def)
next
  case (3 s m r t u s')
  then show ?case using space_rel_insert_uncommitted[OF 3(1,2), of t] by (simp add: InMemorySpaceStore_ops_def)
next
  case (4 s m k x r)
  then show ?case using space_rel_tuples[OF 4(1)]
    by (auto simp: InMemorySpaceStore_ops_def InMemorySpaceStore_get_def tuples_rel_def)
next
  case (5 s m k x s')
  have t: "fmlookup (sm_tuples s) k = Some r \<longleftrightarrow> m k = Some (r, Visible)" for r
    using space_rel_tuples[OF 5(1)] unfolding tuples_rel_def by blast
  show ?case
  proof (cases "fmlookup (sm_tuples s) k")
    case None
    then show ?thesis using 5 t by (simp add: InMemorySpaceStore_ops_def InMemorySpaceStore_remove_def)
  next
    case (Some r)
    then have "m k = Some (r, Visible)" using t by blast
    moreover have "x = Some r"
      "s' = s\<lparr>sm_tuples := fmdrop k (sm_tuples s), sm_lease_index := fmdrop (tp_lease_id r) (sm_lease_index s)\<rparr>"
      using 5(2) Some by (auto simp: InMemorySpaceStore_ops_def InMemorySpaceStore_remove_def)
    ultimately show ?thesis using space_rel_remove[OF 5(1)] by simp
  qed
next
  case (6 s m l x s')
  then show ?case using remove_by_lease_rel[OF 6(1)] by (simp add: InMemorySpaceStore_ops_def)
next
  case (7 s m ks template txn x)
  then show ?case using find_match_rel[OF 7(1,2)] by (simp add: InMemorySpaceStore_ops_def)
next
  case (8 s m races ks template txn r s')
  then show ?case using take_match_Some_rel[OF 8(1,2)] by (simp add: InMemorySpaceStore_ops_def)
next
  case (9 s m ks template txn s')
  then show ?case using take_match_None_rel[OF 9(1,2)] by (auto simp: InMemorySpaceStore_ops_def)
next
  case (10 s m races ks template txn)
  then show ?case using take_match_view_rel[OF 10(1,2)] by (simp add: InMemorySpaceStore_ops_def)
next
  case (11 s m ks template txn rs)
  then show ?case using find_all_rel[OF 11(1,2)] by (simp add: InMemorySpaceStore_ops_def)
next
  case (12 s m t flushed taken s')
  note d = space_relD[OF 12(1)]
  have "space_rel s' (settle after_commit t m)" using space_rel_commit[OF 12(1), of t] 12(2) by (simp add: InMemorySpaceStore_ops_def)
  moreover have "flushed = buffer (sm_uncommitted s) t" "taken = buffer (sm_txn_taken s) t @ buffer (sm_txn_self_taken s) t"
    using 12(2) by (simp_all add: InMemorySpaceStore_ops_def InMemorySpaceStore_commit_txn_def Let_def fold_publish)
  ultimately show ?case using buffer_relD[OF d(3)] buffer_relD[OF d(4)] buffer_relD[OF d(5)] by auto
next
  case (13 s m t discarded restored s')
  note d = space_relD[OF 13(1)]
  have "space_rel s' (settle after_abort t m)" using space_rel_abort[OF 13(1), of t] 13(2) by (simp add: InMemorySpaceStore_ops_def)
  moreover have "discarded = buffer (sm_uncommitted s) t @ buffer (sm_txn_self_taken s) t" "restored = buffer (sm_txn_taken s) t"
    using 13(2) by (simp_all add: InMemorySpaceStore_ops_def InMemorySpaceStore_abort_txn_def Let_def fold_forget)
  ultimately show ?case using buffer_relD[OF d(3)] buffer_relD[OF d(4)] buffer_relD[OF d(5)] by auto
next
  case (14 s m t b)
  then show ?case using has_txn_rel[OF 14(1)] by (simp add: InMemorySpaceStore_ops_def)
next
  case (15 s m w)
  then show ?case by (simp add: InMemorySpaceStore_ops_def InMemorySpaceStore_create_watch_def space_rel_watch_irrelevant)
next
  case (16 s w u s')
  then show ?case using watches_ok_create[OF 16(1-3)]
    by (auto simp: InMemorySpaceStore_ops_def InMemorySpaceStore_create_watch_def fmlookup_fmupd_fun)
next
  case (17 s m l)
  then show ?case
    by (auto simp: InMemorySpaceStore_ops_def InMemorySpaceStore_remove_watch_by_lease_def Let_def space_rel_watch_irrelevant
        split: option.splits)
next
  case (18 s l x s')
  then show ?case using watch_by_lease_rel[OF 18(1)] by (simp add: InMemorySpaceStore_ops_def)
qed

end
