(* ===== verification/Space.thy ===== *)
theory Space
  imports Space_View Registry
begin

text \<open>
  The Space: \<^verbatim>\<open>SpaceManager\<close> of \<^verbatim>\<open>coordin8-space/src/manager.rs\<close>, its face towards the transaction
  coordinator (\<^verbatim>\<open>coordin8-space/src/participant.rs\<close>), the gRPC handlers of \<^verbatim>\<open>coordin8-space/src/service.rs\<close> and the
  reclaim cascade wired in \<^verbatim>\<open>coordin8-djinn/src/services.rs\<close>. The handlers are written over any store, any grantor
  and any enlister.
\<close>

section \<open>The manager\<close>

text \<open>
  The manager's state: the store, the grantor, the tuples sent on \<^verbatim>\<open>tuple_tx\<close> and on \<^verbatim>\<open>expiry_tx\<close> so far, the state
  behind the enlister, the advertised endpoint, and the set of transactions enlisted under. The enlister itself, which
  may be absent, is an argument.
\<close>

record ('s, 'l, 'e) SpaceManager =
  sx_store :: 's
  sx_lease_manager :: 'l
  sx_tuple_tx :: "TupleRecord list"
  sx_expiry_tx :: "TupleRecord list"
  sx_enlister :: 'e
  sx_participant_endpoint :: "string option"
  sx_enlisted :: "unit dashmap"

type_synonym 'e TxnEnlister = "(string \<Rightarrow> string \<Rightarrow> 'e \<Rightarrow> unit result \<times> 'e) option"

definition SpaceManager_new :: "'s \<Rightarrow> 'l \<Rightarrow> TupleRecord list \<Rightarrow> TupleRecord list \<Rightarrow> 'e \<Rightarrow> ('s, 'l, 'e) SpaceManager" where
  "SpaceManager_new store lease_manager tuple_tx expiry_tx no_enlister = \<lparr>
     sx_store = store, sx_lease_manager = lease_manager, sx_tuple_tx = tuple_tx, sx_expiry_tx = expiry_tx,
     sx_enlister = no_enlister, sx_participant_endpoint = None, sx_enlisted = fmempty\<rparr>"

definition SpaceManager_with_enlister ::
  "'s \<Rightarrow> 'l \<Rightarrow> TupleRecord list \<Rightarrow> TupleRecord list \<Rightarrow> 'e \<Rightarrow> string \<Rightarrow> ('s, 'l, 'e) SpaceManager"
where
  "SpaceManager_with_enlister store lease_manager tuple_tx expiry_tx enlister participant_endpoint = \<lparr>
     sx_store = store, sx_lease_manager = lease_manager, sx_tuple_tx = tuple_tx, sx_expiry_tx = expiry_tx,
     sx_enlister = enlister, sx_participant_endpoint = Some participant_endpoint, sx_enlisted = fmempty\<rparr>"

definition ensure_enlisted ::
  "'e TxnEnlister \<Rightarrow> string \<Rightarrow> ('s, 'l, 'e) SpaceManager \<Rightarrow> unit result \<times> ('s, 'l, 'e) SpaceManager"
where
  "ensure_enlisted E txn_id m =
     (case E of
        None \<Rightarrow> (Inr (), m)
      | Some enlist \<Rightarrow>
          if fmlookup (sx_enlisted m) txn_id \<noteq> None then (Inr (), m)
          else (case sx_participant_endpoint m of
                  None \<Rightarrow> (Inl (Internal ''space participant_endpoint not configured''), m)
                | Some endpoint \<Rightarrow>
                    (case enlist txn_id endpoint (sx_enlister m) of
                       (Inl e, st) \<Rightarrow> (Inl e, m\<lparr>sx_enlister := st\<rparr>)
                     | (Inr _, st) \<Rightarrow> (Inr (), m\<lparr>sx_enlister := st, sx_enlisted := fmupd txn_id () (sx_enlisted m)\<rparr>))))"

text \<open>
  \<open>now\<close> is the reading when the lease is granted, \<open>written_at\<close> the one put on the tuple; \<open>tuple_uid\<close> and \<open>lease_uid\<close>
  are the fresh identifiers.
\<close>

record WriteArgs =
  wa_attrs :: attrs
  wa_payload :: bytes
  wa_ttl_secs :: u64
  wa_written_by :: string
  wa_input_tuple_id :: "string option"
  wa_txn_id :: "string option"

definition SpaceManager_write ::
  "'s SpaceStore \<Rightarrow> 'l Leasing \<Rightarrow> 'e TxnEnlister \<Rightarrow> time \<Rightarrow> time \<Rightarrow> string \<Rightarrow> string \<Rightarrow> WriteArgs
   \<Rightarrow> ('s, 'l, 'e) SpaceManager \<Rightarrow> (TupleRecord \<times> LeaseRecord) result \<times> ('s, 'l, 'e) SpaceManager"
where
  "SpaceManager_write S L E now written_at tuple_uid lease_uid a m =
     (case lg_grant L now lease_uid (''space:'' @ tuple_uid) (wa_ttl_secs a) (sx_lease_manager m) of
        (Inl e, l') \<Rightarrow> (Inl e, m\<lparr>sx_lease_manager := l'\<rparr>)
      | (Inr lease, l') \<Rightarrow>
          let m1 = m\<lparr>sx_lease_manager := l'\<rparr>;
              record = \<lparr>tp_tuple_id = tuple_uid, tp_attrs = wa_attrs a, tp_payload = wa_payload a,
                        tp_lease_id = lr_lease_id lease, tp_written_by = wa_written_by a, tp_written_at = written_at,
                        tp_input_tuple_id = wa_input_tuple_id a\<rparr>
          in (case wa_txn_id a of
                Some tid \<Rightarrow>
                  (case ensure_enlisted E tid m1 of
                     (Inl e, m2) \<Rightarrow> (Inl e, m2)
                   | (Inr _, m2) \<Rightarrow>
                       (case sp_insert_uncommitted S tid record (sx_store m2) of
                          (Inl e, s') \<Rightarrow> (Inl e, m2\<lparr>sx_store := s'\<rparr>)
                        | (Inr _, s') \<Rightarrow> (Inr (record, lease), m2\<lparr>sx_store := s'\<rparr>)))
              | None \<Rightarrow>
                  (case sp_insert S record (sx_store m1) of
                     (Inl e, s') \<Rightarrow> (Inl e, m1\<lparr>sx_store := s'\<rparr>)
                   | (Inr _, s') \<Rightarrow>
                       (Inr (record, lease), m1\<lparr>sx_store := s', sx_tuple_tx := sx_tuple_tx m1 @ [record]\<rparr>))))"

text \<open>
  A blocked read or take wakes up for a sequence of messages on the tuple broadcast. A wake-up is the message, what
  other tasks did to the manager since the previous one, and the visiting orders of the queries it leads to. When the
  sequence ends the call is still blocked: it times out if it has a timeout, and otherwise has not returned, written
  as the outer \<open>None\<close>.
\<close>

record ('s, 'm) wakeup =
  wk_recv :: "TupleRecord recv"
  wk_others :: "'m \<Rightarrow> 'm"
  wk_races :: "'s races"
  wk_keys :: "string list"

fun read_wait ::
  "'s SpaceStore \<Rightarrow> attrs \<Rightarrow> string option \<Rightarrow> ('s, ('s, 'l, 'e) SpaceManager) wakeup list \<Rightarrow> ('s, 'l, 'e) SpaceManager
   \<Rightarrow> TupleRecord option option \<times> ('s, 'l, 'e) SpaceManager"
where
  "read_wait S template txn_id [] m = (None, m)"
| "read_wait S template txn_id (w # ws) m =
     (let m1 = wk_others w m in
      case wk_recv w of
        Received tuple \<Rightarrow>
          if matches (parse_template template) (tp_attrs tuple) then (Some (Some tuple), m1)
          else read_wait S template txn_id ws m1
      | Closed \<Rightarrow> (Some None, m1)
      | Lagged n \<Rightarrow>
          (case sp_find_match S (wk_keys w) template txn_id (sx_store m1) of
             Inr (Some record) \<Rightarrow> (Some (Some record), m1)
           | _ \<Rightarrow> read_wait S template txn_id ws m1))"

definition after_wait :: "u64 \<Rightarrow> TupleRecord option option \<Rightarrow> TupleRecord option result option" where
  "after_wait timeout_ms x =
     (case x of
        Some result \<Rightarrow> Some (Inr result)
      | None \<Rightarrow> if timeout_ms > 0 then Some (Inr None) else None)"

definition SpaceManager_read ::
  "'s SpaceStore \<Rightarrow> string list \<Rightarrow> attrs \<Rightarrow> bool \<Rightarrow> u64 \<Rightarrow> string option \<Rightarrow> ('s, ('s, 'l, 'e) SpaceManager) wakeup list
   \<Rightarrow> ('s, 'l, 'e) SpaceManager \<Rightarrow> TupleRecord option result option \<times> ('s, 'l, 'e) SpaceManager"
where
  "SpaceManager_read S ks template wait timeout_ms txn_id rx m =
     (case sp_find_match S ks template txn_id (sx_store m) of
        Inl e \<Rightarrow> (Some (Inl e), m)
      | Inr (Some record) \<Rightarrow> (Some (Inr (Some record)), m)
      | Inr None \<Rightarrow>
          if \<not> wait then (Some (Inr None), m)
          else case read_wait S template txn_id rx m of (x, m') \<Rightarrow> (after_wait timeout_ms x, m'))"

text \<open>The lease of a tuple taken outside a transaction is cancelled at once; a failure is ignored.\<close>

definition cancel_taken ::
  "'l Leasing \<Rightarrow> string option \<Rightarrow> TupleRecord \<Rightarrow> ('s, 'l, 'e) SpaceManager \<Rightarrow> ('s, 'l, 'e) SpaceManager"
where
  "cancel_taken L txn_id record m =
     (if txn_id = None then m\<lparr>sx_lease_manager := snd (lg_cancel L (tp_lease_id record) (sx_lease_manager m))\<rparr> else m)"

definition try_take ::
  "'s SpaceStore \<Rightarrow> 'l Leasing \<Rightarrow> 's races \<Rightarrow> string list \<Rightarrow> attrs \<Rightarrow> string option \<Rightarrow> ('s, 'l, 'e) SpaceManager
   \<Rightarrow> TupleRecord option result \<times> ('s, 'l, 'e) SpaceManager"
where
  "try_take S L races ks template txn_id m =
     (case sp_take_match S races ks template txn_id (sx_store m) of
        (Inl e, s') \<Rightarrow> (Inl e, m\<lparr>sx_store := s'\<rparr>)
      | (Inr None, s') \<Rightarrow> (Inr None, m\<lparr>sx_store := s'\<rparr>)
      | (Inr (Some record), s') \<Rightarrow> (Inr (Some record), cancel_taken L txn_id record (m\<lparr>sx_store := s'\<rparr>)))"

fun take_wait ::
  "'s SpaceStore \<Rightarrow> 'l Leasing \<Rightarrow> attrs \<Rightarrow> string option \<Rightarrow> ('s, ('s, 'l, 'e) SpaceManager) wakeup list
   \<Rightarrow> ('s, 'l, 'e) SpaceManager \<Rightarrow> TupleRecord option option \<times> ('s, 'l, 'e) SpaceManager"
where
  "take_wait S L template txn_id [] m = (None, m)"
| "take_wait S L template txn_id (w # ws) m =
     (let m1 = wk_others w m in
      case wk_recv w of
        Received tuple \<Rightarrow>
          if \<not> matches (parse_template template) (tp_attrs tuple) then take_wait S L template txn_id ws m1
          else (case try_take S L (wk_races w) (wk_keys w) template txn_id m1 of
                  (Inr (Some record), m2) \<Rightarrow> (Some (Some record), m2)
                | (_, m2) \<Rightarrow> take_wait S L template txn_id ws m2)
      | Closed \<Rightarrow> (Some None, m1)
      | Lagged n \<Rightarrow>
          (case try_take S L (wk_races w) (wk_keys w) template txn_id m1 of
             (Inr (Some record), m2) \<Rightarrow> (Some (Some record), m2)
           | (_, m2) \<Rightarrow> take_wait S L template txn_id ws m2))"

definition SpaceManager_take ::
  "'s SpaceStore \<Rightarrow> 'l Leasing \<Rightarrow> 'e TxnEnlister \<Rightarrow> 's races \<Rightarrow> string list \<Rightarrow> attrs \<Rightarrow> bool \<Rightarrow> u64 \<Rightarrow> string option
   \<Rightarrow> ('s, ('s, 'l, 'e) SpaceManager) wakeup list \<Rightarrow> ('s, 'l, 'e) SpaceManager
   \<Rightarrow> TupleRecord option result option \<times> ('s, 'l, 'e) SpaceManager"
where
  "SpaceManager_take S L E races ks template wait timeout_ms txn_id rx m =
     (case (case txn_id of None \<Rightarrow> (Inr (), m) | Some tid \<Rightarrow> ensure_enlisted E tid m) of
        (Inl e, m1) \<Rightarrow> (Some (Inl e), m1)
      | (Inr _, m1) \<Rightarrow>
          (case try_take S L races ks template txn_id m1 of
             (Inl e, m2) \<Rightarrow> (Some (Inl e), m2)
           | (Inr (Some record), m2) \<Rightarrow> (Some (Inr (Some record)), m2)
           | (Inr None, m2) \<Rightarrow>
               if \<not> wait then (Some (Inr None), m2)
               else case take_wait S L template txn_id rx m2 of (x, m3) \<Rightarrow> (after_wait timeout_ms x, m3)))"

definition SpaceManager_contents ::
  "'s SpaceStore \<Rightarrow> string list \<Rightarrow> attrs \<Rightarrow> string option \<Rightarrow> ('s, 'l, 'e) SpaceManager \<Rightarrow> TupleRecord list result"
where
  "SpaceManager_contents S ks template txn_id m = sp_find_all_matches S ks template txn_id (sx_store m)"

text \<open>Cancel the leases of a list of tuples, ignoring failures; announce a list of tuples.\<close>

definition cancel_all :: "'l Leasing \<Rightarrow> TupleRecord list \<Rightarrow> 'l \<Rightarrow> 'l" where
  "cancel_all L rs l = fold (\<lambda>r l. snd (lg_cancel L (tp_lease_id r) l)) rs l"

definition commit_space_txn ::
  "'s SpaceStore \<Rightarrow> 'l Leasing \<Rightarrow> string \<Rightarrow> ('s, 'l, 'e) SpaceManager \<Rightarrow> unit result \<times> ('s, 'l, 'e) SpaceManager"
where
  "commit_space_txn S L txn_id m =
     (case sp_commit_txn S txn_id (sx_store m) of
        (Inl e, s') \<Rightarrow> (Inl e, m\<lparr>sx_store := s'\<rparr>)
      | (Inr (flushed, taken), s') \<Rightarrow>
          (Inr (), m\<lparr>sx_store := s', sx_enlisted := fmdrop txn_id (sx_enlisted m),
                     sx_lease_manager := cancel_all L taken (sx_lease_manager m),
                     sx_tuple_tx := sx_tuple_tx m @ flushed\<rparr>))"

definition abort_space_txn ::
  "'s SpaceStore \<Rightarrow> 'l Leasing \<Rightarrow> string \<Rightarrow> ('s, 'l, 'e) SpaceManager \<Rightarrow> unit result \<times> ('s, 'l, 'e) SpaceManager"
where
  "abort_space_txn S L txn_id m =
     (case sp_abort_txn S txn_id (sx_store m) of
        (Inl e, s') \<Rightarrow> (Inl e, m\<lparr>sx_store := s'\<rparr>)
      | (Inr (discarded, restored), s') \<Rightarrow>
          (Inr (), m\<lparr>sx_store := s', sx_enlisted := fmdrop txn_id (sx_enlisted m),
                     sx_lease_manager := cancel_all L discarded (sx_lease_manager m),
                     sx_tuple_tx := sx_tuple_tx m @ restored\<rparr>))"

definition SpaceManager_has_txn :: "'s SpaceStore \<Rightarrow> string \<Rightarrow> ('s, 'l, 'e) SpaceManager \<Rightarrow> bool result" where
  "SpaceManager_has_txn S txn_id m = sp_has_txn S txn_id (sx_store m)"

definition SpaceManager_notify ::
  "'s SpaceStore \<Rightarrow> 'l Leasing \<Rightarrow> time \<Rightarrow> string \<Rightarrow> string \<Rightarrow> attrs \<Rightarrow> SpaceEventKind \<Rightarrow> u64 \<Rightarrow> bytes
   \<Rightarrow> ('s, 'l, 'e) SpaceManager \<Rightarrow> (string \<times> string) result \<times> ('s, 'l, 'e) SpaceManager"
where
  "SpaceManager_notify S L now watch_uid lease_uid template on ttl_secs handback m =
     (case lg_grant L now lease_uid (''space-watch:'' @ watch_uid) ttl_secs (sx_lease_manager m) of
        (Inl e, l') \<Rightarrow> (Inl e, m\<lparr>sx_lease_manager := l'\<rparr>)
      | (Inr lease, l') \<Rightarrow>
          let m1 = m\<lparr>sx_lease_manager := l'\<rparr>;
              record = \<lparr>sw_watch_id = watch_uid, sw_template = template, sw_on = on, sw_lease_id = lr_lease_id lease,
                        sw_handback = handback\<rparr>
          in (case sp_create_watch S record (sx_store m1) of
                (Inl e, s') \<Rightarrow> (Inl e, m1\<lparr>sx_store := s'\<rparr>)
              | (Inr _, s') \<Rightarrow> (Inr (watch_uid, lr_lease_id lease), m1\<lparr>sx_store := s'\<rparr>)))"

definition on_tuple_expired :: "'s SpaceStore \<Rightarrow> string \<Rightarrow> ('s, 'l, 'e) SpaceManager \<Rightarrow> ('s, 'l, 'e) SpaceManager" where
  "on_tuple_expired S lease_id m =
     (case sp_remove_by_lease S lease_id (sx_store m) of
        (Inr (Some record), s') \<Rightarrow> m\<lparr>sx_store := s', sx_expiry_tx := sx_expiry_tx m @ [record]\<rparr>
      | (_, s') \<Rightarrow> m\<lparr>sx_store := s'\<rparr>)"

definition on_watch_expired :: "'s SpaceStore \<Rightarrow> string \<Rightarrow> ('s, 'l, 'e) SpaceManager \<Rightarrow> ('s, 'l, 'e) SpaceManager" where
  "on_watch_expired S lease_id m = m\<lparr>sx_store := snd (sp_remove_watch_by_lease S lease_id (sx_store m))\<rparr>"

definition SpaceManager_cancel ::
  "'s SpaceStore \<Rightarrow> 'l Leasing \<Rightarrow> string \<Rightarrow> ('s, 'l, 'e) SpaceManager \<Rightarrow> unit result \<times> ('s, 'l, 'e) SpaceManager"
where
  "SpaceManager_cancel S L tuple_id m =
     (case sp_remove S tuple_id (sx_store m) of
        (Inl e, s') \<Rightarrow> (Inl e, m\<lparr>sx_store := s'\<rparr>)
      | (Inr None, s') \<Rightarrow> (Inl (TupleNotFound tuple_id), m\<lparr>sx_store := s'\<rparr>)
      | (Inr (Some record), s') \<Rightarrow>
          (case lg_cancel L (tp_lease_id record) (sx_lease_manager m) of
             (r, l') \<Rightarrow> (r, m\<lparr>sx_store := s', sx_lease_manager := l'\<rparr>)))"

definition SpaceManager_renew ::
  "'s SpaceStore \<Rightarrow> 'l Leasing \<Rightarrow> time \<Rightarrow> time \<Rightarrow> string \<Rightarrow> u64 \<Rightarrow> ('s, 'l, 'e) SpaceManager
   \<Rightarrow> LeaseRecord result \<times> ('s, 'l, 'e) SpaceManager"
where
  "SpaceManager_renew S L now1 now2 tuple_id ttl_secs m =
     (case sp_get S tuple_id (sx_store m) of
        Inl e \<Rightarrow> (Inl e, m)
      | Inr None \<Rightarrow> (Inl (TupleNotFound tuple_id), m)
      | Inr (Some record) \<Rightarrow>
          (case lg_renew L now1 now2 (tp_lease_id record) ttl_secs (sx_lease_manager m) of
             (r, l') \<Rightarrow> (r, m\<lparr>sx_lease_manager := l'\<rparr>)))"

section \<open>The participant\<close>

definition participant_map_err :: "error \<Rightarrow> status" where
  "participant_map_err e = (case e of
     Unavailable _ \<Rightarrow> Status Code_Unavailable (error_to_string e)
   | _ \<Rightarrow> Status Code_Internal (error_to_string e))"

definition SpaceParticipant_prepare :: "'s SpaceStore \<Rightarrow> string \<Rightarrow> ('s, 'l, 'e) SpaceManager \<Rightarrow> int rpc" where
  "SpaceParticipant_prepare S txn_id m =
     (case SpaceManager_has_txn S txn_id m of
        Inl e \<Rightarrow> Inl (participant_map_err e)
      | Inr has_state \<Rightarrow> Inr (if has_state then 0 else 1))"

definition SpaceParticipant_commit ::
  "'s SpaceStore \<Rightarrow> 'l Leasing \<Rightarrow> string \<Rightarrow> ('s, 'l, 'e) SpaceManager \<Rightarrow> unit rpc \<times> ('s, 'l, 'e) SpaceManager"
where
  "SpaceParticipant_commit S L txn_id m =
     (case commit_space_txn S L txn_id m of (r, m') \<Rightarrow> (map_err participant_map_err r, m'))"

definition SpaceParticipant_abort ::
  "'s SpaceStore \<Rightarrow> 'l Leasing \<Rightarrow> string \<Rightarrow> ('s, 'l, 'e) SpaceManager \<Rightarrow> unit rpc \<times> ('s, 'l, 'e) SpaceManager"
where
  "SpaceParticipant_abort S L txn_id m =
     (case abort_space_txn S L txn_id m of (r, m') \<Rightarrow> (map_err participant_map_err r, m'))"

definition SpaceParticipant_prepare_and_commit ::
  "'s SpaceStore \<Rightarrow> 'l Leasing \<Rightarrow> string \<Rightarrow> ('s, 'l, 'e) SpaceManager \<Rightarrow> int rpc \<times> ('s, 'l, 'e) SpaceManager"
where
  "SpaceParticipant_prepare_and_commit S L txn_id m =
     (case SpaceManager_has_txn S txn_id m of
        Inl e \<Rightarrow> (Inl (participant_map_err e), m)
      | Inr has_state \<Rightarrow>
          if has_state then
            (case commit_space_txn S L txn_id m of
               (Inl e, m') \<Rightarrow> (Inl (participant_map_err e), m')
             | (Inr _, m') \<Rightarrow> (Inr 0, m'))
          else (Inr 1, m))"

section \<open>The cascade\<close>

definition space_cascade :: "'s SpaceStore \<Rightarrow> LeaseReclaimed \<Rightarrow> ('s, 'l, 'e) SpaceManager \<Rightarrow> ('s, 'l, 'e) SpaceManager" where
  "space_cascade S ev m =
     (let record = rc_record ev in
      if starts_with (lr_resource_id record) ''space:'' then on_tuple_expired S (lr_lease_id record) m
      else if starts_with (lr_resource_id record) ''space-watch:'' then on_watch_expired S (lr_lease_id record) m
      else m)"

section \<open>The service\<close>

definition space_map_err :: "error \<Rightarrow> status" where
  "space_map_err e = (case e of
     Unavailable _ \<Rightarrow> Status Code_Unavailable (error_to_string e)
   | TupleNotFound _ \<Rightarrow> Status Code_NotFound (error_to_string e)
   | WatchNotFound _ \<Rightarrow> Status Code_NotFound (error_to_string e)
   | LeaseNotFound _ \<Rightarrow> Status Code_NotFound (error_to_string e)
   | LeaseExpired _ \<Rightarrow> Status Code_FailedPrecondition (error_to_string e)
   | InvalidArgument _ \<Rightarrow> Status Code_InvalidArgument (error_to_string e)
   | PermissionDenied _ \<Rightarrow> Status Code_PermissionDenied (error_to_string e)
   | _ \<Rightarrow> Status Code_Internal (error_to_string e))"

record Provenance =
  pv_written_by :: string
  pv_written_at :: "Timestamp option"
  pv_input_tuple_id :: string

record Tuple =
  tu_tuple_id :: string
  tu_attrs :: attrs
  tu_payload :: bytes
  tu_provenance :: "Provenance option"
  tu_lease :: "Lease option"

definition tuple_record_to_proto :: "TupleRecord \<Rightarrow> Lease option \<Rightarrow> Tuple" where
  "tuple_record_to_proto r lease = \<lparr>
     tu_tuple_id = tp_tuple_id r, tu_attrs = tp_attrs r, tu_payload = tp_payload r,
     tu_provenance = Some \<lparr>pv_written_by = tp_written_by r, pv_written_at = to_timestamp (tp_written_at r),
                           pv_input_tuple_id = (case tp_input_tuple_id r of None \<Rightarrow> [] | Some t \<Rightarrow> t)\<rparr>,
     tu_lease = lease\<rparr>"

definition parse_txn_id :: "string \<Rightarrow> string option" where
  "parse_txn_id txn_id = (if txn_id = [] then None else Some txn_id)"

record SpaceServiceImpl =
  ssv_grantor_host :: string
  ssv_grantor_port :: u16

definition SpaceServiceImpl_lease_to_proto :: "SpaceServiceImpl \<Rightarrow> LeaseRecord \<Rightarrow> Lease" where
  "SpaceServiceImpl_lease_to_proto svc lease = \<lparr>
     pl_lease_id = lr_lease_id lease, pl_resource_id = lr_resource_id lease,
     pl_granted_at = to_timestamp (lr_granted_at lease), pl_expires_at = to_timestamp (lr_expires_at lease),
     pl_ttl_seconds = lr_ttl_seconds lease, pl_grantor_host = ssv_grantor_host svc,
     pl_grantor_port = ucast (ssv_grantor_port svc)\<rparr>"

record WriteRequest =
  wr_attrs :: attrs
  wr_payload :: bytes
  wr_ttl_seconds :: u64
  wr_written_by :: string
  wr_input_tuple_id :: string
  wr_txn_id :: string

definition SpaceService_write ::
  "'s SpaceStore \<Rightarrow> 'l Leasing \<Rightarrow> 'e TxnEnlister \<Rightarrow> SpaceServiceImpl \<Rightarrow> time \<Rightarrow> time \<Rightarrow> string \<Rightarrow> string \<Rightarrow> WriteRequest
   \<Rightarrow> ('s, 'l, 'e) SpaceManager \<Rightarrow> Tuple rpc \<times> ('s, 'l, 'e) SpaceManager"
where
  "SpaceService_write S L E svc now written_at tuple_uid lease_uid r m =
     (let a = \<lparr>wa_attrs = wr_attrs r, wa_payload = wr_payload r, wa_ttl_secs = wr_ttl_seconds r,
               wa_written_by = wr_written_by r,
               wa_input_tuple_id = (if wr_input_tuple_id r = [] then None else Some (wr_input_tuple_id r)),
               wa_txn_id = parse_txn_id (wr_txn_id r)\<rparr>
      in case SpaceManager_write S L E now written_at tuple_uid lease_uid a m of
           (Inl e, m') \<Rightarrow> (Inl (space_map_err e), m')
         | (Inr (record, lease_record), m') \<Rightarrow>
             (Inr (tuple_record_to_proto record (Some (SpaceServiceImpl_lease_to_proto svc lease_record))), m'))"

definition match_response :: "TupleRecord option result option \<Rightarrow> Tuple option rpc option" where
  "match_response x = map_option (\<lambda>r. case r of
       Inl e \<Rightarrow> Inl (space_map_err e)
     | Inr result \<Rightarrow> Inr (map_option (\<lambda>rec. tuple_record_to_proto rec None) result)) x"

definition SpaceService_read ::
  "'s SpaceStore \<Rightarrow> string list \<Rightarrow> attrs \<Rightarrow> bool \<Rightarrow> u64 \<Rightarrow> string \<Rightarrow> ('s, ('s, 'l, 'e) SpaceManager) wakeup list
   \<Rightarrow> ('s, 'l, 'e) SpaceManager \<Rightarrow> Tuple option rpc option \<times> ('s, 'l, 'e) SpaceManager"
where
  "SpaceService_read S ks template wait timeout_ms txn_id rx m =
     (case SpaceManager_read S ks template wait timeout_ms (parse_txn_id txn_id) rx m of
        (x, m') \<Rightarrow> (match_response x, m'))"

definition SpaceService_take ::
  "'s SpaceStore \<Rightarrow> 'l Leasing \<Rightarrow> 'e TxnEnlister \<Rightarrow> 's races \<Rightarrow> string list \<Rightarrow> attrs \<Rightarrow> bool \<Rightarrow> u64 \<Rightarrow> string
   \<Rightarrow> ('s, ('s, 'l, 'e) SpaceManager) wakeup list \<Rightarrow> ('s, 'l, 'e) SpaceManager
   \<Rightarrow> Tuple option rpc option \<times> ('s, 'l, 'e) SpaceManager"
where
  "SpaceService_take S L E races ks template wait timeout_ms txn_id rx m =
     (case SpaceManager_take S L E races ks template wait timeout_ms (parse_txn_id txn_id) rx m of
        (x, m') \<Rightarrow> (match_response x, m'))"

record SpaceEvent =
  spe_type :: int
  spe_tuple :: "Tuple option"
  spe_occurred_at :: "Timestamp option"
  spe_handback :: bytes

definition event_kind :: "int \<Rightarrow> SpaceEventKind" where
  "event_kind on = (if on = 1 then Expiration else Appearance)"

definition event_type_of :: "SpaceEventKind \<Rightarrow> int" where
  "event_type_of on = (case on of Appearance \<Rightarrow> 0 | Expiration \<Rightarrow> 1)"

text \<open>
  The task behind a notification stream: the items it sends for the messages it receives, each with the clock reading
  when it is handled. A lagging receiver gets one error and the stream ends; a closed channel ends it.
\<close>

fun notify_items :: "attrs \<Rightarrow> int \<Rightarrow> bytes \<Rightarrow> (TupleRecord recv \<times> time) list \<Rightarrow> SpaceEvent rpc list" where
  "notify_items template event_type handback [] = []"
| "notify_items template event_type handback ((Received tuple, now) # rx) =
     (let ops = parse_template template in
      if ops \<noteq> fmempty \<and> \<not> matches ops (tp_attrs tuple) then notify_items template event_type handback rx
      else Inr \<lparr>spe_type = event_type, spe_tuple = Some (tuple_record_to_proto tuple None),
                spe_occurred_at = to_timestamp now, spe_handback = handback\<rparr> # notify_items template event_type handback rx)"
| "notify_items template event_type handback ((Lagged n, now) # rx) =
     [Inl (Status Code_DataLoss ''watcher lagged; resubscribe and re-snapshot'')]"
| "notify_items template event_type handback ((Closed, now) # rx) = []"

text \<open>
  \<open>rx\<close> gives what the subscription to the tuple broadcast, respectively to the expiry broadcast, receives.
\<close>

definition SpaceService_notify ::
  "'s SpaceStore \<Rightarrow> 'l Leasing \<Rightarrow> time \<Rightarrow> string \<Rightarrow> string \<Rightarrow> attrs \<Rightarrow> int \<Rightarrow> u64 \<Rightarrow> bytes
   \<Rightarrow> (SpaceEventKind \<Rightarrow> (TupleRecord recv \<times> time) list) \<Rightarrow> ('s, 'l, 'e) SpaceManager
   \<Rightarrow> SpaceEvent rpc list rpc \<times> ('s, 'l, 'e) SpaceManager"
where
  "SpaceService_notify S L now watch_uid lease_uid template on_i32 ttl_seconds handback rx m =
     (let on = event_kind on_i32 in
      case SpaceManager_notify S L now watch_uid lease_uid template on ttl_seconds handback m of
        (Inl e, m') \<Rightarrow> (Inl (space_map_err e), m')
      | (Inr _, m') \<Rightarrow> (Inr (notify_items template (event_type_of on) handback (rx on)), m'))"

definition SpaceService_contents ::
  "'s SpaceStore \<Rightarrow> string list \<Rightarrow> attrs \<Rightarrow> string \<Rightarrow> ('s, 'l, 'e) SpaceManager \<Rightarrow> Tuple list rpc"
where
  "SpaceService_contents S ks template txn_id m =
     (case SpaceManager_contents S ks template (parse_txn_id txn_id) m of
        Inl e \<Rightarrow> Inl (space_map_err e)
      | Inr tuples \<Rightarrow> Inr (map (\<lambda>r. tuple_record_to_proto r None) tuples))"

definition SpaceService_renew ::
  "'s SpaceStore \<Rightarrow> 'l Leasing \<Rightarrow> SpaceServiceImpl \<Rightarrow> time \<Rightarrow> time \<Rightarrow> string \<Rightarrow> u64 \<Rightarrow> ('s, 'l, 'e) SpaceManager
   \<Rightarrow> Lease rpc \<times> ('s, 'l, 'e) SpaceManager"
where
  "SpaceService_renew S L svc now1 now2 tuple_id ttl_seconds m =
     (case SpaceManager_renew S L now1 now2 tuple_id ttl_seconds m of
        (Inl e, m') \<Rightarrow> (Inl (space_map_err e), m')
      | (Inr record, m') \<Rightarrow> (Inr (SpaceServiceImpl_lease_to_proto svc record), m'))"

definition SpaceService_cancel ::
  "'s SpaceStore \<Rightarrow> 'l Leasing \<Rightarrow> string \<Rightarrow> ('s, 'l, 'e) SpaceManager \<Rightarrow> unit rpc \<times> ('s, 'l, 'e) SpaceManager"
where
  "SpaceService_cancel S L tuple_id m =
     (case SpaceManager_cancel S L tuple_id m of (r, m') \<Rightarrow> (map_err space_map_err r, m'))"

end
