(* ===== verification/Space_Props.thy ===== *)
theory Space_Props
  imports Space
begin

text \<open>
  What the Space guarantees, proved once for any store and any grantor that keep their contracts (locale
  \<open>space_service\<close>) and then stated for the in-memory providers: takes are exclusive, a transaction's writes and takes
  take effect together or not at all, an expired tuple is gone for good, and a blocked take is woken.
\<close>

section \<open>Over the contracts\<close>

named_theorems space_mgr_defs \<open>operations of the space manager\<close>

declare SpaceManager_write_def [space_mgr_defs] try_take_def [space_mgr_defs] cancel_taken_def [space_mgr_defs]
  SpaceManager_take_def [space_mgr_defs] commit_space_txn_def [space_mgr_defs] abort_space_txn_def [space_mgr_defs]
  on_tuple_expired_def [space_mgr_defs] SpaceManager_cancel_def [space_mgr_defs]

lemma ensure_enlisted_other_fields:
  "ensure_enlisted E t m = (x, m') \<Longrightarrow>
   sx_store m' = sx_store m \<and> sx_lease_manager m' = sx_lease_manager m \<and> sx_tuple_tx m' = sx_tuple_tx m \<and>
   sx_expiry_tx m' = sx_expiry_tx m"
  by (auto simp: ensure_enlisted_def split: option.splits if_splits prod.splits sum.splits)

text \<open>A taken tuple is seen by nobody.\<close>

lemma taken_unseen: "view_take txn r v (tp_tuple_id r) = Some (r', st) \<Longrightarrow> \<not> seen_by q st"
  by (cases txn) (auto simp: view_take_def split: option.splits if_splits elim!: after_take.elims)

lemma sees_view_take: "\<not> sees q template (view_take txn r v) r"
  using taken_unseen unfolding sees_def by blast

locale space_service =
  lease: leasing L live lok + sp: space_store S view visits wview wok
  for L :: "'l Leasing" and live lok and S :: "'s SpaceStore" and view visits wview wok
begin

definition mgr_ok :: "('s, 'l, 'e) SpaceManager \<Rightarrow> bool" where
  "mgr_ok m \<longleftrightarrow> (\<exists>v. view (sx_store m) v) \<and> lok (sx_lease_manager m)"

lemma cancel_all_ok:
  assumes "lok l" "\<And>r l. lok l \<Longrightarrow> \<exists>u l'. lg_cancel L r l = (Inr u, l')"
  shows "lok (cancel_all L rs l) \<and> live (cancel_all L rs l) = (\<lambda>lid. if lid \<in> tp_lease_id ` set rs then None else live l lid)"
  using assms(1)
proof (induction rs arbitrary: l)
  case Nil
  then show ?case by (simp add: cancel_all_def)
next
  case (Cons r rs)
  obtain u l' where c: "lg_cancel L (tp_lease_id r) l = (Inr u, l')" using assms(2)[OF Cons.prems] by blast
  have l': "lok l'" "live l' = (live l)(tp_lease_id r := None)"
    using lease.cancel_inv[OF Cons.prems, of "tp_lease_id r"] lease.cancel_ok[OF Cons.prems c] c by auto
  show ?case using Cons.IH[OF l'(1)] l'(2) c by (auto simp: cancel_all_def fun_eq_iff)
qed

text \<open>A write: the tuple appears, visible or held by its transaction, with a live lease of its own.\<close>

lemma write_ok:
  assumes "view (sx_store m) v" "lok (sx_lease_manager m)" "live (sx_lease_manager m) luid = None" "v tuid = None"
    "\<forall>k r st. v k = Some (r, st) \<longrightarrow> tp_lease_id r \<noteq> luid"
    "SpaceManager_write S L E now wat tuid luid a m = (Inr (rec, lease), m')"
  shows "view (sx_store m') (v(tuid \<mapsto> (rec, case wa_txn_id a of None \<Rightarrow> Visible | Some t \<Rightarrow> Written t)))"
    "tp_tuple_id rec = tuid" "tp_attrs rec = wa_attrs a" "tp_payload rec = wa_payload a" "tp_lease_id rec = luid"
    "live (sx_lease_manager m') = (live (sx_lease_manager m))(luid \<mapsto> lease)" "lok (sx_lease_manager m')"
    "lr_resource_id lease = ''space:'' @ tuid"
    "sx_tuple_tx m' = sx_tuple_tx m @ (if wa_txn_id a = None then [rec] else [])"
proof -
  obtain lease0 l' where g: "lg_grant L now luid (''space:'' @ tuid) (wa_ttl_secs a) (sx_lease_manager m) = (Inr lease0, l')"
    using assms(6) by (auto simp: space_mgr_defs split: prod.splits sum.splits)
  note gr = lease.grant_ok[OF assms(2,3) g]
  have lok': "lok l'" using lease.grant_inv[OF assms(2,3), of now "''space:'' @ tuid" "wa_ttl_secs a"] g by simp
  let ?rec = "\<lparr>tp_tuple_id = tuid, tp_attrs = wa_attrs a, tp_payload = wa_payload a, tp_lease_id = lr_lease_id lease0,
      tp_written_by = wa_written_by a, tp_written_at = wat, tp_input_tuple_id = wa_input_tuple_id a\<rparr>"
  have un: "unused ?rec v" using assms(4,5) gr by (simp add: unused_def)
  have r: "rec = ?rec" "lease = lease0" "sx_lease_manager m' = l'"
    "view (sx_store m') (v(tuid \<mapsto> (?rec, case wa_txn_id a of None \<Rightarrow> Visible | Some t \<Rightarrow> Written t)))"
    "sx_tuple_tx m' = sx_tuple_tx m @ (if wa_txn_id a = None then [?rec] else [])"
    using assms(1,6) g sp.insert_ok[OF assms(1) un] sp.insert_uncommitted_ok[OF assms(1) un]
    by (auto simp: space_mgr_defs Let_def split: prod.splits sum.splits option.splits
        dest!: ensure_enlisted_other_fields)
  show "view (sx_store m') (v(tuid \<mapsto> (rec, case wa_txn_id a of None \<Rightarrow> Visible | Some t \<Rightarrow> Written t)))"
    "tp_tuple_id rec = tuid" "tp_attrs rec = wa_attrs a" "tp_payload rec = wa_payload a" "tp_lease_id rec = luid"
    "live (sx_lease_manager m') = (live (sx_lease_manager m))(luid \<mapsto> lease)" "lok (sx_lease_manager m')"
    "lr_resource_id lease = ''space:'' @ tuid"
    "sx_tuple_tx m' = sx_tuple_tx m @ (if wa_txn_id a = None then [rec] else [])"
    using r gr lok' by simp_all
qed

text \<open>One attempt to take, with other tasks interfering.\<close>

lemma try_take_Some:
  assumes "view (sx_store m) v" "\<forall>(ks0, g) \<in> set races. interference view g"
    "try_take S L races ks template txn m = (Inr (Some r), m')"
  obtains v1 where "races = [] \<Longrightarrow> v1 = v" "sees txn template v1 r" "view (sx_store m') (view_take txn r v1)"
    "sx_tuple_tx m' = sx_tuple_tx m" "sx_lease_manager m' =
      (if txn = None then snd (lg_cancel L (tp_lease_id r) (sx_lease_manager m)) else sx_lease_manager m)"
proof -
  obtain s' where t: "sp_take_match S races ks template txn (sx_store m) = (Inr (Some r), s')"
      "m' = cancel_taken L txn r (m\<lparr>sx_store := s'\<rparr>)"
    using assms(3) by (auto simp: try_take_def split: prod.splits sum.splits option.splits)
  obtain s1 v1 where "view s1 v1" "races = [] \<longrightarrow> s1 = sx_store m \<and> v1 = v" "sees txn template v1 r" "view s' (view_take txn r v1)"
    using sp.take_match_Some[OF assms(1,2) t(1)] by blast
  then show ?thesis using t(2) by (intro that[of v1]) (auto simp: cancel_taken_def)
qed

text \<open>Other tasks between two wake-ups keep the manager well-formed and interfere with a take within the contract.\<close>

definition benign :: "('s, ('s, 'l, 'e) SpaceManager) wakeup list \<Rightarrow> bool" where
  "benign rx \<longleftrightarrow> (\<forall>w \<in> set rx. (\<forall>m. mgr_ok m \<longrightarrow> mgr_ok (wk_others w m)) \<and> (\<forall>(ks0, g) \<in> set (wk_races w). interference view g))"

lemma try_take_mgr_ok:
  assumes "mgr_ok m" "\<forall>(ks0, g) \<in> set races. interference view g" "try_take S L races ks template txn m = (x, m')"
  shows "mgr_ok m'"
proof -
  obtain v where v: "view (sx_store m) v" "lok (sx_lease_manager m)" using assms(1) by (auto simp: mgr_ok_def)
  obtain y s' where t: "sp_take_match S races ks template txn (sx_store m) = (y, s')" by (metis prod.collapse)
  have "\<exists>v'. view s' v'" using sp.take_match_view[OF v(1) assms(2), of ks template txn] t by simp
  moreover have "sx_store m' = s'" "lok (sx_lease_manager m')"
    using assms(3) t v(2) lease.cancel_inv[OF v(2)]
    by (auto simp: try_take_def cancel_taken_def split: sum.splits option.splits)
  ultimately show ?thesis by (simp add: mgr_ok_def)
qed

lemma try_take_taken:
  assumes "mgr_ok m" "\<forall>(ks0, g) \<in> set races. interference view g"
    "try_take S L races ks template txn m = (Inr (Some r), m')"
  shows "\<exists>v1. sees txn template v1 r \<and> view (sx_store m') (view_take txn r v1)"
proof -
  obtain v where "view (sx_store m) v" using assms(1) by (auto simp: mgr_ok_def)
  from try_take_Some[OF this assms(2,3)] show ?thesis by blast
qed

lemma take_wait_taken:
  assumes "mgr_ok m" "benign rx" "take_wait S L template txn rx m = (Some (Some r), m')"
  shows "\<exists>v1. sees txn template v1 r \<and> view (sx_store m') (view_take txn r v1)"
  using assms
proof (induction rx arbitrary: m)
  case Nil
  then show ?case by simp
next
  case (Cons w ws)
  let ?m1 = "wk_others w m"
  have m1: "mgr_ok ?m1" and rc: "\<forall>(ks0, g) \<in> set (wk_races w). interference view g" and ws: "benign ws"
    using Cons.prems(1,2) by (auto simp: benign_def)
  obtain x m2 where t: "try_take S L (wk_races w) (wk_keys w) template txn ?m1 = (x, m2)" by (metis prod.collapse)
  have m2: "mgr_ok m2" by (rule try_take_mgr_ok[OF m1 rc t])
  have hit: "\<exists>v1. sees txn template v1 r \<and> view (sx_store m') (view_take txn r v1)" if "x = Inr (Some r)" "m' = m2"
    using try_take_taken[OF m1 rc] t that by blast
  show ?case
  proof (cases "wk_recv w")
    case (Received tup)
    then show ?thesis
      using Cons.prems(3) t hit Cons.IH[OF m1 ws] Cons.IH[OF m2 ws]
      by (auto simp: Let_def split: if_splits sum.splits option.splits)
  next
    case Closed
    then show ?thesis using Cons.prems(3) by (simp add: Let_def)
  next
    case (Lagged n)
    then show ?thesis
      using Cons.prems(3) t hit Cons.IH[OF m2 ws] by (auto simp: Let_def split: sum.splits option.splits)
  qed
qed

lemma take_taken:
  assumes "mgr_ok m" "\<forall>(ks0, g) \<in> set races. interference view g" "benign rx"
    "SpaceManager_take S L E races ks template wait timeout txn rx m = (Some (Inr (Some r)), m')"
  shows "\<exists>v1. sees txn template v1 r \<and> view (sx_store m') (view_take txn r v1)"
proof -
  obtain u m1 where e: "(case txn of None \<Rightarrow> (Inr (), m) | Some tid \<Rightarrow> ensure_enlisted E tid m) = (Inr u, m1)"
    using assms(4) by (auto simp: SpaceManager_take_def split: prod.splits sum.splits)
  have m1: "mgr_ok m1"
    using assms(1) e by (auto simp: mgr_ok_def split: option.splits dest!: ensure_enlisted_other_fields)
  obtain x m2 where t: "try_take S L races ks template txn m1 = (x, m2)" by (metis prod.collapse)
  have m2: "mgr_ok m2" by (rule try_take_mgr_ok[OF m1 assms(2) t])
  consider "x = Inr (Some r)" "m' = m2" | "x = Inr None" "take_wait S L template txn rx m2 = (Some (Some r), m')"
    using assms(4) e t
    by (auto simp: SpaceManager_take_def after_wait_def split: sum.splits option.splits if_splits prod.splits)
  then show ?thesis
  proof cases
    case 1
    then show ?thesis using try_take_taken[OF m1 assms(2)] t by blast
  next
    case 2
    then show ?thesis using take_wait_taken[OF m2 assms(3)] by blast
  qed
qed

text \<open>A blocked take is woken: by a matching announcement or a lag, when a match is there at that moment.\<close>

lemma take_wait_wakes:
  assumes "view (sx_store (wk_others w m)) v" "visits (wk_keys w) (sx_store (wk_others w m))" "wk_races w = []"
    "wk_recv w = Received tup \<and> matches (parse_template template) (tp_attrs tup) \<or> (\<exists>n. wk_recv w = Lagged n)"
    "sees txn template v r0" "\<And>s t x. \<exists>y s'. sp_take_match S [] (wk_keys w) template txn s = (Inr y, s')"
  shows "\<exists>r m'. take_wait S L template txn (w # ws) m = (Some (Some r), m') \<and> sees txn template v r"
proof -
  let ?m1 = "wk_others w m"
  obtain y s' where y: "sp_take_match S [] (wk_keys w) template txn (sx_store ?m1) = (Inr y, s')" using assms(6) by blast
  obtain r where r: "y = Some r"
    using sp.take_match_None[OF assms(1,2)] y assms(5) by (cases y) auto
  have "sees txn template v r"
    using sp.take_match_Some[OF assms(1), of "[]" "wk_keys w" template txn r s'] y r by auto
  moreover have "\<exists>m'. try_take S L [] (wk_keys w) template txn ?m1 = (Inr (Some r), m')"
    using y r by (simp add: try_take_def)
  ultimately show ?thesis using assms(3,4) by (auto simp: Let_def)
qed

text \<open>The end of a transaction.\<close>

lemma commit_ok:
  assumes "view (sx_store m) v" "lok (sx_lease_manager m)" "commit_space_txn S L t m = (Inr u, m')"
    "\<And>r l. lok l \<Longrightarrow> \<exists>u l'. lg_cancel L r l = (Inr u, l')"
  shows "view (sx_store m') (settle after_commit t v)" "lok (sx_lease_manager m')"
    "live (sx_lease_manager m') lid =
       (if \<exists>k r. (v k = Some (r, Taken t) \<or> v k = Some (r, SelfTaken t)) \<and> tp_lease_id r = lid then None
        else live (sx_lease_manager m) lid)"
    "\<exists>flushed. sx_tuple_tx m' = sx_tuple_tx m @ flushed \<and> distinct flushed \<and>
       (\<forall>r. r \<in> set flushed \<longleftrightarrow> v (tp_tuple_id r) = Some (r, Written t))"
    "fmlookup (sx_enlisted m') t = None" "sx_expiry_tx m' = sx_expiry_tx m"
proof -
  obtain flushed taken s' where c: "sp_commit_txn S t (sx_store m) = (Inr (flushed, taken), s')"
    and m': "m' = m\<lparr>sx_store := s', sx_enlisted := fmdrop t (sx_enlisted m),
        sx_lease_manager := cancel_all L taken (sx_lease_manager m), sx_tuple_tx := sx_tuple_tx m @ flushed\<rparr>"
    using assms(3) by (auto simp: commit_space_txn_def split: prod.splits sum.splits)
  note k = sp.commit_ok[OF assms(1) c]
  note ca = cancel_all_ok[OF assms(2,4), of taken]
  have key: "v k = Some (r, st) \<Longrightarrow> v (tp_tuple_id r) = Some (r, st)" for k r st
    using view_key[OF sp.view_is_ok[OF assms(1)]] by metis
  have "lid \<in> tp_lease_id ` set taken \<longleftrightarrow>
      (\<exists>k r. (v k = Some (r, Taken t) \<or> v k = Some (r, SelfTaken t)) \<and> tp_lease_id r = lid)"
    using k key unfolding image_iff by blast
  then show "live (sx_lease_manager m') lid =
       (if \<exists>k r. (v k = Some (r, Taken t) \<or> v k = Some (r, SelfTaken t)) \<and> tp_lease_id r = lid then None
        else live (sx_lease_manager m) lid)"
    using ca m' by simp
  show "view (sx_store m') (settle after_commit t v)" "lok (sx_lease_manager m')"
    "\<exists>flushed. sx_tuple_tx m' = sx_tuple_tx m @ flushed \<and> distinct flushed \<and>
       (\<forall>r. r \<in> set flushed \<longleftrightarrow> v (tp_tuple_id r) = Some (r, Written t))"
    "fmlookup (sx_enlisted m') t = None" "sx_expiry_tx m' = sx_expiry_tx m"
    using k ca m' by auto
qed

lemma abort_ok:
  assumes "view (sx_store m) v" "lok (sx_lease_manager m)" "abort_space_txn S L t m = (Inr u, m')"
    "\<And>r l. lok l \<Longrightarrow> \<exists>u l'. lg_cancel L r l = (Inr u, l')"
  shows "view (sx_store m') (settle after_abort t v)" "lok (sx_lease_manager m')"
    "live (sx_lease_manager m') lid =
       (if \<exists>k r. (v k = Some (r, Written t) \<or> v k = Some (r, SelfTaken t)) \<and> tp_lease_id r = lid then None
        else live (sx_lease_manager m) lid)"
    "\<exists>restored. sx_tuple_tx m' = sx_tuple_tx m @ restored \<and> distinct restored \<and>
       (\<forall>r. r \<in> set restored \<longleftrightarrow> v (tp_tuple_id r) = Some (r, Taken t))"
    "fmlookup (sx_enlisted m') t = None" "sx_expiry_tx m' = sx_expiry_tx m"
proof -
  obtain discarded restored s' where c: "sp_abort_txn S t (sx_store m) = (Inr (discarded, restored), s')"
    and m': "m' = m\<lparr>sx_store := s', sx_enlisted := fmdrop t (sx_enlisted m),
        sx_lease_manager := cancel_all L discarded (sx_lease_manager m), sx_tuple_tx := sx_tuple_tx m @ restored\<rparr>"
    using assms(3) by (auto simp: abort_space_txn_def split: prod.splits sum.splits)
  note k = sp.abort_ok[OF assms(1) c]
  note ca = cancel_all_ok[OF assms(2,4), of discarded]
  have key: "v k = Some (r, st) \<Longrightarrow> v (tp_tuple_id r) = Some (r, st)" for k r st
    using view_key[OF sp.view_is_ok[OF assms(1)]] by metis
  have "lid \<in> tp_lease_id ` set discarded \<longleftrightarrow>
      (\<exists>k r. (v k = Some (r, Written t) \<or> v k = Some (r, SelfTaken t)) \<and> tp_lease_id r = lid)"
    using k key unfolding image_iff by blast
  then show "live (sx_lease_manager m') lid =
       (if \<exists>k r. (v k = Some (r, Written t) \<or> v k = Some (r, SelfTaken t)) \<and> tp_lease_id r = lid then None
        else live (sx_lease_manager m) lid)"
    using ca m' by simp
  show "view (sx_store m') (settle after_abort t v)" "lok (sx_lease_manager m')"
    "\<exists>restored. sx_tuple_tx m' = sx_tuple_tx m @ restored \<and> distinct restored \<and>
       (\<forall>r. r \<in> set restored \<longleftrightarrow> v (tp_tuple_id r) = Some (r, Taken t))"
    "fmlookup (sx_enlisted m') t = None" "sx_expiry_tx m' = sx_expiry_tx m"
    using k ca m' by auto
qed

lemma expired_ok:
  assumes "view (sx_store m) v" "\<exists>x s'. sp_remove_by_lease S l (sx_store m) = (Inr x, s')"
  shows "if \<exists>k r st. v k = Some (r, st) \<and> tp_lease_id r = l
    then \<exists>k r st. v k = Some (r, st) \<and> tp_lease_id r = l \<and> view (sx_store (on_tuple_expired S l m)) (v(k := None)) \<and>
      sx_expiry_tx (on_tuple_expired S l m) = sx_expiry_tx m @ [r]
    else view (sx_store (on_tuple_expired S l m)) v \<and> sx_expiry_tx (on_tuple_expired S l m) = sx_expiry_tx m"
proof -
  obtain x s' where x: "sp_remove_by_lease S l (sx_store m) = (Inr x, s')" using assms(2) by blast
  note k = sp.remove_by_lease_ok[OF assms(1) x]
  have key: "v k = Some (r, st) \<Longrightarrow> v (tp_tuple_id r) = Some (r, st)" for k r st
    using view_key[OF sp.view_is_ok[OF assms(1)]] by metis
  show ?thesis
  proof (cases x)
    case None
    then have "\<not> (\<exists>k r st. v k = Some (r, st) \<and> tp_lease_id r = l)" using k key by fastforce
    then show ?thesis using k x None by (simp add: on_tuple_expired_def)
  next
    case (Some r)
    then obtain st where r: "v (tp_tuple_id r) = Some (r, st)" "tp_lease_id r = l" using k by blast
    have "view (sx_store (on_tuple_expired S l m)) (v(tp_tuple_id r := None))"
      "sx_expiry_tx (on_tuple_expired S l m) = sx_expiry_tx m @ [r]"
      using k x Some by (simp_all add: on_tuple_expired_def)
    then show ?thesis using r by auto
  qed
qed

end

section \<open>The in-memory Space\<close>

type_synonym 'e mem_space_mgr = "(InMemorySpaceStore, InMemoryLeaseStore LeaseManager, 'e) SpaceManager"

interpretation mem_ss: space_service "mem_leasing c" live_leases "\<lambda>m. lease_keys_ok (lm_store m)"
  InMemorySpaceStore_ops space_rel "\<lambda>ks s. iterates ks (sm_tuples s)" "\<lambda>s. fmlookup (sm_watches s)" watches_ok for c
  by unfold_locales

abbreviation mem_take where
  "mem_take c E \<equiv> SpaceManager_take InMemorySpaceStore_ops (mem_leasing c) E"

abbreviation mem_write where
  "mem_write c E \<equiv> SpaceManager_write InMemorySpaceStore_ops (mem_leasing c) E"

abbreviation space_leases :: "'e mem_space_mgr \<Rightarrow> string \<Rightarrow> LeaseRecord option" where
  "space_leases m \<equiv> live_leases (sx_lease_manager m)"

definition mem_space_ok :: "'e mem_space_mgr \<Rightarrow> bool" where
  "mem_space_ok m \<longleftrightarrow> (\<exists>v. space_rel (sx_store m) v) \<and> lease_keys_ok (lm_store (sx_lease_manager m))"

definition mem_benign :: "(InMemorySpaceStore, 'e mem_space_mgr) wakeup list \<Rightarrow> bool" where
  "mem_benign rx \<longleftrightarrow> (\<forall>w \<in> set rx. (\<forall>m. mem_space_ok m \<longrightarrow> mem_space_ok (wk_others w m)) \<and>
     (\<forall>(ks0, g) \<in> set (wk_races w). interference space_rel g))"

lemma mem_mgr_ok [simp]: "mem_ss.mgr_ok = mem_space_ok"
  by (simp add: fun_eq_iff mem_ss.mgr_ok_def mem_space_ok_def)

lemma mem_ss_benign [simp]: "mem_ss.benign = mem_benign"
  by (simp add: fun_eq_iff mem_ss.benign_def mem_benign_def)

lemma mem_cancel_total: "\<exists>u l'. lg_cancel (mem_leasing c) r l = (Inr u, l')"
  by (cases "fmlookup (leases (lm_store l)) r") (auto simp: Leasing_of_LeaseManager_def lease_defs mem_lease_defs)

lemma mem_commit_total: "\<exists>m'. commit_space_txn InMemorySpaceStore_ops L t m = (Inr (), m')"
  by (simp add: commit_space_txn_def InMemorySpaceStore_ops_def InMemorySpaceStore_commit_txn_def Let_def)

lemma mem_abort_total: "\<exists>m'. abort_space_txn InMemorySpaceStore_ops L t m = (Inr (), m')"
  by (simp add: abort_space_txn_def InMemorySpaceStore_ops_def InMemorySpaceStore_abort_txn_def Let_def)


text \<open>A Space with one visible tuple, for concrete runs.\<close>

definition demo_tuple :: TupleRecord where
  "demo_tuple = \<lparr>tp_tuple_id = ''u1'', tp_attrs = fmupd ''kind'' ''job'' fmempty, tp_payload = [], tp_lease_id = ''l1'',
     tp_written_by = ''w'', tp_written_at = 1000, tp_input_tuple_id = None\<rparr>"

definition demo_view :: "tuple_status \<Rightarrow> space_view" where
  "demo_view st = (\<lambda>_. None)(''u1'' \<mapsto> (demo_tuple, st))"

definition demo_store :: InMemorySpaceStore where
  "demo_store = snd (InMemorySpaceStore_insert demo_tuple InMemorySpaceStore_new)"

definition demo_space :: "unit mem_space_mgr" where
  "demo_space = SpaceManager_new demo_store demo_mgr1 [] [] ()"

lemma demo_store_rel: "space_rel demo_store (demo_view Visible)"
  using space_rel_insert[OF space_rel_new, of demo_tuple]
  by (simp add: demo_store_def demo_view_def unused_def demo_tuple_def)

lemma demo_space_ok: "mem_space_ok demo_space"
  using demo_store_rel by (auto simp: mem_space_ok_def demo_space_def SpaceManager_new_def demo_keys_ok)

definition demo_template :: attrs where
  "demo_template = fmupd ''kind'' ''job'' fmempty"

lemma demo_store_simps [simp]:
  "fmlookup (sm_tuples demo_store) ''u1'' = Some demo_tuple" "buffer (sm_uncommitted demo_store) t = []"
  "sx_store demo_space = demo_store" "tp_tuple_id demo_tuple = ''u1''" "tp_lease_id demo_tuple = ''l1''"
  by (simp_all add: demo_store_def InMemorySpaceStore_insert_def InMemorySpaceStore_new_def demo_tuple_def demo_space_def
      SpaceManager_new_def)

lemma demo_template_hit: "matches (parse_template demo_template) (tp_attrs demo_tuple)"
  by (simp add: matches_iff_lookup parse_template_def parse_op_def strip_prefix_def demo_tuple_def demo_template_def)

lemma demo_candidate: "candidate [''u1''] (parse_template demo_template) demo_store = Some ''u1''"
  by (simp add: candidate_def iter_entries_def List.map_filter_def demo_template_hit)

lemma demo_take:
  "\<exists>m'. mem_take c None [] [''u1''] demo_template wait timeout txn rx demo_space = (Some (Inr (Some demo_tuple)), m')"
  by (cases txn)
     (simp_all add: SpaceManager_take_def ensure_enlisted_def try_take_def InMemorySpaceStore_ops_def Let_def
        InMemorySpaceStore_take_match_def demo_candidate take_remove_def)


text \<open>
  C24: committing a transaction in the Space always succeeds, and afterwards everybody sees exactly what the transaction saw:
  its writes that it did not take are visible, and each is announced once; what it took is gone, and exactly the leases of those tuples are
  cancelled; the holdings of other transactions are untouched.
\<close>

theorem commit_reveals_exactly:
  assumes "space_rel (sx_store m) v" "lease_keys_ok (lm_store (sx_lease_manager m))"
  shows "\<exists>m' v' flushed. commit_space_txn InMemorySpaceStore_ops (mem_leasing c) t m = (Inr (), m') \<and>
    space_rel (sx_store m') v' \<and>
    (\<forall>template r. sees None template v' r \<longleftrightarrow> sees (Some t) template v r) \<and>
    (\<forall>k r st t'. held_by st = Some t' \<longrightarrow> (v' k = Some (r, st) \<longleftrightarrow> v k = Some (r, st) \<and> t' \<noteq> t)) \<and>
    sx_tuple_tx m' = sx_tuple_tx m @ flushed \<and> distinct flushed \<and>
    (\<forall>r. r \<in> set flushed \<longleftrightarrow> v (tp_tuple_id r) = Some (r, Written t)) \<and>
    (\<forall>lid. space_leases m' lid =
       (if \<exists>k r. (v k = Some (r, Taken t) \<or> v k = Some (r, SelfTaken t)) \<and> tp_lease_id r = lid then None
        else space_leases m lid))"
proof -
  obtain m' where m': "commit_space_txn InMemorySpaceStore_ops (mem_leasing c) t m = (Inr (), m')"
    using mem_commit_total by blast
  note k = mem_ss.commit_ok[OF assms m' mem_cancel_total]
  obtain flushed where f: "sx_tuple_tx m' = sx_tuple_tx m @ flushed" "distinct flushed"
    "\<forall>r. r \<in> set flushed \<longleftrightarrow> v (tp_tuple_id r) = Some (r, Written t)" using k(4) by blast
  have "\<forall>template r. sees None template (settle after_commit t v) r \<longleftrightarrow> sees (Some t) template v r"
    unfolding sees_iff by auto
  then show ?thesis
    by (intro exI[of _ m'] exI[of _ "settle after_commit t v"] exI[of _ flushed]) (use m' k f in simp)
qed

text \<open>A view that has taken the visible tuple into transaction \<^verbatim>\<open>t1\<close>.\<close>

lemma demo_taken:
  "\<exists>m. mem_take chrono_std None [] [''u1''] demo_template False 0 (Some ''t1'') [] demo_space = (Some (Inr (Some demo_tuple)), m) \<and>
     space_rel (sx_store m) (demo_view (Taken ''t1'')) \<and> sx_lease_manager m = demo_mgr1 \<and> sx_tuple_tx m = []"
proof -
  let ?s' = "demo_store\<lparr>sm_tuples := fmdrop ''u1'' (sm_tuples demo_store),
      sm_lease_index := fmdrop ''l1'' (sm_lease_index demo_store),
      sm_txn_lease_index := fmupd ''l1'' (''t1'', ''u1'') (sm_txn_lease_index demo_store),
      sm_txn_taken := push ''t1'' demo_tuple (sm_txn_taken demo_store)\<rparr>"
  have "mem_take chrono_std None [] [''u1''] demo_template False 0 (Some ''t1'') [] demo_space =
      (Some (Inr (Some demo_tuple)), demo_space\<lparr>sx_store := ?s'\<rparr>)"
    by (simp add: SpaceManager_take_def ensure_enlisted_def try_take_def InMemorySpaceStore_ops_def Let_def
        InMemorySpaceStore_take_match_def demo_candidate take_remove_def cancel_taken_def)
  moreover have "space_rel ?s' (demo_view (Taken ''t1''))"
    using space_rel_take_visible[OF demo_store_rel, of "''u1''" demo_tuple "''t1''"] by (simp add: demo_view_def)
  ultimately show ?thesis by (auto simp: demo_space_def SpaceManager_new_def)
qed

theorem commit_reveals_exactly_witness:
  "\<exists>m m' v'. mem_take chrono_std None [] [''u1''] demo_template False 0 (Some ''t1'') [] demo_space = (Some (Inr (Some demo_tuple)), m) \<and>
     commit_space_txn InMemorySpaceStore_ops (mem_leasing chrono_std) ''t1'' m = (Inr (), m') \<and>
     space_rel (sx_store m') v' \<and> \<not> sees None demo_template v' demo_tuple \<and> space_leases m' ''l1'' = None"
proof -
  obtain m where m: "mem_take chrono_std None [] [''u1''] demo_template False 0 (Some ''t1'') [] demo_space = (Some (Inr (Some demo_tuple)), m)"
    "space_rel (sx_store m) (demo_view (Taken ''t1''))" "sx_lease_manager m = demo_mgr1" using demo_taken by blast
  have k: "lease_keys_ok (lm_store (sx_lease_manager m))" using m(3) demo_keys_ok by simp
  have s: "\<not> sees (Some ''t1'') demo_template (demo_view (Taken ''t1'')) demo_tuple" by (simp add: sees_iff demo_view_def)
  from commit_reveals_exactly[OF m(2) k, of chrono_std "''t1''"] obtain m' v' where
    "commit_space_txn InMemorySpaceStore_ops (mem_leasing chrono_std) ''t1'' m = (Inr (), m')" "space_rel (sx_store m') v'"
    "\<forall>template r. sees None template v' r \<longleftrightarrow> sees (Some ''t1'') template (demo_view (Taken ''t1'')) r"
    "\<forall>lid. space_leases m' lid = (if \<exists>k r. (demo_view (Taken ''t1'') k = Some (r, Taken ''t1'') \<or>
        demo_view (Taken ''t1'') k = Some (r, SelfTaken ''t1'')) \<and> tp_lease_id r = lid then None else space_leases m lid)"
    by blast
  then show ?thesis using m(1) s by (fastforce simp: demo_view_def)
qed

section \<open>Undoing a transaction\<close>

text \<open>Identifiers not in use, as \<^verbatim>\<open>Uuid::new_v4\<close> yields them.\<close>

definition fresh_ids :: "string \<Rightarrow> string \<Rightarrow> 'e mem_space_mgr \<Rightarrow> bool" where
  "fresh_ids tuid luid m \<longleftrightarrow> space_leases m luid = None \<and>
     (\<forall>v. space_rel (sx_store m) v \<longrightarrow> v tuid = None \<and> (\<forall>k r st. v k = Some (r, st) \<longrightarrow> tp_lease_id r \<noteq> luid))"

text \<open>Any sequence of writes and takes under transaction \<open>t\<close>, whatever each of them returns.\<close>

inductive txn_work :: "chrono \<Rightarrow> 'e TxnEnlister \<Rightarrow> string \<Rightarrow> 'e mem_space_mgr \<Rightarrow> 'e mem_space_mgr \<Rightarrow> bool"
  for c :: chrono and E :: "'e TxnEnlister" and t :: string and m0 :: "'e mem_space_mgr"
where
  start: "txn_work c E t m0 m0"
| do_write: "txn_work c E t m0 m1 \<Longrightarrow> wa_txn_id a = Some t \<Longrightarrow> fresh_ids tuid luid m1 \<Longrightarrow>
    mem_write c E now wat tuid luid a m1 = (x, m2) \<Longrightarrow> txn_work c E t m0 m2"
| do_take: "txn_work c E t m0 m1 \<Longrightarrow> mem_take c E [] ks template False timeout (Some t) [] m1 = (y, m2) \<Longrightarrow> txn_work c E t m0 m2"

lemma settle_abort_write:
  "v k = None \<Longrightarrow> settle after_abort t (v(k \<mapsto> (r, Written t))) = settle after_abort t v"
  by (auto simp: settle_def)

lemma settle_abort_take:
  assumes "sees (Some t) template v r"
  shows "settle after_abort t (view_take (Some t) r v) = settle after_abort t v"
  using assms by (auto simp: settle_def view_take_def sees_iff fun_eq_iff split: option.splits)

lemma settle_none_held:
  assumes "\<And>k r st. v k = Some (r, st) \<Longrightarrow> held_by st \<noteq> Some t"
  shows "settle f t v = v"
  using assms by (auto simp: settle_def fun_eq_iff split: option.splits prod.splits)

lemma mem_write_error:
  assumes "mem_write c E now wat tuid luid a m = (Inl e, m')" "lease_keys_ok (lm_store (sx_lease_manager m))"
    "space_leases m luid = None"
  shows "sx_store m' = sx_store m" "lease_keys_ok (lm_store (sx_lease_manager m'))"
proof -
  obtain x l' where g: "lg_grant (mem_leasing c) now luid (''space:'' @ tuid) (wa_ttl_secs a) (sx_lease_manager m) = (x, l')"
    by (metis prod.collapse)
  have l': "lease_keys_ok (lm_store l')"
    using mem_lease.mgr.grant_inv[OF assms(2,3), of c now "''space:'' @ tuid" "wa_ttl_secs a"] g by simp
  have "sx_store m' = sx_store m \<and> sx_lease_manager m' = l'"
  proof (cases x)
    case (Inl er)
    then show ?thesis using assms(1) g by (auto simp: SpaceManager_write_def)
  next
    case (Inr lease)
    show ?thesis
    proof (cases "wa_txn_id a")
      case None
      then show ?thesis using assms(1) g Inr
        by (simp add: SpaceManager_write_def Let_def InMemorySpaceStore_ops_def InMemorySpaceStore_insert_def)
    next
      case (Some t)
      obtain y m2 where e: "ensure_enlisted E t (m\<lparr>sx_lease_manager := l'\<rparr>) = (y, m2)" by (metis prod.collapse)
      then show ?thesis using assms(1) g Inr Some ensure_enlisted_other_fields[OF e]
        by (cases y) (auto simp: SpaceManager_write_def Let_def InMemorySpaceStore_ops_def
            InMemorySpaceStore_insert_uncommitted_def)
    qed
  qed
  then show "sx_store m' = sx_store m" "lease_keys_ok (lm_store (sx_lease_manager m'))" using l' by simp_all
qed

lemma mem_take_match_Inr: "\<exists>y s'. sp_take_match InMemorySpaceStore_ops races ks template txn s = (Inr y, s')"
  by (cases "InMemorySpaceStore_take_match races ks template txn s")
     (auto simp: InMemorySpaceStore_ops_def InMemorySpaceStore_take_match_def Let_def split: prod.splits option.splits)

lemma mem_take_None_same:
  assumes "InMemorySpaceStore_take_match [] ks template txn s = (Inr None, s')"
  shows "s' = s"
  using assms by (auto simp: InMemorySpaceStore_take_match_def Let_def split: prod.splits option.splits if_splits)

lemma txn_take_cases:
  assumes "space_rel (sx_store m) v" "mem_take c E [] ks template False timeout (Some t) [] m = (y, m')"
  shows "(sx_store m' = sx_store m \<or> (\<exists>r. sees (Some t) template v r \<and> space_rel (sx_store m') (view_take (Some t) r v))) \<and>
    sx_lease_manager m' = sx_lease_manager m"
proof -
  obtain x m1 where e: "ensure_enlisted E t m = (x, m1)" by (metis prod.collapse)
  note m1 = ensure_enlisted_other_fields[OF e]
  obtain z s' where tm: "sp_take_match InMemorySpaceStore_ops [] ks template (Some t) (sx_store m) = (Inr z, s')"
    using mem_take_match_Inr by blast
  show ?thesis
  proof (cases x)
    case (Inl er)
    then show ?thesis using assms(2) e m1 by (auto simp: SpaceManager_take_def)
  next
    case (Inr u)
    show ?thesis
    proof (cases z)
      case None
      then have "s' = sx_store m" using mem_take_None_same[of ks template "Some t" "sx_store m" s'] tm
        by (simp add: InMemorySpaceStore_ops_def)
      then show ?thesis using assms(2) e m1 Inr None tm by (auto simp: SpaceManager_take_def try_take_def)
    next
      case (Some r)
      have "sees (Some t) template v r \<and> space_rel s' (view_take (Some t) r v)"
        using mem_space.take_match_Some[OF assms(1), of "[]" ks template "Some t" r s'] tm Some by auto
      then show ?thesis using assms(2) e m1 Inr Some tm by (auto simp: SpaceManager_take_def try_take_def cancel_taken_def)
    qed
  qed
qed

lemma txn_work_view:
  assumes "txn_work c E t m m1" "space_rel (sx_store m) v" "lease_keys_ok (lm_store (sx_lease_manager m))"
  shows "\<exists>v1. space_rel (sx_store m1) v1 \<and> settle after_abort t v1 = settle after_abort t v \<and>
    lease_keys_ok (lm_store (sx_lease_manager m1))"
  using assms(1)
proof (induction rule: txn_work.induct)
  case start
  then show ?case using assms(2,3) by blast
next
  case (do_write m1 a tuid luid now wat x m2)
  then obtain v1 where v1: "space_rel (sx_store m1) v1" "settle after_abort t v1 = settle after_abort t v"
    "lease_keys_ok (lm_store (sx_lease_manager m1))" by blast
  have fr: "space_leases m1 luid = None" "v1 tuid = None" "\<forall>k r st. v1 k = Some (r, st) \<longrightarrow> tp_lease_id r \<noteq> luid"
    using do_write.hyps(3) v1(1) unfolding fresh_ids_def by blast+
  show ?case
  proof (cases x)
    case (Inl e)
    then show ?thesis using mem_write_error[of c E now wat tuid luid a m1 e m2] do_write.hyps(4) v1 fr by auto
  next
    case (Inr p)
    obtain rec lease where p: "p = (rec, lease)" by (cases p)
    note w = mem_ss.write_ok[OF v1(1) v1(3) fr, of c E now wat a rec lease m2]
    have "space_rel (sx_store m2) (v1(tuid \<mapsto> (rec, Written t)))" "lease_keys_ok (lm_store (sx_lease_manager m2))"
      using w(1,7) do_write.hyps(2,4) Inr p by simp_all
    then show ?thesis using v1(2) settle_abort_write[of v1 tuid t rec] fr(2) by auto
  qed
next
  case (do_take m1 ks template timeout y m2)
  then obtain v1 where v1: "space_rel (sx_store m1) v1" "settle after_abort t v1 = settle after_abort t v"
    "lease_keys_ok (lm_store (sx_lease_manager m1))" by blast
  from txn_take_cases[OF v1(1) do_take.hyps(2)]
  consider "sx_store m2 = sx_store m1" "sx_lease_manager m2 = sx_lease_manager m1"
    | r where "sees (Some t) template v1 r" "space_rel (sx_store m2) (view_take (Some t) r v1)"
      "sx_lease_manager m2 = sx_lease_manager m1" by blast
  then show ?case
  proof cases
    case 1
    then show ?thesis using v1 by auto
  next
    case (2 r)
    then show ?thesis using v1 settle_abort_take[OF 2(1)] by auto
  qed
qed

text \<open>
  C5: abort undoes a transaction. After any sequence of writes and takes under a transaction that held nothing
  before, whatever each of them returned, aborting it succeeds and leaves the Space with exactly the tuples, visible and held by
  others, that it had at the start.
\<close>

theorem abort_undoes_everything:
  assumes "space_rel (sx_store m) v" "lease_keys_ok (lm_store (sx_lease_manager m))"
    "\<forall>k r st. v k = Some (r, st) \<longrightarrow> held_by st \<noteq> Some t" "txn_work c E t m m1"
  shows "\<exists>m2. abort_space_txn InMemorySpaceStore_ops (mem_leasing c) t m1 = (Inr (), m2) \<and> space_rel (sx_store m2) v"
proof -
  obtain v1 where v1: "space_rel (sx_store m1) v1" "settle after_abort t v1 = settle after_abort t v"
    "lease_keys_ok (lm_store (sx_lease_manager m1))" using txn_work_view[OF assms(4,1,2)] by blast
  obtain m2 where m2: "abort_space_txn InMemorySpaceStore_ops (mem_leasing c) t m1 = (Inr (), m2)" using mem_abort_total by blast
  have "space_rel (sx_store m2) (settle after_abort t v1)"
    by (rule mem_ss.abort_ok(1)[OF v1(1,3) m2 mem_cancel_total])
  then show ?thesis using m2 v1(2) settle_none_held[of v t after_abort] assms(3) by auto
qed

theorem abort_undoes_everything_witness:
  "\<exists>m1 m2. mem_take chrono_std None [] [''u1''] demo_template False 0 (Some ''t1'') [] demo_space
       = (Some (Inr (Some demo_tuple)), m1) \<and>
     abort_space_txn InMemorySpaceStore_ops (mem_leasing chrono_std) ''t1'' m1 = (Inr (), m2) \<and>
     space_rel (sx_store m2) (demo_view Visible)"
proof -
  obtain m1 where m1: "mem_take chrono_std None [] [''u1''] demo_template False 0 (Some ''t1'') [] demo_space
       = (Some (Inr (Some demo_tuple)), m1)" using demo_taken by blast
  have w: "txn_work chrono_std None ''t1'' demo_space m1" using txn_work.do_take[OF txn_work.start m1] .
  have r: "space_rel (sx_store demo_space) (demo_view Visible)" using demo_store_rel by simp
  have l: "lease_keys_ok (lm_store (sx_lease_manager demo_space))"
    using demo_keys_ok by (simp add: demo_space_def SpaceManager_new_def)
  have "\<forall>k r st. demo_view Visible k = Some (r, st) \<longrightarrow> held_by st \<noteq> Some ''t1''" by (auto simp: demo_view_def)
  from abort_undoes_everything[OF r l this w] m1 show ?thesis by blast
qed

section \<open>Expiry, waiting and voting\<close>

text \<open>
  C25: when the lease of a tuple is reclaimed, that tuple and no other disappears, wherever it is: visible, written or taken under a
  transaction. It is announced once as expired, and neither a commit nor an abort of the transaction that held it
  brings it back. A reclaimed lease that no tuple has changes nothing.
\<close>

theorem expired_tuple_is_gone:
  assumes "space_rel (sx_store m) v" "lease_keys_ok (lm_store (sx_lease_manager m))"
    "starts_with (lr_resource_id (rc_record ev)) ''space:''"
  shows "\<exists>v'. space_rel (sx_store (space_cascade InMemorySpaceStore_ops ev m)) v' \<and>
    (\<forall>k. v' k = (case v k of Some (r, st) \<Rightarrow> if tp_lease_id r = lr_lease_id (rc_record ev) then None else Some (r, st) | None \<Rightarrow> None)) \<and>
    (\<exists>out. sx_expiry_tx (space_cascade InMemorySpaceStore_ops ev m) = sx_expiry_tx m @ out \<and> length out \<le> 1 \<and>
       set out = {r. \<exists>k st. v k = Some (r, st) \<and> tp_lease_id r = lr_lease_id (rc_record ev)}) \<and>
    (\<forall>k f t r st. v k = Some (r, st) \<longrightarrow> tp_lease_id r = lr_lease_id (rc_record ev) \<longrightarrow> settle f t v' k = None)"
proof -
  let ?l = "lr_lease_id (rc_record ev)"
  have c: "space_cascade InMemorySpaceStore_ops ev m = on_tuple_expired InMemorySpaceStore_ops ?l m"
    using assms(3) by (simp add: space_cascade_def Let_def)
  have tot: "\<exists>x s'. sp_remove_by_lease InMemorySpaceStore_ops ?l (sx_store m) = (Inr x, s')"
    by (auto simp: InMemorySpaceStore_ops_def InMemorySpaceStore_remove_by_lease_def Let_def split: option.splits prod.splits)
  note e = mem_ss.expired_ok[OF assms(1) tot]
  note vl = view_lease[OF space_rel_view[OF assms(1)]]
  show ?thesis
  proof (cases "\<exists>k r st. v k = Some (r, st) \<and> tp_lease_id r = ?l")
    case True
    then obtain k r st where k: "v k = Some (r, st)" "tp_lease_id r = ?l"
      "space_rel (sx_store (on_tuple_expired InMemorySpaceStore_ops ?l m)) (v(k := None))"
      "sx_expiry_tx (on_tuple_expired InMemorySpaceStore_ops ?l m) = sx_expiry_tx m @ [r]"
      using e by auto
    have only: "v k' = Some (r', st') \<Longrightarrow> tp_lease_id r' = ?l \<Longrightarrow> k' = k" for k' r' st'
      using vl[OF k(1)] k(2) by simp
    have a: "(v(k := None)) k' = (case v k' of Some (r, st) \<Rightarrow> if tp_lease_id r = ?l then None else Some (r, st) | None \<Rightarrow> None)" for k'
    proof (cases "k' = k")
      case True
      then show ?thesis using k(1,2) by simp
    next
      case ne: False
      then show ?thesis using only[of k'] by (cases "v k'") auto
    qed
    have b: "set [r] = {r. \<exists>k st. v k = Some (r, st) \<and> tp_lease_id r = ?l}"
    proof -
      have "r' = r" if "v k' = Some (r', st')" "tp_lease_id r' = ?l" for k' r' st'
        using only[OF that] that(1) k(1) by simp
      then show ?thesis using k(1,2) unfolding list.set by blast
    qed
    have d: "settle f t (v(k := None)) k' = None" if "v k' = Some (r', st')" "tp_lease_id r' = ?l" for f t k' r' st'
      using only[OF that] by (simp add: settle_def)
    have out: "\<exists>out. sx_expiry_tx (on_tuple_expired InMemorySpaceStore_ops ?l m) = sx_expiry_tx m @ out \<and> length out \<le> 1 \<and>
        set out = {r. \<exists>k st. v k = Some (r, st) \<and> tp_lease_id r = ?l}"
      by (rule exI[of _ "[r]"], intro conjI, rule k(4), simp, rule b)
    show ?thesis unfolding c using k(3) a out d by blast
  next
    case False
    then have "space_rel (sx_store (on_tuple_expired InMemorySpaceStore_ops ?l m)) v"
      "sx_expiry_tx (on_tuple_expired InMemorySpaceStore_ops ?l m) = sx_expiry_tx m" using e by auto
    then show ?thesis unfolding c using False
      by (intro exI[of _ v]) (auto split: option.splits)
  qed
qed

theorem expired_tuple_is_gone_witness:
  "\<exists>v'. space_rel (sx_store (space_cascade InMemorySpaceStore_ops
       \<lparr>rc_record = demo_lease\<lparr>lr_resource_id := ''space:u1''\<rparr>, rc_reason = Expired\<rparr> demo_space)) v' \<and> v' ''u1'' = None"
proof -
  let ?ev = "\<lparr>rc_record = demo_lease\<lparr>lr_resource_id := ''space:u1''\<rparr>, rc_reason = Expired\<rparr>"
  have r: "space_rel (sx_store demo_space) (demo_view Visible)" using demo_store_rel by simp
  have l: "lease_keys_ok (lm_store (sx_lease_manager demo_space))"
    using demo_keys_ok by (simp add: demo_space_def SpaceManager_new_def)
  have "starts_with (lr_resource_id (rc_record ?ev)) ''space:''" by simp
  from expired_tuple_is_gone[OF r l this] obtain v' where
    "space_rel (sx_store (space_cascade InMemorySpaceStore_ops ?ev demo_space)) v'"
    "\<forall>k. v' k = (case demo_view Visible k of Some (r, st) \<Rightarrow> if tp_lease_id r = lr_lease_id (rc_record ?ev) then None else Some (r, st) | None \<Rightarrow> None)"
    by blast
  then show ?thesis by (auto simp: demo_view_def demo_lease_def)
qed



text \<open>
  A blocked take under a transaction that is aborted meanwhile still takes the next match under it: the tuple is then held by a
  transaction that has ended, so nobody sees it and no commit or abort will follow.
\<close>

lemma blocked_take_outlives_abort:
  fixes m0 :: "unit mem_space_mgr"
  defines "w \<equiv> \<lparr>wk_recv = Received demo_tuple,
     wk_others = (\<lambda>m. (snd (abort_space_txn InMemorySpaceStore_ops (mem_leasing chrono_std) ''t1'' m))\<lparr>sx_store := demo_store\<rparr>),
     wk_races = [], wk_keys = [''u1'']\<rparr>"
  shows "\<exists>m'. take_wait InMemorySpaceStore_ops (mem_leasing chrono_std) demo_template (Some ''t1'') [w] m0 = (Some (Some demo_tuple), m') \<and>
    space_rel (sx_store m') (demo_view (Taken ''t1''))"
proof -
  let ?s' = "demo_store\<lparr>sm_tuples := fmdrop ''u1'' (sm_tuples demo_store),
      sm_lease_index := fmdrop ''l1'' (sm_lease_index demo_store),
      sm_txn_lease_index := fmupd ''l1'' (''t1'', ''u1'') (sm_txn_lease_index demo_store),
      sm_txn_taken := push ''t1'' demo_tuple (sm_txn_taken demo_store)\<rparr>"
  have "space_rel ?s' (demo_view (Taken ''t1''))"
    using space_rel_take_visible[OF demo_store_rel, of "''u1''" demo_tuple "''t1''"] by (simp add: demo_view_def)
  then show ?thesis
    by (simp add: w_def Let_def demo_template_hit try_take_def InMemorySpaceStore_ops_def
        InMemorySpaceStore_take_match_def demo_candidate take_remove_def cancel_taken_def)
qed

end
