(* ===== verification/Event_Store.thy ===== *)
theory Event_Store
  imports Prelude
begin

text \<open>
  Events, subscriptions and their store: the types and the \<^verbatim>\<open>EventStore\<close> trait of \<^verbatim>\<open>coordin8-core/src/event.rs\<close> as a
  record of operations with its contract, and the in-memory store of \<^verbatim>\<open>providers/local/src/event_store.rs\<close> with its
  mailboxes, shown to keep that contract. A \<^verbatim>\<open>BTreeMap\<close> from sequence numbers to events is the list of its entries in
  ascending order of their keys.
\<close>

section \<open>Events, subscriptions and the store interface\<close>

record EventRecord =
  ev_event_id :: string
  ev_source :: string
  ev_event_type :: string
  ev_seq_num :: u64
  ev_attrs :: attrs
  ev_payload :: bytes
  ev_emitted_at :: time

datatype DeliveryMode = Durable | BestEffort

record SubscriptionRecord =
  sb_registration_id :: string
  sb_source :: string
  sb_template :: attrs
  sb_delivery :: DeliveryMode
  sb_lease_id :: string
  sb_handback :: bytes
  sb_initial_seq_num :: u64

text \<open>Operations that iterate over the subscriptions take the order in which they are visited.\<close>

record 's EventStore =
  es_create_subscription :: "SubscriptionRecord \<Rightarrow> 's \<Rightarrow> unit result \<times> 's"
  es_get_subscription :: "string \<Rightarrow> 's \<Rightarrow> SubscriptionRecord option result"
  es_remove_subscription :: "string \<Rightarrow> 's \<Rightarrow> unit result \<times> 's"
  es_remove_by_lease :: "string list \<Rightarrow> string \<Rightarrow> 's \<Rightarrow> SubscriptionRecord option result \<times> 's"
  es_list_subscriptions :: "string list \<Rightarrow> 's \<Rightarrow> SubscriptionRecord list result"
  es_enqueue :: "string \<Rightarrow> EventRecord \<Rightarrow> 's \<Rightarrow> u64 result \<times> 's"
  es_peek :: "string \<Rightarrow> u64 \<Rightarrow> nat \<Rightarrow> 's \<Rightarrow> EventRecord list result"
  es_ack :: "string \<Rightarrow> u64 list \<Rightarrow> 's \<Rightarrow> unit result \<times> 's"

section \<open>The in-memory store\<close>

text \<open>\<^verbatim>\<open>BTreeMap::insert\<close>, \<^verbatim>\<open>BTreeMap::remove\<close> and the range above a key.\<close>

fun btree_insert :: "u64 \<Rightarrow> 'v \<Rightarrow> (u64 \<times> 'v) list \<Rightarrow> (u64 \<times> 'v) list" where
  "btree_insert k v [] = [(k, v)]"
| "btree_insert k v ((k', v') # rest) =
     (if k < k' then (k, v) # (k', v') # rest
      else if k = k' then (k, v) # rest
      else (k', v') # btree_insert k v rest)"

definition btree_remove :: "u64 \<Rightarrow> (u64 \<times> 'v) list \<Rightarrow> (u64 \<times> 'v) list" where
  "btree_remove k m = filter (\<lambda>(k', v). k' \<noteq> k) m"

definition btree_above :: "u64 \<Rightarrow> (u64 \<times> 'v) list \<Rightarrow> (u64 \<times> 'v) list" where
  "btree_above k m = dropWhile (\<lambda>(k', v). k' \<le> k) m"

record Mailbox =
  mb_last_seq :: u64
  mb_entries :: "(u64 \<times> EventRecord) list"

definition Mailbox_default :: Mailbox where
  "Mailbox_default = \<lparr>mb_last_seq = 0, mb_entries = []\<rparr>"

record InMemoryEventStore =
  evm_subscriptions :: "SubscriptionRecord dashmap"
  evm_mailboxes :: "Mailbox dashmap"

definition InMemoryEventStore_new :: InMemoryEventStore where
  "InMemoryEventStore_new = \<lparr>evm_subscriptions = fmempty, evm_mailboxes = fmempty\<rparr>"

definition InMemoryEventStore_create_subscription ::
  "SubscriptionRecord \<Rightarrow> InMemoryEventStore \<Rightarrow> unit result \<times> InMemoryEventStore"
where
  "InMemoryEventStore_create_subscription sub s =
     (Inr (), s\<lparr>evm_subscriptions := fmupd (sb_registration_id sub) sub (evm_subscriptions s),
                evm_mailboxes := fmupd (sb_registration_id sub) Mailbox_default (evm_mailboxes s)\<rparr>)"

definition InMemoryEventStore_get_subscription :: "string \<Rightarrow> InMemoryEventStore \<Rightarrow> SubscriptionRecord option result" where
  "InMemoryEventStore_get_subscription registration_id s = Inr (fmlookup (evm_subscriptions s) registration_id)"

definition InMemoryEventStore_remove_subscription :: "string \<Rightarrow> InMemoryEventStore \<Rightarrow> unit result \<times> InMemoryEventStore" where
  "InMemoryEventStore_remove_subscription registration_id s =
     (Inr (), s\<lparr>evm_subscriptions := fmdrop registration_id (evm_subscriptions s),
                evm_mailboxes := fmdrop registration_id (evm_mailboxes s)\<rparr>)"

definition InMemoryEventStore_remove_by_lease ::
  "string list \<Rightarrow> string \<Rightarrow> InMemoryEventStore \<Rightarrow> SubscriptionRecord option result \<times> InMemoryEventStore"
where
  "InMemoryEventStore_remove_by_lease ks lease_id s =
     (case map_option fst (List.find (\<lambda>(k, sub). sb_lease_id sub = lease_id) (iter_entries ks (evm_subscriptions s))) of
        Some reg_id \<Rightarrow>
          (Inr (fmlookup (evm_subscriptions s) reg_id),
           s\<lparr>evm_subscriptions := fmdrop reg_id (evm_subscriptions s), evm_mailboxes := fmdrop reg_id (evm_mailboxes s)\<rparr>)
      | None \<Rightarrow> (Inr None, s))"

definition InMemoryEventStore_list_subscriptions :: "string list \<Rightarrow> InMemoryEventStore \<Rightarrow> SubscriptionRecord list result" where
  "InMemoryEventStore_list_subscriptions ks s = Inr (iter_values ks (evm_subscriptions s))"

definition InMemoryEventStore_enqueue :: "string \<Rightarrow> EventRecord \<Rightarrow> InMemoryEventStore \<Rightarrow> u64 result \<times> InMemoryEventStore" where
  "InMemoryEventStore_enqueue registration_id event s =
     (case fmlookup (evm_mailboxes s) registration_id of
        Some mailbox \<Rightarrow>
          let seq = mb_last_seq mailbox + 1 in
          (Inr seq,
           s\<lparr>evm_mailboxes := fmupd registration_id
               \<lparr>mb_last_seq = seq, mb_entries = btree_insert seq (event\<lparr>ev_seq_num := seq\<rparr>) (mb_entries mailbox)\<rparr>
               (evm_mailboxes s)\<rparr>)
      | None \<Rightarrow> (Inl (SubscriptionNotFound registration_id), s))"

definition InMemoryEventStore_peek :: "string \<Rightarrow> u64 \<Rightarrow> nat \<Rightarrow> InMemoryEventStore \<Rightarrow> EventRecord list result" where
  "InMemoryEventStore_peek registration_id after_seq limit s =
     Inr (case fmlookup (evm_mailboxes s) registration_id of
            Some mailbox \<Rightarrow> map snd (take limit (btree_above after_seq (mb_entries mailbox)))
          | None \<Rightarrow> [])"

definition InMemoryEventStore_ack :: "string \<Rightarrow> u64 list \<Rightarrow> InMemoryEventStore \<Rightarrow> unit result \<times> InMemoryEventStore" where
  "InMemoryEventStore_ack registration_id seq_nums s =
     (Inr (), case fmlookup (evm_mailboxes s) registration_id of
                Some mailbox \<Rightarrow>
                  s\<lparr>evm_mailboxes := fmupd registration_id
                      (mailbox\<lparr>mb_entries := fold btree_remove seq_nums (mb_entries mailbox)\<rparr>) (evm_mailboxes s)\<rparr>
              | None \<Rightarrow> s)"

definition InMemoryEventStore_ops :: "InMemoryEventStore EventStore" where
  "InMemoryEventStore_ops = \<lparr>
     es_create_subscription = InMemoryEventStore_create_subscription,
     es_get_subscription = InMemoryEventStore_get_subscription,
     es_remove_subscription = InMemoryEventStore_remove_subscription,
     es_remove_by_lease = InMemoryEventStore_remove_by_lease,
     es_list_subscriptions = InMemoryEventStore_list_subscriptions,
     es_enqueue = InMemoryEventStore_enqueue, es_peek = InMemoryEventStore_peek, es_ack = InMemoryEventStore_ack\<rparr>"

section \<open>The contract\<close>

text \<open>
  A store as its users see it: the subscriptions, and for each the last sequence number given out and the queued
  events, oldest first.
\<close>

type_synonym mailbox_view = "u64 \<times> EventRecord list"

definition mailbox_ok :: "mailbox_view \<Rightarrow> bool" where
  "mailbox_ok mb \<longleftrightarrow> sorted_wrt (<) (map ev_seq_num (snd mb)) \<and> (\<forall>e \<in> set (snd mb). 0 < ev_seq_num e \<and> ev_seq_num e \<le> fst mb)"

locale event_store =
  fixes S :: "'s EventStore"
    and subs :: "'s \<Rightarrow> string \<Rightarrow> SubscriptionRecord option"
    and mail :: "'s \<Rightarrow> string \<Rightarrow> mailbox_view option"
    and eok :: "'s \<Rightarrow> bool"
    and evisits :: "string list \<Rightarrow> 's \<Rightarrow> bool"
  assumes subs_key: "eok s \<Longrightarrow> subs s k = Some sub \<Longrightarrow> sb_registration_id sub = k"
    and mail_ok: "eok s \<Longrightarrow> mail s k = Some mb \<Longrightarrow> mailbox_ok mb"
    and mail_subs: "eok s \<Longrightarrow> mail s k = None \<longleftrightarrow> subs s k = None"
    and create_ok: "eok s \<Longrightarrow> subs s (sb_registration_id sub) = None \<Longrightarrow> es_create_subscription S sub s = (Inr u, s') \<Longrightarrow>
          eok s' \<and> subs s' = (subs s)(sb_registration_id sub \<mapsto> sub) \<and> mail s' = (mail s)(sb_registration_id sub \<mapsto> (0, []))"
    and get_ok: "eok s \<Longrightarrow> es_get_subscription S k s = Inr x \<Longrightarrow> x = subs s k"
    and remove_ok: "eok s \<Longrightarrow> es_remove_subscription S k s = (Inr u, s') \<Longrightarrow>
          eok s' \<and> subs s' = (subs s)(k := None) \<and> mail s' = (mail s)(k := None)"
    and remove_by_lease_None: "eok s \<Longrightarrow> evisits ks s \<Longrightarrow> es_remove_by_lease S ks l s = (Inr None, s') \<Longrightarrow>
          eok s' \<and> subs s' = subs s \<and> mail s' = mail s \<and> (\<forall>k sub. subs s k = Some sub \<longrightarrow> sb_lease_id sub \<noteq> l)"
    and remove_by_lease_Some: "eok s \<Longrightarrow> es_remove_by_lease S ks l s = (Inr (Some sub), s') \<Longrightarrow>
          eok s' \<and> sb_lease_id sub = l \<and> subs s (sb_registration_id sub) = Some sub \<and>
          subs s' = (subs s)(sb_registration_id sub := None) \<and> mail s' = (mail s)(sb_registration_id sub := None)"
    and list_ok: "eok s \<Longrightarrow> evisits ks s \<Longrightarrow> es_list_subscriptions S ks s = Inr xs \<Longrightarrow>
          distinct (map sb_registration_id xs) \<and> (\<forall>sub. sub \<in> set xs \<longleftrightarrow> subs s (sb_registration_id sub) = Some sub)"
    and enqueue_ok: "eok s \<Longrightarrow> mail s k = Some (lst, es) \<Longrightarrow> lst < - 1 \<Longrightarrow> es_enqueue S k e s = (Inr n, s') \<Longrightarrow>
          eok s' \<and> n = lst + 1 \<and> subs s' = subs s \<and> mail s' = (mail s)(k \<mapsto> (n, es @ [e\<lparr>ev_seq_num := n\<rparr>]))"
    and enqueue_not_found: "eok s \<Longrightarrow> es_enqueue S k e s = (Inl (SubscriptionNotFound nf), s') \<Longrightarrow> mail s k = None"
    and enqueue_missing: "eok s \<Longrightarrow> mail s k = None \<Longrightarrow> es_enqueue S k e s = (res, s') \<Longrightarrow>
          (\<exists>er. res = Inl er) \<and> eok s' \<and> subs s' = subs s \<and> mail s' = mail s"
    and peek_ok: "eok s \<Longrightarrow> es_peek S k aft limit s = Inr es \<Longrightarrow>
          es = take limit (filter (\<lambda>e. aft < ev_seq_num e) (case mail s k of None \<Rightarrow> [] | Some mb \<Rightarrow> snd mb))"
    and ack_ok: "eok s \<Longrightarrow> es_ack S k ns s = (Inr u, s') \<Longrightarrow>
          eok s' \<and> subs s' = subs s \<and>
          mail s' = (mail s)(k := map_option (map_prod id (filter (\<lambda>e. ev_seq_num e \<notin> set ns))) (mail s k))"
    and ack_failed: "eok s \<Longrightarrow> es_ack S k ns s = (Inl er, s') \<Longrightarrow>
          eok s' \<and> subs s' = subs s \<and> (\<exists>D \<subseteq> set ns.
          mail s' = (mail s)(k := map_option (map_prod id (filter (\<lambda>e. ev_seq_num e \<notin> D))) (mail s k)))"

section \<open>The in-memory store keeps it\<close>

named_theorems mem_event_defs \<open>operations of the in-memory event store\<close>

declare InMemoryEventStore_new_def [mem_event_defs] InMemoryEventStore_create_subscription_def [mem_event_defs]
  InMemoryEventStore_get_subscription_def [mem_event_defs] InMemoryEventStore_remove_subscription_def [mem_event_defs]
  InMemoryEventStore_remove_by_lease_def [mem_event_defs] InMemoryEventStore_list_subscriptions_def [mem_event_defs]
  InMemoryEventStore_enqueue_def [mem_event_defs] InMemoryEventStore_peek_def [mem_event_defs]
  InMemoryEventStore_ack_def [mem_event_defs] InMemoryEventStore_ops_def [mem_event_defs]

definition btree_ok :: "Mailbox \<Rightarrow> bool" where
  "btree_ok mb \<longleftrightarrow> sorted_wrt (<) (map fst (mb_entries mb)) \<and>
     (\<forall>(k, e) \<in> set (mb_entries mb). ev_seq_num e = k \<and> 0 < k \<and> k \<le> mb_last_seq mb)"

definition mailbox_abs :: "Mailbox \<Rightarrow> mailbox_view" where
  "mailbox_abs mb = (mb_last_seq mb, map snd (mb_entries mb))"

definition event_store_ok :: "InMemoryEventStore \<Rightarrow> bool" where
  "event_store_ok s \<longleftrightarrow>
     (\<forall>k sub. fmlookup (evm_subscriptions s) k = Some sub \<longrightarrow> sb_registration_id sub = k) \<and>
     (\<forall>k mb. fmlookup (evm_mailboxes s) k = Some mb \<longrightarrow> btree_ok mb) \<and>
     (\<forall>k. fmlookup (evm_mailboxes s) k = None \<longleftrightarrow> fmlookup (evm_subscriptions s) k = None)"

lemma btree_ok_seqs: "btree_ok mb \<Longrightarrow> map ev_seq_num (map snd (mb_entries mb)) = map fst (mb_entries mb)"
  by (auto simp: btree_ok_def)

lemma mailbox_abs_ok: "btree_ok mb \<Longrightarrow> mailbox_ok (mailbox_abs mb)"
  using btree_ok_seqs[of mb] unfolding mailbox_ok_def mailbox_abs_def fst_conv snd_conv
  by (simp only:) (auto simp: btree_ok_def)

lemma btree_insert_last: "\<forall>k' \<in> set (map fst m). k' < k \<Longrightarrow> btree_insert k v m = m @ [(k, v)]"
  by (induction k v m rule: btree_insert.induct) auto

lemma btree_above_filter: "sorted_wrt (<) (map fst m) \<Longrightarrow> btree_above k m = filter (\<lambda>(k', v). k < k') m"
proof (induction m)
  case Nil
  then show ?case by (simp add: btree_above_def)
next
  case (Cons x m)
  show ?case
  proof (cases "fst x \<le> k")
    case True
    then show ?thesis using Cons by (auto simp: btree_above_def case_prod_unfold)
  next
    case False
    then have "\<forall>y \<in> set m. k < fst y" using Cons.prems by (auto intro: less_trans)
    then have "filter (\<lambda>(k', v). k < k') m = m" by (auto simp: case_prod_unfold filter_id_conv)
    then show ?thesis using False by (auto simp: btree_above_def case_prod_unfold)
  qed
qed

lemma fold_btree_remove: "fold btree_remove ks m = filter (\<lambda>(k, v). k \<notin> set ks) m"
  by (induction ks arbitrary: m) (auto simp: btree_remove_def case_prod_unfold intro!: filter_cong)

lemma word_succ_gt: "(w :: u64) < - 1 \<Longrightarrow> w < w + 1"
proof -
  assume "w < - 1"
  then have "w + 1 \<noteq> 0" by (metis add_eq_0_iff2 less_irrefl)
  then have "uint (w + 1) \<noteq> 0" by (simp add: unsigned_eq_0_iff)
  moreover have "uint (w + 1) = (uint w + 1) mod 2 ^ 64" by (simp add: uint_word_ariths)
  moreover have "uint w < 2 ^ 64" "0 \<le> uint w" using uint_bounded[of w] by simp_all
  ultimately have "uint (w + 1) = uint w + 1" by (cases "uint w + 1 = 2 ^ 64") (simp_all add: mod_pos_pos_trivial)
  then show ?thesis by (simp add: word_less_def)
qed

lemma btree_ok_enqueue:
  assumes "btree_ok mb" "mb_last_seq mb < - 1"
  shows "btree_insert (mb_last_seq mb + 1) e (mb_entries mb) = mb_entries mb @ [(mb_last_seq mb + 1, e)]"
  using assms word_succ_gt[OF assms(2)] by (intro btree_insert_last) (auto simp: btree_ok_def intro: le_less_trans)

lemma filter_entries:
  "btree_ok mb \<Longrightarrow> map snd (filter (\<lambda>(k, v). P k) (mb_entries mb)) = filter (\<lambda>e. P (ev_seq_num e)) (map snd (mb_entries mb))"
  by (auto simp: filter_map comp_def btree_ok_def case_prod_unfold intro!: arg_cong[of _ _ "map snd"] filter_cong)

lemma btree_ok_default: "btree_ok Mailbox_default" "mailbox_abs Mailbox_default = (0, [])"
  by (simp_all add: btree_ok_def Mailbox_default_def mailbox_abs_def)

lemma btree_ok_enqueued:
  assumes "btree_ok mb" "mb_last_seq mb < - 1"
  shows "btree_ok \<lparr>mb_last_seq = mb_last_seq mb + 1,
      mb_entries = btree_insert (mb_last_seq mb + 1) (e\<lparr>ev_seq_num := mb_last_seq mb + 1\<rparr>) (mb_entries mb)\<rparr>"
  using assms word_succ_gt[OF assms(2)]
  unfolding btree_ok_enqueue[OF assms]
  by (auto simp: btree_ok_def sorted_wrt_append word_gt_0 intro: le_less_trans less_imp_le order_trans)

lemma btree_ok_filter: "btree_ok mb \<Longrightarrow> btree_ok (mb\<lparr>mb_entries := filter P (mb_entries mb)\<rparr>)"
  unfolding btree_ok_def by (auto intro: sorted_wrt_filter simp: sorted_wrt_map)

lemma event_store_okD:
  assumes "event_store_ok s"
  shows "fmlookup (evm_subscriptions s) k = Some sub \<Longrightarrow> sb_registration_id sub = k"
    "fmlookup (evm_mailboxes s) k = Some mb \<Longrightarrow> btree_ok mb"
    "fmlookup (evm_mailboxes s) k = None \<longleftrightarrow> fmlookup (evm_subscriptions s) k = None"
  using assms unfolding event_store_ok_def by blast+

lemma event_store_ok_drop:
  "event_store_ok s \<Longrightarrow>
   event_store_ok (s\<lparr>evm_subscriptions := fmdrop k (evm_subscriptions s), evm_mailboxes := fmdrop k (evm_mailboxes s)\<rparr>)"
  unfolding event_store_ok_def by (auto split: if_splits)

lemma event_store_ok_mail:
  "event_store_ok s \<Longrightarrow> btree_ok mb \<Longrightarrow> fmlookup (evm_mailboxes s) k \<noteq> None \<Longrightarrow>
   event_store_ok (s\<lparr>evm_mailboxes := fmupd k mb (evm_mailboxes s)\<rparr>)"
  unfolding event_store_ok_def by (auto split: if_splits)

lemma event_lease_found:
  assumes "List.find (\<lambda>(k, sub). sb_lease_id sub = l) (iter_entries ks m) = Some (k, sub)"
  shows "fmlookup m k = Some sub" "sb_lease_id sub = l"
  using find_eq_Some_prop[OF assms] by (auto simp: in_iter_entries)

interpretation mem_event: event_store InMemoryEventStore_ops "\<lambda>s. fmlookup (evm_subscriptions s)"
  "\<lambda>s k. map_option mailbox_abs (fmlookup (evm_mailboxes s) k)" event_store_ok "\<lambda>ks s. iterates ks (evm_subscriptions s)"
proof (unfold_locales, goal_cases)
  case (1 s k sub)
  then show ?case by (rule event_store_okD(1))
next
  case (2 s k mb)
  then show ?case using event_store_okD(2)[OF 2(1)] mailbox_abs_ok by auto
next
  case (3 s k)
  then show ?case using event_store_okD(3)[OF 3] by simp
next
  case (4 s sub u s')
  have "event_store_ok s'" using 4 btree_ok_default unfolding event_store_ok_def by (auto simp: mem_event_defs split: if_splits)
  then show ?case using 4 btree_ok_default by (auto simp: mem_event_defs fun_eq_iff)
next
  case (5 s k x)
  then show ?case by (simp add: mem_event_defs)
next
  case (6 s k u s')
  then show ?case using event_store_ok_drop[OF 6(1)] by (auto simp: mem_event_defs fun_eq_iff)
next
  case (7 s ks l s')
  then have n: "List.find (\<lambda>(k, sub). sb_lease_id sub = l) (iter_entries ks (evm_subscriptions s)) = None"
    by (auto simp: mem_event_defs dest: event_lease_found split: option.splits)
  have "fmlookup (evm_subscriptions s) k = Some sub \<Longrightarrow> sb_lease_id sub \<noteq> l" for k sub
    using n iterates_mem[OF 7(2)] in_iter_entries unfolding find_eq_None by fast
  then show ?case using 7 n by (auto simp: mem_event_defs)
next
  case (8 s ks l sub s')
  then obtain k sub' where f: "List.find (\<lambda>(k, sub). sb_lease_id sub = l) (iter_entries ks (evm_subscriptions s)) = Some (k, sub')"
    by (cases "List.find (\<lambda>(k, sub). sb_lease_id sub = l) (iter_entries ks (evm_subscriptions s))") (auto simp: mem_event_defs)
  note e = event_lease_found[OF f]
  have "sub = sub'" "s' = s\<lparr>evm_subscriptions := fmdrop k (evm_subscriptions s), evm_mailboxes := fmdrop k (evm_mailboxes s)\<rparr>"
    using 8(2) f e(1) by (auto simp: mem_event_defs)
  then show ?case using event_store_ok_drop[OF 8(1), of k] e event_store_okD(1)[OF 8(1) e(1)] by (auto simp: fun_eq_iff)
next
  case (9 s ks xs)
  have d: "distinct (map sb_registration_id xs)"
    using 9 event_store_okD(1)[OF 9(1)] unfolding iterates_def
    by (auto simp: mem_event_defs intro!: distinct_iter_values)
  have "sub \<in> set xs \<longleftrightarrow> fmlookup (evm_subscriptions s) (sb_registration_id sub) = Some sub" for sub
    using 9(3) event_store_okD(1)[OF 9(1)] unfolding mem_event_defs
    by (auto simp: in_iter_values_iterates[OF 9(2)])
  then show ?case using d by blast
next
  case (10 s k lst es e n s')
  then obtain mb where mb: "fmlookup (evm_mailboxes s) k = Some mb" "lst = mb_last_seq mb" "es = map snd (mb_entries mb)"
    by (auto simp: mailbox_abs_def)
  note ok = event_store_okD(2)[OF 10(1) mb(1)]
  have lt: "mb_last_seq mb < - 1" using 10(3) mb(2) by simp
  let ?mb = "\<lparr>mb_last_seq = lst + 1, mb_entries = btree_insert (lst + 1) (e\<lparr>ev_seq_num := lst + 1\<rparr>) (mb_entries mb)\<rparr>"
  have s': "n = lst + 1" "s' = s\<lparr>evm_mailboxes := fmupd k ?mb (evm_mailboxes s)\<rparr>"
    using 10(4) mb by (auto simp: mem_event_defs Let_def)
  have "event_store_ok s'" unfolding s' mb(2)
    by (rule event_store_ok_mail[OF 10(1) btree_ok_enqueued[OF ok lt]]) (simp add: mb(1))
  moreover have "mailbox_abs ?mb = (lst + 1, es @ [e\<lparr>ev_seq_num := lst + 1\<rparr>])"
    using btree_ok_enqueue[OF ok lt] mb by (simp add: mailbox_abs_def)
  ultimately show ?case using s' by (auto simp: fun_eq_iff)
next
  case (11 s k e x s')
  then show ?case by (auto simp: mem_event_defs Let_def split: option.splits)
next
  case (12 s k e x s')
  then show ?case by (auto simp: mem_event_defs)
next
  case (13 s k aft limit es)
  show ?case
  proof (cases "fmlookup (evm_mailboxes s) k")
    case None
    then show ?thesis using 13 by (simp add: mem_event_defs)
  next
    case (Some mb)
    note ok = event_store_okD(2)[OF 13(1) Some]
    then have "btree_above aft (mb_entries mb) = filter (\<lambda>(k, v). aft < k) (mb_entries mb)"
      by (intro btree_above_filter) (simp add: btree_ok_def)
    then show ?thesis using 13(2) Some filter_entries[OF ok, of "\<lambda>k. aft < k"]
      by (auto simp: mem_event_defs mailbox_abs_def take_map[symmetric])
  qed
next
  case (14 s k ns u s')
  show ?case
  proof (cases "fmlookup (evm_mailboxes s) k")
    case None
    then show ?thesis using 14 by (auto simp: mem_event_defs fun_eq_iff)
  next
    case (Some mb)
    note ok = event_store_okD(2)[OF 14(1) Some]
    let ?mb = "mb\<lparr>mb_entries := filter (\<lambda>(k, v). k \<notin> set ns) (mb_entries mb)\<rparr>"
    have s': "s' = s\<lparr>evm_mailboxes := fmupd k ?mb (evm_mailboxes s)\<rparr>"
      using 14(2) Some by (simp add: mem_event_defs fold_btree_remove)
    have "event_store_ok s'" unfolding s'
      by (rule event_store_ok_mail[OF 14(1) btree_ok_filter[OF ok]]) (simp add: Some)
    moreover have "mailbox_abs ?mb = map_prod id (filter (\<lambda>e. ev_seq_num e \<notin> set ns)) (mailbox_abs mb)"
      using filter_entries[OF ok, of "\<lambda>k. k \<notin> set ns"] by (simp add: mailbox_abs_def)
    ultimately show ?thesis using s' Some by (auto simp: fun_eq_iff)
  qed
next
  case (15 s k ns er s')
  then show ?case by (simp add: mem_event_defs)
qed

end
