(* ===== verification/Event.thy ===== *)
theory Event
  imports Event_Store Registry
begin

text \<open>
  The event manager of \<^verbatim>\<open>coordin8-event/src/manager.rs\<close>, the gRPC handlers of \<^verbatim>\<open>coordin8-event/src/service.rs\<close> with
  the two delivery loops behind \<^verbatim>\<open>Receive\<close>, and the reclaim cascade of \<^verbatim>\<open>coordin8-djinn/src/services.rs\<close>.
\<close>

section \<open>The manager\<close>

record ('s, 'l) EventManager =
  em_store :: 's
  em_lease_manager :: 'l
  em_event_tx :: "EventRecord list"
  em_seq_counters :: "u64 dashmap"

definition EventManager_new :: "'s \<Rightarrow> 'l \<Rightarrow> EventRecord list \<Rightarrow> ('s, 'l) EventManager" where
  "EventManager_new store lease_manager event_tx =
     \<lparr>em_store = store, em_lease_manager = lease_manager, em_event_tx = event_tx, em_seq_counters = fmempty\<rparr>"

text \<open>The largest counter of the source, zero when there is none; \<open>ks\<close> is the order of the visit.\<close>

definition source_counter :: "string list \<Rightarrow> string \<Rightarrow> u64 dashmap \<Rightarrow> u64" where
  "source_counter ks source counters =
     fold max (map snd (filter (\<lambda>(k, c). starts_with k (source @ ''::'')) (iter_entries ks counters))) 0"

definition EventManager_subscribe ::
  "'s EventStore \<Rightarrow> 'l Leasing \<Rightarrow> time \<Rightarrow> string \<Rightarrow> string \<Rightarrow> string list \<Rightarrow> string \<Rightarrow> attrs \<Rightarrow> DeliveryMode \<Rightarrow> u64 \<Rightarrow> bytes
   \<Rightarrow> ('s, 'l) EventManager \<Rightarrow> (string \<times> LeaseRecord \<times> u64) result \<times> ('s, 'l) EventManager"
where
  "EventManager_subscribe S L now reg_uid lease_uid ks source template delivery ttl_secs handback m =
     (case lg_grant L now lease_uid (''event:'' @ reg_uid) ttl_secs (em_lease_manager m) of
        (Inl e, l') \<Rightarrow> (Inl e, m\<lparr>em_lease_manager := l'\<rparr>)
      | (Inr lease, l') \<Rightarrow>
          let m1 = m\<lparr>em_lease_manager := l'\<rparr>;
              initial_seq_num = (if delivery = Durable then 0 else source_counter ks source (em_seq_counters m1));
              sub = \<lparr>sb_registration_id = reg_uid, sb_source = source, sb_template = template, sb_delivery = delivery,
                     sb_lease_id = lr_lease_id lease, sb_handback = handback, sb_initial_seq_num = initial_seq_num\<rparr>
          in (case es_create_subscription S sub (em_store m1) of
                (Inl e, s') \<Rightarrow> (Inl e, m1\<lparr>em_store := s'\<rparr>)
              | (Inr _, s') \<Rightarrow> (Inr (reg_uid, lease, initial_seq_num), m1\<lparr>em_store := s'\<rparr>)))"

text \<open>Whether a subscription wants an event: its template against the attributes extended with the event type.\<close>

definition wants :: "attrs \<Rightarrow> string \<Rightarrow> attrs \<Rightarrow> bool" where
  "wants template event_type attrs =
     (let ops = parse_template template;
          check_attrs = fmupd ''event_type'' event_type attrs
      in ops = fmempty \<or> matches ops check_attrs)"

text \<open>
  The loop of \<^verbatim>\<open>emit\<close> over the listed subscriptions. \<open>gaps\<close> gives what other tasks do to the store before each
  enqueue; past its end nothing happens.
\<close>

fun emit_loop ::
  "'s EventStore \<Rightarrow> ('s \<Rightarrow> 's) list \<Rightarrow> EventRecord \<Rightarrow> SubscriptionRecord list \<Rightarrow> string list \<Rightarrow> 's \<Rightarrow> string list \<times> 's"
where
  "emit_loop S gaps event [] failures s = (failures, s)"
| "emit_loop S gaps event (sub # subs) failures s =
     (if sb_source sub \<noteq> ev_source event \<or> sb_delivery sub \<noteq> Durable then emit_loop S gaps event subs failures s
      else if \<not> wants (sb_template sub) (ev_event_type event) (ev_attrs event) then emit_loop S gaps event subs failures s
      else
        let s0 = (case gaps of [] \<Rightarrow> s | g # _ \<Rightarrow> g s) in
        case es_enqueue S (sb_registration_id sub) event s0 of
          (Inr _, s') \<Rightarrow> emit_loop S (tl gaps) event subs failures s'
        | (Inl (SubscriptionNotFound _), s') \<Rightarrow> emit_loop S (tl gaps) event subs failures s'
        | (Inl e, s') \<Rightarrow>
            emit_loop S (tl gaps) event subs (failures @ [sb_registration_id sub @ '': '' @ error_to_string e]) s')"

text \<open>\<^verbatim>\<open>join("; ")\<close>.\<close>

fun join_semicolon :: "string list \<Rightarrow> string" where
  "join_semicolon [] = []"
| "join_semicolon [x] = x"
| "join_semicolon (x # y # ys) = x @ ''; '' @ join_semicolon (y # ys)"

definition EventManager_emit ::
  "'s EventStore \<Rightarrow> time \<Rightarrow> string \<Rightarrow> string list \<Rightarrow> ('s \<Rightarrow> 's) list \<Rightarrow> string \<Rightarrow> string \<Rightarrow> attrs \<Rightarrow> bytes
   \<Rightarrow> ('s, 'l) EventManager \<Rightarrow> EventRecord result \<times> ('s, 'l) EventManager"
where
  "EventManager_emit S now uid ks gaps source event_type attrs payload m =
     (let key = source @ ''::'' @ event_type;
          seq_num = (case fmlookup (em_seq_counters m) key of None \<Rightarrow> 0 | Some c \<Rightarrow> c) + 1;
          m1 = m\<lparr>em_seq_counters := fmupd key seq_num (em_seq_counters m)\<rparr>;
          event = \<lparr>ev_event_id = uid, ev_source = source, ev_event_type = event_type, ev_seq_num = seq_num,
                   ev_attrs = attrs, ev_payload = payload, ev_emitted_at = now\<rparr>
      in case es_list_subscriptions S ks (em_store m1) of
           Inl e \<Rightarrow> (Inl e, m1)
         | Inr subs \<Rightarrow>
             (case emit_loop S gaps event subs [] (em_store m1) of
                (failures, s') \<Rightarrow>
                  let m2 = m1\<lparr>em_store := s', em_event_tx := em_event_tx m1 @ [event]\<rparr> in
                  if failures \<noteq> [] then
                    (Inl (Storage (''durable enqueue failed for '' @ show_nat (length failures) @ '' subscription(s): '' @
                       join_semicolon failures)), m2)
                  else (Inr event, m2)))"

definition EventManager_get_subscription :: "'s EventStore \<Rightarrow> string \<Rightarrow> ('s, 'l) EventManager \<Rightarrow> SubscriptionRecord option result" where
  "EventManager_get_subscription S registration_id m = es_get_subscription S registration_id (em_store m)"

definition peek_mailbox :: "'s EventStore \<Rightarrow> string \<Rightarrow> u64 \<Rightarrow> nat \<Rightarrow> ('s, 'l) EventManager \<Rightarrow> EventRecord list result" where
  "peek_mailbox S registration_id after_seq limit m = es_peek S registration_id after_seq limit (em_store m)"

definition ack_mailbox ::
  "'s EventStore \<Rightarrow> string \<Rightarrow> u64 list \<Rightarrow> ('s, 'l) EventManager \<Rightarrow> unit result \<times> ('s, 'l) EventManager"
where
  "ack_mailbox S registration_id seq_nums m =
     (case es_ack S registration_id seq_nums (em_store m) of (r, s') \<Rightarrow> (r, m\<lparr>em_store := s'\<rparr>))"

definition unsubscribe_by_lease ::
  "'s EventStore \<Rightarrow> string list \<Rightarrow> string \<Rightarrow> ('s, 'l) EventManager \<Rightarrow> string option result \<times> ('s, 'l) EventManager"
where
  "unsubscribe_by_lease S ks lease_id m =
     (case es_remove_by_lease S ks lease_id (em_store m) of
        (Inl e, s') \<Rightarrow> (Inl e, m\<lparr>em_store := s'\<rparr>)
      | (Inr removed, s') \<Rightarrow> (Inr (map_option sb_registration_id removed), m\<lparr>em_store := s'\<rparr>))"

definition cancel_subscription ::
  "'s EventStore \<Rightarrow> 'l Leasing \<Rightarrow> string \<Rightarrow> ('s, 'l) EventManager \<Rightarrow> unit result \<times> ('s, 'l) EventManager"
where
  "cancel_subscription S L registration_id m =
     (case es_get_subscription S registration_id (em_store m) of
        Inl e \<Rightarrow> (Inl e, m)
      | Inr None \<Rightarrow> (Inl (SubscriptionNotFound registration_id), m)
      | Inr (Some sub) \<Rightarrow>
          (case es_remove_subscription S registration_id (em_store m) of
             (Inl e, s') \<Rightarrow> (Inl e, m\<lparr>em_store := s'\<rparr>)
           | (Inr _, s') \<Rightarrow>
               (case lg_cancel L (sb_lease_id sub) (em_lease_manager m) of
                  (r, l') \<Rightarrow> (r, m\<lparr>em_store := s', em_lease_manager := l'\<rparr>))))"

definition renew_subscription ::
  "'s EventStore \<Rightarrow> 'l Leasing \<Rightarrow> time \<Rightarrow> time \<Rightarrow> string \<Rightarrow> u64 \<Rightarrow> ('s, 'l) EventManager
   \<Rightarrow> LeaseRecord result \<times> ('s, 'l) EventManager"
where
  "renew_subscription S L now1 now2 registration_id ttl_secs m =
     (case es_get_subscription S registration_id (em_store m) of
        Inl e \<Rightarrow> (Inl e, m)
      | Inr None \<Rightarrow> (Inl (SubscriptionNotFound registration_id), m)
      | Inr (Some sub) \<Rightarrow>
          (case lg_renew L now1 now2 (sb_lease_id sub) ttl_secs (em_lease_manager m) of
             (r, l') \<Rightarrow> (r, m\<lparr>em_lease_manager := l'\<rparr>)))"

definition event_cascade :: "'s EventStore \<Rightarrow> string list \<Rightarrow> LeaseReclaimed \<Rightarrow> ('s, 'l) EventManager \<Rightarrow> ('s, 'l) EventManager" where
  "event_cascade S ks ev m = snd (unsubscribe_by_lease S ks (lr_lease_id (rc_record ev)) m)"

section \<open>Messages\<close>

definition event_map_err :: "error \<Rightarrow> status" where
  "event_map_err e = (case e of
     Unavailable _ \<Rightarrow> Status Code_Unavailable (error_to_string e)
   | SubscriptionNotFound _ \<Rightarrow> Status Code_NotFound (error_to_string e)
   | LeaseNotFound _ \<Rightarrow> Status Code_NotFound (error_to_string e)
   | SubscriptionExpired _ \<Rightarrow> Status Code_FailedPrecondition (error_to_string e)
   | LeaseExpired _ \<Rightarrow> Status Code_FailedPrecondition (error_to_string e)
   | InvalidArgument _ \<Rightarrow> Status Code_InvalidArgument (error_to_string e)
   | PermissionDenied _ \<Rightarrow> Status Code_PermissionDenied (error_to_string e)
   | _ \<Rightarrow> Status Code_Internal (error_to_string e))"

record Event =
  pe_event_id :: string
  pe_source :: string
  pe_event_type :: string
  pe_seq_num :: u64
  pe_attrs :: attrs
  pe_payload :: bytes
  pe_handback :: bytes
  pe_emitted_at :: "Timestamp option"

definition event_record_to_proto :: "EventRecord \<Rightarrow> bytes \<Rightarrow> Event" where
  "event_record_to_proto e handback = \<lparr>
     pe_event_id = ev_event_id e, pe_source = ev_source e, pe_event_type = ev_event_type e, pe_seq_num = ev_seq_num e,
     pe_attrs = ev_attrs e, pe_payload = ev_payload e, pe_handback = handback, pe_emitted_at = to_timestamp (ev_emitted_at e)\<rparr>"

record EventServiceImpl =
  evs_grantor_host :: string
  evs_grantor_port :: u16

definition EventServiceImpl_lease_to_proto :: "EventServiceImpl \<Rightarrow> LeaseRecord \<Rightarrow> Lease" where
  "EventServiceImpl_lease_to_proto svc lease = \<lparr>
     pl_lease_id = lr_lease_id lease, pl_resource_id = lr_resource_id lease,
     pl_granted_at = to_timestamp (lr_granted_at lease), pl_expires_at = to_timestamp (lr_expires_at lease),
     pl_ttl_seconds = lr_ttl_seconds lease, pl_grantor_host = evs_grantor_host svc,
     pl_grantor_port = ucast (evs_grantor_port svc)\<rparr>"

section \<open>Delivery\<close>

definition MAILBOX_BATCH :: nat where "MAILBOX_BATCH = 64"

text \<open>
  What a best-effort stream sends for the messages of the broadcast, as long as the client stays connected.
\<close>

fun best_effort_loop :: "string \<Rightarrow> attrs \<Rightarrow> bytes \<Rightarrow> EventRecord recv list \<Rightarrow> Event rpc list" where
  "best_effort_loop source template handback [] = []"
| "best_effort_loop source template handback (Received event # rx) =
     (if ev_source event \<noteq> source then best_effort_loop source template handback rx
      else if \<not> wants template (ev_event_type event) (ev_attrs event) then best_effort_loop source template handback rx
      else Inr (event_record_to_proto event handback) # best_effort_loop source template handback rx)"
| "best_effort_loop source template handback (Lagged n # rx) =
     [Inl (Status Code_DataLoss ''subscriber lagged; resubscribe'')]"
| "best_effort_loop source template handback (Closed # rx) = []"

text \<open>
  The durable loop as a machine. Its state is the cursor, the rest of the batch and what it has put on the channel so
  far; it is flushing a batch, waiting for a wake-up, or over. An input is what the loop awaits next: the client takes
  the event just sent, is gone before it can be sent, or is gone after it was sent and before it was taken off the
  channel; a message of the broadcast, which is looked at only while waiting. The functions are what other tasks do
  meanwhile: before the acknowledgement and between it and the next read of the mailbox, or before that read. An
  input of the other phase leaves the machine as it is.
\<close>

datatype durable_phase = Flushing | Waiting | Ended

record durable_state =
  du_cursor :: u64
  du_batch :: "EventRecord list"
  du_out :: "Event rpc list"
  du_phase :: durable_phase

datatype 'm durable_input =
    ClientTakes "'m \<Rightarrow> 'm" "'m \<Rightarrow> 'm"
  | ClientGone
  | ClientGoneAfterSend
  | Wakeup "EventRecord recv" "'m \<Rightarrow> 'm"

text \<open>Read the mailbox past the cursor into the next batch; an empty one means waiting.\<close>

definition durable_refill ::
  "'s EventStore \<Rightarrow> string \<Rightarrow> ('s, 'l) EventManager \<Rightarrow> durable_state \<Rightarrow> durable_state"
where
  "durable_refill S reg m st =
     (case peek_mailbox S reg (du_cursor st) MAILBOX_BATCH m of
        Inl e \<Rightarrow> st\<lparr>du_out := du_out st @ [Inl (event_map_err e)], du_phase := Ended\<rparr>
      | Inr b \<Rightarrow> st\<lparr>du_batch := b, du_phase := if b = [] then Waiting else Flushing\<rparr>)"

fun durable_step ::
  "'s EventStore \<Rightarrow> string \<Rightarrow> string \<Rightarrow> bytes \<Rightarrow> ('s, 'l) EventManager durable_input
   \<Rightarrow> durable_state \<times> ('s, 'l) EventManager \<Rightarrow> durable_state \<times> ('s, 'l) EventManager"
where
  "durable_step S reg source handback input (st, m) =
     (case du_phase st of
        Ended \<Rightarrow> (st, m)
      | Flushing \<Rightarrow>
          (case du_batch st of
             [] \<Rightarrow> (st\<lparr>du_phase := Waiting\<rparr>, m)
           | event # rest \<Rightarrow>
               let sent = st\<lparr>du_out := du_out st @ [Inr (event_record_to_proto event handback)]\<rparr> in
               (case input of
                  ClientGone \<Rightarrow> (st\<lparr>du_phase := Ended\<rparr>, m)
                | ClientGoneAfterSend \<Rightarrow> (sent\<lparr>du_phase := Ended\<rparr>, m)
                | ClientTakes before after \<Rightarrow>
                    (case ack_mailbox S reg [ev_seq_num event] (before m) of
                       (Inl e, m') \<Rightarrow> (sent\<lparr>du_out := du_out sent @ [Inl (event_map_err e)], du_phase := Ended\<rparr>, m')
                     | (Inr _, m') \<Rightarrow>
                         let st' = sent\<lparr>du_cursor := ev_seq_num event, du_batch := rest\<rparr>;
                             m1 = after m'
                         in (if rest = [] then durable_refill S reg m1 st' else st', m1))
                | Wakeup r others \<Rightarrow> (st, m)))
      | Waiting \<Rightarrow>
          (case input of
             Wakeup r others \<Rightarrow>
               let m1 = others m in
               (case r of
                  Closed \<Rightarrow> (st\<lparr>du_phase := Ended\<rparr>, m1)
                | Received e \<Rightarrow> if ev_source e \<noteq> source then (st, m1) else (durable_refill S reg m1 st, m1)
                | Lagged n \<Rightarrow> (durable_refill S reg m1 st, m1))
           | ClientTakes before after \<Rightarrow> (st, m)
           | _ \<Rightarrow> (st\<lparr>du_phase := Ended\<rparr>, m)))"

definition durable_start :: "EventRecord list \<Rightarrow> durable_state" where
  "durable_start first_batch =
     \<lparr>du_cursor = 0, du_batch = first_batch, du_out = [], du_phase = if first_batch = [] then Waiting else Flushing\<rparr>"

definition durable_loop ::
  "'s EventStore \<Rightarrow> string \<Rightarrow> string \<Rightarrow> bytes \<Rightarrow> EventRecord list \<Rightarrow> ('s, 'l) EventManager durable_input list
   \<Rightarrow> ('s, 'l) EventManager \<Rightarrow> durable_state \<times> ('s, 'l) EventManager"
where
  "durable_loop S reg source handback first_batch inputs m =
     fold (durable_step S reg source handback) inputs (durable_start first_batch, m)"

section \<open>The service\<close>

definition delivery_mode :: "int \<Rightarrow> DeliveryMode" where
  "delivery_mode d = (if d = 1 then BestEffort else Durable)"

record EventRegistration =
  erg_registration_id :: string
  erg_source :: string
  erg_lease :: "Lease option"
  erg_seq_num :: u64

definition EventService_subscribe ::
  "'s EventStore \<Rightarrow> 'l Leasing \<Rightarrow> EventServiceImpl \<Rightarrow> time \<Rightarrow> string \<Rightarrow> string \<Rightarrow> string list \<Rightarrow> string \<Rightarrow> attrs \<Rightarrow> int \<Rightarrow> u64 \<Rightarrow> bytes
   \<Rightarrow> ('s, 'l) EventManager \<Rightarrow> EventRegistration rpc \<times> ('s, 'l) EventManager"
where
  "EventService_subscribe S L svc now reg_uid lease_uid ks source template delivery ttl_seconds handback m =
     (case EventManager_subscribe S L now reg_uid lease_uid ks source template (delivery_mode delivery) ttl_seconds handback m of
        (Inl e, m') \<Rightarrow> (Inl (event_map_err e), m')
      | (Inr (registration_id, lease, seq_num), m') \<Rightarrow>
          (Inr \<lparr>erg_registration_id = registration_id, erg_source = source,
                erg_lease = Some (EventServiceImpl_lease_to_proto svc lease), erg_seq_num = seq_num\<rparr>, m'))"

text \<open>
  \<^verbatim>\<open>Receive\<close>: what the stream carries, given what the broadcast delivers to a best-effort receiver (\<open>rx\<close>) or what happens to
  a durable one (\<open>inputs\<close>), and the manager afterwards.
\<close>

definition EventService_receive ::
  "'s EventStore \<Rightarrow> string \<Rightarrow> EventRecord recv list \<Rightarrow> ('s, 'l) EventManager durable_input list
   \<Rightarrow> ('s, 'l) EventManager \<Rightarrow> Event rpc list rpc \<times> ('s, 'l) EventManager"
where
  "EventService_receive S registration_id rx inputs m =
     (case EventManager_get_subscription S registration_id m of
        Inl e \<Rightarrow> (Inl (event_map_err e), m)
      | Inr None \<Rightarrow> (Inl (Status Code_NotFound ''subscription not found''), m)
      | Inr (Some sub) \<Rightarrow>
          if sb_delivery sub \<noteq> Durable then (Inr (best_effort_loop (sb_source sub) (sb_template sub) (sb_handback sub) rx), m)
          else (case peek_mailbox S registration_id 0 MAILBOX_BATCH m of
                  Inl e \<Rightarrow> (Inl (event_map_err e), m)
                | Inr first_batch \<Rightarrow>
                    (case durable_loop S registration_id (sb_source sub) (sb_handback sub) first_batch inputs m of
                       (st, m') \<Rightarrow> (Inr (du_out st), m'))))"

definition EventService_emit ::
  "'s EventStore \<Rightarrow> time \<Rightarrow> string \<Rightarrow> string list \<Rightarrow> ('s \<Rightarrow> 's) list \<Rightarrow> string \<Rightarrow> string \<Rightarrow> attrs \<Rightarrow> bytes
   \<Rightarrow> ('s, 'l) EventManager \<Rightarrow> unit rpc \<times> ('s, 'l) EventManager"
where
  "EventService_emit S now uid ks gaps source event_type attrs payload m =
     (case EventManager_emit S now uid ks gaps source event_type attrs payload m of
        (r, m') \<Rightarrow> (map_err event_map_err (map_sum id (\<lambda>_. ()) r), m'))"

definition EventService_renew_subscription ::
  "'s EventStore \<Rightarrow> 'l Leasing \<Rightarrow> EventServiceImpl \<Rightarrow> time \<Rightarrow> time \<Rightarrow> string \<Rightarrow> u64 \<Rightarrow> ('s, 'l) EventManager
   \<Rightarrow> Lease rpc \<times> ('s, 'l) EventManager"
where
  "EventService_renew_subscription S L svc now1 now2 registration_id ttl_seconds m =
     (case renew_subscription S L now1 now2 registration_id ttl_seconds m of
        (Inl e, m') \<Rightarrow> (Inl (event_map_err e), m')
      | (Inr record, m') \<Rightarrow> (Inr (EventServiceImpl_lease_to_proto svc record), m'))"

definition EventService_cancel_subscription ::
  "'s EventStore \<Rightarrow> 'l Leasing \<Rightarrow> string \<Rightarrow> ('s, 'l) EventManager \<Rightarrow> unit rpc \<times> ('s, 'l) EventManager"
where
  "EventService_cancel_subscription S L registration_id m =
     (case cancel_subscription S L registration_id m of (r, m') \<Rightarrow> (map_err event_map_err r, m'))"

end
