(* ===== verification/Event_Props.thy ===== *)
theory Event_Props
  imports Event "HOL-Library.Sublist"
begin

text \<open>
  What the event manager promises: an emitted event reaches exactly the mailboxes that want it, a durable stream
  delivers in order and loses nothing, and a client that keeps reading gets the whole mailbox.
\<close>

section \<open>The run of a durable stream\<close>

text \<open>What other tasks may do to a mailbox while a stream reads it: add events under new sequence numbers.\<close>

definition feeds :: "mailbox_view option \<Rightarrow> mailbox_view option \<Rightarrow> bool" where
  "feeds mb mb' \<longleftrightarrow> (\<exists>lst es lst' new. mb = Some (lst, es) \<and> mb' = Some (lst', es @ new) \<and> lst \<le> lst' \<and>
     (\<forall>e \<in> set new. lst < ev_seq_num e \<and> ev_seq_num e \<le> lst'))"

definition fed_step ::
  "'s EventStore \<Rightarrow> string \<Rightarrow> (('s, 'l) EventManager \<Rightarrow> ('s, 'l) EventManager \<Rightarrow> bool)
   \<Rightarrow> ('s, 'l) EventManager durable_input \<Rightarrow> durable_state \<times> ('s, 'l) EventManager \<Rightarrow> bool"
where
  "fed_step S reg R input c = (case input of
     ClientTakes before after \<Rightarrow> R (snd c) (before (snd c)) \<and>
       (case du_batch (fst c) of [] \<Rightarrow> True
        | e # _ \<Rightarrow> let m' = snd (ack_mailbox S reg [ev_seq_num e] (before (snd c))) in R m' (after m'))
   | Wakeup r others \<Rightarrow> R (snd c) (others (snd c))
   | _ \<Rightarrow> True)"

fun well_fed ::
  "'s EventStore \<Rightarrow> string \<Rightarrow> string \<Rightarrow> bytes \<Rightarrow> (('s, 'l) EventManager \<Rightarrow> ('s, 'l) EventManager \<Rightarrow> bool)
   \<Rightarrow> ('s, 'l) EventManager durable_input list \<Rightarrow> durable_state \<times> ('s, 'l) EventManager \<Rightarrow> bool"
where
  "well_fed S reg source handback R [] c = True"
| "well_fed S reg source handback R (i # is) c =
     (fed_step S reg R i c \<and> well_fed S reg source handback R is (durable_step S reg source handback i c))"

lemma well_fed_append:
  "well_fed S reg source handback R (xs @ ys) c \<longleftrightarrow>
     well_fed S reg source handback R xs c \<and>
     well_fed S reg source handback R ys (fold (durable_step S reg source handback) xs c)"
  by (induction xs arbitrary: c) auto

text \<open>The events a stream has carried, and their sequence numbers.\<close>

definition delivered :: "Event rpc list \<Rightarrow> Event list" where
  "delivered out = concat (map (\<lambda>r. case r of Inl _ \<Rightarrow> [] | Inr e \<Rightarrow> [e]) out)"

abbreviation sent_seqs :: "Event rpc list \<Rightarrow> u64 list" where
  "sent_seqs out \<equiv> map pe_seq_num (delivered out)"

lemma delivered_simps [simp]:
  "delivered [] = []"
  "delivered (Inl st # out) = delivered out"
  "delivered (Inr e # out) = e # delivered out"
  "delivered (out @ out') = delivered out @ delivered out'"
  by (simp_all add: delivered_def)

lemma proto_seq [simp]: "pe_seq_num (event_record_to_proto e handback) = ev_seq_num e"
  by (simp add: event_record_to_proto_def)

lemma ack_mailbox_eq:
  "ack_mailbox S reg ns m = (r, m') \<longleftrightarrow> (\<exists>s'. es_ack S reg ns (em_store m) = (r, s') \<and> m' = m\<lparr>em_store := s'\<rparr>)"
  by (auto simp: ack_mailbox_def split: prod.splits)

lemma filter_past_head:
  assumes "sorted_wrt (<) (map ev_seq_num (e # es))"
  shows "filter (\<lambda>x. ev_seq_num x \<noteq> ev_seq_num e) (e # es) = es"
  using assms by (auto simp: filter_id_conv)

context event_store
begin

definition queued :: "string \<Rightarrow> ('s, 'l) EventManager \<Rightarrow> EventRecord list" where
  "queued reg m = (case mail (em_store m) reg of None \<Rightarrow> [] | Some mb \<Rightarrow> snd mb)"

definition fed :: "string \<Rightarrow> ('s, 'l) EventManager \<Rightarrow> ('s, 'l) EventManager \<Rightarrow> bool" where
  "fed reg m m' \<longleftrightarrow> eok (em_store m') \<and> feeds (mail (em_store m) reg) (mail (em_store m') reg)"

text \<open>A stream that is not over: nothing at or below the cursor is queued, everything sent is at or below it.\<close>

definition tracking :: "string \<Rightarrow> u64 \<Rightarrow> Event rpc list \<Rightarrow> u64 \<Rightarrow> EventRecord list \<Rightarrow> ('s, 'l) EventManager \<Rightarrow> bool" where
  "tracking reg cursor out lst es m \<longleftrightarrow>
     eok (em_store m) \<and> mail (em_store m) reg = Some (lst, es) \<and> cursor \<le> lst \<and> (\<forall>e \<in> set es. cursor < ev_seq_num e) \<and>
     sorted_wrt (<) (sent_seqs out) \<and> (\<forall>n \<in> set (sent_seqs out). n \<le> cursor)"

definition durable_inv :: "string \<Rightarrow> durable_state \<times> ('s, 'l) EventManager \<Rightarrow> bool" where
  "durable_inv reg c \<longleftrightarrow>
     eok (em_store (snd c)) \<and> sorted_wrt (<) (sent_seqs (du_out (fst c))) \<and>
     (du_phase (fst c) \<noteq> Ended \<longrightarrow> (\<exists>lst es. tracking reg (du_cursor (fst c)) (du_out (fst c)) lst es (snd c) \<and>
        (du_phase (fst c) = Flushing \<longrightarrow> du_batch (fst c) \<noteq> [] \<and> prefix (du_batch (fst c)) es)))"

lemma tracking_queued: "tracking reg cursor out lst es m \<Longrightarrow> queued reg m = es"
  by (simp add: tracking_def queued_def)

lemma tracking_fed:
  assumes "tracking reg cursor out lst es m" "fed reg m m'"
  obtains lst' new where "tracking reg cursor out lst' (es @ new) m'"
  using assms unfolding tracking_def fed_def feeds_def by (force intro: order_trans le_less_trans)

lemma tracking_ack:
  assumes "tracking reg cursor out lst (e # es) m" "ack_mailbox S reg [ev_seq_num e] m = (Inr u, m')"
  shows "tracking reg (ev_seq_num e) (out @ [Inr (event_record_to_proto e handback)]) lst es m'"
proof -
  note t = assms(1)[unfolded tracking_def]
  from assms(2) obtain s' where s': "es_ack S reg [ev_seq_num e] (em_store m) = (Inr u, s')" "m' = m\<lparr>em_store := s'\<rparr>"
    by (auto simp: ack_mailbox_eq)
  have mb: "sorted_wrt (<) (map ev_seq_num (e # es))" "ev_seq_num e \<le> lst"
    using mail_ok[of "em_store m" reg "(lst, e # es)"] t by (auto simp: mailbox_ok_def)
  have "eok s'" "mail s' reg = Some (lst, es)"
    using ack_ok[OF _ s'(1)] t filter_past_head[OF mb(1)] by auto
  then show ?thesis using t mb s'(2)
    by (auto simp: tracking_def sorted_wrt_append intro: le_less_trans less_imp_le)
qed

lemma refill_inv:
  assumes "tracking reg (du_cursor st) (du_out st) lst es m"
  shows "durable_inv reg (durable_refill S reg m st, m)"
proof (cases "peek_mailbox S reg (du_cursor st) MAILBOX_BATCH m")
  case (Inl e)
  then show ?thesis using assms by (simp add: durable_refill_def durable_inv_def tracking_def)
next
  case (Inr b)
  have "b = take MAILBOX_BATCH (filter (\<lambda>e. du_cursor st < ev_seq_num e) es)"
    using peek_ok[of "em_store m" reg "du_cursor st" MAILBOX_BATCH b] Inr assms
    by (simp add: peek_mailbox_def tracking_def)
  moreover have "filter (\<lambda>e. du_cursor st < ev_seq_num e) es = es"
    using assms by (simp add: tracking_def filter_id_conv)
  ultimately have "prefix b es" by (simp add: take_is_prefix)
  then show ?thesis using Inr assms by (auto simp: durable_refill_def durable_inv_def tracking_def)
qed

lemma refill_out: "\<exists>more. du_out (durable_refill S reg m st) = du_out st @ more"
  by (auto simp: durable_refill_def split: sum.splits)


text \<open>One step keeps the invariant, only adds to what was sent, and removes from the mailbox only what was sent.\<close>

definition kept :: "string \<Rightarrow> bytes \<Rightarrow> durable_state \<times> ('s, 'l) EventManager \<Rightarrow> durable_state \<times> ('s, 'l) EventManager \<Rightarrow> bool" where
  "kept reg handback c c' \<longleftrightarrow>
     (\<exists>more. du_out (fst c') = du_out (fst c) @ more) \<and>
     (\<forall>e \<in> set (queued reg (snd c)). e \<in> set (queued reg (snd c')) \<or> Inr (event_record_to_proto e handback) \<in> set (du_out (fst c')))"

lemma kept_refl: "kept reg handback c c"
  by (simp add: kept_def)

lemma kept_trans: "kept reg handback c c' \<Longrightarrow> kept reg handback c' c'' \<Longrightarrow> kept reg handback c c''"
  unfolding kept_def by fastforce

lemma takes_keeps:
  fixes source :: string and handback :: bytes
  assumes inv: "durable_inv reg (st, m)" and fl: "du_phase st = Flushing"
    and fed: "fed_step S reg (fed reg) (ClientTakes before after) (st, m)"
  defines "c' \<equiv> durable_step S reg source handback (ClientTakes before after) (st, m)"
  shows "durable_inv reg c' \<and> kept reg handback (st, m) c'"
proof -
  from inv fl obtain lst es event rest where
    t: "tracking reg (du_cursor st) (du_out st) lst es m" and b: "du_batch st = event # rest" "prefix (event # rest) es"
    by (auto simp: durable_inv_def neq_Nil_conv)
  from b(2) obtain more where es: "es = event # rest @ more" by (auto simp: prefix_def)
  from fed have "fed reg m (before m)" by (simp add: fed_step_def)
  from tracking_fed[OF t this] obtain lst1 new1 where
    t1: "tracking reg (du_cursor st) (du_out st) lst1 (event # rest @ more @ new1) (before m)" using es by auto
  let ?out = "du_out st @ [Inr (event_record_to_proto event handback)]"
  obtain r m1 where a: "ack_mailbox S reg [ev_seq_num event] (before m) = (r, m1)" by (cases "ack_mailbox S reg [ev_seq_num event] (before m)")
  show ?thesis
  proof (cases r)
    case (Inl er)
    have c': "c' = (st\<lparr>du_out := ?out @ [Inl (event_map_err er)], du_phase := Ended\<rparr>, m1)"
      using fl b a Inl by (simp add: c'_def)
    from a obtain s' where s': "es_ack S reg [ev_seq_num event] (em_store (before m)) = (Inl er, s')" "m1 = (before m)\<lparr>em_store := s'\<rparr>"
      using Inl by (auto simp: ack_mailbox_eq)
    have ok: "eok (em_store (before m))" "mail (em_store (before m)) reg = Some (lst1, event # rest @ more @ new1)"
      using t1 by (simp_all add: tracking_def)
    from ack_failed[OF ok(1) s'(1)] obtain D where D: "eok s'" "D \<subseteq> {ev_seq_num event}"
      "mail s' = (mail (em_store (before m)))(reg := map_option (map_prod id (filter (\<lambda>e. ev_seq_num e \<notin> D))) (mail (em_store (before m)) reg))"
      by auto
    have "distinct (map ev_seq_num (event # rest @ more @ new1))"
      using mail_ok[OF ok] by (auto simp: mailbox_ok_def strict_sorted_iff)
    then have "ev_seq_num e \<notin> D" if "e \<in> set (rest @ more @ new1)" for e
      using that D(2) by (force simp: image_iff)
    then have "e \<in> set (queued reg m1) \<or> e = event" if "e \<in> set es" for e
      using that D(3) s'(2) ok(2) es by (auto simp: queued_def)
    then show ?thesis using c' D(1) s'(2) t t1 es tracking_queued[OF t]
      by (auto simp: durable_inv_def kept_def tracking_def sorted_wrt_append intro: le_less_trans)
  next
    case (Inr u)
    note t2 = tracking_ack[OF t1 a[unfolded Inr], of handback]
    from fed have "fed reg m1 (after m1)" using b a by (simp add: fed_step_def)
    from tracking_fed[OF t2 this] obtain lst3 new3 where
      t3: "tracking reg (ev_seq_num event) ?out lst3 (rest @ more @ new1 @ new3) (after m1)" by auto
    let ?st = "st\<lparr>du_out := ?out, du_cursor := ev_seq_num event, du_batch := rest\<rparr>"
    have c': "c' = (if rest = [] then durable_refill S reg (after m1) ?st else ?st, after m1)"
      using fl b a Inr by (simp add: c'_def Let_def)
    have "durable_inv reg c'"
    proof (cases "rest = []")
      case True
      then show ?thesis using refill_inv[of reg ?st lst3 _ "after m1"] t3 c' by simp
    next
      case False
      then show ?thesis using t3 c' fl by (auto simp: durable_inv_def tracking_def)
    qed
    moreover have "kept reg handback (st, m) c'"
      using refill_out[of reg "after m1" ?st] tracking_queued[OF t] tracking_queued[OF t3] c' es
      by (auto simp: kept_def)
    ultimately show ?thesis by simp
  qed
qed

lemma waiting_keeps:
  fixes source :: string and handback :: bytes
  assumes inv: "durable_inv reg (st, m)" and w: "du_phase st = Waiting"
    and fed: "fed_step S reg (fed reg) (Wakeup r others) (st, m)"
  defines "c' \<equiv> durable_step S reg source handback (Wakeup r others) (st, m)"
  shows "durable_inv reg c' \<and> kept reg handback (st, m) c'"
proof -
  from inv w obtain lst es where t: "tracking reg (du_cursor st) (du_out st) lst es m"
    by (auto simp: durable_inv_def)
  from fed have "fed reg m (others m)" by (simp add: fed_step_def)
  from tracking_fed[OF t this] obtain lst1 new1 where t1: "tracking reg (du_cursor st) (du_out st) lst1 (es @ new1) (others m)" .
  have "c' = (durable_refill S reg (others m) st, others m) \<or> c' = (st, others m) \<or> c' = (st\<lparr>du_phase := Ended\<rparr>, others m)"
    using w by (auto simp: c'_def Let_def split: recv.splits)
  then have "durable_inv reg c'"
    using refill_inv[OF t1] t1 w by (auto simp: durable_inv_def tracking_def)
  moreover have "kept reg handback (st, m) c'"
    using \<open>c' = _ \<or> _\<close> refill_out[of reg "others m" st] tracking_queued[OF t] tracking_queued[OF t1]
    by (auto simp: kept_def)
  ultimately show ?thesis by simp
qed

lemma step_keeps:
  fixes source :: string and handback :: bytes
  assumes inv: "durable_inv reg (st, m)" and fed: "fed_step S reg (fed reg) i (st, m)"
  defines "c' \<equiv> durable_step S reg source handback i (st, m)"
  shows "durable_inv reg c' \<and> kept reg handback (st, m) c'"
proof (cases "du_phase st = Ended")
  case True
  then show ?thesis using inv by (simp add: c'_def kept_refl)
next
  case live: False
  then obtain lst es where t: "tracking reg (du_cursor st) (du_out st) lst es m"
    using inv by (auto simp: durable_inv_def)
  show ?thesis
  proof (cases "du_phase st = Flushing")
    case fl: True
    then obtain e rest where b: "du_batch st = e # rest" "prefix (e # rest) es"
      using inv t by (auto simp: durable_inv_def neq_Nil_conv tracking_def)
    then have "e \<in> set es" by (auto simp: prefix_def)
    with t have new: "\<forall>n \<in> set (sent_seqs (du_out st)). n < ev_seq_num e" by (auto simp: tracking_def intro: le_less_trans)
    show ?thesis
    proof (cases i)
      case (ClientTakes before after)
      then show ?thesis using takes_keeps[OF inv fl] fed by (simp add: c'_def)
    next
      case ClientGone
      then show ?thesis using inv t fl b by (auto simp: c'_def durable_inv_def kept_def)
    next
      case ClientGoneAfterSend
      then show ?thesis using inv t fl b new by (auto simp: c'_def durable_inv_def kept_def sorted_wrt_append)
    next
      case (Wakeup r others)
      then show ?thesis using inv fl b by (simp add: c'_def kept_refl)
    qed
  next
    case False
    then have w: "du_phase st = Waiting" using live by (cases "du_phase st") auto
    show ?thesis
    proof (cases i)
      case (Wakeup r others)
      then show ?thesis using waiting_keeps[OF inv w] fed by (simp add: c'_def)
    qed (use inv w in \<open>auto simp: c'_def durable_inv_def kept_def\<close>)
  qed
qed

lemma run_keeps:
  assumes "durable_inv reg c" "well_fed S reg source handback (fed reg) is c"
  shows "durable_inv reg (fold (durable_step S reg source handback) is c) \<and>
    kept reg handback c (fold (durable_step S reg source handback) is c)"
  using assms
proof (induction "is" arbitrary: c)
  case Nil
  then show ?case by (simp add: kept_refl)
next
  case (Cons i "is")
  obtain st m where c: "c = (st, m)" by (cases c)
  note k = step_keeps[of reg st m i source handback]
  have "durable_inv reg (durable_step S reg source handback i c) \<and> kept reg handback c (durable_step S reg source handback i c)"
    using k Cons.prems c by simp
  then show ?case using Cons.IH[of "durable_step S reg source handback i c"] Cons.prems
    by (auto intro: kept_trans)
qed

lemma start_inv:
  assumes "eok (em_store m)" "mail (em_store m) reg = Some (lst, es)" "peek_mailbox S reg 0 MAILBOX_BATCH m = Inr b"
  shows "durable_inv reg (durable_start b, m)"
proof -
  have "mailbox_ok (lst, es)" using assms mail_ok by blast
  then have t: "tracking reg 0 [] lst es m" using assms by (auto simp: tracking_def mailbox_ok_def)
  have "durable_start b = durable_refill S reg m \<lparr>du_cursor = 0, du_batch = [], du_out = [], du_phase = Waiting\<rparr>"
    using assms(3) by (simp add: durable_start_def durable_refill_def)
  then show ?thesis using refill_inv[of reg "\<lparr>du_cursor = 0, du_batch = [], du_out = [], du_phase = Waiting\<rparr>"] t by simp
qed

end

section \<open>Emitting and draining over a store that does not fail\<close>

text \<open>The durable subscriptions an event is for, and what it does to their mailboxes.\<close>

definition wanted_by :: "EventRecord \<Rightarrow> SubscriptionRecord \<Rightarrow> bool" where
  "wanted_by event sub \<longleftrightarrow>
     sb_source sub = ev_source event \<and> sb_delivery sub = Durable \<and> wants (sb_template sub) (ev_event_type event) (ev_attrs event)"

definition appended :: "EventRecord \<Rightarrow> mailbox_view \<Rightarrow> mailbox_view" where
  "appended event mb = (fst mb + 1, snd mb @ [event\<lparr>ev_seq_num := fst mb + 1\<rparr>])"

locale total_event_store = event_store S subs mail eok evisits
  for S :: "'s EventStore" and subs mail eok evisits +
  assumes list_total: "eok s \<Longrightarrow> \<exists>ls. es_list_subscriptions S ks s = Inr ls"
    and enqueue_total: "eok s \<Longrightarrow> mail s k = Some mb \<Longrightarrow> \<exists>n s'. es_enqueue S k e s = (Inr n, s')"
    and peek_total: "eok s \<Longrightarrow> \<exists>es. es_peek S k aft limit s = Inr es"
    and ack_total: "eok s \<Longrightarrow> \<exists>s'. es_ack S k ns s = (Inr (), s')"
    and visits_subs: "subs s = subs s' \<Longrightarrow> evisits ks s = evisits ks s'"
begin

lemma emit_loop_effect:
  assumes "eok s" "distinct (map sb_registration_id xs)"
    and "\<forall>sub \<in> set xs. wanted_by event sub \<longrightarrow> (\<exists>mb. mail s (sb_registration_id sub) = Some mb \<and> fst mb < - 1)"
  shows "\<exists>s'. emit_loop S [] event xs fs s = (fs, s') \<and> eok s' \<and> subs s' = subs s \<and>
    (\<forall>k. mail s' k = (if \<exists>sub \<in> set xs. sb_registration_id sub = k \<and> wanted_by event sub
       then map_option (appended event) (mail s k) else mail s k))"
  using assms
proof (induction xs arbitrary: s)
  case Nil
  then show ?case by simp
next
  case (Cons sub xs)
  show ?case
  proof (cases "wanted_by event sub")
    case False
    then have "emit_loop S [] event (sub # xs) fs s = emit_loop S [] event xs fs s"
      by (auto simp: wanted_by_def)
    then show ?thesis using Cons.IH[of s] Cons.prems False by auto
  next
    case True
    let ?k = "sb_registration_id sub"
    from Cons.prems(3) True obtain mb where mb: "mail s ?k = Some mb" "fst mb < - 1" by auto
    obtain lst es where p: "mb = (lst, es)" by (cases mb)
    obtain n s1 where e: "es_enqueue S ?k event s = (Inr n, s1)" using enqueue_total[OF Cons.prems(1) mb(1)] by blast
    have s1: "eok s1" "subs s1 = subs s" "mail s1 = (mail s)(?k \<mapsto> appended event mb)"
      using enqueue_ok[OF Cons.prems(1) _ _ e] mb p by (auto simp: appended_def)
    have "\<forall>sub' \<in> set xs. wanted_by event sub' \<longrightarrow> (\<exists>mb. mail s1 (sb_registration_id sub') = Some mb \<and> fst mb < - 1)"
      using Cons.prems(2,3) s1(3) by (auto simp: image_iff)
    then obtain s' where s': "emit_loop S [] event xs fs s1 = (fs, s')" "eok s'" "subs s' = subs s1"
      "\<forall>k. mail s' k = (if \<exists>sub \<in> set xs. sb_registration_id sub = k \<and> wanted_by event sub
         then map_option (appended event) (mail s1 k) else mail s1 k)"
      using Cons.IH[OF s1(1)] Cons.prems(2) by auto
    have "emit_loop S [] event (sub # xs) fs s = (fs, s')"
      using True e s'(1) by (simp add: wanted_by_def)
    moreover have "mail s' k = (if \<exists>sub \<in> set (sub # xs). sb_registration_id sub = k \<and> wanted_by event sub
         then map_option (appended event) (mail s k) else mail s k)" for k
      using s'(4) s1(3) Cons.prems(2) True mb(1) by (auto simp: image_iff)
    ultimately show ?thesis using s'(2,3) s1(2) by (intro exI[of _ s'] conjI allI) simp_all
  qed
qed

lemma emit_effect:
  fixes m :: "('s, 'l) EventManager" and source event_type uid :: string and attrs :: attrs and payload :: bytes and now :: time
  assumes "eok (em_store m)" "evisits ks (em_store m)" "\<forall>k mb. mail (em_store m) k = Some mb \<longrightarrow> fst mb < - 1"
  defines "key \<equiv> source @ ''::'' @ event_type"
  defines "seq \<equiv> (case fmlookup (em_seq_counters m) key of None \<Rightarrow> 0 | Some c \<Rightarrow> c) + 1"
  defines "event \<equiv> \<lparr>ev_event_id = uid, ev_source = source, ev_event_type = event_type, ev_seq_num = seq,
                   ev_attrs = attrs, ev_payload = payload, ev_emitted_at = now\<rparr>"
  shows "\<exists>s'. EventManager_emit S now uid ks [] source event_type attrs payload m =
      (Inr event, m\<lparr>em_seq_counters := fmupd key seq (em_seq_counters m), em_store := s', em_event_tx := em_event_tx m @ [event]\<rparr>) \<and>
    eok s' \<and> subs s' = subs (em_store m) \<and>
    (\<forall>k. mail s' k = (case subs (em_store m) k of Some sub \<Rightarrow>
        if wanted_by event sub then map_option (appended event) (mail (em_store m) k) else mail (em_store m) k | None \<Rightarrow> None))"
proof -
  let ?s = "em_store m"
  obtain xs where xs: "es_list_subscriptions S ks ?s = Inr xs" using list_total[OF assms(1)] by blast
  note l = list_ok[OF assms(1,2) xs]
  have "\<exists>mb. mail ?s (sb_registration_id sub) = Some mb \<and> fst mb < - 1" if "sub \<in> set xs" for sub
    using l that assms(3) mail_subs[OF assms(1), of "sb_registration_id sub"] by (metis option.distinct(1) option.exhaust)
  then obtain s' where s': "emit_loop S [] event xs [] ?s = ([], s')" "eok s'" "subs s' = subs ?s"
    "\<forall>k. mail s' k = (if \<exists>sub \<in> set xs. sb_registration_id sub = k \<and> wanted_by event sub
       then map_option (appended event) (mail ?s k) else mail ?s k)"
    using emit_loop_effect[OF assms(1), of xs event "[]"] l by blast
  have "mail s' k = (case subs ?s k of Some sub \<Rightarrow>
        if wanted_by event sub then map_option (appended event) (mail ?s k) else mail ?s k | None \<Rightarrow> None)" for k
  proof (cases "subs ?s k")
    case None
    then show ?thesis using s'(4) mail_subs[OF assms(1)] by simp
  next
    case (Some sub)
    then have "(\<exists>sub \<in> set xs. sb_registration_id sub = k \<and> wanted_by event sub) \<longleftrightarrow> wanted_by event sub"
      using l subs_key[OF assms(1) Some] by (metis option.inject)
    then show ?thesis using s'(4) Some by simp
  qed
  moreover have "EventManager_emit S now uid ks [] source event_type attrs payload m =
      (Inr event, m\<lparr>em_seq_counters := fmupd key seq (em_seq_counters m), em_store := s', em_event_tx := em_event_tx m @ [event]\<rparr>)"
    using xs s'(1) by (simp add: EventManager_emit_def Let_def key_def seq_def event_def)
  ultimately show ?thesis using s'(2,3) by blast
qed

text \<open>A stream that has work exactly when its mailbox has.\<close>

definition in_step :: "string \<Rightarrow> EventRecord list \<Rightarrow> durable_state \<times> ('s, 'l) EventManager \<Rightarrow> bool" where
  "in_step reg es c \<longleftrightarrow> (\<exists>lst. tracking reg (du_cursor (fst c)) (du_out (fst c)) lst es (snd c)) \<and>
     (if es = [] then du_phase (fst c) = Waiting
      else du_phase (fst c) = Flushing \<and> du_batch (fst c) \<noteq> [] \<and> prefix (du_batch (fst c)) es)"

lemma in_step_refill:
  assumes "tracking reg (du_cursor st) (du_out st) lst es m"
  shows "in_step reg es (durable_refill S reg m st, m)" "du_out (durable_refill S reg m st) = du_out st"
proof -
  obtain b where b: "peek_mailbox S reg (du_cursor st) MAILBOX_BATCH m = Inr b"
    using peek_total assms unfolding peek_mailbox_def tracking_def by blast
  have "b = take MAILBOX_BATCH (filter (\<lambda>e. du_cursor st < ev_seq_num e) es)"
    using peek_ok[of "em_store m" reg "du_cursor st" MAILBOX_BATCH b] b assms
    by (simp add: peek_mailbox_def tracking_def)
  moreover have "filter (\<lambda>e. du_cursor st < ev_seq_num e) es = es"
    using assms by (simp add: tracking_def filter_id_conv)
  ultimately have "prefix b es" "b = [] \<longleftrightarrow> es = []" by (auto simp: take_is_prefix MAILBOX_BATCH_def)
  then show "in_step reg es (durable_refill S reg m st, m)" "du_out (durable_refill S reg m st) = du_out st"
    using b assms by (auto simp: in_step_def durable_refill_def)
qed

text \<open>What reading a mailbox leaves alone.\<close>

definition quiet :: "('s, 'l) EventManager \<Rightarrow> ('s, 'l) EventManager \<Rightarrow> bool" where
  "quiet m m' \<longleftrightarrow> (\<exists>s'. m' = m\<lparr>em_store := s'\<rparr> \<and> eok s' \<and> subs s' = subs (em_store m) \<and>
     (\<forall>k. map_option fst (mail s' k) = map_option fst (mail (em_store m) k)))"

lemma quiet_trans: "quiet m m' \<Longrightarrow> quiet m' m'' \<Longrightarrow> quiet m m''"
  by (force simp: quiet_def)

lemma quiet_ack: "eok (em_store m) \<Longrightarrow> ack_mailbox S reg ns m = (Inr u, m') \<Longrightarrow> quiet m m'"
  using ack_ok[of "em_store m" reg ns u] by (auto simp: ack_mailbox_eq quiet_def option.map_comp comp_def)

lemma in_step_takes:
  fixes source :: string and handback :: bytes
  assumes "in_step reg (e # es) c"
  defines "c' \<equiv> durable_step S reg source handback (ClientTakes (\<lambda>m. m) (\<lambda>m. m)) c"
  shows "in_step reg es c' \<and> quiet (snd c) (snd c') \<and> du_out (fst c') = du_out (fst c) @ [Inr (event_record_to_proto e handback)]"
proof -
  obtain st m where c: "c = (st, m)" by (cases c)
  from assms(1) c obtain lst rest where t: "tracking reg (du_cursor st) (du_out st) lst (e # es) m"
    and b: "du_phase st = Flushing" "du_batch st = e # rest" "prefix rest es"
    by (cases "du_batch st") (auto simp: in_step_def)
  obtain m1 where a: "ack_mailbox S reg [ev_seq_num e] m = (Inr (), m1)"
    using ack_total t unfolding tracking_def ack_mailbox_eq by blast
  let ?st = "st\<lparr>du_out := du_out st @ [Inr (event_record_to_proto e handback)], du_cursor := ev_seq_num e, du_batch := rest\<rparr>"
  note t1 = tracking_ack[OF t a, of handback]
  have "c' = (if rest = [] then durable_refill S reg m1 ?st else ?st, m1)"
    using b a c by (simp add: c'_def Let_def)
  moreover have "in_step reg es (?st, m1)" if "rest \<noteq> []"
    using t1 b that by (auto simp: in_step_def)
  moreover have "quiet m m1" using quiet_ack[OF _ a] t by (simp add: tracking_def)
  ultimately show ?thesis using in_step_refill[of reg ?st lst es m1] t1 c by auto
qed

lemma in_step_drains:
  fixes source :: string and handback :: bytes
  assumes "in_step reg es c"
  defines "c' \<equiv> fold (durable_step S reg source handback) (replicate (length es) (ClientTakes (\<lambda>m. m) (\<lambda>m. m))) c"
  shows "in_step reg [] c' \<and> quiet (snd c) (snd c') \<and>
    du_out (fst c') = du_out (fst c) @ map (\<lambda>e. Inr (event_record_to_proto e handback)) es"
  using assms(1) unfolding c'_def
proof (induction es arbitrary: c)
  case Nil
  then have "eok (em_store (snd c))" by (auto simp: in_step_def tracking_def)
  then have "quiet (snd c) (snd c)" unfolding quiet_def by (intro exI[of _ "em_store (snd c)"]) simp
  then show ?case using Nil by simp
next
  case (Cons e es)
  note s = in_step_takes[OF Cons.prems, of source handback]
  show ?case using Cons.IH[of "durable_step S reg source handback (ClientTakes (\<lambda>m. m) (\<lambda>m. m)) c"] s
    by (auto intro: quiet_trans)
qed

lemma in_step_wakes:
  fixes source :: string and handback :: bytes
  assumes "in_step reg [] (st, m)" "mail (em_store m) reg = Some (lst, [])" "lst < - 1" "ev_source e = source"
    and "eok (em_store (others m))" "mail (em_store (others m)) reg = Some (lst + 1, [e'])" "ev_seq_num e' = lst + 1"
  defines "c' \<equiv> durable_step S reg source handback (Wakeup (Received e) others) (st, m)"
  shows "in_step reg [e'] c' \<and> du_out (fst c') = du_out st"
proof -
  have "tracking reg (du_cursor st) (du_out st) (lst + 1) [e'] (others m)"
    using assms(1-3,5-7) word_succ_gt[OF assms(3)]
    by (auto simp: in_step_def tracking_def intro: le_less_trans order.trans[OF _ less_imp_le])
  from in_step_refill[OF this] show ?thesis using assms(1,4) by (simp add: c'_def in_step_def Let_def)
qed

lemma in_step_start:
  assumes "eok (em_store m)" "mail (em_store m) reg = Some (lst, es)" "peek_mailbox S reg 0 MAILBOX_BATCH m = Inr b"
  shows "in_step reg es (durable_start b, m)"
proof -
  have "mailbox_ok (lst, es)" using assms mail_ok by blast
  then have t: "tracking reg 0 [] lst es m" using assms by (auto simp: tracking_def mailbox_ok_def)
  have "durable_start b = durable_refill S reg m \<lparr>du_cursor = 0, du_batch = [], du_out = [], du_phase = Waiting\<rparr>"
    using assms(3) by (simp add: durable_start_def durable_refill_def)
  then show ?thesis using in_step_refill(1)[of reg "\<lparr>du_cursor = 0, du_batch = [], du_out = [], du_phase = Waiting\<rparr>"] t by simp
qed

lemma emitted_while_waiting:
  fixes m :: "('s, 'l) EventManager" and source event_type uid :: string and attrs :: attrs and payload handback :: bytes and now :: time
  assumes start: "in_step reg es (st, m)" "evisits ks (em_store m)" "\<forall>k mb. mail (em_store m) k = Some mb \<longrightarrow> fst mb < - 1"
    and sub: "mail (em_store m) reg = Some (lst, es)" "subs (em_store m) reg = Some sub" "wanted_by event sub"
  defines "emission \<equiv> \<lambda>m :: ('s, 'l) EventManager. snd (EventManager_emit S now uid ks [] source event_type attrs payload m)"
  assumes event: "event = \<lparr>ev_event_id = uid, ev_source = source, ev_event_type = event_type,
      ev_seq_num = (case fmlookup (em_seq_counters m) (source @ ''::'' @ event_type) of None \<Rightarrow> 0 | Some c \<Rightarrow> c) + 1,
      ev_attrs = attrs, ev_payload = payload, ev_emitted_at = now\<rparr>"
  defines "c' \<equiv> fold (durable_step S reg source handback)
      (replicate (length es) (ClientTakes (\<lambda>m. m) (\<lambda>m. m)) @ [Wakeup (Received event) emission, ClientTakes (\<lambda>m. m) (\<lambda>m. m)]) (st, m)"
  shows "in_step reg [] c' \<and>
    du_out (fst c') = du_out st @ map (\<lambda>e. Inr (event_record_to_proto e handback)) (es @ [event\<lparr>ev_seq_num := lst + 1\<rparr>])"
proof -
  let ?takes = "ClientTakes (\<lambda>m. m) (\<lambda>m. m) :: ('s, 'l) EventManager durable_input"
  obtain st1 m1 where c1: "fold (durable_step S reg source handback) (replicate (length es) ?takes) (st, m) = (st1, m1)"
    by (metis surj_pair)
  have d: "in_step reg [] (st1, m1)" "quiet m m1"
    "du_out st1 = du_out st @ map (\<lambda>e. Inr (event_record_to_proto e handback)) es"
    using in_step_drains[OF start(1), of source handback] c1 by auto
  from d(2) obtain s1 where s1: "m1 = m\<lparr>em_store := s1\<rparr>" "eok s1" "subs s1 = subs (em_store m)"
    "\<forall>k. map_option fst (mail s1 k) = map_option fst (mail (em_store m) k)" by (auto simp: quiet_def)
  have q: "mail (em_store m1) reg = Some (lst, [])"
    using d(1) s1(1,4) sub(1) by (auto simp: in_step_def tracking_def dest: spec[of _ reg])
  have lim: "\<forall>k mb. mail (em_store m1) k = Some mb \<longrightarrow> fst mb < - 1"
    using s1(1,4) start(3) by (metis (no_types, lifting) EventManager.select_convs(1) EventManager.surjective EventManager.update_convs(1) map_option_eq_Some option.simps(9))
  have v: "evisits ks (em_store m1)" using start(2) visits_subs[OF s1(3)] s1(1) by simp
  obtain s2 where s2: "em_store (emission m1) = s2" "eok s2"
    "mail s2 reg = map_option (appended event) (mail (em_store m1) reg)"
    using emit_effect[where m = m1 and ks = ks and source = source and event_type = event_type and uid = uid and attrs = attrs
        and payload = payload and now = now] v lim s1 sub(2,3) event
    by (auto simp: emission_def split: option.splits)
  have "ev_source event = source" "lst < - 1" using event start(3) sub(1) by auto
  obtain st2 m2 where c2: "durable_step S reg source handback (Wakeup (Received event) emission) (st1, m1) = (st2, m2)"
    by (metis surj_pair)
  have w: "in_step reg [event\<lparr>ev_seq_num := lst + 1\<rparr>] (st2, m2)" "du_out st2 = du_out st1"
    using in_step_wakes[OF d(1) q \<open>lst < - 1\<close> \<open>ev_source event = source\<close>, of emission "event\<lparr>ev_seq_num := lst + 1\<rparr>" handback] s2 q c2
    by (simp_all add: appended_def del: durable_step.simps)
  from in_step_takes[OF w(1), of source handback] show ?thesis
    using c1 c2 w(2) d(3) by (simp add: c'_def del: durable_step.simps)
qed

end

section \<open>The in-memory store\<close>

interpretation mem_events: total_event_store InMemoryEventStore_ops "\<lambda>s. fmlookup (evm_subscriptions s)"
  "\<lambda>s k. map_option mailbox_abs (fmlookup (evm_mailboxes s) k)" event_store_ok "\<lambda>ks s. iterates ks (evm_subscriptions s)"
  by unfold_locales (auto simp: mem_event_defs fmlookup_inject Let_def)

definition mailbox_events :: "string \<Rightarrow> (InMemoryEventStore, 'l) EventManager \<Rightarrow> EventRecord list" where
  "mailbox_events reg m = (case fmlookup (evm_mailboxes (em_store m)) reg of None \<Rightarrow> [] | Some mb \<Rightarrow> map snd (mb_entries mb))"

definition only_enqueues :: "string \<Rightarrow> (InMemoryEventStore, 'l) EventManager \<Rightarrow> (InMemoryEventStore, 'l) EventManager \<Rightarrow> bool" where
  "only_enqueues reg m m' \<longleftrightarrow> event_store_ok (em_store m') \<and>
     feeds (map_option mailbox_abs (fmlookup (evm_mailboxes (em_store m)) reg))
       (map_option mailbox_abs (fmlookup (evm_mailboxes (em_store m')) reg))"

lemma mem_fed: "mem_event.fed reg = only_enqueues reg"
  by (simp add: fun_eq_iff mem_event.fed_def only_enqueues_def)

lemma mem_queued: "mem_event.queued reg m = mailbox_events reg m"
  by (simp add: mem_event.queued_def mailbox_events_def mailbox_abs_def split: option.splits)

text \<open>A store with one durable subscription and one queued event.\<close>

definition demo_sub :: SubscriptionRecord where
  "demo_sub = \<lparr>sb_registration_id = ''r'', sb_source = ''src'', sb_template = fmempty, sb_delivery = Durable,
     sb_lease_id = ''l'', sb_handback = [], sb_initial_seq_num = 0\<rparr>"

definition demo_event :: "u64 \<Rightarrow> EventRecord" where
  "demo_event n = \<lparr>ev_event_id = ''e'', ev_source = ''src'', ev_event_type = ''t'', ev_seq_num = n,
     ev_attrs = fmempty, ev_payload = [], ev_emitted_at = 0\<rparr>"

definition demo_events :: "(InMemoryEventStore, unit) EventManager" where
  "demo_events = EventManager_new
     \<lparr>evm_subscriptions = fmupd ''r'' demo_sub fmempty,
      evm_mailboxes = fmupd ''r'' \<lparr>mb_last_seq = 1, mb_entries = [(1, demo_event 1)]\<rparr> fmempty\<rparr> () []"

lemma one_lt_max: "(1 :: u64) < - 1"
  by code_simp

lemma demo_events_ok:
  "event_store_ok (em_store demo_events)"
  "iterates [''r''] (evm_subscriptions (em_store demo_events))"
  "fmlookup (evm_subscriptions (em_store demo_events)) ''r'' = Some demo_sub"
  "fmlookup (evm_mailboxes (em_store demo_events)) ''r'' = Some \<lparr>mb_last_seq = 1, mb_entries = [(1, demo_event 1)]\<rparr>"
  "fmlookup (evm_mailboxes (em_store demo_events)) k = Some mb \<Longrightarrow> mb_last_seq mb < - 1"
  "em_seq_counters demo_events = fmempty"
  by (auto simp: demo_events_def EventManager_new_def event_store_ok_def btree_ok_def demo_sub_def demo_event_def iterates_def
      one_lt_max split: if_splits)

section \<open>Properties\<close>

text \<open>
  C27: an emitted event gets the next number of its source and type, is broadcast, and is appended, under the next
  number of the mailbox, to exactly the mailboxes of the durable subscriptions on its source whose template it
  matches; no other mailbox and no subscription changes.
\<close>

theorem emit_enqueues_exactly:
  assumes "event_store_ok (em_store m)" "iterates ks (evm_subscriptions (em_store m))"
    and "\<forall>k mb. fmlookup (evm_mailboxes (em_store m)) k = Some mb \<longrightarrow> mb_last_seq mb < - 1"
    and "EventManager_emit InMemoryEventStore_ops now uid ks [] source event_type attrs payload m = (r, m')"
  shows "\<exists>event. r = Inr event \<and> em_event_tx m' = em_event_tx m @ [event] \<and>
    event = \<lparr>ev_event_id = uid, ev_source = source, ev_event_type = event_type,
       ev_seq_num = (case fmlookup (em_seq_counters m) (source @ ''::'' @ event_type) of None \<Rightarrow> 0 | Some c \<Rightarrow> c) + 1,
       ev_attrs = attrs, ev_payload = payload, ev_emitted_at = now\<rparr> \<and>
    em_seq_counters m' = fmupd (source @ ''::'' @ event_type) (ev_seq_num event) (em_seq_counters m) \<and>
    em_lease_manager m' = em_lease_manager m \<and>
    event_store_ok (em_store m') \<and> evm_subscriptions (em_store m') = evm_subscriptions (em_store m) \<and>
    (\<forall>k. map_option mailbox_abs (fmlookup (evm_mailboxes (em_store m')) k) =
      (case fmlookup (evm_subscriptions (em_store m)) k of
         None \<Rightarrow> None
       | Some sub \<Rightarrow>
           map_option (if wanted_by event sub then appended event \<circ> mailbox_abs else mailbox_abs)
             (fmlookup (evm_mailboxes (em_store m)) k)))"
proof -
  have lim: "\<forall>k mb. map_option mailbox_abs (fmlookup (evm_mailboxes (em_store m)) k) = Some mb \<longrightarrow> fst mb < - 1"
    using assms(3) by (auto simp: mailbox_abs_def)
  define event where "event = \<lparr>ev_event_id = uid, ev_source = source, ev_event_type = event_type,
       ev_seq_num = (case fmlookup (em_seq_counters m) (source @ ''::'' @ event_type) of None \<Rightarrow> 0 | Some c \<Rightarrow> c) + 1,
       ev_attrs = attrs, ev_payload = payload, ev_emitted_at = now\<rparr>"
  obtain s' where s': "(r, m') = (Inr event, m\<lparr>em_seq_counters := fmupd (source @ ''::'' @ event_type) (ev_seq_num event) (em_seq_counters m),
       em_store := s', em_event_tx := em_event_tx m @ [event]\<rparr>)" "event_store_ok s'"
    "evm_subscriptions s' = evm_subscriptions (em_store m)"
    "\<forall>k. map_option mailbox_abs (fmlookup (evm_mailboxes s') k) =
      (case fmlookup (evm_subscriptions (em_store m)) k of
         Some sub \<Rightarrow> if wanted_by event sub then map_option (appended event) (map_option mailbox_abs (fmlookup (evm_mailboxes (em_store m)) k))
           else map_option mailbox_abs (fmlookup (evm_mailboxes (em_store m)) k)
       | None \<Rightarrow> None)"
    using mem_events.emit_effect[OF assms(1,2) lim, where source = source and event_type = event_type and uid = uid
        and attrs = attrs and payload = payload and now = now, folded event_def] assms(4)
    by (auto simp: event_def fmlookup_inject)
  have "map_option mailbox_abs (fmlookup (evm_mailboxes s') k) =
      (case fmlookup (evm_subscriptions (em_store m)) k of
         None \<Rightarrow> None
       | Some sub \<Rightarrow>
           map_option (if wanted_by event sub then appended event \<circ> mailbox_abs else mailbox_abs)
             (fmlookup (evm_mailboxes (em_store m)) k))" for k
    using s'(4) by (cases "fmlookup (evm_subscriptions (em_store m)) k") (simp_all add: option.map_comp)
  then show ?thesis using s'(1-3) by (intro exI[of _ event] conjI allI) (simp_all add: event_def)
qed

theorem emit_enqueues_exactly_witness:
  "\<exists>event. EventManager_emit InMemoryEventStore_ops 0 ''e'' [''r''] [] ''src'' ''t'' fmempty [] demo_events =
     (Inr event, snd (EventManager_emit InMemoryEventStore_ops 0 ''e'' [''r''] [] ''src'' ''t'' fmempty [] demo_events)) \<and>
     wanted_by event demo_sub"
proof -
  obtain r m' where e: "EventManager_emit InMemoryEventStore_ops 0 ''e'' [''r''] [] ''src'' ''t'' fmempty [] demo_events = (r, m')"
    by (metis surj_pair)
  have l: "\<forall>k mb. fmlookup (evm_mailboxes (em_store demo_events)) k = Some mb \<longrightarrow> mb_last_seq mb < - 1"
    using demo_events_ok(5) by blast
  obtain event where "r = Inr event" "event = demo_event 1"
    using emit_enqueues_exactly[OF demo_events_ok(1,2) l e] by (auto simp: demo_events_ok(6) demo_event_def)
  then show ?thesis using e by (simp add: wanted_by_def demo_sub_def demo_event_def wants_def parse_template_def)
qed

text \<open>
  C6: a durable stream loses nothing and keeps its order. While other tasks only add to the mailbox, an event that
  is queued at some point of the run is, at every later point, still queued or was sent on the stream, whatever the
  client does; and the numbers of the events sent are strictly increasing.
\<close>

theorem durable_stream_loses_nothing:
  assumes "event_store_ok (em_store m)" "fmlookup (evm_mailboxes (em_store m)) reg = Some mb"
    and "peek_mailbox InMemoryEventStore_ops reg 0 MAILBOX_BATCH m = Inr first_batch"
    and "well_fed InMemoryEventStore_ops reg source handback (only_enqueues reg) (earlier @ later) (durable_start first_batch, m)"
    and "durable_loop InMemoryEventStore_ops reg source handback first_batch earlier m = (st1, m1)"
    and "durable_loop InMemoryEventStore_ops reg source handback first_batch (earlier @ later) m = (st2, m2)"
    and "e \<in> set (mailbox_events reg m1)"
  shows "(e \<in> set (mailbox_events reg m2) \<or> Inr (event_record_to_proto e handback) \<in> set (du_out st2)) \<and>
    sorted_wrt (<) (map pe_seq_num (delivered (du_out st2)))"
proof -
  have "map_option mailbox_abs (fmlookup (evm_mailboxes (em_store m)) reg) = Some (fst (mailbox_abs mb), snd (mailbox_abs mb))"
    using assms(2) by simp
  note inv0 = mem_event.start_inv[OF assms(1) this assms(3)]
  note fed = assms(4)[folded mem_fed, unfolded well_fed_append]
  let ?run = "fold (durable_step InMemoryEventStore_ops reg source handback)"
  have c: "?run earlier (durable_start first_batch, m) = (st1, m1)" "?run later (st1, m1) = (st2, m2)"
    using assms(5,6) by (simp_all add: durable_loop_def del: durable_step.simps)
  have "mem_event.durable_inv reg (st1, m1)"
    using mem_event.run_keeps[OF inv0 conjunct1[OF fed]] c(1) by simp
  from mem_event.run_keeps[OF this, of source handback later] show ?thesis
    using fed c assms(7) by (auto simp: mem_event.kept_def mem_event.durable_inv_def mem_queued)
qed

definition demo_other :: "(InMemoryEventStore, unit) EventManager \<Rightarrow> (InMemoryEventStore, unit) EventManager" where
  "demo_other m = m\<lparr>em_store := snd (InMemoryEventStore_enqueue ''r'' (demo_event 0) (em_store m))\<rparr>"

definition demo_inputs :: "(InMemoryEventStore, unit) EventManager durable_input list" where
  "demo_inputs = [ClientTakes demo_other (\<lambda>m. m)]"

lemma demo_well_fed:
  "well_fed InMemoryEventStore_ops ''r'' ''src'' [] (only_enqueues ''r'') demo_inputs (durable_start [demo_event 1], demo_events)"
proof -
  let ?m = "\<lambda>mb. demo_events\<lparr>em_store := (em_store demo_events)\<lparr>evm_mailboxes := fmupd ''r'' mb fmempty\<rparr>\<rparr>"
  let ?two = "\<lparr>mb_last_seq = 2, mb_entries = [(1, demo_event 1), (2, demo_event 2)]\<rparr>"
  let ?one = "\<lparr>mb_last_seq = 2, mb_entries = [(2, demo_event 2)]\<rparr>"
  have m: "demo_other demo_events = ?m ?two" "snd (ack_mailbox InMemoryEventStore_ops ''r'' [1] (?m ?two)) = ?m ?one"
    by (simp_all add: demo_other_def demo_events_def EventManager_new_def mem_event_defs Let_def demo_event_def
        ack_mailbox_def btree_remove_def)
  have "(1 :: u64) \<le> 2" "(1 :: u64) < 2" by simp_all
  then have "only_enqueues ''r'' demo_events (?m ?two)" "only_enqueues ''r'' (?m ?one) (?m ?one)"
    by (auto simp: only_enqueues_def demo_events_def EventManager_new_def event_store_ok_def btree_ok_def demo_sub_def
        demo_event_def feeds_def mailbox_abs_def)
  then show ?thesis using m
    by (simp add: demo_inputs_def fed_step_def durable_start_def demo_event_def)
qed

theorem durable_stream_loses_nothing_witness:
  "(let c = durable_loop InMemoryEventStore_ops ''r'' ''src'' [] [demo_event 1] demo_inputs demo_events in
    (demo_event 1 \<in> set (mailbox_events ''r'' (snd c)) \<or>
     Inr (event_record_to_proto (demo_event 1) []) \<in> set (du_out (fst c))) \<and>
    sorted_wrt (<) (map pe_seq_num (delivered (du_out (fst c)))))"
proof -
  have p: "peek_mailbox InMemoryEventStore_ops ''r'' 0 MAILBOX_BATCH demo_events = Inr [demo_event 1]"
    by (simp add: peek_mailbox_def mem_event_defs demo_events_ok(4) btree_above_def MAILBOX_BATCH_def)
  have l: "durable_loop InMemoryEventStore_ops ''r'' ''src'' [] [demo_event 1] [] demo_events =
      (durable_start [demo_event 1], demo_events)"
    by (simp add: durable_loop_def)
  have q: "demo_event 1 \<in> set (mailbox_events ''r'' demo_events)" by (simp add: mailbox_events_def demo_events_ok(4))
  show ?thesis
    using durable_stream_loses_nothing[OF demo_events_ok(1,4) p, of "''src''" "[]" "[]" demo_inputs, OF _ l _ q] demo_well_fed
    by (cases "durable_loop InMemoryEventStore_ops ''r'' ''src'' [] [demo_event 1] demo_inputs demo_events") (simp add: Let_def)
qed

text \<open>
  C7: an emitted event reaches the client. A client that reads a durable subscription with a backlog gets the whole
  backlog in order; when an event the subscription wants is then emitted, the stream wakes up and the client gets it
  under the next number of the mailbox. Nothing is left queued.
\<close>

theorem emitted_event_is_delivered:
  fixes m :: "(InMemoryEventStore, 'l) EventManager"
  assumes "event_store_ok (em_store m)" "iterates ks (evm_subscriptions (em_store m))"
    and "\<forall>k mb. fmlookup (evm_mailboxes (em_store m)) k = Some mb \<longrightarrow> mb_last_seq mb < - 1"
    and "fmlookup (evm_subscriptions (em_store m)) reg = Some sub" "fmlookup (evm_mailboxes (em_store m)) reg = Some mb"
    and "event = \<lparr>ev_event_id = uid, ev_source = sb_source sub, ev_event_type = event_type,
       ev_seq_num = (case fmlookup (em_seq_counters m) (sb_source sub @ ''::'' @ event_type) of None \<Rightarrow> 0 | Some c \<Rightarrow> c) + 1,
       ev_attrs = attrs, ev_payload = payload, ev_emitted_at = now\<rparr>"
    and "wanted_by event sub"
  shows "\<exists>m'. EventService_receive InMemoryEventStore_ops reg rx
      (replicate (length (mailbox_events reg m)) (ClientTakes (\<lambda>m. m) (\<lambda>m. m)) @
       [Wakeup (Received event)
          (\<lambda>m. snd (EventManager_emit InMemoryEventStore_ops now uid ks [] (sb_source sub) event_type attrs payload m)),
        ClientTakes (\<lambda>m. m) (\<lambda>m. m)]) m =
    (Inr (map (\<lambda>e. Inr (event_record_to_proto e (sb_handback sub)))
       (mailbox_events reg m @ [event\<lparr>ev_seq_num := mb_last_seq mb + 1\<rparr>])), m') \<and>
    mailbox_events reg m' = []"
proof -
  let ?es = "mailbox_events reg m"
  have lim: "\<forall>k mb. map_option mailbox_abs (fmlookup (evm_mailboxes (em_store m)) k) = Some mb \<longrightarrow> fst mb < - 1"
    using assms(3) by (auto simp: mailbox_abs_def)
  have q: "map_option mailbox_abs (fmlookup (evm_mailboxes (em_store m)) reg) = Some (mb_last_seq mb, ?es)"
    using assms(5) by (simp add: mailbox_abs_def mailbox_events_def)
  obtain b where b: "peek_mailbox InMemoryEventStore_ops reg 0 MAILBOX_BATCH m = Inr b"
    by (simp add: peek_mailbox_def mem_event_defs)
  note e = mem_events.emitted_while_waiting[OF mem_events.in_step_start[OF assms(1) q b] assms(2) lim q assms(4,7,6),
      where handback = "sb_handback sub"]
  obtain st' m' where c: "durable_loop InMemoryEventStore_ops reg (sb_source sub) (sb_handback sub) b
      (replicate (length ?es) (ClientTakes (\<lambda>m. m) (\<lambda>m. m)) @
       [Wakeup (Received event)
          (\<lambda>m. snd (EventManager_emit InMemoryEventStore_ops now uid ks [] (sb_source sub) event_type attrs payload m)),
        ClientTakes (\<lambda>m. m) (\<lambda>m. m)]) m = (st', m')"
    by (metis surj_pair)
  have "du_out st' = map (\<lambda>e. Inr (event_record_to_proto e (sb_handback sub))) (?es @ [event\<lparr>ev_seq_num := mb_last_seq mb + 1\<rparr>])"
    "mem_event.queued reg m' = []"
    using e c[unfolded durable_loop_def] mem_event.tracking_queued
    by (fastforce simp: durable_start_def mem_events.in_step_def simp del: durable_step.simps)+
  then show ?thesis using assms(4,7) b c
    by (simp add: EventService_receive_def EventManager_get_subscription_def mem_event_defs wanted_by_def mem_queued del: durable_step.simps)
qed

theorem emitted_event_is_delivered_witness:
  "\<exists>m'. EventService_receive InMemoryEventStore_ops ''r'' []
      (replicate (length (mailbox_events ''r'' demo_events)) (ClientTakes (\<lambda>m. m) (\<lambda>m. m)) @
       [Wakeup (Received (demo_event 1))
          (\<lambda>m. snd (EventManager_emit InMemoryEventStore_ops 0 ''e'' [''r''] [] ''src'' ''t'' fmempty [] m)),
        ClientTakes (\<lambda>m. m) (\<lambda>m. m)]) demo_events =
    (Inr [Inr (event_record_to_proto (demo_event 1) []), Inr (event_record_to_proto (demo_event 2) [])], m') \<and>
    mailbox_events ''r'' m' = []"
proof -
  have l: "\<forall>k mb. fmlookup (evm_mailboxes (em_store demo_events)) k = Some mb \<longrightarrow> mb_last_seq mb < - 1"
    using demo_events_ok(5) by blast
  have w: "wanted_by (demo_event 1) demo_sub"
    by (simp add: wanted_by_def demo_sub_def demo_event_def wants_def parse_template_def)
  have s: "sb_source demo_sub = ''src''" "sb_handback demo_sub = []" by (simp_all add: demo_sub_def)
  have e: "mailbox_events ''r'' demo_events = [demo_event 1]" "(demo_event 1)\<lparr>ev_seq_num := 2\<rparr> = demo_event 2"
    by (simp_all add: mailbox_events_def demo_events_ok(4) demo_event_def)
  have d: "demo_event 1 = \<lparr>ev_event_id = ''e'', ev_source = sb_source demo_sub, ev_event_type = ''t'',
      ev_seq_num = (case fmlookup (em_seq_counters demo_events) (sb_source demo_sub @ ''::'' @ ''t'') of None \<Rightarrow> 0 | Some c \<Rightarrow> c) + 1,
      ev_attrs = fmempty, ev_payload = [], ev_emitted_at = 0\<rparr>"
    by (simp add: demo_event_def demo_events_ok(6) s)
  show ?thesis
    using emitted_event_is_delivered[OF demo_events_ok(1,2) l demo_events_ok(3,4) d w, of "[]"]
    by (simp add: e s)
qed

end
