(* ===== verification/Sweep.thy ===== *)
theory Sweep
  imports Space_Props Txn_Commit Event_Props "HOL-Library.Multiset" "HOL-Library.List_Lexorder" "HOL-Library.Char_ord"
begin

text \<open>
  The orphan sweep of \<^verbatim>\<open>coordin8-djinn/src/sweep.rs\<close> and its four wirings in \<^verbatim>\<open>coordin8-djinn/src/services.rs\<close>. A swept
  service is a record of the closures the sweep is given; the locale \<open>sweepable\<close> is what they promise, and its
  lemmas about passes are used through interpretations on the Registry and the event manager.
\<close>

section \<open>The sweep\<close>

record Held =
  hd_lease_id :: string
  hd_id :: string
  hd_kind :: string

definition Held_new :: "string \<Rightarrow> string \<Rightarrow> string \<Rightarrow> Held" where
  "Held_new kind h_id lease_id = \<lparr>hd_lease_id = lease_id, hd_id = h_id, hd_kind = kind\<rparr>"

text \<open>
  What is leaseless is a hash set: a list without repetitions, of which \<open>order\<close> gives the order of the visit.
\<close>

record OrphanTracker =
  ot_suspects :: "Held list"

definition OrphanTracker_default :: OrphanTracker where
  "OrphanTracker_default = \<lparr>ot_suspects = []\<rparr>"

definition OrphanTracker_pass :: "(Held list \<Rightarrow> Held list) \<Rightarrow> Held list \<Rightarrow> OrphanTracker \<Rightarrow> Held list \<times> OrphanTracker" where
  "OrphanTracker_pass order leaseless t =
     (case partition (\<lambda>h. h \<in> set (ot_suspects t)) (order leaseless) of
        (confirmed, fresh) \<Rightarrow> (confirmed, t\<lparr>ot_suspects := fresh\<rparr>))"

text \<open>
  The closures of a swept service over its state, with the lease lookup. \<open>'o\<close> is the order in which the maps of the
  state are visited.
\<close>

record ('o, 'w) swept =
  swp_list :: "'o \<Rightarrow> 'w \<Rightarrow> Held list result"
  swp_get :: "string \<Rightarrow> 'w \<Rightarrow> LeaseRecord option result"
  swp_reclaim :: "'o \<Rightarrow> Held \<Rightarrow> 'w \<Rightarrow> 'w"

text \<open>The two loops of a pass. \<open>gaps\<close> is what other tasks do before each call; past its end nothing happens.\<close>

definition gap :: "('w \<Rightarrow> 'w) list \<Rightarrow> 'w \<Rightarrow> 'w" where
  "gap gaps w = (case gaps of [] \<Rightarrow> w | g # _ \<Rightarrow> g w)"

fun find_leaseless ::
  "(string \<Rightarrow> 'w \<Rightarrow> LeaseRecord option result) \<Rightarrow> ('w \<Rightarrow> 'w) list \<Rightarrow> Held list \<Rightarrow> Held list \<Rightarrow> 'w \<Rightarrow> Held list \<times> 'w"
where
  "find_leaseless get gaps [] leaseless w = (leaseless, w)"
| "find_leaseless get gaps (held # helds) leaseless w =
     (let w' = gap gaps w in
      find_leaseless get (tl gaps) helds
        (case get (hd_lease_id held) w' of Inr None \<Rightarrow> List.insert held leaseless | _ \<Rightarrow> leaseless) w')"

fun reclaim_loop ::
  "('o \<Rightarrow> Held \<Rightarrow> 'w \<Rightarrow> 'w) \<Rightarrow> ('w \<Rightarrow> 'o) \<Rightarrow> ('w \<Rightarrow> 'w) list \<Rightarrow> Held list \<Rightarrow> 'w \<Rightarrow> 'w"
where
  "reclaim_loop reclaim visit gaps [] w = w"
| "reclaim_loop reclaim visit gaps (held # helds) w =
     (let w' = gap gaps w in reclaim_loop reclaim visit (tl gaps) helds (reclaim (visit w') held w'))"

definition sweep_once ::
  "('o, 'w) swept \<Rightarrow> ('w \<Rightarrow> 'o) \<Rightarrow> (Held list \<Rightarrow> Held list) \<Rightarrow> ('w \<Rightarrow> 'w) list \<Rightarrow> ('w \<Rightarrow> 'w) list
   \<Rightarrow> OrphanTracker \<times> 'w \<Rightarrow> nat result \<times> OrphanTracker \<times> 'w"
where
  "sweep_once ops visit order gaps gaps' = (\<lambda>(tracker, w).
     case swp_list ops (visit w) w of
       Inl e \<Rightarrow> (Inl e, tracker, w)
     | Inr helds \<Rightarrow>
         (case find_leaseless (swp_get ops) gaps helds [] w of
            (leaseless, w1) \<Rightarrow>
              (case OrphanTracker_pass order leaseless tracker of
                 (confirmed, tracker') \<Rightarrow>
                   (Inr (length confirmed), tracker', reclaim_loop (swp_reclaim ops) visit gaps' confirmed w1))))"

text \<open>The passes of the sweep's task, each with what other tasks do during it and after it.\<close>

record 'w pass_script =
  ps_lookups :: "('w \<Rightarrow> 'w) list"
  ps_reclaims :: "('w \<Rightarrow> 'w) list"
  ps_after :: "'w \<Rightarrow> 'w"

definition orphan_sweep ::
  "('o, 'w) swept \<Rightarrow> ('w \<Rightarrow> 'o) \<Rightarrow> (Held list \<Rightarrow> Held list) \<Rightarrow> 'w pass_script list \<Rightarrow> 'w \<Rightarrow> OrphanTracker \<times> 'w"
where
  "orphan_sweep ops visit order passes w =
     fold (\<lambda>p c. case sweep_once ops visit order (ps_lookups p) (ps_reclaims p) c of (r, tracker, w') \<Rightarrow> (tracker, ps_after p w'))
       passes (OrphanTracker_default, w)"

section \<open>The wirings\<close>

definition registry_sweep ::
  "'r RegistryStore \<Rightarrow> 's LeaseStore \<Rightarrow> (string list, ('r, 's LeaseManager) RegistryServiceImpl) swept"
where
  "registry_sweep R S = \<lparr>
     swp_list = (\<lambda>ks svc. map_sum id (map (\<lambda>e. Held_new ''entry'' (re_capability_id e) (re_lease_id e))) (rg_list_all R ks (rsv_index svc))),
     swp_get = (\<lambda>l svc. LeaseManager_get S l (rsv_lease_manager svc)),
     swp_reclaim = (\<lambda>ks held svc.
       case RegistryIndex_unregister_by_lease R (hd_lease_id held) (rsv_index svc) of
         (Inr (Some entry), s') \<Rightarrow>
           svc\<lparr>rsv_index := s', rsv_event_tx := rsv_event_tx svc @ [\<lparr>rce_event_type = 1, rce_entry = entry\<rparr>]\<rparr>
       | (_, s') \<Rightarrow> svc\<lparr>rsv_index := s'\<rparr>)\<rparr>"

definition event_sweep :: "'e EventStore \<Rightarrow> 's LeaseStore \<Rightarrow> (string list, ('e, 's LeaseManager) EventManager) swept" where
  "event_sweep E S = \<lparr>
     swp_list = (\<lambda>ks m. map_sum id (map (\<lambda>s. Held_new ''subscription'' (sb_registration_id s) (sb_lease_id s)))
       (es_list_subscriptions E ks (em_store m))),
     swp_get = (\<lambda>l m. LeaseManager_get S l (em_lease_manager m)),
     swp_reclaim = (\<lambda>ks held m. snd (unsubscribe_by_lease E ks (hd_lease_id held) m))\<rparr>"

definition space_sweep ::
  "'p SpaceStore \<Rightarrow> 's LeaseStore \<Rightarrow> (string list \<times> string list, ('p, 's LeaseManager, 'e) SpaceManager) swept"
where
  "space_sweep P S = \<lparr>
     swp_list = (\<lambda>(ks, wks) m.
       case sp_list_all P ks (sx_store m) of
         Inl e \<Rightarrow> Inl e
       | Inr tuples \<Rightarrow>
           (case sp_list_watches P wks (sx_store m) of
              Inl e \<Rightarrow> Inl e
            | Inr watches \<Rightarrow>
                Inr (map (\<lambda>t. Held_new ''tuple'' (tp_tuple_id t) (tp_lease_id t)) tuples @
                     map (\<lambda>v. Held_new ''watch'' (sw_watch_id v) (sw_lease_id v)) watches))),
     swp_get = (\<lambda>l m. LeaseManager_get S l (sx_lease_manager m)),
     swp_reclaim = (\<lambda>_ held m.
       if hd_kind held = ''watch'' then on_watch_expired P (hd_lease_id held) m else on_tuple_expired P (hd_lease_id held) m)\<rparr>"

definition txn_sweep ::
  "'t TxnStore \<Rightarrow> 's LeaseStore \<Rightarrow> 'w net \<Rightarrow> (nat \<Rightarrow> nat \<Rightarrow> nat list) \<Rightarrow> (string list, ('t, 's LeaseManager, 'w) TxnManager) swept"
where
  "txn_sweep T S N sched = \<lparr>
     swp_list = (\<lambda>ks m. map_sum id (\<lambda>ts. map (\<lambda>t. Held_new ''txn'' (tx_txn_id t) (tx_lease_id t)) (filter (\<lambda>t. tx_state t = Active) ts))
       (ts_list_all T ks (tm_store m))),
     swp_get = (\<lambda>l m. LeaseManager_get S l (tm_lease_manager m)),
     swp_reclaim = (\<lambda>ks held m. snd (TxnManager_abort_expired T N sched (hd_id held) m))\<rparr>"

section \<open>What the closures promise\<close>

text \<open>
  The listing is the set of lease-held resources, and reclaiming a resource removes nothing held under another lease.
  The lease lookup is arbitrary: it may fail, and a failure is not absence.
\<close>

definition no_lease :: "('o, 'w) swept \<Rightarrow> Held \<Rightarrow> 'w \<Rightarrow> bool" where
  "no_lease ops h w = (case swp_get ops (hd_lease_id h) w of Inr None \<Rightarrow> True | _ \<Rightarrow> False)"

lemma no_lease_iff: "no_lease ops h w \<longleftrightarrow> swp_get ops (hd_lease_id h) w = Inr None"
  by (simp add: no_lease_def split: sum.split option.split)

definition stable_under :: "('w \<Rightarrow> bool) \<Rightarrow> ('w \<Rightarrow> 'w) list \<Rightarrow> bool" where
  "stable_under P gaps \<longleftrightarrow> (\<forall>g \<in> set gaps. \<forall>w. P w \<longrightarrow> P (g w))"

lemma stable_gap: "stable_under P gaps \<Longrightarrow> P w \<Longrightarrow> P (gap gaps w)"
  by (cases gaps) (auto simp: gap_def stable_under_def)

lemma stable_tl: "stable_under P gaps \<Longrightarrow> stable_under P (tl gaps)"
  by (cases gaps) (auto simp: stable_under_def)

lemma stable_append [simp]: "stable_under P (gaps @ gaps') \<longleftrightarrow> stable_under P gaps \<and> stable_under P gaps'"
  by (auto simp: stable_under_def)

lemma find_leaseless_distinct:
  "distinct acc \<Longrightarrow> find_leaseless get gaps hs acc w = (leaseless, w') \<Longrightarrow> distinct leaseless"
proof (induction hs arbitrary: gaps acc w)
  case Nil
  then show ?case by simp
next
  case (Cons h hs)
  let ?acc = "case get (hd_lease_id h) (gap gaps w) of Inr None \<Rightarrow> List.insert h acc | _ \<Rightarrow> acc"
  have "distinct ?acc" using Cons.prems(1) by (simp split: sum.split option.split)
  then show ?case using Cons.IH[of ?acc "tl gaps" "gap gaps w"] Cons.prems(2) by (simp add: Let_def)
qed

lemma find_leaseless_stable:
  "stable_under P gaps \<Longrightarrow> P w \<Longrightarrow> find_leaseless get gaps hs acc w = (leaseless, w') \<Longrightarrow> P w'"
proof (induction hs arbitrary: gaps acc w)
  case Nil
  then show ?case by simp
next
  case (Cons h hs)
  show ?case
    using Cons.IH[OF stable_tl[OF Cons.prems(1)] stable_gap[OF Cons.prems(1,2)]] Cons.prems(3) by (simp add: Let_def)
qed

lemma reclaim_loop_stable:
  "stable_under P gaps \<Longrightarrow> P w \<Longrightarrow> stable_under P (map (\<lambda>x w. reclaim (visit w) x w) xs) \<Longrightarrow> P (reclaim_loop reclaim visit gaps xs w)"
proof (induction xs arbitrary: gaps w)
  case Nil
  then show ?case by simp
next
  case (Cons x xs)
  have "P (reclaim (visit (gap gaps w)) x (gap gaps w))"
    using stable_gap[OF Cons.prems(1,2)] Cons.prems(3) by (simp add: stable_under_def)
  then show ?case using Cons.IH[OF stable_tl[OF Cons.prems(1)]] Cons.prems(3) by (simp add: Let_def stable_under_def)
qed

lemma find_leaseless_sees:
  assumes "\<And>w. P w \<Longrightarrow> \<not> no_lease ops h w" "stable_under P gaps" "P w"
    and "find_leaseless (swp_get ops) gaps hs acc w = (leaseless, w')" "\<forall>x \<in> set acc. hd_lease_id x \<noteq> hd_lease_id h"
  shows "\<forall>x \<in> set leaseless. hd_lease_id x \<noteq> hd_lease_id h"
  using assms(2-5)
proof (induction hs arbitrary: gaps acc w)
  case Nil
  then show ?case by simp
next
  case (Cons x hs)
  let ?acc = "case swp_get ops (hd_lease_id x) (gap gaps w) of Inr None \<Rightarrow> List.insert x acc | _ \<Rightarrow> acc"
  note g = stable_gap[OF Cons.prems(1,2)]
  have "\<forall>x \<in> set ?acc. hd_lease_id x \<noteq> hd_lease_id h"
    using Cons.prems(4) assms(1)[OF g] by (auto simp: no_lease_def split: sum.splits option.splits)
  then show ?case using Cons.IH[OF stable_tl[OF Cons.prems(1)] g, of ?acc] Cons.prems(3) by (simp add: Let_def)
qed

locale sweepable =
  fixes ops :: "('o, 'w) swept"
    and held :: "'w \<Rightarrow> Held set"
    and wok :: "'w \<Rightarrow> bool"
    and wvisits :: "'o \<Rightarrow> 'w \<Rightarrow> bool"
  assumes list_held: "wok w \<Longrightarrow> wvisits v w \<Longrightarrow> swp_list ops v w = Inr hs \<Longrightarrow> set hs = held w"
    and reclaim_keeps: "wok w \<Longrightarrow> wvisits v w \<Longrightarrow> wok (swp_reclaim ops v h w) \<and>
          (\<forall>l. swp_get ops l (swp_reclaim ops v h w) = swp_get ops l w) \<and> held (swp_reclaim ops v h w) \<subseteq> held w \<and>
          (\<forall>h' \<in> held w. hd_lease_id h' \<noteq> hd_lease_id h \<longrightarrow> h' \<in> held (swp_reclaim ops v h w))"
begin

definition holds :: "Held \<Rightarrow> 'w \<Rightarrow> bool" where
  "holds h w \<longleftrightarrow> wok w \<and> h \<in> held w"

definition leased :: "Held \<Rightarrow> 'w \<Rightarrow> bool" where
  "leased h w \<longleftrightarrow> wok w \<and> h \<in> held w \<and> \<not> no_lease ops h w"

lemma reclaim_others:
  assumes "\<And>w. wok w \<Longrightarrow> wvisits (visit w) w" "\<forall>x \<in> set xs. hd_lease_id x \<noteq> hd_lease_id h"
  shows "stable_under (holds h) (map (\<lambda>x w. swp_reclaim ops (visit w) x w) xs)"
    "stable_under (leased h) (map (\<lambda>x w. swp_reclaim ops (visit w) x w) xs)"
proof -
  have k: "holds h (swp_reclaim ops (visit w) x w) \<and> (leased h w \<longrightarrow> leased h (swp_reclaim ops (visit w) x w))"
    if "holds h w" "x \<in> set xs" for x w
    using reclaim_keeps[of w "visit w" x] assms that by (auto simp: holds_def leased_def no_lease_def)
  then show "stable_under (holds h) (map (\<lambda>x w. swp_reclaim ops (visit w) x w) xs)"
    "stable_under (leased h) (map (\<lambda>x w. swp_reclaim ops (visit w) x w) xs)"
    by (auto simp: stable_under_def) (simp add: leased_def holds_def)
qed

text \<open>A pass reclaims nothing under a lease that no suspect names.\<close>

lemma pass_spares_unsuspected:
  assumes "holds h w" "stable_under (holds h) (gaps @ gaps')"
    and visit: "\<And>w. wok w \<Longrightarrow> wvisits (visit w) w"
    and sus: "\<forall>x \<in> set (ot_suspects t). hd_lease_id x \<noteq> hd_lease_id h"
    and run: "sweep_once ops visit order gaps gaps' (t, w) = (r, t', w')"
  shows "holds h w'"
proof (cases "swp_list ops (visit w) w")
  case (Inl e)
  then show ?thesis using run assms(1) by (simp add: sweep_once_def)
next
  case (Inr hs)
  obtain leaseless w1 where f: "find_leaseless (swp_get ops) gaps hs [] w = (leaseless, w1)" by (metis surj_pair)
  have w': "w' = reclaim_loop (swp_reclaim ops) visit gaps' (filter (\<lambda>x. x \<in> set (ot_suspects t)) (order leaseless)) w1"
    using run Inr f by (auto simp: sweep_once_def OrphanTracker_pass_def)
  have "holds h w1" using find_leaseless_stable[of "holds h", OF _ assms(1) f] assms(2) by simp
  moreover have "stable_under (holds h) (map (\<lambda>x w. swp_reclaim ops (visit w) x w) (filter (\<lambda>x. x \<in> set (ot_suspects t)) (order leaseless)))"
    by (rule reclaim_others(1)[OF visit]) (use sus in auto)
  ultimately show ?thesis unfolding w' using assms(2) reclaim_loop_stable[of "holds h" gaps' w1 "swp_reclaim ops" visit] by simp
qed

text \<open>A pass that sees the lease at every lookup reclaims nothing under it and suspects nothing under it.\<close>

lemma pass_clears_leased:
  assumes "leased h w" "stable_under (leased h) (gaps @ gaps')"
    and visit: "\<And>w. wok w \<Longrightarrow> wvisits (visit w) w" and ord: "\<And>xs. set (order xs) = set xs"
    and run: "sweep_once ops visit order gaps gaps' (t, w) = (Inr n, t', w')"
  shows "leased h w' \<and> (\<forall>x \<in> set (ot_suspects t'). hd_lease_id x \<noteq> hd_lease_id h)"
proof -
  obtain hs where hs: "swp_list ops (visit w) w = Inr hs" using run by (cases "swp_list ops (visit w) w") (auto simp: sweep_once_def)
  obtain leaseless w1 where f: "find_leaseless (swp_get ops) gaps hs [] w = (leaseless, w1)" by (metis surj_pair)
  have t': "w' = reclaim_loop (swp_reclaim ops) visit gaps' (filter (\<lambda>x. x \<in> set (ot_suspects t)) (order leaseless)) w1"
    "ot_suspects t' = filter (\<lambda>x. x \<notin> set (ot_suspects t)) (order leaseless)"
    using run hs f by (auto simp: sweep_once_def OrphanTracker_pass_def comp_def)
  have l: "\<forall>x \<in> set leaseless. hd_lease_id x \<noteq> hd_lease_id h"
    using find_leaseless_sees[of "leased h" ops h, OF _ _ assms(1) f] assms(2) by (simp add: leased_def)
  have "leased h w1" using find_leaseless_stable[of "leased h", OF _ assms(1) f] assms(2) by simp
  moreover have "stable_under (leased h) (map (\<lambda>x w. swp_reclaim ops (visit w) x w) (filter (\<lambda>x. x \<in> set (ot_suspects t)) (order leaseless)))"
    by (rule reclaim_others(2)[OF visit]) (use l ord in auto)
  ultimately have "leased h w'" unfolding t'(1) using assms(2) reclaim_loop_stable[of "leased h" gaps' w1 "swp_reclaim ops" visit] by simp
  then show ?thesis using t'(2) ord l by auto
qed

end

text \<open>A provider that does not fail, with one resource per lease.\<close>

locale total_sweepable = sweepable ops held wok wvisits
  for ops :: "('o, 'w) swept" and held wok wvisits +
  assumes swept_list_total: "wok w \<Longrightarrow> \<exists>hs. swp_list ops v w = Inr hs"
    and reclaim_gone: "wok w \<Longrightarrow> wvisits v w \<Longrightarrow> h \<in> held w \<Longrightarrow> h \<notin> held (swp_reclaim ops v h w)"
    and held_unique: "wok w \<Longrightarrow> h \<in> held w \<Longrightarrow> h' \<in> held w \<Longrightarrow> hd_lease_id h = hd_lease_id h' \<Longrightarrow> h = h'"
begin

lemma find_leaseless_quiet:
  "\<exists>leaseless. find_leaseless (swp_get ops) [] hs acc w = (leaseless, w) \<and>
     set leaseless = set acc \<union> {h \<in> set hs. no_lease ops h w}"
proof (induction hs arbitrary: acc)
  case Nil
  then show ?case by simp
next
  case (Cons h hs)
  let ?acc = "case swp_get ops (hd_lease_id h) w of Inr None \<Rightarrow> List.insert h acc | _ \<Rightarrow> acc"
  have "set ?acc = set acc \<union> {x. x = h \<and> no_lease ops x w}"
    by (cases "no_lease ops h w") (auto simp: no_lease_iff split: sum.splits option.splits)
  then show ?case using Cons[of ?acc] by (auto simp: gap_def)
qed

lemma reclaim_loop_quiet:
  assumes "wok w" "\<And>w. wok w \<Longrightarrow> wvisits (visit w) w" "set xs \<subseteq> held w" "distinct xs"
  shows "wok (reclaim_loop (swp_reclaim ops) visit [] xs w) \<and> held (reclaim_loop (swp_reclaim ops) visit [] xs w) = held w - set xs"
  using assms(1,3,4)
proof (induction xs arbitrary: w)
  case Nil
  then show ?case by simp
next
  case (Cons x xs)
  note v = assms(2)[OF Cons.prems(1)]
  note k = reclaim_keeps[OF Cons.prems(1) v, of x]
  have "held (swp_reclaim ops (visit w) x w) = held w - {x}"
    using k reclaim_gone[OF Cons.prems(1) v, of x] held_unique[OF Cons.prems(1)] Cons.prems(2) by auto
  then show ?case using Cons.IH[of "swp_reclaim ops (visit w) x w"] Cons.prems k
    by (auto simp: gap_def)
qed

lemma two_quiet_passes:
  assumes "wok w" "\<And>w. wok w \<Longrightarrow> wvisits (visit w) w" "\<And>xs. mset (order xs) = mset xs"
  shows "\<exists>t' w'. orphan_sweep ops visit order [\<lparr>ps_lookups = [], ps_reclaims = [], ps_after = \<lambda>w. w\<rparr>,
      \<lparr>ps_lookups = [], ps_reclaims = [], ps_after = \<lambda>w. w\<rparr>] w = (t', w') \<and>
    wok w' \<and> held w' = {h \<in> held w. \<not> no_lease ops h w} \<and> (\<exists>xs. w' = reclaim_loop (swp_reclaim ops) visit [] xs w)"
proof -
  obtain hs where hs: "swp_list ops (visit w) w = Inr hs" using swept_list_total[OF assms(1)] by blast
  have held: "set hs = held w" using list_held[OF assms(1) assms(2)[OF assms(1)] hs] .
  obtain lost where l: "find_leaseless (swp_get ops) [] hs [] w = (lost, w)" "set lost = {h \<in> held w. no_lease ops h w}"
    using find_leaseless_quiet[of hs "[]" w] held by auto
  have d: "distinct lost" using find_leaseless_distinct[OF distinct.simps(1)[THEN iffD2] l(1)] by simp
  have o: "set (order lost) = set lost" "distinct (order lost)"
    using assms(3)[of lost] d by (metis set_mset_mset, metis mset_eq_imp_distinct_iff)
  have "wok (reclaim_loop (swp_reclaim ops) visit [] (order lost) w) \<and>
      held (reclaim_loop (swp_reclaim ops) visit [] (order lost) w) = held w - set (order lost)"
    by (rule reclaim_loop_quiet[OF assms(1,2)]) (use o l(2) in auto)
  moreover have "orphan_sweep ops visit order [\<lparr>ps_lookups = [], ps_reclaims = [], ps_after = \<lambda>w. w\<rparr>,
      \<lparr>ps_lookups = [], ps_reclaims = [], ps_after = \<lambda>w. w\<rparr>] w =
      (\<lparr>ot_suspects = []\<rparr>, reclaim_loop (swp_reclaim ops) visit [] (order lost) w)"
    using hs l(1) o by (simp add: orphan_sweep_def sweep_once_def OrphanTracker_default_def OrphanTracker_pass_def comp_def)
  ultimately show ?thesis using o l(2) by blast
qed

end

section \<open>The Registry and the event manager\<close>

definition registry_held :: "(InMemoryRegistryStore, 'l) RegistryServiceImpl \<Rightarrow> Held set" where
  "registry_held svc = {Held_new ''entry'' k (re_lease_id e) |k e. fmlookup (rm_entries (rsv_index svc)) k = Some e}"

lemma in_registry_held:
  "h \<in> registry_held svc \<longleftrightarrow>
     (\<exists>e. fmlookup (rm_entries (rsv_index svc)) (hd_id h) = Some e \<and> h = Held_new ''entry'' (hd_id h) (re_lease_id e))"
  by (auto simp: registry_held_def Held_new_def)

lemma registry_held_entries:
  assumes "registry_index_ok (rsv_index svc)"
  shows "registry_held svc = (\<lambda>e. Held_new ''entry'' (re_capability_id e) (re_lease_id e)) `
    {e. fmlookup (rm_entries (rsv_index svc)) (re_capability_id e) = Some e}"
proof (intro set_eqI iffI)
  fix h assume "h \<in> registry_held svc"
  then obtain k e where e: "h = Held_new ''entry'' k (re_lease_id e)" "fmlookup (rm_entries (rsv_index svc)) k = Some e"
    by (auto simp: registry_held_def)
  with mem_registry.entries_key[OF assms e(2)] show "h \<in> (\<lambda>e. Held_new ''entry'' (re_capability_id e) (re_lease_id e)) `
    {e. fmlookup (rm_entries (rsv_index svc)) (re_capability_id e) = Some e}" by (intro image_eqI[of _ _ e]) simp_all
qed (auto simp: registry_held_def)

lemma registry_reclaim:
  fixes svc :: "(InMemoryRegistryStore, 's LeaseManager) RegistryServiceImpl" and S :: "'s LeaseStore" and ks :: "string list" and h :: Held
  assumes "registry_index_ok (rsv_index svc)"
  defines "svc' \<equiv> swp_reclaim (registry_sweep InMemoryRegistryStore_ops S) ks h svc"
  shows "registry_index_ok (rsv_index svc')" "rsv_lease_manager svc' = rsv_lease_manager svc"
    "fmlookup (rm_entries (rsv_index svc')) k = (case fmlookup (rm_entries (rsv_index svc)) k of
       Some e \<Rightarrow> if re_lease_id e = hd_lease_id h then None else Some e | None \<Rightarrow> None)"
proof -
  obtain x s' where r: "rg_remove_by_lease InMemoryRegistryStore_ops (hd_lease_id h) (rsv_index svc) = (Inr x, s')"
    using mem_remove_total by blast
  have i: "rsv_index svc' = s'" and l: "rsv_lease_manager svc' = rsv_lease_manager svc"
    using r by (auto simp: svc'_def registry_sweep_def RegistryIndex_unregister_by_lease_def split: option.splits)
  show "rsv_lease_manager svc' = rsv_lease_manager svc" by (rule l)
  show "registry_index_ok (rsv_index svc')"
    using mem_registry.remove_None[OF assms(1), of "hd_lease_id h" s'] mem_registry.remove_Some[OF assms(1), of "hd_lease_id h" _ s'] r i
    by (cases x) auto
  show "fmlookup (rm_entries (rsv_index svc')) k = (case fmlookup (rm_entries (rsv_index svc)) k of
       Some e \<Rightarrow> if re_lease_id e = hd_lease_id h then None else Some e | None \<Rightarrow> None)"
  proof (cases x)
    case None
    then show ?thesis using mem_registry.remove_None[OF assms(1), of "hd_lease_id h" s'] r i by (auto split: option.splits)
  next
    case (Some e)
    note s' = mem_registry.remove_Some[OF assms(1) r[unfolded Some]]
    show ?thesis
    proof (cases "k = re_capability_id e")
      case True
      then show ?thesis using s' i by simp
    next
      case False
      have "re_lease_id e' \<noteq> hd_lease_id h" if "fmlookup (rm_entries (rsv_index svc)) k = Some e'" for e'
        using mem_registry.lease_unique[OF assms(1) that, of "re_capability_id e" e] s' False by metis
      then show ?thesis using s' i False by (auto split: option.split)
    qed
  qed
qed

lemma registry_reclaim_held:
  assumes "registry_index_ok (rsv_index svc)"
  shows "registry_held (swp_reclaim (registry_sweep InMemoryRegistryStore_ops S) ks h svc) =
    {h' \<in> registry_held svc. hd_lease_id h' \<noteq> hd_lease_id h}"
  using registry_reclaim(3)[OF assms, of S ks h]
  unfolding registry_held_def by (auto simp: Held_new_def split: option.splits if_splits)

interpretation reg_sweep: total_sweepable "registry_sweep InMemoryRegistryStore_ops S" registry_held
  "\<lambda>svc. registry_index_ok (rsv_index svc)" "\<lambda>ks svc. iterates ks (rm_entries (rsv_index svc))" for S :: "'s LeaseStore"
proof (unfold_locales, goal_cases)
  case (1 w v hs)
  then obtain es where es: "rg_list_all InMemoryRegistryStore_ops v (rsv_index w) = Inr es"
    "hs = map (\<lambda>e. Held_new ''entry'' (re_capability_id e) (re_lease_id e)) es"
    by (auto simp: registry_sweep_def mem_registry_defs)
  show ?case
    unfolding registry_held_entries[OF 1(1)] es(2) set_map using mem_registry.list_all_ok[OF 1(1,2) es(1)] by (intro arg_cong[of _ _ "image _"]) blast
next
  case (2 w v h)
  then show ?case using registry_reclaim(1,2)[OF 2(1), of S v h] registry_reclaim_held[OF 2(1), of S v h]
    by (simp add: registry_sweep_def)
next
  case (3 w v)
  then show ?case by (simp add: registry_sweep_def mem_registry_defs)
next
  case (4 w v h)
  then show ?case using registry_reclaim_held[OF 4(1), of S v h] by simp
next
  case (5 w h h')
  then show ?case using mem_registry.lease_unique[OF 5(1)] unfolding in_registry_held by (metis Held.ext_inject Held.surjective Held_new_def)
qed

definition event_held :: "(InMemoryEventStore, 'l) EventManager \<Rightarrow> Held set" where
  "event_held m = {Held_new ''subscription'' k (sb_lease_id sub) |k sub. fmlookup (evm_subscriptions (em_store m)) k = Some sub}"

definition event_leases_ok :: "(InMemoryEventStore, 'l) EventManager \<Rightarrow> bool" where
  "event_leases_ok m \<longleftrightarrow> event_store_ok (em_store m) \<and>
     (\<forall>k k' sub sub'. fmlookup (evm_subscriptions (em_store m)) k = Some sub \<longrightarrow>
        fmlookup (evm_subscriptions (em_store m)) k' = Some sub' \<longrightarrow> sb_lease_id sub = sb_lease_id sub' \<longrightarrow> k = k')"

lemma event_leases_okD:
  assumes "event_leases_ok m"
  shows "event_store_ok (em_store m)"
    "fmlookup (evm_subscriptions (em_store m)) k = Some sub \<Longrightarrow> fmlookup (evm_subscriptions (em_store m)) k' = Some sub' \<Longrightarrow>
     sb_lease_id sub = sb_lease_id sub' \<Longrightarrow> k = k'"
  using assms unfolding event_leases_ok_def by blast+

lemma event_leases_ok_sub:
  assumes "event_leases_ok m" "event_store_ok (em_store m')"
    and "\<And>k sub. fmlookup (evm_subscriptions (em_store m')) k = Some sub \<Longrightarrow> fmlookup (evm_subscriptions (em_store m)) k = Some sub"
  shows "event_leases_ok m'"
  using assms unfolding event_leases_ok_def by blast

lemma event_reclaim:
  fixes m :: "(InMemoryEventStore, 's LeaseManager) EventManager" and S :: "'s LeaseStore" and h :: Held
  assumes "event_leases_ok m" "iterates ks (evm_subscriptions (em_store m))"
  defines "m' \<equiv> swp_reclaim (event_sweep InMemoryEventStore_ops S) ks h m"
  shows "event_store_ok (em_store m')" "em_lease_manager m' = em_lease_manager m"
    "fmlookup (evm_subscriptions (em_store m')) k = (case fmlookup (evm_subscriptions (em_store m)) k of
       Some sub \<Rightarrow> if sb_lease_id sub = hd_lease_id h then None else Some sub | None \<Rightarrow> None)"
proof -
  note ok = event_leases_okD(1)[OF assms(1)]
  obtain x s' where r: "es_remove_by_lease InMemoryEventStore_ops ks (hd_lease_id h) (em_store m) = (Inr x, s')"
    by (cases "List.find (\<lambda>(k, sub). sb_lease_id sub = hd_lease_id h) (iter_entries ks (evm_subscriptions (em_store m)))")
      (auto simp: mem_event_defs)
  have m': "m' = m\<lparr>em_store := s'\<rparr>"
    using r by (simp add: m'_def event_sweep_def unsubscribe_by_lease_def)
  then show "em_lease_manager m' = em_lease_manager m" by simp
  show "event_store_ok (em_store m')"
    using mem_event.remove_by_lease_None[OF ok assms(2), of "hd_lease_id h" s'] mem_event.remove_by_lease_Some[OF ok, of ks "hd_lease_id h" _ s'] r m'
    by (cases x) auto
  show "fmlookup (evm_subscriptions (em_store m')) k = (case fmlookup (evm_subscriptions (em_store m)) k of
       Some sub \<Rightarrow> if sb_lease_id sub = hd_lease_id h then None else Some sub | None \<Rightarrow> None)"
  proof (cases x)
    case None
    then show ?thesis using mem_event.remove_by_lease_None[OF ok assms(2), of "hd_lease_id h" s'] r m' by (auto split: option.splits)
  next
    case (Some sub)
    note s' = mem_event.remove_by_lease_Some[OF ok r[unfolded Some]]
    show ?thesis
    proof (cases "k = sb_registration_id sub")
      case True
      then show ?thesis using s' m' by simp
    next
      case False
      have "sb_lease_id sub' \<noteq> hd_lease_id h" if "fmlookup (evm_subscriptions (em_store m)) k = Some sub'" for sub'
        using event_leases_okD(2)[OF assms(1) that, of "sb_registration_id sub" sub] s' False by metis
      then show ?thesis using s' m' False by (auto split: option.split)
    qed
  qed
qed

lemma event_reclaim_held:
  assumes "event_leases_ok m" "iterates ks (evm_subscriptions (em_store m))"
  shows "event_held (swp_reclaim (event_sweep InMemoryEventStore_ops S) ks h m) = {h' \<in> event_held m. hd_lease_id h' \<noteq> hd_lease_id h}"
  using event_reclaim(3)[OF assms, of S h]
  unfolding event_held_def by (auto simp: Held_new_def split: option.splits if_splits)

interpretation ev_sweep: total_sweepable "event_sweep InMemoryEventStore_ops S" event_held event_leases_ok
  "\<lambda>ks m. iterates ks (evm_subscriptions (em_store m))" for S :: "'s LeaseStore"
proof (unfold_locales, goal_cases)
  case (1 w v hs)
  note ok = event_leases_okD(1)[OF 1(1)]
  obtain subs where subs: "es_list_subscriptions InMemoryEventStore_ops v (em_store w) = Inr subs"
    "hs = map (\<lambda>s. Held_new ''subscription'' (sb_registration_id s) (sb_lease_id s)) subs"
    using 1(3) by (auto simp: event_sweep_def mem_event_defs)
  have "event_held w = (\<lambda>s. Held_new ''subscription'' (sb_registration_id s) (sb_lease_id s)) ` set subs"
  proof (intro set_eqI iffI)
    fix h assume "h \<in> event_held w"
    then obtain k sub where sub: "h = Held_new ''subscription'' k (sb_lease_id sub)" "fmlookup (evm_subscriptions (em_store w)) k = Some sub"
      by (auto simp: event_held_def)
    with mem_event.list_ok[OF ok 1(2) subs(1)] mem_event.subs_key[OF ok sub(2)]
    show "h \<in> (\<lambda>s. Held_new ''subscription'' (sb_registration_id s) (sb_lease_id s)) ` set subs"
      by (intro image_eqI[of _ _ sub]) simp_all
  next
    fix h assume "h \<in> (\<lambda>s. Held_new ''subscription'' (sb_registration_id s) (sb_lease_id s)) ` set subs"
    then show "h \<in> event_held w" using mem_event.list_ok[OF ok 1(2) subs(1)] by (auto simp: event_held_def)
  qed
  then show ?case using subs(2) by simp
next
  case (2 w v h)
  have "event_leases_ok (swp_reclaim (event_sweep InMemoryEventStore_ops S) v h w)"
    by (rule event_leases_ok_sub[OF 2(1) event_reclaim(1)[OF 2]]) (simp add: event_reclaim(3)[OF 2] split: option.splits if_splits)
  then show ?case using event_reclaim(2)[OF 2, of S h] event_reclaim_held[OF 2, of S h] by (simp add: event_sweep_def)
next
  case (3 w v)
  then show ?case by (simp add: event_sweep_def mem_event_defs)
next
  case (4 w v h)
  then show ?case using event_reclaim_held[OF 4(1,2), of S h] by simp
next
  case (5 w h h')
  then obtain k sub k' sub' where e: "h = Held_new ''subscription'' k (sb_lease_id sub)" "fmlookup (evm_subscriptions (em_store w)) k = Some sub"
    "h' = Held_new ''subscription'' k' (sb_lease_id sub')" "fmlookup (evm_subscriptions (em_store w)) k' = Some sub'"
    by (auto simp: event_held_def)
  moreover have "k = k'" using event_leases_okD(2)[OF 5(1) e(2,4)] 5(4) e(1,3) by (simp add: Held_new_def)
  ultimately show ?case by simp
qed

section \<open>Properties\<close>

definition entry_kept :: "Held \<Rightarrow> (InMemoryRegistryStore, 'l) RegistryServiceImpl \<Rightarrow> bool" where
  "entry_kept h svc \<longleftrightarrow> registry_index_ok (rsv_index svc) \<and> h \<in> registry_held svc"

definition entry_leased :: "'s LeaseStore \<Rightarrow> Held \<Rightarrow> (InMemoryRegistryStore, 's LeaseManager) RegistryServiceImpl \<Rightarrow> bool" where
  "entry_leased S h svc \<longleftrightarrow> entry_kept h svc \<and> LeaseManager_get S (hd_lease_id h) (rsv_lease_manager svc) \<noteq> Inr None"

lemma entry_holds: "reg_sweep.holds h = entry_kept h"
  by (simp add: fun_eq_iff reg_sweep.holds_def entry_kept_def)

lemma entry_leased_iff: "reg_sweep.leased S h = entry_leased S h"
  unfolding fun_eq_iff reg_sweep.leased_def by (simp add: entry_leased_def entry_kept_def no_lease_iff registry_sweep_def)

text \<open>Visiting the entries in the order of their ids, for concrete runs.\<close>

definition by_id :: "(InMemoryRegistryStore, 'l) RegistryServiceImpl \<Rightarrow> string list" where
  "by_id svc = sorted_list_of_fset (fmdom (rm_entries (rsv_index svc)))"

lemma by_id_iterates: "iterates (by_id svc) (rm_entries (rsv_index svc))"
  by (simp add: iterates_def by_id_def sorted_list_of_fset.rep_eq fmdom'_alt_def)

lemma registry_sweep_runs:
  "\<exists>n t' svc'. sweep_once (registry_sweep InMemoryRegistryStore_ops S) visit order gaps gaps' (t, svc) = (Inr n, t', svc')"
  by (auto simp: sweep_once_def registry_sweep_def mem_registry_defs split: prod.splits)

lemma demo_entry_kept: "entry_kept (Held_new ''entry'' ''cap1'' ''l1'') demo_registry"
  using demo_registry_ok by (auto simp: entry_kept_def mem_registry_ok_def registry_held_def demo_registry_def demo_entry_def Held_new_def)



text \<open>
  C11: two undisturbed passes remove every orphan and nothing else: of the Registry's entries exactly those remain
  whose lease lookup finds the lease or fails.
\<close>

theorem two_passes_remove_orphans:
  fixes svc :: "(InMemoryRegistryStore, 's LeaseManager) RegistryServiceImpl" and S :: "'s LeaseStore"
  assumes "registry_index_ok (rsv_index svc)"
    and "\<And>w :: (InMemoryRegistryStore, 's LeaseManager) RegistryServiceImpl.
      registry_index_ok (rsv_index w) \<Longrightarrow> iterates (visit w) (rm_entries (rsv_index w))"
    and "\<And>xs. mset (order xs) = mset xs"
    and "orphan_sweep (registry_sweep InMemoryRegistryStore_ops S) visit order
      (replicate 2 \<lparr>ps_lookups = [], ps_reclaims = [], ps_after = \<lambda>w. w\<rparr>) svc = (t', svc')"
  shows "registry_index_ok (rsv_index svc') \<and>
    fmlookup (rm_entries (rsv_index svc')) k =
      (case fmlookup (rm_entries (rsv_index svc)) k of
         None \<Rightarrow> None
       | Some e \<Rightarrow> if LeaseManager_get S (re_lease_id e) (rsv_lease_manager svc) = Inr None then None else Some e)"
proof -
  let ?ops = "registry_sweep InMemoryRegistryStore_ops S"
  obtain xs where w: "registry_index_ok (rsv_index svc')"
    "registry_held svc' = {h \<in> registry_held svc. LeaseManager_get S (hd_lease_id h) (rsv_lease_manager svc) \<noteq> Inr None}"
    "svc' = reclaim_loop (swp_reclaim ?ops) visit [] xs svc"
    using reg_sweep.two_quiet_passes[OF assms(1-3), of S] assms(4)
    by (auto simp: numeral_2_eq_2 no_lease_iff registry_sweep_def)
  define P where "P w \<longleftrightarrow> registry_index_ok (rsv_index w) \<and>
    (\<forall>k e. fmlookup (rm_entries (rsv_index w)) k = Some e \<longrightarrow> fmlookup (rm_entries (rsv_index svc)) k = Some e)"
    for w :: "(InMemoryRegistryStore, 's LeaseManager) RegistryServiceImpl"
  have "P (swp_reclaim ?ops (visit w) x w)" if "P w" for x w
    using registry_reclaim(1,3)[of w S "visit w" x] that unfolding P_def by (auto split: option.splits if_splits)
  then have st: "stable_under P (map (\<lambda>x w. swp_reclaim ?ops (visit w) x w) xs)" unfolding stable_under_def by auto
  have "P svc" "stable_under P []" using assms(1) by (simp_all add: P_def stable_under_def)
  then have "P svc'" unfolding w(3) using reclaim_loop_stable[of P "[]" svc "swp_reclaim ?ops" visit xs, OF _ _ st] by blast
  then have sub: "fmlookup (rm_entries (rsv_index svc)) k = Some e" if "fmlookup (rm_entries (rsv_index svc')) k = Some e" for e
    using that by (simp add: P_def)
  have held: "Held_new ''entry'' k l \<in> registry_held w \<longleftrightarrow> (\<exists>e. fmlookup (rm_entries (rsv_index w)) k = Some e \<and> re_lease_id e = l)"
    for l and w :: "(InMemoryRegistryStore, 's LeaseManager) RegistryServiceImpl" by (auto simp: registry_held_def Held_new_def)
  show ?thesis
  proof (cases "fmlookup (rm_entries (rsv_index svc)) k")
    case None
    then show ?thesis using sub w(1) by (cases "fmlookup (rm_entries (rsv_index svc')) k") auto
  next
    case (Some e)
    have "(\<exists>e'. fmlookup (rm_entries (rsv_index svc')) k = Some e' \<and> re_lease_id e' = re_lease_id e) \<longleftrightarrow>
        LeaseManager_get S (re_lease_id e) (rsv_lease_manager svc) \<noteq> Inr None"
      using held[of "re_lease_id e" svc'] held[of "re_lease_id e" svc] Some unfolding w(2) by (simp add: Held_new_def)
    then show ?thesis using Some sub w(1) by (cases "fmlookup (rm_entries (rsv_index svc')) k") auto
  qed
qed

theorem two_passes_remove_orphans_witness:
  "\<exists>t' svc'. orphan_sweep (registry_sweep InMemoryRegistryStore_ops (InMemoryLeaseStore_ops chrono_std)) by_id rev
      (replicate 2 \<lparr>ps_lookups = [], ps_reclaims = [], ps_after = \<lambda>w. w\<rparr>) (demo_registry\<lparr>rsv_lease_manager := demo_mgr\<rparr>) = (t', svc') \<and>
     fmlookup (rm_entries (rsv_index svc')) ''cap1'' = None"
proof -
  let ?svc = "demo_registry\<lparr>rsv_lease_manager := demo_mgr\<rparr>" and ?S = "InMemoryLeaseStore_ops chrono_std"
  obtain t' svc' where r: "orphan_sweep (registry_sweep InMemoryRegistryStore_ops ?S) by_id rev
      (replicate 2 \<lparr>ps_lookups = [], ps_reclaims = [], ps_after = \<lambda>w. w\<rparr>) ?svc = (t', svc')" by (metis surj_pair)
  have ok: "registry_index_ok (rsv_index ?svc)" using demo_registry_ok by (simp add: mem_registry_ok_def)
  have "fmlookup (rm_entries (rsv_index ?svc)) ''cap1'' = Some demo_entry" by (simp add: demo_registry_def)
  moreover have "LeaseManager_get ?S (re_lease_id demo_entry) (rsv_lease_manager ?svc) = Inr None"
    by (simp add: LeaseManager_get_def mem_lease_defs demo_mgr_def LeaseManager_new_def InMemoryLeaseStore_new_def)
  ultimately have "fmlookup (rm_entries (rsv_index svc')) ''cap1'' = None"
    using two_passes_remove_orphans[OF ok by_id_iterates _ r, of "''cap1''"] by simp
  then show ?thesis using r by blast
qed

end
