(* ===== verification/Proxy.thy ===== *)
theory Proxy
  imports Registry
begin

text \<open>
  The Proxy: its configuration and manager from \<^verbatim>\<open>coordin8-proxy/src/manager.rs\<close>, the in-process resolver, the gRPC
  handlers and the reclaim cascade. Sockets are a parameter: a record of the operations on listeners over a network
  state. The task that a proxy runs is an entry of the manager's state, so that its end is a step of its own.
\<close>

section \<open>Configuration and errors\<close>

definition PROXY_RESOURCE_PREFIX :: string where "PROXY_RESOURCE_PREFIX = ''proxy:''"

datatype ProxyError =
    CapabilityNotFound attrs
  | ProxyNotFound string
  | PortRangeExhausted
  | Io string
  | Store error

text \<open>The \<^verbatim>\<open>Display\<close> text; the order in which a map is printed is not fixed, so its rendering is an argument.\<close>

fun proxy_error_to_string :: "(attrs \<Rightarrow> string) \<Rightarrow> ProxyError \<Rightarrow> string" where
  "proxy_error_to_string dbg (CapabilityNotFound t) = ''no capability found for template: '' @ dbg t"
| "proxy_error_to_string dbg (ProxyNotFound p) = ''proxy not found: '' @ p"
| "proxy_error_to_string dbg PortRangeExhausted = ''proxy port range exhausted''"
| "proxy_error_to_string dbg (Io e) = ''io error: '' @ e"
| "proxy_error_to_string dbg (Store e) = ''store error: '' @ error_to_string e"

type_synonym 'a proxy_result = "ProxyError + 'a"

record ProxyConfig =
  pc_bind_host :: string
  pc_port_range :: "(u16 \<times> u16) option"

definition ProxyConfig_default :: ProxyConfig where
  "ProxyConfig_default = \<lparr>pc_bind_host = ''127.0.0.1'', pc_port_range = None\<rparr>"

definition ProxyConfig_from_env :: "(string \<Rightarrow> string option) \<Rightarrow> ProxyConfig" where
  "ProxyConfig_from_env env = \<lparr>
     pc_bind_host = (case env ''PROXY_BIND_HOST'' of None \<Rightarrow> ''127.0.0.1'' | Some h \<Rightarrow> h),
     pc_port_range =
       (case (Option.bind (env ''PROXY_PORT_MIN'') parse_u16, Option.bind (env ''PROXY_PORT_MAX'') parse_u16) of
          (Some mn, Some mx) \<Rightarrow> Some (mn, mx)
        | _ \<Rightarrow> None)\<rparr>"

section \<open>The manager\<close>

text \<open>Sockets: binding an address, the port a listener is bound to, and dropping a listener.\<close>

record ('k, 'n) tcp =
  tcp_bind :: "string \<Rightarrow> 'n \<Rightarrow> (string + 'k) \<times> 'n"
  tcp_local_port :: "'k \<Rightarrow> 'n \<Rightarrow> string + u16"
  tcp_drop :: "'k \<Rightarrow> 'n \<Rightarrow> 'n"

text \<open>
  An open proxy: its lease and the sending end of its shutdown channel, named by the task that holds the other end. A
  task owns its listener; its channel is signalled or not.
\<close>

record ProxyEntry =
  px_lease_id :: string
  px_shutdown :: string

record 'k proxy_task =
  pt_listener :: 'k
  pt_template :: attrs
  pt_signalled :: bool

record ('l, 'k, 'n) ProxyManager =
  pm_leasing :: 'l
  pm_proxies :: "ProxyEntry dashmap"
  pm_config :: ProxyConfig
  pm_next_port :: u16
  pm_tasks :: "'k proxy_task dashmap"
  pm_net :: 'n

definition ProxyManager_new :: "ProxyConfig \<Rightarrow> 'l \<Rightarrow> 'n \<Rightarrow> ('l, 'k, 'n) ProxyManager" where
  "ProxyManager_new cfg lessor net = \<lparr>
     pm_leasing = lessor, pm_proxies = fmempty, pm_config = cfg,
     pm_next_port = (case pc_port_range cfg of None \<Rightarrow> 0 | Some (mn, _) \<Rightarrow> mn), pm_tasks = fmempty, pm_net = net\<rparr>"

definition listen_addr :: "string \<Rightarrow> u16 \<Rightarrow> string" where
  "listen_addr host port = host @ '':'' @ show_nat (unat port)"

text \<open>
  The loop over the range: \<open>n\<close> attempts are left. \<open>races\<close> gives what calls of other tasks make of the shared counter
  before each attempt; past its end nothing happens.
\<close>

fun bind_attempts ::
  "('k, 'n) tcp \<Rightarrow> string \<Rightarrow> u16 \<Rightarrow> u16 \<Rightarrow> nat \<Rightarrow> (u16 \<Rightarrow> u16) list \<Rightarrow> u16 \<Rightarrow> 'n \<Rightarrow> 'k proxy_result \<times> u16 \<times> 'n"
where
  "bind_attempts T host mn mx 0 races counter net = (Inl PortRangeExhausted, counter, net)"
| "bind_attempts T host mn mx (Suc n) races counter net =
     (let fetched = (case races of [] \<Rightarrow> counter | f # _ \<Rightarrow> f counter);
          port = (if fetched > mx then mn else fetched);
          counter' = (if port \<ge> mx then mn else port + 1)
      in case tcp_bind T (listen_addr host port) net of
           (Inr l, net') \<Rightarrow> (Inr l, counter', net')
         | (Inl _, net') \<Rightarrow> bind_attempts T host mn mx n (tl races) counter' net')"

definition bind_listener ::
  "('k, 'n) tcp \<Rightarrow> (u16 \<Rightarrow> u16) list \<Rightarrow> ('l, 'k, 'n) ProxyManager \<Rightarrow> 'k proxy_result \<times> ('l, 'k, 'n) ProxyManager"
where
  "bind_listener T races m =
     (case pc_port_range (pm_config m) of
        Some (mn, mx) \<Rightarrow>
          (case bind_attempts T (pc_bind_host (pm_config m)) mn mx (if mn \<le> mx then unat (mx - mn) + 1 else 0) races
                  (pm_next_port m) (pm_net m) of
             (r, counter, net') \<Rightarrow> (r, m\<lparr>pm_next_port := counter, pm_net := net'\<rparr>))
      | None \<Rightarrow>
          (case tcp_bind T (pc_bind_host (pm_config m) @ '':0'') (pm_net m) of
             (Inl e, net') \<Rightarrow> (Inl (Io e), m\<lparr>pm_net := net'\<rparr>)
           | (Inr l, net') \<Rightarrow> (Inr l, m\<lparr>pm_net := net'\<rparr>)))"

text \<open>The address of a capability's transport, with a missing host or port left empty.\<close>

definition transport_addr :: "TransportConfig \<Rightarrow> string" where
  "transport_addr t = (case fmlookup (config t) ''host'' of None \<Rightarrow> [] | Some h \<Rightarrow> h) @ '':'' @
     (case fmlookup (config t) ''port'' of None \<Rightarrow> [] | Some p \<Rightarrow> p)"

text \<open>A resolver is the answer it gives to a template at the time of the call.\<close>

type_synonym resolver = "attrs \<Rightarrow> RegistryEntry option result"

definition ProxyManager_resolve :: "resolver \<Rightarrow> attrs \<Rightarrow> string proxy_result" where
  "ProxyManager_resolve res template =
     (case res template of
        Inl e \<Rightarrow> Inl (Store e)
      | Inr None \<Rightarrow> Inl (CapabilityNotFound template)
      | Inr (Some entry) \<Rightarrow>
          (case re_transport entry of
             None \<Rightarrow> Inl (CapabilityNotFound template)
           | Some t \<Rightarrow> Inr (transport_addr t)))"

definition ProxyManager_open ::
  "('k, 'n) tcp \<Rightarrow> 'l Leasing \<Rightarrow> resolver \<Rightarrow> (u16 \<Rightarrow> u16) list \<Rightarrow> time \<Rightarrow> string \<Rightarrow> string \<Rightarrow> attrs \<Rightarrow> u64
   \<Rightarrow> ('l, 'k, 'n) ProxyManager \<Rightarrow> (string \<times> u16 \<times> LeaseRecord) proxy_result \<times> ('l, 'k, 'n) ProxyManager"
where
  "ProxyManager_open T L res races now proxy_uid lease_uid template ttl_secs m =
     (case ProxyManager_resolve res template of
        Inl e \<Rightarrow> (Inl e, m)
      | Inr _ \<Rightarrow>
          (case bind_listener T races m of
             (Inl e, m1) \<Rightarrow> (Inl e, m1)
           | (Inr listener, m1) \<Rightarrow>
               (case tcp_local_port T listener (pm_net m1) of
                  Inl e \<Rightarrow> (Inl (Io e), m1\<lparr>pm_net := tcp_drop T listener (pm_net m1)\<rparr>)
                | Inr local_port \<Rightarrow>
                    (case lg_grant L now lease_uid (PROXY_RESOURCE_PREFIX @ proxy_uid) ttl_secs (pm_leasing m1) of
                       (Inl e, l') \<Rightarrow>
                         (Inl (Store e), m1\<lparr>pm_leasing := l', pm_net := tcp_drop T listener (pm_net m1)\<rparr>)
                     | (Inr lease, l') \<Rightarrow>
                         (Inr (proxy_uid, local_port, lease),
                          m1\<lparr>pm_leasing := l',
                             pm_tasks := fmupd proxy_uid
                               \<lparr>pt_listener = listener, pt_template = template, pt_signalled = False\<rparr> (pm_tasks m1),
                             pm_proxies := fmupd proxy_uid
                               \<lparr>px_lease_id = lr_lease_id lease, px_shutdown = proxy_uid\<rparr> (pm_proxies m1)\<rparr>)))))"

text \<open>\<^verbatim>\<open>shutdown.send(())\<close>: signals the task if it still runs.\<close>

definition send_shutdown :: "string \<Rightarrow> ('l, 'k, 'n) ProxyManager \<Rightarrow> ('l, 'k, 'n) ProxyManager" where
  "send_shutdown task m =
     (case fmlookup (pm_tasks m) task of
        None \<Rightarrow> m
      | Some t \<Rightarrow> m\<lparr>pm_tasks := fmupd task (t\<lparr>pt_signalled := True\<rparr>) (pm_tasks m)\<rparr>)"

text \<open>The end of a proxy's task, after its signal or a failed accept: its listener is dropped and its entry removed.\<close>

definition task_ends :: "('k, 'n) tcp \<Rightarrow> string \<Rightarrow> ('l, 'k, 'n) ProxyManager \<Rightarrow> ('l, 'k, 'n) ProxyManager" where
  "task_ends T pid m =
     (case fmlookup (pm_tasks m) pid of
        None \<Rightarrow> m
      | Some t \<Rightarrow> m\<lparr>pm_net := tcp_drop T (pt_listener t) (pm_net m), pm_tasks := fmdrop pid (pm_tasks m),
                    pm_proxies := fmdrop pid (pm_proxies m)\<rparr>)"

definition ProxyManager_close ::
  "'l Leasing \<Rightarrow> string \<Rightarrow> ('l, 'k, 'n) ProxyManager \<Rightarrow> unit proxy_result \<times> ('l, 'k, 'n) ProxyManager"
where
  "ProxyManager_close L proxy_id m =
     (case fmlookup (pm_proxies m) proxy_id of
        None \<Rightarrow> (Inl (ProxyNotFound proxy_id), m)
      | Some entry \<Rightarrow>
          let m1 = send_shutdown (px_shutdown entry) (m\<lparr>pm_proxies := fmdrop proxy_id (pm_proxies m)\<rparr>) in
          (Inr (), m1\<lparr>pm_leasing := snd (lg_cancel L (px_lease_id entry) (pm_leasing m1))\<rparr>))"

definition handle_reclaimed :: "LeaseReclaimed \<Rightarrow> ('l, 'k, 'n) ProxyManager \<Rightarrow> ('l, 'k, 'n) ProxyManager" where
  "handle_reclaimed event m =
     (case strip_prefix (lr_resource_id (rc_record event)) PROXY_RESOURCE_PREFIX of
        None \<Rightarrow> m
      | Some proxy_id \<Rightarrow>
          (case fmlookup (pm_proxies m) proxy_id of
             None \<Rightarrow> m
           | Some entry \<Rightarrow> send_shutdown (px_shutdown entry) (m\<lparr>pm_proxies := fmdrop proxy_id (pm_proxies m)\<rparr>)))"

text \<open>What a forwarded connection does: it is dropped, or the upstream address is dialled and the bytes are copied.\<close>

datatype forwarding = Dropped | Dialled string

definition forward :: "resolver \<Rightarrow> attrs \<Rightarrow> forwarding" where
  "forward res template =
     (case res template of
        Inr (Some entry) \<Rightarrow> (case re_transport entry of Some t \<Rightarrow> Dialled (transport_addr t) | None \<Rightarrow> Dropped)
      | _ \<Rightarrow> Dropped)"

text \<open>The accept loop, given the answers of \<^verbatim>\<open>accept\<close> and of the resolver at each connection; an accept error ends it.\<close>

fun accept_loop :: "attrs \<Rightarrow> (string + resolver) list \<Rightarrow> forwarding list" where
  "accept_loop template [] = []"
| "accept_loop template (Inr res # accepts) = forward res template # accept_loop template accepts"
| "accept_loop template (Inl e # accepts) = []"

section \<open>Resolver, service and cascade\<close>

definition LocalCapabilityResolver_resolve ::
  "'r RegistryStore \<Rightarrow> string list \<Rightarrow> attrs \<Rightarrow> 'r \<Rightarrow> RegistryEntry option result"
where
  "LocalCapabilityResolver_resolve R ks template s =
     (let ops = parse_template template in
      case rg_list_all R ks s of
        Inl e \<Rightarrow> Inl e
      | Inr all_entries \<Rightarrow> Inr (List.find (\<lambda>e. matches ops (fmupd ''interface'' (re_interface e) (re_attrs e))) all_entries))"

definition proxy_map_err :: "(attrs \<Rightarrow> string) \<Rightarrow> ProxyError \<Rightarrow> status" where
  "proxy_map_err dbg e = (case e of
     Store (Unavailable _) \<Rightarrow> Status Code_Unavailable (proxy_error_to_string dbg e)
   | _ \<Rightarrow> Status Code_NotFound (proxy_error_to_string dbg e))"

record ProxyServiceImpl =
  pxs_grantor_host :: string
  pxs_grantor_port :: u16

record ProxyHandle =
  ph_proxy_id :: string
  ph_local_port :: int
  ph_lease :: "Lease option"

definition ProxyService_open ::
  "(attrs \<Rightarrow> string) \<Rightarrow> ('k, 'n) tcp \<Rightarrow> 'l Leasing \<Rightarrow> resolver \<Rightarrow> ProxyServiceImpl \<Rightarrow> (u16 \<Rightarrow> u16) list \<Rightarrow> time \<Rightarrow> string \<Rightarrow> string
   \<Rightarrow> attrs \<Rightarrow> u64 \<Rightarrow> ('l, 'k, 'n) ProxyManager \<Rightarrow> ProxyHandle rpc \<times> ('l, 'k, 'n) ProxyManager"
where
  "ProxyService_open dbg T L res svc races now proxy_uid lease_uid template ttl_seconds m =
     (case ProxyManager_open T L res races now proxy_uid lease_uid template ttl_seconds m of
        (Inl e, m') \<Rightarrow> (Inl (proxy_map_err dbg e), m')
      | (Inr (proxy_id, local_port, lease), m') \<Rightarrow>
          (Inr \<lparr>ph_proxy_id = proxy_id, ph_local_port = uint local_port,
                ph_lease = Some \<lparr>
                  pl_lease_id = lr_lease_id lease, pl_resource_id = lr_resource_id lease,
                  pl_granted_at = to_timestamp (lr_granted_at lease), pl_expires_at = to_timestamp (lr_expires_at lease),
                  pl_ttl_seconds = lr_ttl_seconds lease, pl_grantor_host = pxs_grantor_host svc,
                  pl_grantor_port = ucast (pxs_grantor_port svc)\<rparr>\<rparr>, m'))"

definition ProxyService_release ::
  "(attrs \<Rightarrow> string) \<Rightarrow> 'l Leasing \<Rightarrow> string \<Rightarrow> ('l, 'k, 'n) ProxyManager \<Rightarrow> unit rpc \<times> ('l, 'k, 'n) ProxyManager"
where
  "ProxyService_release dbg L proxy_id m =
     (case ProxyManager_close L proxy_id m of (r, m') \<Rightarrow> (map_sum (proxy_map_err dbg) id r, m'))"

definition proxy_cascade :: "LeaseReclaimed \<Rightarrow> ('l, 'k, 'n) ProxyManager \<Rightarrow> ('l, 'k, 'n) ProxyManager" where
  "proxy_cascade event m = handle_reclaimed event m"

end
