(* ===== verification/Proxy_Props.thy ===== *)
theory Proxy_Props
  imports Proxy
begin

text \<open>
  Two properties of the Proxy: the search for a port stays in the configured range and gives up only when every port
  of it was refused, and a listener never outlives its proxy's lease.
\<close>

section \<open>The search for a port\<close>

definition next_counter :: "u16 \<Rightarrow> u16 \<Rightarrow> u16 \<Rightarrow> u16" where
  "next_counter mn mx c = (if c \<ge> mx then mn else c + 1)"

fun tries :: "u16 \<Rightarrow> u16 \<Rightarrow> nat \<Rightarrow> u16 \<Rightarrow> u16 list" where
  "tries mn mx 0 c = []"
| "tries mn mx (Suc n) c = c # tries mn mx n (next_counter mn mx c)"

definition refusals_harmless :: "('k, 'n) tcp \<Rightarrow> bool" where
  "refusals_harmless T \<longleftrightarrow> (\<forall>addr net e net'. tcp_bind T addr net = (Inl e, net') \<longrightarrow> net' = net)"

lemma rotation_range: "a \<le> b \<Longrightarrow> a + x mod (b - a + 1) \<le> (b :: nat)"
  using mod_less_divisor[of "b - a + 1" x] by linarith

lemma rotation_onto:
  assumes "a < d" "t < (d :: nat)"
  shows "\<exists>i < d. (a + i) mod d = t"
proof (intro exI conjI)
  show "(t + d - a) mod d < d" using assms by simp
  have "(a + (t + d - a) mod d) mod d = (a + (t + d - a)) mod d" by (rule mod_add_right_eq)
  also have "\<dots> = t" using assms by simp
  finally show "(a + (t + d - a) mod d) mod d = t" .
qed

lemma unat_next_counter:
  assumes "mn \<le> c" "c \<le> mx"
  shows "unat (next_counter mn mx c) = unat mn + (unat c - unat mn + 1) mod (unat mx - unat mn + 1)"
proof (cases "c \<ge> mx")
  case True
  then have "c = mx" using assms by simp
  then show ?thesis by (simp add: next_counter_def)
next
  case False
  then have lt: "unat c < unat mx" by (simp add: word_less_nat_alt not_le)
  have le: "unat mn \<le> unat c" using assms by (simp add: word_le_nat_alt)
  have "unat mx < 65536" using unsigned_less[of mx] by simp
  then have "unat (c + 1) = unat c + 1" using lt by (simp add: unat_word_ariths)
  then show ?thesis using False lt le by (simp add: next_counter_def mod_less)
qed

lemma next_counter_range:
  assumes "mn \<le> c" "c \<le> mx"
  shows "mn \<le> next_counter mn mx c \<and> next_counter mn mx c \<le> mx"
proof -
  have "unat mn \<le> unat mx" using assms by (meson order.trans word_le_nat_alt)
  then show ?thesis unfolding word_le_nat_alt unat_next_counter[OF assms] using rotation_range by (simp del: One_nat_def)
qed

lemma unat_tries:
  assumes "mn \<le> c" "c \<le> mx"
  shows "map unat (tries mn mx n c) = map (\<lambda>i. unat mn + (unat c - unat mn + i) mod (unat mx - unat mn + 1)) [0..<n]"
  using assms
proof (induction n arbitrary: c)
  case 0
  then show ?case by simp
next
  case (Suc n)
  let ?d = "unat mx - unat mn + 1" and ?c = "next_counter mn mx c"
  have le: "unat mn \<le> unat c" "unat c \<le> unat mx" using Suc.prems by (simp_all add: word_le_nat_alt)
  have "map unat (tries mn mx n ?c) = map (\<lambda>i. unat mn + (unat ?c - unat mn + i) mod ?d) [0..<n]"
    using Suc.IH next_counter_range[OF Suc.prems] by blast
  also have "\<dots> = map (\<lambda>i. unat mn + (unat c - unat mn + i) mod ?d) (map Suc [0..<n])"
    unfolding unat_next_counter[OF Suc.prems] by (simp add: mod_add_left_eq)
  finally show ?case using le by (simp add: upt_conv_Cons map_Suc_upt del: upt_Suc)
qed

lemma tries_cover:
  assumes "mn \<le> c" "c \<le> mx" "mn \<le> p" "p \<le> mx"
  shows "p \<in> set (tries mn mx (unat (mx - mn) + 1) c)"
proof -
  let ?d = "unat mx - unat mn + 1" and ?a = "unat c - unat mn" and ?t = "unat p - unat mn"
  have le: "unat mn \<le> unat c" "unat c \<le> unat mx" "unat mn \<le> unat p" "unat p \<le> unat mx"
    using assms by (simp_all add: word_le_nat_alt)
  have d: "unat (mx - mn) + 1 = ?d" using assms by (simp add: unat_sub order.trans)
  have "\<exists>i < ?d. (?a + i) mod ?d = ?t" by (rule rotation_onto) (use le in auto)
  then obtain i where "i < ?d" "unat p = unat mn + (?a + i) mod ?d" using le by auto
  then have "unat p \<in> set (map unat (tries mn mx ?d c))"
    unfolding unat_tries[OF assms(1,2)] set_map by (intro image_eqI[of _ _ i]) (simp_all del: upt_Suc)
  then show ?thesis unfolding d by (auto simp: word_unat_eq_iff[symmetric])
qed

lemma bind_attempts_outcome:
  assumes "refusals_harmless T" "mn \<le> c" "c \<le> mx" "bind_attempts T host mn mx n [] c net = (r, c', net')"
  shows "mn \<le> c' \<and> c' \<le> mx \<and>
    (case r of
       Inr l \<Rightarrow> \<exists>p. mn \<le> p \<and> p \<le> mx \<and> tcp_bind T (listen_addr host p) net = (Inr l, net')
     | Inl e \<Rightarrow> e = PortRangeExhausted \<and> (\<forall>p \<in> set (tries mn mx n c). \<exists>err. fst (tcp_bind T (listen_addr host p) net) = Inl err))"
  using assms(2-4)
proof (induction n arbitrary: c)
  case 0
  then show ?case by auto
next
  case (Suc n)
  obtain b net1 where b: "tcp_bind T (listen_addr host c) net = (b, net1)" by (metis surj_pair)
  have p: "(if c > mx then mn else c) = c" using Suc.prems(2) by auto
  show ?case
  proof (cases b)
    case (Inr l)
    then have "r = Inr l" "c' = next_counter mn mx c" "net' = net1"
      using Suc.prems(3) b p by (simp_all add: Let_def next_counter_def split: if_splits)
    then show ?thesis using b Inr Suc.prems(1,2) next_counter_range[OF Suc.prems(1,2)] by auto
  next
    case (Inl e)
    then have "net1 = net" using b assms(1) by (auto simp: refusals_harmless_def)
    moreover have "bind_attempts T host mn mx n [] (next_counter mn mx c) net1 = (r, c', net')"
      using Suc.prems(3) b Inl p by (simp add: Let_def next_counter_def split: if_splits)
    ultimately show ?thesis
      using Suc.IH[of "next_counter mn mx c"] next_counter_range[OF Suc.prems(1,2)] b Inl by (auto split: sum.splits)
  qed
qed

text \<open>A network that is the list of the addresses in use, for concrete runs.\<close>

definition demo_tcp :: "(string, string list) tcp" where
  "demo_tcp = \<lparr>
     tcp_bind = (\<lambda>addr net. if addr \<in> set net then (Inl ''in use'', net) else (Inr addr, addr # net)),
     tcp_local_port = (\<lambda>addr net. Inr 7001), tcp_drop = (\<lambda>addr net. remove1 addr net)\<rparr>"

definition demo_range :: "(unit, string, string list) ProxyManager" where
  "demo_range = ProxyManager_new \<lparr>pc_bind_host = ''h'', pc_port_range = Some (7000, 7001)\<rparr> () [''h:7000'']"



text \<open>
  The counter is read and written in two steps. When the range ends at the largest port, the first step of another
  call wraps the counter to zero, and a call that reads it then binds port zero, outside the range.
\<close>

lemma raced_counter_leaves_range:
  assumes "pc_port_range (pm_config m) = Some (60000, 65535)" "pc_bind_host (pm_config m) = ''h''" "pm_next_port m = 65535" "pm_net m = []"
  shows "fst (bind_listener demo_tcp [\<lambda>counter. counter + 1] m) = Inr ''h:0''"
proof -
  have "(char_of (48 :: nat) :: char) = CHR ''0''" by code_simp
  then have "bind_attempts demo_tcp ''h'' 60000 65535 (Suc 5535) [\<lambda>counter. counter + 1] 65535 [] = (Inr ''h:0'', 1, [''h:0''])"
    unfolding bind_attempts.simps(2) by (simp add: demo_tcp_def listen_addr_def show_nat.simps digit_char_def)
  then show ?thesis using assms by (simp add: bind_listener_def)
qed

section \<open>Proxies and their leases\<close>

text \<open>
  The Proxy beside its own lease manager and reaper: the manager, and how many of the reclaims broadcast so far the
  cascade has handled.
\<close>

type_synonym ('k, 'n) mem_proxy = "(InMemoryLeaseStore LeaseManager, 'k, 'n) ProxyManager"

record ('k, 'n) proxy_system =
  psy_manager :: "('k, 'n) mem_proxy"
  psy_handled :: nat

abbreviation reclaims :: "('k, 'n) mem_proxy \<Rightarrow> LeaseReclaimed list" where
  "reclaims m \<equiv> lm_expiry_tx (pm_leasing m)"

text \<open>
  Its steps, in any order: calls of the two handlers, renewals and cancellations of leases by their holders, passes of
  the reaper, deliveries to the cascade, and the ends of proxy tasks. New identifiers are fresh.
\<close>

inductive proxy_step :: "chrono \<Rightarrow> ('k, 'n) tcp \<Rightarrow> ('k, 'n) proxy_system \<Rightarrow> ('k, 'n) proxy_system \<Rightarrow> bool"
  for c :: chrono and T :: "('k, 'n) tcp"
where
  step_open: "fmlookup (pm_tasks m) pid = None \<Longrightarrow> fmlookup (pm_proxies m) pid = None \<Longrightarrow> live_leases (pm_leasing m) lid = None \<Longrightarrow>
    proxy_step c T \<lparr>psy_manager = m, psy_handled = n\<rparr>
      \<lparr>psy_manager = snd (ProxyManager_open T (mem_leasing c) res races now pid lid template ttl m), psy_handled = n\<rparr>"
| step_close: "proxy_step c T \<lparr>psy_manager = m, psy_handled = n\<rparr>
      \<lparr>psy_manager = snd (ProxyManager_close (mem_leasing c) pid m), psy_handled = n\<rparr>"
| step_renew: "proxy_step c T \<lparr>psy_manager = m, psy_handled = n\<rparr>
      \<lparr>psy_manager = m\<lparr>pm_leasing := snd (LeaseManager_renew (InMemoryLeaseStore_ops c) now1 now2 lid ttl (pm_leasing m))\<rparr>, psy_handled = n\<rparr>"
| step_cancel: "proxy_step c T \<lparr>psy_manager = m, psy_handled = n\<rparr>
      \<lparr>psy_manager = m\<lparr>pm_leasing := snd (LeaseManager_cancel (InMemoryLeaseStore_ops c) lid (pm_leasing m))\<rparr>, psy_handled = n\<rparr>"
| step_reap: "iterates ks (leases (lm_store (pm_leasing m))) \<Longrightarrow> proxy_step c T \<lparr>psy_manager = m, psy_handled = n\<rparr>
      \<lparr>psy_manager = m\<lparr>pm_leasing := reaper_tick (InMemoryLeaseStore_ops c) [] clk ks (pm_leasing m)\<rparr>, psy_handled = n\<rparr>"
| step_cascade: "n < length (reclaims m) \<Longrightarrow> proxy_step c T \<lparr>psy_manager = m, psy_handled = n\<rparr>
      \<lparr>psy_manager = proxy_cascade (reclaims m ! n) m, psy_handled = Suc n\<rparr>"
| step_task_ends: "proxy_step c T \<lparr>psy_manager = m, psy_handled = n\<rparr>
      \<lparr>psy_manager = task_ends T pid m, psy_handled = n\<rparr>"

inductive proxy_reachable :: "chrono \<Rightarrow> ('k, 'n) tcp \<Rightarrow> ('k, 'n) proxy_system \<Rightarrow> bool"
  for c :: chrono and T :: "('k, 'n) tcp"
where
  start: "proxy_reachable c T \<lparr>psy_manager = ProxyManager_new cfg (LeaseManager_new InMemoryLeaseStore_new lcfg []) net, psy_handled = 0\<rparr>"
| more: "proxy_reachable c T s \<Longrightarrow> proxy_step c T s s' \<Longrightarrow> proxy_reachable c T s'"

text \<open>A running proxy whose task was not told to stop.\<close>

definition serving :: "('l, 'k, 'n) ProxyManager \<Rightarrow> string \<Rightarrow> bool" where
  "serving m pid \<longleftrightarrow> (\<exists>t. fmlookup (pm_tasks m) pid = Some t \<and> \<not> pt_signalled t)"

text \<open>What every operation on leases does: a lease stays, for its resource, or its reclaim is broadcast.\<close>

definition accounted :: "InMemoryLeaseStore LeaseManager \<Rightarrow> InMemoryLeaseStore LeaseManager \<Rightarrow> bool" where
  "accounted l l' \<longleftrightarrow> lease_keys_ok (lm_store l') \<and> (\<exists>evs. lm_expiry_tx l' = lm_expiry_tx l @ evs \<and>
     (\<forall>lid r. live_leases l lid = Some r \<longrightarrow>
        (\<exists>r'. live_leases l' lid = Some r' \<and> lr_resource_id r' = lr_resource_id r) \<or>
        (\<exists>ev \<in> set evs. lr_resource_id (rc_record ev) = lr_resource_id r)))"

lemma accounted_grant:
  assumes "lease_keys_ok (lm_store l)" "live_leases l lid = None"
  shows "accounted l (snd (lg_grant (mem_leasing c) now lid res ttl l))"
proof (cases "lg_grant (mem_leasing c) now lid res ttl l")
  case (Pair r l')
  have "lease_keys_ok (lm_store l')" using mem_lease.mgr.grant_inv[OF assms, of c now res ttl] Pair by simp
  moreover have "lm_expiry_tx l' = lm_expiry_tx l" "\<And>k x. live_leases l k = Some x \<Longrightarrow> live_leases l' k = Some x"
    using Pair assms(2)
    by (auto simp: Leasing_of_LeaseManager_def LeaseManager_grant_def Let_def mem_lease_defs split: sum.splits prod.splits if_splits option.splits)
  ultimately show ?thesis using Pair by (auto simp: accounted_def)
qed

lemma accounted_renew:
  assumes "lease_keys_ok (lm_store l)"
  shows "accounted l (snd (LeaseManager_renew (InMemoryLeaseStore_ops c) now1 now2 lid ttl l))"
proof (cases "LeaseManager_renew (InMemoryLeaseStore_ops c) now1 now2 lid ttl l")
  case (Pair r l')
  have "lease_keys_ok (lm_store l')"
    using mem_lease.mgr.renew_inv[OF assms, of c now1 now2 lid ttl] Pair by (simp add: Leasing_of_LeaseManager_def)
  moreover have "lm_expiry_tx l' = lm_expiry_tx l"
    "\<And>k x. live_leases l k = Some x \<Longrightarrow> \<exists>x'. live_leases l' k = Some x' \<and> lr_resource_id x' = lr_resource_id x"
    using Pair
    by (auto simp: LeaseManager_renew_def Let_def mem_lease_defs split: sum.splits prod.splits if_splits option.splits)
  ultimately show ?thesis using Pair by (auto simp: accounted_def)
qed

lemma accounted_cancel:
  assumes "lease_keys_ok (lm_store l)"
  shows "accounted l (snd (LeaseManager_cancel (InMemoryLeaseStore_ops c) lid l))"
proof -
  obtain r l' where p: "LeaseManager_cancel (InMemoryLeaseStore_ops c) lid l = (r, l')" by (metis surj_pair)
  have "lease_keys_ok (lm_store l')"
    using mem_lease.mgr.cancel_inv[OF assms, of c lid] p by (simp add: Leasing_of_LeaseManager_def)
  moreover have "\<exists>evs. lm_expiry_tx l' = lm_expiry_tx l @ evs \<and> (\<forall>k x. live_leases l k = Some x \<longrightarrow>
      live_leases l' k = Some x \<or> (\<exists>ev \<in> set evs. rc_record ev = x))"
    using p by (cases "live_leases l lid")
      (auto simp: LeaseManager_cancel_def mem_lease_defs split: if_splits)
  ultimately show ?thesis unfolding accounted_def p snd_conv by blast
qed

lemma accounted_reap:
  assumes "lease_keys_ok (lm_store l)" "iterates ks (leases (lm_store l))"
  shows "accounted l (reaper_tick (InMemoryLeaseStore_ops c) [] clk ks l)"
proof -
  obtain out l' where d: "drain_expired (InMemoryLeaseStore_ops c) [] clk ks l = (Inr out, l')"
    using mem_lease.drain_expired_total by blast
  note e = mem_lease.drain_expired_complete[OF assms d]
  have "lm_expiry_tx l' = lm_expiry_tx l"
    using mem_lease.drain_expired_exact[OF assms(1) mem_lease.visits_distinct[OF assms(2)] d] by blast
  then have l': "reaper_tick (InMemoryLeaseStore_ops c) [] clk ks l =
      l'\<lparr>lm_expiry_tx := lm_expiry_tx l @ map (\<lambda>r. \<lparr>rc_record = r, rc_reason = Expired\<rparr>) out\<rparr>"
    using d by (simp add: reaper_tick_def)
  have "live_leases l' k = Some x \<or> (\<exists>ev \<in> set (map (\<lambda>r. \<lparr>rc_record = r, rc_reason = Expired\<rparr>) out). rc_record ev = x)"
    if "live_leases l k = Some x" for k x
    using e(3)[of x] e(4)[of k] that by (cases "is_expired (clk k) x") auto
  then show ?thesis unfolding accounted_def l' using e(1) by (auto simp: Bex_def)
qed

lemmas accounted_intros = accounted_grant accounted_renew accounted_cancel accounted_reap

lemma accounted_refl: "lease_keys_ok (lm_store l) \<Longrightarrow> accounted l l"
  by (auto simp: accounted_def)

text \<open>A proxy's lease is live and names the proxy, or its reclaim is still to be handled.\<close>

definition covered :: "InMemoryLeaseStore LeaseManager \<Rightarrow> nat \<Rightarrow> string \<Rightarrow> ProxyEntry \<Rightarrow> bool" where
  "covered l n pid e \<longleftrightarrow>
     (\<exists>r. live_leases l (px_lease_id e) = Some r \<and> lr_resource_id r = PROXY_RESOURCE_PREFIX @ pid) \<or>
     (\<exists>ev \<in> set (drop n (lm_expiry_tx l)). lr_resource_id (rc_record ev) = PROXY_RESOURCE_PREFIX @ pid)"

definition proxy_inv :: "('k, 'n) proxy_system \<Rightarrow> bool" where
  "proxy_inv s \<longleftrightarrow>
     (let m = psy_manager s; n = psy_handled s in
      lease_keys_ok (lm_store (pm_leasing m)) \<and> n \<le> length (reclaims m) \<and>
      (\<forall>pid e. fmlookup (pm_proxies m) pid = Some e \<longrightarrow> px_shutdown e = pid \<and> serving m pid \<and> covered (pm_leasing m) n pid e) \<and>
      (\<forall>pid. serving m pid \<longrightarrow> fmlookup (pm_proxies m) pid \<noteq> None))"

lemma covered_accounted:
  assumes "covered l n pid e" "accounted l l'" "n \<le> length (lm_expiry_tx l)"
  shows "covered l' n pid e" "n \<le> length (lm_expiry_tx l')"
  using assms unfolding covered_def accounted_def by fastforce+

lemma covered_cascade:
  assumes "covered l n pid e" "n < length (lm_expiry_tx l)"
    "lr_resource_id (rc_record (lm_expiry_tx l ! n)) \<noteq> PROXY_RESOURCE_PREFIX @ pid"
  shows "covered l (Suc n) pid e"
  using assms unfolding covered_def Cons_nth_drop_Suc[OF assms(2), symmetric] by auto

text \<open>A change of the leases alone.\<close>

lemma proxy_inv_leases:
  assumes "proxy_inv \<lparr>psy_manager = m, psy_handled = n\<rparr>" "accounted (pm_leasing m) (pm_leasing m')"
    and "pm_proxies m' = pm_proxies m" "pm_tasks m' = pm_tasks m"
  shows "proxy_inv \<lparr>psy_manager = m', psy_handled = n\<rparr>"
proof -
  have n: "n \<le> length (reclaims m)" using assms(1) by (simp add: proxy_inv_def Let_def)
  have "lease_keys_ok (lm_store (pm_leasing m'))" "n \<le> length (reclaims m')"
    using assms(2) n by (auto simp: accounted_def)
  then show ?thesis using assms covered_accounted(1)[OF _ assms(2) n]
    by (auto simp: proxy_inv_def Let_def serving_def)
qed

text \<open>Removing one proxy's entry and telling its task to stop, or its task ending.\<close>

lemma proxy_inv_remove:
  assumes "proxy_inv \<lparr>psy_manager = m, psy_handled = n\<rparr>"
    and "pm_proxies m' = fmdrop pid (pm_proxies m)" "pm_leasing m' = pm_leasing m"
    and "\<And>p. serving m' p \<longleftrightarrow> serving m p \<and> p \<noteq> pid"
  shows "proxy_inv \<lparr>psy_manager = m', psy_handled = n\<rparr>"
  using assms by (auto simp: proxy_inv_def Let_def)

lemma serving_shutdown: "serving (send_shutdown pid (m\<lparr>pm_proxies := ps\<rparr>)) p \<longleftrightarrow> serving m p \<and> p \<noteq> pid"
  by (auto simp: send_shutdown_def serving_def split: option.splits)

lemma send_shutdown_simps [simp]:
  "pm_proxies (send_shutdown pid m) = pm_proxies m" "pm_leasing (send_shutdown pid m) = pm_leasing m"
  by (simp_all add: send_shutdown_def split: option.splits)

lemma bind_listener_frame:
  "bind_listener T races m = (r, m1) \<Longrightarrow> pm_leasing m1 = pm_leasing m \<and> pm_proxies m1 = pm_proxies m \<and> pm_tasks m1 = pm_tasks m"
  by (auto simp: bind_listener_def simp del: bind_attempts.simps split: option.splits prod.splits sum.splits)

lemma proxy_inv_open:
  assumes inv: "proxy_inv \<lparr>psy_manager = m, psy_handled = n\<rparr>"
    and fresh: "fmlookup (pm_tasks m) pid = None" "fmlookup (pm_proxies m) pid = None" "live_leases (pm_leasing m) lid = None"
    and op: "ProxyManager_open T (mem_leasing c) res races now pid lid template ttl m = (r, m')"
  shows "proxy_inv \<lparr>psy_manager = m', psy_handled = n\<rparr>"
proof -
  have ok: "lease_keys_ok (lm_store (pm_leasing m))" using inv by (simp add: proxy_inv_def Let_def)
  show ?thesis
  proof (cases "ProxyManager_resolve res template")
    case (Inl e)
    then show ?thesis using inv op by (simp add: ProxyManager_open_def)
  next
    case (Inr addr)
    obtain b m1 where b: "bind_listener T races m = (b, m1)" by (metis surj_pair)
    note f = bind_listener_frame[OF b]
    show ?thesis
    proof (cases b)
      case (Inl e)
      then show ?thesis using Inr op b f accounted_refl[OF ok]
        by (auto simp: ProxyManager_open_def intro!: proxy_inv_leases[OF inv])
    next
      case l: (Inr listener)
      show ?thesis
      proof (cases "tcp_local_port T listener (pm_net m1)")
        case (Inl e)
        then show ?thesis using Inr op b l f accounted_refl[OF ok]
          by (auto simp: ProxyManager_open_def intro!: proxy_inv_leases[OF inv])
      next
        case port: (Inr port)
        obtain g l' where g: "lg_grant (mem_leasing c) now lid (PROXY_RESOURCE_PREFIX @ pid) ttl (pm_leasing m) = (g, l')"
          by (metis surj_pair)
        have acc: "accounted (pm_leasing m) l'" using accounted_grant[OF ok fresh(3), of c now "PROXY_RESOURCE_PREFIX @ pid" ttl] g by simp
        let ?m = "m1\<lparr>pm_leasing := l', pm_net := tcp_drop T listener (pm_net m1)\<rparr>"
        have m: "proxy_inv \<lparr>psy_manager = ?m, psy_handled = n\<rparr>" by (rule proxy_inv_leases[OF inv]) (use acc f in auto)
        show ?thesis
        proof (cases g)
          case (Inl e)
          then show ?thesis using Inr op b l port g f m by (simp add: ProxyManager_open_def)
        next
          case lease: (Inr lease)
          have go: "lr_lease_id lease = lid" "lr_resource_id lease = PROXY_RESOURCE_PREFIX @ pid" "live_leases l' lid = Some lease"
            using mem_lease.mgr.grant_ok[OF ok fresh(3) g[unfolded lease]] by auto
          have m': "pm_leasing m' = l'"
            "pm_tasks m' = fmupd pid \<lparr>pt_listener = listener, pt_template = template, pt_signalled = False\<rparr> (pm_tasks m)"
            "pm_proxies m' = fmupd pid \<lparr>px_lease_id = lid, px_shutdown = pid\<rparr> (pm_proxies m)"
            using Inr op b l port g f lease go(1) by (auto simp: ProxyManager_open_def)
          have "covered l' n pid \<lparr>px_lease_id = lid, px_shutdown = pid\<rparr>" using go by (simp add: covered_def)
          moreover have "serving m' p \<longleftrightarrow> serving m p \<or> p = pid" for p
            using fresh(1) m'(2) by (auto simp: serving_def)
          moreover have "serving ?m p = serving m p" for p using f by (simp add: serving_def)
          ultimately show ?thesis using m m' f by (auto simp: proxy_inv_def Let_def)
        qed
      qed
    qed
  qed
qed

lemma proxy_inv_close:
  assumes inv: "proxy_inv \<lparr>psy_manager = m, psy_handled = n\<rparr>"
  shows "proxy_inv \<lparr>psy_manager = snd (ProxyManager_close (mem_leasing c) pid m), psy_handled = n\<rparr>"
proof (cases "fmlookup (pm_proxies m) pid")
  case None
  then show ?thesis using inv by (simp add: ProxyManager_close_def)
next
  case (Some e)
  let ?m = "send_shutdown pid (m\<lparr>pm_proxies := fmdrop pid (pm_proxies m)\<rparr>)"
  have e: "px_shutdown e = pid" using inv Some by (auto simp: proxy_inv_def Let_def)
  have m: "proxy_inv \<lparr>psy_manager = ?m, psy_handled = n\<rparr>"
    by (rule proxy_inv_remove[OF inv, of _ pid]) (simp_all add: serving_shutdown)
  have "lease_keys_ok (lm_store (pm_leasing ?m))" using m by (simp add: proxy_inv_def Let_def)
  from accounted_cancel[OF this, of c "px_lease_id e"] show ?thesis
    using Some e by (auto simp: ProxyManager_close_def Let_def Leasing_of_LeaseManager_def intro!: proxy_inv_leases[OF m])
qed

lemma proxy_inv_cascade:
  assumes inv: "proxy_inv \<lparr>psy_manager = m, psy_handled = n\<rparr>" and n: "n < length (reclaims m)"
  shows "proxy_inv \<lparr>psy_manager = proxy_cascade (reclaims m ! n) m, psy_handled = Suc n\<rparr>"
proof -
  let ?ev = "reclaims m ! n" and ?m = "proxy_cascade (reclaims m ! n) m"
  have l: "pm_leasing ?m = pm_leasing m" by (simp add: proxy_cascade_def handle_reclaimed_def split: option.splits)
  have gone: "fmlookup (pm_proxies ?m) pid = Some e \<Longrightarrow> fmlookup (pm_proxies m) pid = Some e \<and>
      lr_resource_id (rc_record ?ev) \<noteq> PROXY_RESOURCE_PREFIX @ pid" for pid e
    by (auto simp: proxy_cascade_def handle_reclaimed_def split: option.splits if_splits)
  have sd: "px_shutdown e = pid" if "fmlookup (pm_proxies m) pid = Some e" for pid e
    using inv that by (auto simp: proxy_inv_def Let_def)
  have "proxy_inv \<lparr>psy_manager = ?m, psy_handled = n\<rparr>"
  proof (cases "\<exists>pid e. lr_resource_id (rc_record ?ev) = PROXY_RESOURCE_PREFIX @ pid \<and> fmlookup (pm_proxies m) pid = Some e")
    case True
    then obtain pid e where e: "lr_resource_id (rc_record ?ev) = PROXY_RESOURCE_PREFIX @ pid" "fmlookup (pm_proxies m) pid = Some e" by blast
    then have "?m = send_shutdown pid (m\<lparr>pm_proxies := fmdrop pid (pm_proxies m)\<rparr>)"
      using sd[OF e(2)] by (simp add: proxy_cascade_def handle_reclaimed_def strip_prefix_append)
    then show ?thesis by (intro proxy_inv_remove[OF inv, of _ pid]) (simp_all add: serving_shutdown)
  next
    case False
    then have "?m = m" by (auto simp: proxy_cascade_def handle_reclaimed_def split: option.splits)
    then show ?thesis using inv by simp
  qed
  then show ?thesis using n l gone covered_cascade[OF _ n] by (auto simp: proxy_inv_def Let_def)
qed

lemma proxy_inv_task_ends:
  assumes inv: "proxy_inv \<lparr>psy_manager = m, psy_handled = n\<rparr>"
  shows "proxy_inv \<lparr>psy_manager = task_ends T pid m, psy_handled = n\<rparr>"
proof (cases "fmlookup (pm_tasks m) pid")
  case None
  then show ?thesis using inv by (simp add: task_ends_def)
next
  case (Some t)
  then show ?thesis by (intro proxy_inv_remove[OF inv, of _ pid]) (auto simp: task_ends_def serving_def)
qed

lemma proxy_inv_step: "proxy_step c T s s' \<Longrightarrow> proxy_inv s \<Longrightarrow> proxy_inv s'"
proof (induction rule: proxy_step.induct)
  case (step_open m pid lid n res races now template ttl)
  obtain r m' where "ProxyManager_open T (mem_leasing c) res races now pid lid template ttl m = (r, m')" by (metis surj_pair)
  then show ?case using proxy_inv_open[OF step_open(4,1,2,3)] by simp
next
  case (step_renew m n now1 now2 lid ttl)
  then have "lease_keys_ok (lm_store (pm_leasing m))" by (simp add: proxy_inv_def Let_def)
  from accounted_renew[OF this] show ?case by (intro proxy_inv_leases[OF step_renew]) simp_all
next
  case (step_cancel m n lid)
  then have "lease_keys_ok (lm_store (pm_leasing m))" by (simp add: proxy_inv_def Let_def)
  from accounted_cancel[OF this] show ?case by (intro proxy_inv_leases[OF step_cancel]) simp_all
next
  case (step_reap ks m n clk)
  then have "lease_keys_ok (lm_store (pm_leasing m))" by (simp add: proxy_inv_def Let_def)
  from accounted_reap[OF this step_reap(1)] show ?case by (intro proxy_inv_leases[OF step_reap(2)]) simp_all
qed (simp_all add: proxy_inv_close proxy_inv_cascade proxy_inv_task_ends)

lemma proxy_inv_reachable: "proxy_reachable c T s \<Longrightarrow> proxy_inv s"
proof (induction rule: proxy_reachable.induct)
  case (start cfg lcfg net)
  show ?case by (simp add: proxy_inv_def Let_def ProxyManager_new_def LeaseManager_new_def InMemoryLeaseStore_new_def
        lease_keys_ok_def serving_def)
next
  case (more s s')
  then show ?case using proxy_inv_step by blast
qed

text \<open>
  C12: a proxy serves no longer than its lease. In every reachable state the open proxies are exactly the tasks that
  were not told to stop; and once every broadcast reclaim was handled, each of them holds a live lease on its own
  resource.
\<close>

theorem proxy_serves_while_leased:
  assumes "proxy_reachable c T s"
  shows "(serving (psy_manager s) pid \<longleftrightarrow> fmlookup (pm_proxies (psy_manager s)) pid \<noteq> None) \<and>
    (psy_handled s = length (reclaims (psy_manager s)) \<longrightarrow> serving (psy_manager s) pid \<longrightarrow>
       (\<exists>e r. fmlookup (pm_proxies (psy_manager s)) pid = Some e \<and>
          live_leases (pm_leasing (psy_manager s)) (px_lease_id e) = Some r \<and> lr_resource_id r = PROXY_RESOURCE_PREFIX @ pid))"
  using proxy_inv_reachable[OF assms] unfolding proxy_inv_def Let_def covered_def by fastforce

definition demo_capability :: RegistryEntry where
  "demo_capability = demo_entry\<lparr>re_transport := Some \<lparr>transport_type = ''grpc'', config = fmempty\<rparr>\<rparr>"

definition demo_opened :: "(string, string list) proxy_system" where
  "demo_opened = \<lparr>psy_manager = snd (ProxyManager_open demo_tcp (mem_leasing chrono_std) (\<lambda>_. Inr (Some demo_capability)) [] 1000
       ''p1'' ''l1'' fmempty 60 (ProxyManager_new ProxyConfig_default demo_mgr [])), psy_handled = 0\<rparr>"

theorem proxy_serves_while_leased_witness:
  "\<exists>e r. fmlookup (pm_proxies (psy_manager demo_opened)) ''p1'' = Some e \<and>
     live_leases (pm_leasing (psy_manager demo_opened)) (px_lease_id e) = Some r \<and> lr_resource_id r = PROXY_RESOURCE_PREFIX @ ''p1''"
proof -
  let ?m = "ProxyManager_new ProxyConfig_default demo_mgr [] :: (string, string list) mem_proxy"
  have "proxy_reachable chrono_std demo_tcp \<lparr>psy_manager = ?m, psy_handled = 0\<rparr>"
    unfolding demo_mgr_def by (rule proxy_reachable.start)
  moreover have "proxy_step chrono_std demo_tcp \<lparr>psy_manager = ?m, psy_handled = 0\<rparr> demo_opened"
    unfolding demo_opened_def
    by (rule step_open) (simp_all add: ProxyManager_new_def demo_mgr_def LeaseManager_new_def InMemoryLeaseStore_new_def)
  ultimately have r: "proxy_reachable chrono_std demo_tcp demo_opened" by (rule proxy_reachable.more)
  let ?lease = "demo_lease\<lparr>lr_resource_id := PROXY_RESOURCE_PREFIX @ ''p1''\<rparr>"
  have g: "lg_grant (mem_leasing chrono_std) 1000 ''l1'' (PROXY_RESOURCE_PREFIX @ ''p1'') 60 demo_mgr =
      (Inr ?lease, LeaseManager_new \<lparr>leases = fmupd ''l1'' ?lease fmempty\<rparr> LeaseConfig_default [])"
    by (simp add: Leasing_of_LeaseManager_def lease_defs mem_lease_defs demo_defs expiry_for_def checked_expiry_def negotiate_def
        LEASE_ANY_def LEASE_FOREVER_def Let_def)
  have b: "bind_listener demo_tcp [] ?m = (Inr ''127.0.0.1:0'', ?m\<lparr>pm_net := [''127.0.0.1:0'']\<rparr>)"
    by (simp add: bind_listener_def ProxyManager_new_def ProxyConfig_default_def demo_tcp_def)
  have "fmlookup (pm_proxies (psy_manager demo_opened)) ''p1'' \<noteq> None" "reclaims (psy_manager demo_opened) = []"
    using g by (simp_all add: demo_opened_def ProxyManager_open_def ProxyManager_resolve_def demo_capability_def b)
      (simp_all add: ProxyManager_new_def demo_tcp_def LeaseManager_new_def)
  then show ?thesis using proxy_serves_while_leased[OF r, of "''p1''"] by (simp add: demo_opened_def)
qed

end
