(* ===== verification/Dynamo.thy ===== *)
theory Dynamo
  imports Prelude "HOL-Library.AList"
begin

text \<open>
  The part of DynamoDB and of chrono's text format that the providers under \<^verbatim>\<open>providers/dynamo/src\<close> use, as parameters with
  the documented behaviour the code relies on, and the loop over pages that the providers repeat. A request is the
  table, the key, and the syntax trees of its expressions; a table is a map from primary keys to items.

  The reads are assumed to be current. The providers issue default reads, for which DynamoDB promises this only once a
  write has reached the replica that answers; what is proved about a call that reads holds from then on. A request
  that the client library repeats after a lost answer is not covered either.
\<close>

section \<open>Values, conditions and updates\<close>

datatype AttributeValue =
    AvS string
  | AvN string
  | AvB bytes
  | AvBool bool
  | AvM "(string, AttributeValue) fmap"
  | AvL "AttributeValue list"

type_synonym item = "(string, AttributeValue) fmap"

fun as_s :: "AttributeValue \<Rightarrow> string option" where
  "as_s (AvS s) = Some s" | "as_s _ = None"

fun as_n :: "AttributeValue \<Rightarrow> string option" where
  "as_n (AvN s) = Some s" | "as_n _ = None"

fun as_m :: "AttributeValue \<Rightarrow> item option" where
  "as_m (AvM m) = Some m" | "as_m _ = None"

fun as_b :: "AttributeValue \<Rightarrow> bytes option" where
  "as_b (AvB b) = Some b" | "as_b _ = None"

text \<open>The order of numbers.\<close>

definition number_of :: "string \<Rightarrow> int option" where
  "number_of s = (if s \<noteq> [] \<and> hd s = CHR ''-'' then map_option (\<lambda>n. - int n) (parse_digits 0 (tl s))
     else map_option int (parse_digits 0 s))"

datatype condition =
    attribute_exists string
  | attribute_not_exists string
  | attribute_eq string AttributeValue
  | attribute_le string AttributeValue
  | attribute_gt string AttributeValue
  | cond_and condition condition
  | cond_or condition condition

fun cond_holds :: "condition \<Rightarrow> item \<Rightarrow> bool" where
  "cond_holds (attribute_exists a) i \<longleftrightarrow> fmlookup i a \<noteq> None"
| "cond_holds (attribute_not_exists a) i \<longleftrightarrow> fmlookup i a = None"
| "cond_holds (attribute_eq a v) i \<longleftrightarrow> fmlookup i a = Some v"
| "cond_holds (attribute_le a v) i \<longleftrightarrow>
     (case (Option.bind (Option.bind (fmlookup i a) as_n) number_of, Option.bind (as_n v) number_of) of
        (Some x, Some y) \<Rightarrow> x \<le> y | _ \<Rightarrow> False)"
| "cond_holds (attribute_gt a v) i \<longleftrightarrow>
     (case (Option.bind (Option.bind (fmlookup i a) as_n) number_of, Option.bind (as_n v) number_of) of
        (Some x, Some y) \<Rightarrow> x > y | _ \<Rightarrow> False)"
| "cond_holds (cond_and p q) i \<longleftrightarrow> cond_holds p i \<and> cond_holds q i"
| "cond_holds (cond_or p q) i \<longleftrightarrow> cond_holds p i \<or> cond_holds q i"

text \<open>A condition on a row that may be missing; a missing row has no attribute.\<close>

definition satisfied :: "condition option \<Rightarrow> item option \<Rightarrow> bool" where
  "satisfied c row = (case c of None \<Rightarrow> True | Some p \<Rightarrow> cond_holds p (case row of None \<Rightarrow> fmempty | Some i \<Rightarrow> i))"

text \<open>\<^verbatim>\<open>SET a = v\<close>, \<^verbatim>\<open>SET a = list_append(a, v)\<close>, \<^verbatim>\<open>ADD a n\<close> and \<^verbatim>\<open>REMOVE a\<close>.\<close>

datatype update = SetTo string AttributeValue | AppendTo string AttributeValue | AddTo string int | RemoveAttr string

fun apply_update :: "update \<Rightarrow> item \<Rightarrow> item option" where
  "apply_update (SetTo a v) i = Some (fmupd a v i)"
| "apply_update (AppendTo a v) i =
     (case (fmlookup i a, v) of (Some (AvL xs), AvL ys) \<Rightarrow> Some (fmupd a (AvL (xs @ ys)) i) | _ \<Rightarrow> None)"
| "apply_update (AddTo a n) i =
     (case fmlookup i a of
        None \<Rightarrow> Some (fmupd a (AvN (show_int n)) i)
      | Some v \<Rightarrow> (case Option.bind (as_n v) number_of of
                     None \<Rightarrow> None | Some m \<Rightarrow> Some (fmupd a (AvN (show_int (m + n))) i)))"
| "apply_update (RemoveAttr a) i = Some (fmdrop a i)"

fun apply_updates :: "update list \<Rightarrow> item \<Rightarrow> item option" where
  "apply_updates [] i = Some i"
| "apply_updates (u # us) i = (case apply_update u i of None \<Rightarrow> None | Some i' \<Rightarrow> apply_updates us i')"

section \<open>The service\<close>

datatype sdk_error = ConditionalCheckFailed string | SdkError string

fun sdk_to_string :: "sdk_error \<Rightarrow> string" where
  "sdk_to_string (ConditionalCheckFailed s) = s" | "sdk_to_string (SdkError s) = s"

definition is_conditional_check_failed :: "sdk_error \<Rightarrow> bool" where
  "is_conditional_check_failed e = (case e of ConditionalCheckFailed _ \<Rightarrow> True | SdkError _ \<Rightarrow> False)"

text \<open>
  The operations. A primary key is the key attributes with their values; a key condition or a filter is a condition. A
  query (on the table, or on an index by name) and a scan answer one page: its items, and the last evaluated key when
  there may be more, from which the next request goes on. An update answers the item it wrote, a delete the one it
  removed, a batch of deletes the keys it did not get to.
\<close>

type_synonym key = "(string \<times> AttributeValue) list"

definition key_of :: "string list \<Rightarrow> item \<Rightarrow> key option" where
  "key_of as i = those (map (\<lambda>a. map_option (Pair a) (fmlookup i a)) as)"

type_synonym page = "item list \<times> key option"

record 'd dynamo =
  db_put_item :: "string \<Rightarrow> item \<Rightarrow> condition option \<Rightarrow> 'd \<Rightarrow> (sdk_error + unit) \<times> 'd"
  db_get_item :: "string \<Rightarrow> key \<Rightarrow> 'd \<Rightarrow> sdk_error + item option"
  db_delete_item :: "string \<Rightarrow> key \<Rightarrow> condition option \<Rightarrow> 'd \<Rightarrow> (sdk_error + item option) \<times> 'd"
  db_update_item :: "string \<Rightarrow> key \<Rightarrow> update list \<Rightarrow> condition option \<Rightarrow> 'd \<Rightarrow> (sdk_error + item) \<times> 'd"
  db_query :: "string \<Rightarrow> string option \<Rightarrow> condition \<Rightarrow> nat option \<Rightarrow> key option \<Rightarrow> 'd \<Rightarrow> sdk_error + page"
  db_scan :: "string \<Rightarrow> condition option \<Rightarrow> nat option \<Rightarrow> key option \<Rightarrow> 'd \<Rightarrow> sdk_error + page"
  db_batch_delete :: "string \<Rightarrow> key list \<Rightarrow> 'd \<Rightarrow> (sdk_error + key list) \<times> 'd"

text \<open>
  A request that goes through the keys \<open>R\<close> in the order of \<open>pos\<close> evaluates \<open>ks\<close>: all of them, or those up to the last
  evaluated key.
\<close>

definition evaluates :: "(key \<Rightarrow> int) \<Rightarrow> key set \<Rightarrow> key list \<Rightarrow> key option \<Rightarrow> bool" where
  "evaluates pos R ks lek \<longleftrightarrow> distinct ks \<and> sorted (map pos ks) \<and> set ks \<subseteq> R \<and>
     (case lek of None \<Rightarrow> set ks = R | Some k \<Rightarrow> k \<in> set ks \<and> (\<forall>k' \<in> R. k' \<in> set ks \<longleftrightarrow> pos k' \<le> pos k))"

definition after :: "(key \<Rightarrow> int) \<Rightarrow> key option \<Rightarrow> key set \<Rightarrow> key set" where
  "after pos start R = {k \<in> R. case start of None \<Rightarrow> True | Some s \<Rightarrow> pos s < pos k}"

text \<open>
  The documented behaviour: a write to one item is atomic and its condition is checked against the item it changes; a
  failed write was applied or not (its answer may have been lost), one refused by its condition was not; items with the
  same partition key come in the order of a numeric sort key.
\<close>

locale dynamo_db =
  fixes DB :: "'d dynamo"
    and rows :: "'d \<Rightarrow> string \<Rightarrow> key \<Rightarrow> item option"
    and pk :: "string \<Rightarrow> string list"
    and pos :: "string \<Rightarrow> string option \<Rightarrow> key \<Rightarrow> int"
  assumes finite_rows: "finite {k. rows d tbl k \<noteq> None}"
    and put_done: "key_of (pk tbl) it = Some k \<Longrightarrow> db_put_item DB tbl it c d = (Inr u, d') \<Longrightarrow>
          satisfied c (rows d tbl k) \<and> rows d' = (rows d)(tbl := (rows d tbl)(k \<mapsto> it))"
    and put_refused: "key_of (pk tbl) it = Some k \<Longrightarrow> db_put_item DB tbl it c d = (Inl (ConditionalCheckFailed msg), d') \<Longrightarrow>
          \<not> satisfied c (rows d tbl k) \<and> rows d' = rows d"
    and put_step: "key_of (pk tbl) it = Some k \<Longrightarrow> db_put_item DB tbl it c d = (x, d') \<Longrightarrow>
          rows d' = rows d \<or> satisfied c (rows d tbl k) \<and> rows d' = (rows d)(tbl := (rows d tbl)(k \<mapsto> it))"
    and delete_done: "map fst k = pk tbl \<Longrightarrow> db_delete_item DB tbl k c d = (Inr old, d') \<Longrightarrow>
          satisfied c (rows d tbl k) \<and> old = rows d tbl k \<and> rows d' = (rows d)(tbl := (rows d tbl)(k := None))"
    and delete_refused: "map fst k = pk tbl \<Longrightarrow> db_delete_item DB tbl k c d = (Inl (ConditionalCheckFailed msg), d') \<Longrightarrow>
          \<not> satisfied c (rows d tbl k) \<and> rows d' = rows d"
    and delete_step: "map fst k = pk tbl \<Longrightarrow> db_delete_item DB tbl k c d = (y, d') \<Longrightarrow>
          rows d' = rows d \<or> satisfied c (rows d tbl k) \<and> rows d' = (rows d)(tbl := (rows d tbl)(k := None))"
    and update_done: "map fst k = pk tbl \<Longrightarrow> db_update_item DB tbl k us c d = (Inr new, d') \<Longrightarrow>
          satisfied c (rows d tbl k) \<and>
          apply_updates us (case rows d tbl k of None \<Rightarrow> fmap_of_list k | Some i \<Rightarrow> i) = Some new \<and>
          rows d' = (rows d)(tbl := (rows d tbl)(k \<mapsto> new))"
    and update_refused: "map fst k = pk tbl \<Longrightarrow> db_update_item DB tbl k us c d = (Inl (ConditionalCheckFailed msg), d') \<Longrightarrow>
          \<not> satisfied c (rows d tbl k) \<and> rows d' = rows d"
    and update_step: "map fst k = pk tbl \<Longrightarrow> db_update_item DB tbl k us c d = (z, d') \<Longrightarrow>
          rows d' = rows d \<or> satisfied c (rows d tbl k) \<and> (\<exists>i.
          apply_updates us (case rows d tbl k of None \<Rightarrow> fmap_of_list k | Some i \<Rightarrow> i) = Some i \<and>
          rows d' = (rows d)(tbl := (rows d tbl)(k \<mapsto> i)))"
    and batch_done: "\<forall>k \<in> set ks. map fst k = pk tbl \<Longrightarrow> db_batch_delete DB tbl ks d = (Inr un, d') \<Longrightarrow>
          set un \<subseteq> set ks \<and> rows d' = (rows d)(tbl := rows d tbl |` (- (set ks - set un)))"
    and batch_step: "\<forall>k \<in> set ks. map fst k = pk tbl \<Longrightarrow> db_batch_delete DB tbl ks d = (w, d') \<Longrightarrow>
          \<exists>D. D \<subseteq> set ks \<and> rows d' = (rows d)(tbl := rows d tbl |` (- D))"
    and get_current: "map fst k = pk tbl \<Longrightarrow> db_get_item DB tbl k d = Inr got \<Longrightarrow> got = rows d tbl k"
    and query_page: "db_query DB tbl idx p lim start d = Inr (items, lek) \<Longrightarrow>
          \<exists>ks. evaluates (pos tbl idx) (after (pos tbl idx) start {k. \<exists>i. rows d tbl k = Some i \<and> cond_holds p i}) ks lek \<and>
               items = map (\<lambda>k. the (rows d tbl k)) ks"
    and scan_page: "db_scan DB tbl c lim start d = Inr (items, lek) \<Longrightarrow>
          \<exists>ks. evaluates (pos tbl None) (after (pos tbl None) start {k. rows d tbl k \<noteq> None}) ks lek \<and>
               items = filter (\<lambda>i. satisfied c (Some i)) (map (\<lambda>k. the (rows d tbl k)) ks)"
    and sort_order: "m < n \<Longrightarrow> pos tbl None [kp, (a, AvN (show_nat m))] < pos tbl None [kp, (a, AvN (show_nat n))]"

section \<open>Times as text\<close>

record rfc3339 =
  to_rfc3339 :: "time \<Rightarrow> string"
  parse_rfc3339 :: "string \<Rightarrow> string + time"

definition rfc3339_ok :: "rfc3339 \<Rightarrow> bool" where
  "rfc3339_ok f \<longleftrightarrow> (\<forall>t. parse_rfc3339 f (to_rfc3339 f t) = Inr t)"

lemma rfc3339_inj: "rfc3339_ok f \<Longrightarrow> to_rfc3339 f s = to_rfc3339 f t \<longleftrightarrow> s = t"
  unfolding rfc3339_ok_def by (metis sum.inject(2))

section \<open>Reading attributes\<close>

text \<open>\<^verbatim>\<open>ParseIntError\<close> of \<^verbatim>\<open>parse::<u64>\<close>, printed.\<close>

fun digits_error :: "nat \<Rightarrow> nat \<Rightarrow> string \<Rightarrow> string" where
  "digits_error b acc [] = []"
| "digits_error b acc (c # cs) =
     (case digit_val c of
        None \<Rightarrow> ''invalid digit found in string''
      | Some d \<Rightarrow> if 10 * acc + d \<ge> 2 ^ b then ''number too large to fit in target type'' else digits_error b (10 * acc + d) cs)"

definition parse_int_error :: "string \<Rightarrow> string" where
  "parse_int_error s =
     (if s = [] then ''cannot parse integer from empty string''
      else if s = ''+'' then ''invalid digit found in string''
      else digits_error 64 0 (if hd s = CHR ''+'' then tl s else s))"

text \<open>\<^verbatim>\<open>item.get(a).and_then(as_s).ok_or("missing a")\<close> and its variants for times and numbers.\<close>

definition get_s :: "string \<Rightarrow> string \<Rightarrow> item \<Rightarrow> string result" where
  "get_s what a i = (case Option.bind (fmlookup i a) as_s of None \<Rightarrow> Inl (Storage (''missing '' @ what)) | Some s \<Rightarrow> Inr s)"

definition get_time :: "rfc3339 \<Rightarrow> string \<Rightarrow> item \<Rightarrow> time result" where
  "get_time f a i =
     (case get_s a a i of
        Inl e \<Rightarrow> Inl e
      | Inr s \<Rightarrow> (case parse_rfc3339 f s of Inl e \<Rightarrow> Inl (Storage (''bad '' @ a @ '': '' @ e)) | Inr t \<Rightarrow> Inr t))"

definition get_u64 :: "string \<Rightarrow> string \<Rightarrow> item \<Rightarrow> u64 result" where
  "get_u64 what a i =
     (case Option.bind (fmlookup i a) as_n of
        None \<Rightarrow> Inl (Storage (''missing '' @ what))
      | Some s \<Rightarrow> (case parse_u64 s of None \<Rightarrow> Inl (Storage (''bad '' @ a @ '': '' @ parse_int_error s)) | Some n \<Rightarrow> Inr n))"

lemma get_s_S: "fmlookup i a = Some (AvS s) \<Longrightarrow> get_s what a i = Inr s"
  by (simp add: get_s_def)

lemma get_time_rfc3339: "rfc3339_ok f \<Longrightarrow> fmlookup i a = Some (AvS (to_rfc3339 f t)) \<Longrightarrow> get_time f a i = Inr t"
  by (simp add: get_time_def get_s_def rfc3339_ok_def)

lemma get_u64_show: "fmlookup i a = Some (AvN (show_u64 n)) \<Longrightarrow> get_u64 what a i = Inr n"
  by (simp add: get_u64_def parse_u64_show)

lemma get_errors:
  "get_s what a i = Inl e \<Longrightarrow> \<exists>m. e = Storage m"
  "get_time f a i = Inl e \<Longrightarrow> \<exists>m. e = Storage m"
  "get_u64 what a i = Inl e \<Longrightarrow> \<exists>m. e = Storage m"
  by (auto simp: get_s_def get_time_def get_u64_def split: option.splits sum.splits)

lemmas get_simps = get_s_S get_time_rfc3339 get_u64_show

text \<open>
  A map of strings as an attribute, and back: a value that is not a string is an error that names its key, the first in
  the order \<open>ho\<close> in which the map is iterated; an attribute that is not a map counts as empty.
\<close>

definition str_map_av :: "attrs \<Rightarrow> AttributeValue" where
  "str_map_av m = AvM (fmmap AvS m)"

definition str_map :: "(item \<Rightarrow> string list) \<Rightarrow> (string \<Rightarrow> string) \<Rightarrow> item \<Rightarrow> attrs result" where
  "str_map ho msg m =
     (if fmpred (\<lambda>_ v. as_s v \<noteq> None) m then Inr (fmmap (\<lambda>v. the (as_s v)) m)
      else Inl (Storage (msg (hd (filter (\<lambda>k. Option.bind (fmlookup m k) as_s = None) (ho m))))))"

definition get_str_map :: "(item \<Rightarrow> string list) \<Rightarrow> (string \<Rightarrow> string) \<Rightarrow> string \<Rightarrow> item \<Rightarrow> attrs result" where
  "get_str_map ho msg a i = (case fmlookup i a of Some (AvM m) \<Rightarrow> str_map ho msg m | _ \<Rightarrow> Inr fmempty)"

lemma str_map_strings: "str_map ho msg (fmmap AvS m) = Inr m"
  by (auto simp: str_map_def fmpred_iff fmap.map_comp comp_def option.map_ident intro!: fmap_ext)

lemma get_str_map_av: "fmlookup i a = Some (str_map_av m) \<Longrightarrow> get_str_map ho msg a i = Inr m"
  by (simp add: get_str_map_def str_map_av_def str_map_strings)

lemma get_str_map_error: "get_str_map ho msg a i = Inl e \<Longrightarrow> \<exists>m. e = Storage m"
  by (auto simp: get_str_map_def str_map_def split: option.splits AttributeValue.splits if_splits)

definition not_a_string :: "string \<Rightarrow> string \<Rightarrow> string" where
  "not_a_string what k = what @ '' value for '' @ quoted k @ '' is not a string''"

definition get_bytes :: "string \<Rightarrow> item \<Rightarrow> bytes" where
  "get_bytes a i = (case fmlookup i a of Some (AvB b) \<Rightarrow> b | _ \<Rightarrow> [])"

definition put_bytes :: "string \<Rightarrow> bytes \<Rightarrow> item \<Rightarrow> item" where
  "put_bytes a b i = (if b \<noteq> [] then fmupd a (AvB b) i else i)"

lemma put_bytes_lookup: "fmlookup (put_bytes a b i) x = (if a = x \<and> b \<noteq> [] then Some (AvB b) else fmlookup i x)"
  by (simp add: put_bytes_def)

text \<open>\<^verbatim>\<open>collect::<Result<_, _>>\<close>: the first error, or all the values.\<close>

fun collect_results :: "('a \<Rightarrow> 'b result) \<Rightarrow> 'a list \<Rightarrow> 'b list result" where
  "collect_results f [] = Inr []"
| "collect_results f (x # xs) =
     (case f x of Inl e \<Rightarrow> Inl e | Inr y \<Rightarrow> (case collect_results f xs of Inl e \<Rightarrow> Inl e | Inr ys \<Rightarrow> Inr (y # ys)))"

lemma collect_results_map: "(\<And>x. x \<in> set xs \<Longrightarrow> f x = Inr (g x)) \<Longrightarrow> collect_results f xs = Inr (map g xs)"
  by (induction xs) auto

lemma collect_results_error: "collect_results f xs = Inl e \<Longrightarrow> \<exists>x \<in> set xs. f x = Inl e"
  by (induction xs) (auto split: sum.splits)

section \<open>Going through the pages\<close>

text \<open>
  The loop on \<^verbatim>\<open>last_evaluated_key\<close>: a request from the key reached, its items one by one (each adds values to the result
  or ends the call with an error), and again while there is a key to go on from.
\<close>

fun push_all :: "(item \<Rightarrow> 'b list result) \<Rightarrow> item list \<Rightarrow> 'b list \<Rightarrow> 'b list result" where
  "push_all f [] acc = Inr acc"
| "push_all f (i # is) acc = (case f i of Inl e \<Rightarrow> Inl e | Inr ys \<Rightarrow> push_all f is (acc @ ys))"

partial_function (option) paged ::
  "(key option \<Rightarrow> error + page) \<Rightarrow> (item \<Rightarrow> 'b list result) \<Rightarrow> key option \<Rightarrow> 'b list \<Rightarrow> 'b list result option" where
  "paged req f start acc =
     (case req start of
        Inl e \<Rightarrow> Some (Inl e)
      | Inr (items, lek) \<Rightarrow>
          (case push_all f items acc of
             Inl e \<Rightarrow> Some (Inl e)
           | Inr acc' \<Rightarrow> (case lek of None \<Rightarrow> Some (Inr acc') | Some k \<Rightarrow> paged req f (Some k) acc')))"

text \<open>Every page is a step through the same keys.\<close>

definition serves :: "(key option \<Rightarrow> error + page) \<Rightarrow> (key \<Rightarrow> int) \<Rightarrow> key set \<Rightarrow> (key \<Rightarrow> item) \<Rightarrow> (item \<Rightarrow> bool) \<Rightarrow> bool" where
  "serves req pos R row Q \<longleftrightarrow> (\<forall>start items lek. req start = Inr (items, lek) \<longrightarrow>
     (\<exists>ks. evaluates pos (after pos start R) ks lek \<and> items = filter Q (map row ks)))"

lemma evaluates_rest:
  assumes "evaluates pos (after pos start R) ks (Some k)"
  shows "after pos (Some k) R = after pos start R - set ks" "after pos (Some k) R \<subset> after pos start R"
    "\<forall>x \<in> set ks. \<forall>y \<in> after pos (Some k) R. pos x < pos y"
proof -
  have k: "k \<in> set ks" "set ks \<subseteq> after pos start R" "\<forall>k' \<in> after pos start R. k' \<in> set ks \<longleftrightarrow> pos k' \<le> pos k"
    using assms by (auto simp: evaluates_def)
  have later: "\<And>s. start = Some s \<Longrightarrow> pos s < pos k" using k(1,2) by (auto simp: after_def)
  show rest: "after pos (Some k) R = after pos start R - set ks"
  proof (rule set_eqI)
    fix x
    show "x \<in> after pos (Some k) R \<longleftrightarrow> x \<in> after pos start R - set ks"
      using k(3) later by (cases start) (fastforce simp: after_def)+
  qed
  show "after pos (Some k) R \<subset> after pos start R" using rest k(1,2) by auto
  show "\<forall>x \<in> set ks. \<forall>y \<in> after pos (Some k) R. pos x < pos y"
    using k(2,3) by (force simp: after_def)
qed

lemma push_all_append: "push_all f (is @ js) acc = (case push_all f is acc of Inl e \<Rightarrow> Inl e | Inr acc' \<Rightarrow> push_all f js acc')"
  by (induction "is" arbitrary: acc) (auto split: sum.splits)

text \<open>The loop ends, whatever the service answers and the items hold.\<close>

lemma paged_ends:
  assumes "finite R" "serves req pos R row Q"
  shows "\<exists>r. paged req f start acc = Some r"
proof (induction "card (after pos start R)" arbitrary: start acc rule: less_induct)
  case less
  show ?case
  proof (cases "\<exists>items k acc'. req start = Inr (items, Some k) \<and> push_all f items acc = Inr acc'")
    case True
    then obtain items k acc' where req: "req start = Inr (items, Some k)" and push: "push_all f items acc = Inr acc'" by blast
    from assms(2) req obtain ks where "evaluates pos (after pos start R) ks (Some k)" unfolding serves_def by blast
    from evaluates_rest(2)[OF this] have "card (after pos (Some k) R) < card (after pos start R)"
      using assms(1) by (intro psubset_card_mono) (auto simp: after_def)
    from less[OF this] req push show ?thesis by (simp add: paged.simps[of _ _ start])
  next
    case False
    then show ?thesis by (subst paged.simps) (auto split: sum.splits prod.splits option.splits)
  qed
qed

text \<open>What it collects: each key once, in order, filtered.\<close>

lemma paged_collects:
  assumes "finite R" "serves req pos R row Q" "paged req f start acc = Some (Inr out)"
  shows "\<exists>ks. distinct ks \<and> sorted (map pos ks) \<and> set ks = after pos start R \<and>
           push_all f (filter Q (map row ks)) acc = Inr out"
  using assms(3)
proof (induction "card (after pos start R)" arbitrary: start acc rule: less_induct)
  case less
  from less.prems obtain items lek acc' where req: "req start = Inr (items, lek)"
    and push: "push_all f items acc = Inr acc'"
    and rest: "case lek of None \<Rightarrow> out = acc' | Some k \<Rightarrow> paged req f (Some k) acc' = Some (Inr out)"
    by (subst (asm) paged.simps) (auto split: sum.splits prod.splits option.splits)
  from assms(2) req obtain ks where ev: "evaluates pos (after pos start R) ks lek"
    and items: "items = filter Q (map row ks)" unfolding serves_def by blast
  show ?case
  proof (cases lek)
    case None
    then show ?thesis using ev items push rest by (auto simp: evaluates_def)
  next
    case (Some k)
    note er = evaluates_rest[OF ev[unfolded Some]]
    have "card (after pos (Some k) R) < card (after pos start R)"
      using er(2) assms(1) by (intro psubset_card_mono) (auto simp: after_def)
    from less.hyps[OF this] rest Some obtain ks' where ks': "distinct ks'" "sorted (map pos ks')"
      "set ks' = after pos (Some k) R" "push_all f (filter Q (map row ks')) acc' = Inr out" by auto
    have ks: "distinct ks" "sorted (map pos ks)" "set ks \<subseteq> after pos start R" using ev by (auto simp: evaluates_def)
    have "distinct (ks @ ks')" using ks ks' er(1) by auto
    moreover have "sorted (map pos (ks @ ks'))"
      using ks ks' er(3) by (auto simp: sorted_append less_imp_le)
    moreover have "set (ks @ ks') = after pos start R" using ks ks' er(1) by auto
    moreover have "push_all f (filter Q (map row (ks @ ks'))) acc = Inr out"
      using push items ks'(4) by (simp add: push_all_append)
    ultimately show ?thesis by blast
  qed
qed

lemma push_all_concat:
  "push_all f is acc = Inr out \<longleftrightarrow> (\<exists>yss. list_all2 (\<lambda>i ys. f i = Inr ys) is yss \<and> out = acc @ concat yss)"
  by (induction "is" arbitrary: acc) (auto simp: list_all2_Cons1 split: sum.splits)

lemma push_all_map: "(\<And>i. i \<in> set is \<Longrightarrow> f i = Inr (g i)) \<Longrightarrow> push_all f is acc = Inr (acc @ concat (map g is))"
  by (induction "is" arbitrary: acc) auto

context dynamo_db
begin

lemma scan_serves:
  "serves (\<lambda>start. map_err g (db_scan DB tbl c lim start d)) (pos tbl None) {k. rows d tbl k \<noteq> None}
     (\<lambda>k. the (rows d tbl k)) (\<lambda>i. satisfied c (Some i))"
  unfolding serves_def map_err_eq_Inr by (intro allI impI) (rule scan_page)

lemma query_serves:
  "serves (\<lambda>start. map_err g (db_query DB tbl idx p (lim start) start d)) (pos tbl idx)
     {k. \<exists>i. rows d tbl k = Some i \<and> cond_holds p i} (\<lambda>k. the (rows d tbl k)) (\<lambda>_. True)"
  unfolding serves_def map_err_eq_Inr filter_True by (intro allI impI) (simp add: query_page)

lemma finite_matching: "finite {k. \<exists>i. rows d tbl k = Some i \<and> P i}"
  by (rule finite_subset[OF _ finite_rows[of d tbl]]) auto

lemma scan_ends: "\<exists>r. paged (\<lambda>start. map_err g (db_scan DB tbl c lim start d)) f start acc = Some r"
  by (rule paged_ends[OF finite_rows scan_serves])

lemma query_ends: "\<exists>r. paged (\<lambda>start. map_err g (db_query DB tbl idx p (lim start) start d)) f start acc = Some r"
  by (rule paged_ends[OF finite_matching query_serves])

lemma after_None [simp]: "after p None R = R"
  by (auto simp: after_def)

text \<open>A scan from the start, and a query from the start, with items that decode.\<close>

lemma scan_collects:
  assumes "paged (\<lambda>start. map_err g (db_scan DB tbl c lim start d)) f None [] = Some (Inr out)"
    "\<And>i. i \<in> ran (rows d tbl) \<Longrightarrow> f i = Inr (h i)"
  shows "\<exists>ks. distinct ks \<and> set ks = {k. \<exists>i. rows d tbl k = Some i \<and> satisfied c (Some i)} \<and>
           out = concat (map (\<lambda>k. h (the (rows d tbl k))) ks)"
proof -
  from paged_collects[OF finite_rows scan_serves assms(1)] obtain ks where ks: "distinct ks"
    "set ks = {k. rows d tbl k \<noteq> None}"
    "push_all f (filter (\<lambda>i. satisfied c (Some i)) (map (\<lambda>k. the (rows d tbl k)) ks)) [] = Inr out" by auto
  let ?ks = "filter (\<lambda>k. satisfied c (Some (the (rows d tbl k)))) ks"
  have "push_all f (map (\<lambda>k. the (rows d tbl k)) ?ks) [] = Inr (concat (map h (map (\<lambda>k. the (rows d tbl k)) ?ks)))"
    using ks(2) assms(2) by (subst push_all_map[where g = h]) (auto simp: ranI)
  with ks(3) have "out = concat (map (\<lambda>k. h (the (rows d tbl k))) ?ks)" by (simp add: filter_map comp_def)
  moreover have "set ?ks = {k. \<exists>i. rows d tbl k = Some i \<and> satisfied c (Some i)}" using ks(2) by force
  ultimately show ?thesis using ks(1) by (intro exI[of _ ?ks]) auto
qed

lemma query_collects:
  assumes "paged (\<lambda>start. map_err g (db_query DB tbl idx p (lim start) start d)) f None [] = Some (Inr out)"
    "\<And>i. i \<in> ran (rows d tbl) \<Longrightarrow> f i = Inr (h i)"
  shows "\<exists>ks. distinct ks \<and> sorted (map (pos tbl idx) ks) \<and> set ks = {k. \<exists>i. rows d tbl k = Some i \<and> cond_holds p i} \<and>
           out = concat (map (\<lambda>k. h (the (rows d tbl k))) ks)"
proof -
  from paged_collects[OF finite_matching query_serves assms(1)] obtain ks where ks: "distinct ks"
    "sorted (map (pos tbl idx) ks)" "set ks = {k. \<exists>i. rows d tbl k = Some i \<and> cond_holds p i}"
    "push_all f (map (\<lambda>k. the (rows d tbl k)) ks) [] = Inr out" by auto
  have "push_all f (map (\<lambda>k. the (rows d tbl k)) ks) [] = Inr (concat (map h (map (\<lambda>k. the (rows d tbl k)) ks)))"
    using ks(3) assms(2) by (subst push_all_map[where g = h]) (auto simp: ranI)
  with ks(4) have "out = concat (map (\<lambda>k. h (the (rows d tbl k))) ks)" by (simp add: comp_def)
  with ks(1-3) show ?thesis by blast
qed

text \<open>The first item of a query that asks for one.\<close>

lemma query_first:
  assumes "db_query DB tbl idx p lim None d = Inr (items, lek)"
  shows "case items of [] \<Rightarrow> \<forall>k i. rows d tbl k = Some i \<longrightarrow> \<not> cond_holds p i
         | i # _ \<Rightarrow> \<exists>k. rows d tbl k = Some i \<and> cond_holds p i"
proof -
  from query_page[OF assms] obtain ks where ks:
    "evaluates (pos tbl idx) {k. \<exists>i. rows d tbl k = Some i \<and> cond_holds p i} ks lek"
    "items = map (\<lambda>k. the (rows d tbl k)) ks" by auto
  then show ?thesis by (cases ks; cases lek) (auto simp: evaluates_def)
qed

end

section \<open>Numbers as text\<close>

lemma digit_char_not_minus: "d < 10 \<Longrightarrow> digit_char d \<noteq> CHR ''-''"
proof
  assume "d < 10" "digit_char d = CHR ''-''"
  then have "digit_val (CHR ''-'') = Some d" by (metis digit_val_digit_char)
  then show False by (simp add: digit_val_def)
qed

lemma show_nat_head: "show_nat n \<noteq> []" "hd (show_nat n) \<noteq> CHR ''-''"
  using show_nat_Cons[of n] digit_char_not_minus by auto

lemma number_of_show_int [simp]: "number_of (show_int i) = Some i"
  using show_nat_head by (auto simp: number_of_def show_int_def)

lemma cond_holds_le_show [simp]:
  "cond_holds (attribute_le a (AvN (show_int n))) i \<longleftrightarrow>
     (case Option.bind (Option.bind (fmlookup i a) as_n) number_of of Some x \<Rightarrow> x \<le> n | None \<Rightarrow> False)"
  by (auto split: option.splits)

section \<open>A service in memory\<close>

text \<open>
  A service that never fails and answers in one page, for concrete runs: each table an association list in the order of
  its first writes. Times are written as their number of nanoseconds.
\<close>

type_synonym tables = "string \<Rightarrow> (key \<times> item) list"

definition table_rows :: "tables \<Rightarrow> string \<Rightarrow> key \<Rightarrow> item option" where
  "table_rows d tbl = map_of (d tbl)"

fun table_pos :: "key \<Rightarrow> int" where
  "table_pos [_, (_, AvN s)] = (case number_of s of Some n \<Rightarrow> n | None \<Rightarrow> 0)"
| "table_pos _ = 0"

definition table_page :: "(item \<Rightarrow> bool) \<Rightarrow> key option \<Rightarrow> (key \<times> item) list \<Rightarrow> key list" where
  "table_page P start xs = sort_key table_pos (filter (\<lambda>k. (case start of None \<Rightarrow> True | Some s \<Rightarrow> table_pos s < table_pos k) \<and>
     P (the (map_of xs k))) (map fst (AList.clearjunk xs)))"

definition checked :: "condition option \<Rightarrow> item option \<Rightarrow> (sdk_error + 'a) \<times> 'd \<Rightarrow> 'd \<Rightarrow> (sdk_error + 'a) \<times> 'd" where
  "checked c row done d = (if satisfied c row then done else (Inl (ConditionalCheckFailed ''The conditional request failed''), d))"

definition table_db :: "(string \<Rightarrow> string list) \<Rightarrow> tables dynamo" where
  "table_db pk = \<lparr>
     db_put_item = (\<lambda>tbl it c d. case key_of (pk tbl) it of
         None \<Rightarrow> (Inl (SdkError ''ValidationException''), d)
       | Some k \<Rightarrow> checked c (table_rows d tbl k) (Inr (), d(tbl := AList.update k it (d tbl))) d),
     db_get_item = (\<lambda>tbl k d. Inr (table_rows d tbl k)),
     db_delete_item = (\<lambda>tbl k c d.
         checked c (table_rows d tbl k) (Inr (table_rows d tbl k), d(tbl := AList.delete k (d tbl))) d),
     db_update_item = (\<lambda>tbl k us c d.
         checked c (table_rows d tbl k)
           (case apply_updates us (case table_rows d tbl k of None \<Rightarrow> fmap_of_list k | Some i \<Rightarrow> i) of
              None \<Rightarrow> (Inl (SdkError ''ValidationException''), d)
            | Some i \<Rightarrow> (Inr i, d(tbl := AList.update k i (d tbl)))) d),
     db_query = (\<lambda>tbl idx p lim start d. Inr (map (\<lambda>k. the (table_rows d tbl k)) (table_page (cond_holds p) start (d tbl)), None)),
     db_scan = (\<lambda>tbl c lim start d. Inr (filter (\<lambda>i. satisfied c (Some i))
         (map (\<lambda>k. the (table_rows d tbl k)) (table_page (\<lambda>_. True) start (d tbl))), None)),
     db_batch_delete = (\<lambda>tbl ks d. (Inr [], d(tbl := filter (\<lambda>(k, _). k \<notin> set ks) (d tbl)))) \<rparr>"

lemma clearjunk_row: "(k, i) \<in> set (AList.clearjunk xs) \<longleftrightarrow> map_of xs k = Some i"
  by (metis distinct_clearjunk map_of_clearjunk map_of_eq_Some_iff)

lemma table_page_evaluates:
  "evaluates table_pos (after table_pos start {k. \<exists>i. map_of xs k = Some i \<and> P i}) (table_page P start xs) None"
  by (auto simp: evaluates_def table_page_def after_def distinct_clearjunk clearjunk_row image_iff Bex_def split_paired_Ex)

lemma map_of_filter_keys: "map_of (filter (\<lambda>(k, _). k \<notin> D) xs) = map_of xs |` (- D)"
  by (induction xs) (auto simp: fun_eq_iff restrict_map_def)

lemma table_rows_write:
  "table_rows (d(tbl := AList.update k i (d tbl))) = (table_rows d)(tbl := (table_rows d tbl)(k \<mapsto> i))"
  "table_rows (d(tbl := AList.delete k (d tbl))) = (table_rows d)(tbl := (table_rows d tbl)(k := None))"
  "table_rows (d(tbl := filter (\<lambda>(k, _). k \<notin> D) (d tbl))) = (table_rows d)(tbl := table_rows d tbl |` (- D))"
  by (auto simp: table_rows_def update_conv' delete_conv' map_of_filter_keys fun_eq_iff)

lemmas table_defs = table_db_def checked_def

interpretation table: dynamo_db "table_db pk" table_rows pk "\<lambda>_ _. table_pos" for pk
proof (unfold_locales, goal_cases)
  case (1 d tbl)
  then show ?case using finite_dom_map_of[of "d tbl"] by (simp add: table_rows_def dom_def)
next
  case (14 tbl idx p lim start d items lek)
  then show ?case using table_page_evaluates[of start "d tbl" "cond_holds p"] by (auto simp: table_defs table_rows_def)
next
  case (15 tbl c lim start d items lek)
  then show ?case using table_page_evaluates[of start "d tbl" "\<lambda>_. True"] by (auto simp: table_defs table_rows_def)
next
  case (16 m n tbl kp a)
  then show ?case using number_of_show_int[of "int m"] number_of_show_int[of "int n"]
    by (cases kp) (simp add: show_int_def)
qed (auto simp: table_defs table_rows_write split: option.splits if_splits)

definition epoch_text :: rfc3339 where
  "epoch_text = \<lparr>to_rfc3339 = show_int,
     parse_rfc3339 = (\<lambda>s. case number_of s of None \<Rightarrow> Inl ''input contains invalid characters'' | Some t \<Rightarrow> Inr t)\<rparr>"

lemma epoch_text_ok: "rfc3339_ok epoch_text"
  by (simp add: rfc3339_ok_def epoch_text_def)

end
