(* ===== verification/Dynamo_Table.thy ===== *)
theory Dynamo_Table
  imports Dynamo
begin

text \<open>
  A table of records: what the requests of the providers do to the records of a table whose items are the encodings of
  records under their keys. Each provider's table is one, and its operations are proved from these lemmas.
\<close>

section \<open>The records of a table\<close>

definition table_view ::
  "('d \<Rightarrow> string \<Rightarrow> key \<Rightarrow> item option) \<Rightarrow> (item \<Rightarrow> 'r result) \<Rightarrow> string \<Rightarrow> 'd \<Rightarrow> key \<Rightarrow> 'r option" where
  "table_view rows dec tbl d k =
     (case rows d tbl k of None \<Rightarrow> None | Some i \<Rightarrow> (case dec i of Inl _ \<Rightarrow> None | Inr r \<Rightarrow> Some r))"

definition table_ok ::
  "('d \<Rightarrow> string \<Rightarrow> key \<Rightarrow> item option) \<Rightarrow> ('r \<Rightarrow> item) \<Rightarrow> ('r \<Rightarrow> key) \<Rightarrow> string \<Rightarrow> 'd \<Rightarrow> bool" where
  "table_ok rows enc rkey tbl d \<longleftrightarrow> (\<forall>k i. rows d tbl k = Some i \<longrightarrow> (\<exists>r. i = enc r \<and> k = rkey r))"

text \<open>An item decoded, and what \<open>keep\<close> leaves of the record.\<close>

definition decoding :: "(item \<Rightarrow> 'r result) \<Rightarrow> ('r \<Rightarrow> 'b list) \<Rightarrow> item \<Rightarrow> 'b list result" where
  "decoding dec keep i = (case dec i of Inl e \<Rightarrow> Inl e | Inr r \<Rightarrow> Inr (keep r))"

lemma table_view_cong: "rows d' tbl = rows d tbl \<Longrightarrow> table_view rows dec tbl d' = table_view rows dec tbl d"
  by (simp add: table_view_def fun_eq_iff)

lemma table_ok_cong: "rows d' tbl = rows d tbl \<Longrightarrow> table_ok rows enc rkey tbl d' = table_ok rows enc rkey tbl d"
  by (simp add: table_ok_def)

locale record_table = dynamo_db DB rows pk pos
  for DB :: "'d dynamo" and rows :: "'d \<Rightarrow> string \<Rightarrow> key \<Rightarrow> item option" and pk pos +
  fixes tbl :: string and enc :: "'r \<Rightarrow> item" and dec :: "item \<Rightarrow> 'r result" and rkey :: "'r \<Rightarrow> key"
  assumes dec_enc: "dec (enc r) = Inr r"
    and enc_key: "key_of (pk tbl) (enc r) = Some (rkey r)"
begin

abbreviation view where "view \<equiv> table_view rows dec tbl"
abbreviation tok where "tok \<equiv> table_ok rows enc rkey tbl"

lemma row_view: "tok d \<Longrightarrow> rows d tbl k = map_option enc (view d k)"
  by (cases "rows d tbl k") (force simp: table_view_def table_ok_def dec_enc)+

lemma view_key: "tok d \<Longrightarrow> view d k = Some r \<Longrightarrow> rkey r = k"
  by (force simp: table_view_def table_ok_def dec_enc split: option.splits sum.splits)

lemma view_row: "tok d \<Longrightarrow> rows d tbl k = Some i \<Longrightarrow> \<exists>r. i = enc r \<and> k = rkey r \<and> view d k = Some r"
  using row_view[of d k] view_key[of d k] by (cases "view d k") auto

lemma write_view:
  assumes "rows d' = (rows d)(tbl := (rows d tbl)(k := map_option enc row))"
  shows "view d' = (view d)(k := row)"
  using assms by (auto simp: table_view_def fun_eq_iff dec_enc split: option.splits)

lemma write_tok:
  assumes "rows d' = (rows d)(tbl := (rows d tbl)(k := map_option enc row))" "tok d" "\<And>r. row = Some r \<Longrightarrow> rkey r = k"
  shows "tok d'"
  using assms by (auto simp: table_ok_def split: if_splits)

lemma same_rows: "rows d' = rows d \<Longrightarrow> tok d \<Longrightarrow> tok d' \<and> view d' = view d"
  by (simp add: table_ok_cong[of rows d' tbl d] table_view_cong[of rows d' tbl d])

text \<open>A write of \<open>row\<close> at \<open>k\<close>, made or not.\<close>

lemma written:
  assumes "tok d" "\<And>r. row = Some r \<Longrightarrow> rkey r = k" "rows d' = (rows d)(tbl := (rows d tbl)(k := map_option enc row))"
  shows "tok d' \<and> view d' = (view d)(k := row)"
  using write_view[OF assms(3)] write_tok[OF assms(3,1,2)] by blast

lemma put_record:
  assumes "tok d" "db_put_item DB tbl (enc r) c d = (x, d')"
  shows "tok d'"
    "view d' = view d \<or> satisfied c (map_option enc (view d (rkey r))) \<and> view d' = (view d)(rkey r \<mapsto> r)"
    "x = Inr u \<Longrightarrow> satisfied c (map_option enc (view d (rkey r))) \<and> view d' = (view d)(rkey r \<mapsto> r)"
    "x = Inl (ConditionalCheckFailed m) \<Longrightarrow> \<not> satisfied c (map_option enc (view d (rkey r))) \<and> view d' = view d"
proof -
  note row = row_view[OF assms(1), of "rkey r"]
  have w: "tok d' \<and> view d' = (view d)(rkey r \<mapsto> r)" if "rows d' = (rows d)(tbl := (rows d tbl)(rkey r \<mapsto> enc r))"
    using written[OF assms(1), of "Some r" "rkey r" d'] that by simp
  from put_step[OF enc_key assms(2)]
  have both: "tok d' \<and> (view d' = view d \<or> satisfied c (map_option enc (view d (rkey r))) \<and> view d' = (view d)(rkey r \<mapsto> r))"
    unfolding row using w same_rows[OF _ assms(1), of d'] by blast
  show "tok d'" "view d' = view d \<or> satisfied c (map_option enc (view d (rkey r))) \<and> view d' = (view d)(rkey r \<mapsto> r)"
    using both by blast+
  show "satisfied c (map_option enc (view d (rkey r))) \<and> view d' = (view d)(rkey r \<mapsto> r)" if "x = Inr u"
    using put_done[OF enc_key assms(2)[unfolded that]] w unfolding row by blast
  show "\<not> satisfied c (map_option enc (view d (rkey r))) \<and> view d' = view d" if "x = Inl (ConditionalCheckFailed m)"
    using put_refused[OF enc_key assms(2)[unfolded that]] same_rows[OF _ assms(1), of d'] unfolding row by blast
qed

lemma delete_record:
  assumes "tok d" "map fst k = pk tbl" "db_delete_item DB tbl k c d = (x, d')"
  shows "tok d'"
    "view d' = view d \<or> satisfied c (map_option enc (view d k)) \<and> view d' = (view d)(k := None)"
    "x = Inr old \<Longrightarrow> satisfied c (map_option enc (view d k)) \<and> old = map_option enc (view d k) \<and> view d' = (view d)(k := None)"
    "x = Inl (ConditionalCheckFailed m) \<Longrightarrow> \<not> satisfied c (map_option enc (view d k)) \<and> view d' = view d"
proof -
  note row = row_view[OF assms(1), of k]
  have w: "tok d' \<and> view d' = (view d)(k := None)" if "rows d' = (rows d)(tbl := (rows d tbl)(k := None))"
    using written[OF assms(1), of None k d'] that by simp
  from delete_step[OF assms(2,3)]
  have both: "tok d' \<and> (view d' = view d \<or> satisfied c (map_option enc (view d k)) \<and> view d' = (view d)(k := None))"
    unfolding row using w same_rows[OF _ assms(1), of d'] by blast
  show "tok d'" "view d' = view d \<or> satisfied c (map_option enc (view d k)) \<and> view d' = (view d)(k := None)"
    using both by blast+
  show "satisfied c (map_option enc (view d k)) \<and> old = map_option enc (view d k) \<and> view d' = (view d)(k := None)"
    if "x = Inr old"
    using delete_done[OF assms(2) assms(3)[unfolded that]] w unfolding row by blast
  show "\<not> satisfied c (map_option enc (view d k)) \<and> view d' = view d" if "x = Inl (ConditionalCheckFailed m)"
    using delete_refused[OF assms(2) assms(3)[unfolded that]] same_rows[OF _ assms(1), of d'] unfolding row by blast
qed

text \<open>An update that, under its condition, turns a record into a record under the same key.\<close>

lemma update_record:
  assumes "tok d" "map fst k = pk tbl" "db_update_item DB tbl k us (Some c) d = (x, d')"
    "\<not> satisfied (Some c) None"
    "\<And>r. view d k = Some r \<Longrightarrow> cond_holds c (enc r) \<Longrightarrow> apply_updates us (enc r) = Some (enc (up r)) \<and> rkey (up r) = rkey r"
  shows "tok d'"
    "view d' = view d \<or> (\<exists>r. view d k = Some r \<and> cond_holds c (enc r) \<and> view d' = (view d)(k \<mapsto> up r))"
    "x = Inr new \<Longrightarrow> \<exists>r. view d k = Some r \<and> cond_holds c (enc r) \<and> new = enc (up r) \<and> view d' = (view d)(k \<mapsto> up r)"
    "x = Inl (ConditionalCheckFailed m) \<Longrightarrow> (\<forall>r. view d k = Some r \<longrightarrow> \<not> cond_holds c (enc r)) \<and> view d' = view d"
proof -
  note row = row_view[OF assms(1), of k]
  have w: "\<exists>r. view d k = Some r \<and> cond_holds c (enc r) \<and> i = enc (up r) \<and> tok d' \<and> view d' = (view d)(k \<mapsto> up r)"
    if "satisfied (Some c) (map_option enc (view d k))"
      "apply_updates us (case map_option enc (view d k) of None \<Rightarrow> fmap_of_list k | Some i \<Rightarrow> i) = Some i"
      "rows d' = (rows d)(tbl := (rows d tbl)(k \<mapsto> i))" for i
  proof -
    from that(1) assms(4) obtain r where r: "view d k = Some r" by (cases "view d k") auto
    with that(1) have c: "cond_holds c (enc r)" by (simp add: satisfied_def)
    from assms(5)[OF r c] that(2) r have "i = enc (up r)" "rkey (up r) = k" using view_key[OF assms(1) r] by auto
    with written[OF assms(1), of "Some (up r)" k d'] that(3) r c show ?thesis by simp
  qed
  from update_step[OF assms(2,3)]
  have both: "tok d' \<and> (view d' = view d \<or> (\<exists>r. view d k = Some r \<and> cond_holds c (enc r) \<and> view d' = (view d)(k \<mapsto> up r)))"
    unfolding row using w same_rows[OF _ assms(1), of d'] by blast
  show "tok d'" "view d' = view d \<or> (\<exists>r. view d k = Some r \<and> cond_holds c (enc r) \<and> view d' = (view d)(k \<mapsto> up r))"
    using both by blast+
  show "\<exists>r. view d k = Some r \<and> cond_holds c (enc r) \<and> new = enc (up r) \<and> view d' = (view d)(k \<mapsto> up r)" if "x = Inr new"
    using update_done[OF assms(2) assms(3)[unfolded that]] w unfolding row by blast
  show "(\<forall>r. view d k = Some r \<longrightarrow> \<not> cond_holds c (enc r)) \<and> view d' = view d" if "x = Inl (ConditionalCheckFailed m)"
    using update_refused[OF assms(2) assms(3)[unfolded that]] same_rows[OF _ assms(1), of d'] unfolding row
    by (auto simp: satisfied_def)
qed

lemma get_record: "tok d \<Longrightarrow> map fst k = pk tbl \<Longrightarrow> db_get_item DB tbl k d = Inr got \<Longrightarrow> got = map_option enc (view d k)"
  using row_view get_current by metis

lemma fetch_record:
  assumes "tok d" "map fst k = pk tbl" "db_get_item DB tbl k d = Inr got"
  shows "(case got of None \<Rightarrow> Inr None | Some i \<Rightarrow> (case dec i of Inl e \<Rightarrow> Inl e | Inr r \<Rightarrow> Inr (Some r))) =
           (Inr (view d k) :: 'r option result)"
  using get_record[OF assms] by (cases "view d k") (auto simp: dec_enc)

text \<open>Reading all pages of a scan or a query, each item turned into the records that \<open>keep\<close> leaves of it.\<close>

lemma concat_keep:
  assumes "tok d" "distinct ks" "set ks = {k. \<exists>i. rows d tbl k = Some i \<and> P i}"
  shows "\<exists>rs. distinct rs \<and> (\<forall>r. r \<in> set rs \<longleftrightarrow> view d (rkey r) = Some r \<and> P (enc r)) \<and> ks = map rkey rs \<and>
     map (\<lambda>k. the (rows d tbl k)) ks = map enc rs"
proof (intro exI conjI allI)
  let ?rs = "map (\<lambda>k. the (view d k)) ks"
  have v: "\<exists>r. view d k = Some r \<and> rkey r = k \<and> P (enc r)" if "k \<in> set ks" for k
    using that assms(3) view_row[OF assms(1), of k] by auto
  show keys: "ks = map rkey ?rs" using v by (force intro: map_idI[symmetric])
  show "distinct ?rs" using assms(2) keys by (metis distinct_map)
  show "r \<in> set ?rs \<longleftrightarrow> view d (rkey r) = Some r \<and> P (enc r)" for r
  proof
    assume "r \<in> set ?rs"
    then show "view d (rkey r) = Some r \<and> P (enc r)" using v by fastforce
  next
    assume r: "view d (rkey r) = Some r \<and> P (enc r)"
    then have "rkey r \<in> set ks" using row_view[OF assms(1), of "rkey r"] assms(3) by auto
    then show "r \<in> set ?rs" using r by force
  qed
  show "map (\<lambda>k. the (rows d tbl k)) ks = map enc ?rs"
    using v row_view[OF assms(1)] by force
qed

lemma scan_records:
  assumes "tok d" "paged (\<lambda>start. map_err g (db_scan DB tbl c lim start d)) (decoding dec keep) None [] = Some (Inr out)"
  shows "\<exists>rs. distinct (map rkey rs) \<and> (\<forall>r. r \<in> set rs \<longleftrightarrow> view d (rkey r) = Some r \<and> satisfied c (Some (enc r))) \<and>
           out = concat (map keep rs)"
proof -
  have "decoding dec keep i = Inr (case dec i of Inl e \<Rightarrow> [] | Inr r \<Rightarrow> keep r)" if "i \<in> ran (rows d tbl)" for i
    using view_row[OF assms(1)] that by (fastforce simp: decoding_def dec_enc ran_def)
  from scan_collects[OF assms(2) this] obtain ks where ks: "distinct ks"
    "set ks = {k. \<exists>i. rows d tbl k = Some i \<and> satisfied c (Some i)}"
    "out = concat (map (\<lambda>i. case dec i of Inl e \<Rightarrow> [] | Inr r \<Rightarrow> keep r) (map (\<lambda>k. the (rows d tbl k)) ks))"
    by (auto simp: comp_def)
  from concat_keep[OF assms(1) ks(1,2)] obtain rs where rs:
    "\<forall>r. r \<in> set rs \<longleftrightarrow> view d (rkey r) = Some r \<and> satisfied c (Some (enc r))" "ks = map rkey rs"
    "map (\<lambda>k. the (rows d tbl k)) ks = map enc rs" by blast
  have "out = concat (map keep rs)" unfolding ks(3) rs(3) by (simp add: comp_def dec_enc)
  with rs(1,2) ks(1) show ?thesis by blast
qed

lemma query_records:
  assumes "tok d" "paged (\<lambda>start. map_err g (db_query DB tbl idx p (lim start) start d)) (decoding dec keep) None [] = Some (Inr out)"
  shows "\<exists>rs. distinct (map rkey rs) \<and> sorted (map (pos tbl idx \<circ> rkey) rs) \<and>
           (\<forall>r. r \<in> set rs \<longleftrightarrow> view d (rkey r) = Some r \<and> cond_holds p (enc r)) \<and> out = concat (map keep rs)"
proof -
  have "decoding dec keep i = Inr (case dec i of Inl e \<Rightarrow> [] | Inr r \<Rightarrow> keep r)" if "i \<in> ran (rows d tbl)" for i
    using view_row[OF assms(1)] that by (fastforce simp: decoding_def dec_enc ran_def)
  from query_collects[OF assms(2) this] obtain ks where ks: "distinct ks" "sorted (map (pos tbl idx) ks)"
    "set ks = {k. \<exists>i. rows d tbl k = Some i \<and> cond_holds p i}"
    "out = concat (map (\<lambda>i. case dec i of Inl e \<Rightarrow> [] | Inr r \<Rightarrow> keep r) (map (\<lambda>k. the (rows d tbl k)) ks))"
    by (auto simp: comp_def)
  from concat_keep[OF assms(1) ks(1,3)] obtain rs where rs:
    "\<forall>r. r \<in> set rs \<longleftrightarrow> view d (rkey r) = Some r \<and> cond_holds p (enc r)" "ks = map rkey rs"
    "map (\<lambda>k. the (rows d tbl k)) ks = map enc rs" by blast
  have "out = concat (map keep rs)" unfolding ks(4) rs(3) by (simp add: comp_def dec_enc)
  moreover have "sorted (map (pos tbl idx \<circ> rkey) rs)" using ks(2) rs(2) by (simp add: comp_def)
  ultimately show ?thesis using rs(1,2) ks(1) by blast
qed

lemma query_record:
  assumes "tok d" "db_query DB tbl idx p lim None d = Inr (items, lek)"
  shows "case items of [] \<Rightarrow> \<forall>k r. view d k = Some r \<longrightarrow> \<not> cond_holds p (enc r)
         | i # _ \<Rightarrow> \<exists>r. i = enc r \<and> view d (rkey r) = Some r \<and> cond_holds p (enc r)"
  using query_first[OF assms(2)] view_row[OF assms(1)] row_view[OF assms(1)]
  by (cases items) (fastforce+)

end

text \<open>Rows removed from a table.\<close>

definition rows_removed ::
  "('d \<Rightarrow> string \<Rightarrow> key \<Rightarrow> item option) \<Rightarrow> string \<Rightarrow> key set \<Rightarrow> 'd \<Rightarrow> 'd \<Rightarrow> bool" where
  "rows_removed rows tbl D d d' \<longleftrightarrow> rows d' = (rows d)(tbl := rows d tbl |` (- D))"

lemma rows_removed_refl: "rows_removed rows tbl {} d d"
  by (simp add: rows_removed_def restrict_map_def fun_eq_iff)

lemma rows_removed_trans:
  "rows_removed rows tbl D d d1 \<Longrightarrow> rows_removed rows tbl E d1 d2 \<Longrightarrow> rows_removed rows tbl (D \<union> E) d d2"
  by (simp add: rows_removed_def)

lemma rows_removed_row: "rows_removed rows tbl D d d' \<Longrightarrow> rows d' tbl k = (if k \<in> D then None else rows d tbl k)"
  by (simp add: rows_removed_def restrict_map_def)

lemma rows_removed_view:
  "rows_removed rows tbl D d d' \<Longrightarrow> table_view rows dec tbl d' k = (if k \<in> D then None else table_view rows dec tbl d k)"
  by (simp add: table_view_def rows_removed_row)

lemma rows_removed_ok: "rows_removed rows tbl D d d' \<Longrightarrow> table_ok rows enc rkey tbl d \<Longrightarrow> table_ok rows enc rkey tbl d'"
  by (auto simp: table_ok_def rows_removed_row split: if_splits)

lemma rows_removed_frame: "rows_removed rows tbl D d d' \<Longrightarrow> t \<noteq> tbl \<Longrightarrow> rows d' t = rows d t"
  by (simp add: rows_removed_def)

text \<open>A write to one table leaves the others.\<close>

context dynamo_db
begin

lemma put_frame: "key_of (pk tbl) it = Some k \<Longrightarrow> db_put_item DB tbl it c d = (x, d') \<Longrightarrow> t \<noteq> tbl \<Longrightarrow> rows d' t = rows d t"
  using put_step[of tbl it k c d x d'] by auto

lemma delete_frame: "map fst k = pk tbl \<Longrightarrow> db_delete_item DB tbl k c d = (x, d') \<Longrightarrow> t \<noteq> tbl \<Longrightarrow> rows d' t = rows d t"
  using delete_step[of k tbl c d x d'] by auto

lemma update_frame: "map fst k = pk tbl \<Longrightarrow> db_update_item DB tbl k us c d = (x, d') \<Longrightarrow> t \<noteq> tbl \<Longrightarrow> rows d' t = rows d t"
  using update_step[of k tbl us c d x d'] by auto

lemma batch_frame: "\<forall>k \<in> set ks. map fst k = pk tbl \<Longrightarrow> db_batch_delete DB tbl ks d = (x, d') \<Longrightarrow> t \<noteq> tbl \<Longrightarrow> rows d' t = rows d t"
  using batch_step[of ks tbl d x d'] by auto

end

end
