(* ===== verification/Dynamo_Lease.thy ===== *)
theory Dynamo_Lease
  imports Lease Dynamo_Table
begin

text \<open>
  The lease store on DynamoDB, \<^verbatim>\<open>providers/dynamo/src/lease_store.rs\<close>, over any service with the documented behaviour: the
  encoding of a lease as an item, the operations of the \<^verbatim>\<open>LeaseStore\<close> trait, and that they keep the contract of that trait,
  so that everything proved about the lease manager holds over this store.
\<close>

section \<open>Encoding\<close>

definition TTL_GRACE_SECS :: int where
  "TTL_GRACE_SECS = 3600"

text \<open>\<^verbatim>\<open>i64::saturating_add\<close>.\<close>

definition saturating_add_i64 :: "int \<Rightarrow> int \<Rightarrow> int" where
  "saturating_add_i64 a b = max (- (2 ^ 63)) (min (2 ^ 63 - 1) (a + b))"

definition expires_epoch :: "time \<Rightarrow> u64 \<Rightarrow> int option" where
  "expires_epoch expires_at ttl_seconds = (if ttl_seconds = LEASE_FOREVER then None else Some (timestamp expires_at))"

definition ttl_epoch :: "time \<Rightarrow> u64 \<Rightarrow> int option" where
  "ttl_epoch expires_at ttl_seconds =
     map_option (\<lambda>e. saturating_add_i64 e TTL_GRACE_SECS) (expires_epoch expires_at ttl_seconds)"

definition DynamoLeaseStore_expiry_for :: "chrono \<Rightarrow> time \<Rightarrow> u64 \<Rightarrow> time result" where
  "DynamoLeaseStore_expiry_for c from ttl_secs =
     (if ttl_secs = LEASE_FOREVER then Inr (MAX_UTC c)
      else case checked_expiry c from ttl_secs of
             Some t \<Rightarrow> Inr t
           | None \<Rightarrow> Inl (Storage (''lease ttl out of range: '' @ show_u64 ttl_secs @ ''s'')))"

definition lease_from_item :: "rfc3339 \<Rightarrow> item \<Rightarrow> LeaseRecord result" where
  "lease_from_item f i =
     (case get_s ''lease_id'' ''lease_id'' i of Inl e \<Rightarrow> Inl e | Inr lease_id \<Rightarrow>
      case get_s ''resource_id'' ''resource_id'' i of Inl e \<Rightarrow> Inl e | Inr resource_id \<Rightarrow>
      case get_time f ''granted_at'' i of Inl e \<Rightarrow> Inl e | Inr granted_at \<Rightarrow>
      case get_time f ''expires_at'' i of Inl e \<Rightarrow> Inl e | Inr expires_at \<Rightarrow>
      case get_u64 ''ttl_seconds'' ''ttl_seconds'' i of Inl e \<Rightarrow> Inl e | Inr ttl_seconds \<Rightarrow>
        Inr \<lparr>lr_lease_id = lease_id, lr_resource_id = resource_id, lr_granted_at = granted_at,
             lr_expires_at = expires_at, lr_ttl_seconds = ttl_seconds\<rparr>)"

text \<open>The item \<^verbatim>\<open>create\<close> puts.\<close>

definition opt_number :: "string \<Rightarrow> int option \<Rightarrow> item \<Rightarrow> item" where
  "opt_number a n i = (case n of None \<Rightarrow> i | Some e \<Rightarrow> fmupd a (AvN (show_int e)) i)"

definition lease_item :: "rfc3339 \<Rightarrow> LeaseRecord \<Rightarrow> item" where
  "lease_item f r =
     opt_number ''ttl'' (ttl_epoch (lr_expires_at r) (lr_ttl_seconds r))
      (opt_number ''expires_epoch'' (expires_epoch (lr_expires_at r) (lr_ttl_seconds r))
       (fmap_of_list [
          (''lease_id'', AvS (lr_lease_id r)),
          (''resource_id'', AvS (lr_resource_id r)),
          (''granted_at'', AvS (to_rfc3339 f (lr_granted_at r))),
          (''expires_at'', AvS (to_rfc3339 f (lr_expires_at r))),
          (''ttl_seconds'', AvN (show_u64 (lr_ttl_seconds r)))]))"

definition lease_key :: "string \<Rightarrow> key" where
  "lease_key lease_id = [(''lease_id'', AvS lease_id)]"

section \<open>Operations\<close>

definition DynamoLeaseStore_create ::
  "chrono \<Rightarrow> rfc3339 \<Rightarrow> 'd dynamo \<Rightarrow> string \<Rightarrow> time \<Rightarrow> string \<Rightarrow> string \<Rightarrow> u64 \<Rightarrow> 'd \<Rightarrow> LeaseRecord result \<times> 'd" where
  "DynamoLeaseStore_create c f DB tbl now uid resource_id ttl_secs d =
     (case DynamoLeaseStore_expiry_for c now ttl_secs of
        Inl e \<Rightarrow> (Inl e, d)
      | Inr expires_at \<Rightarrow>
          let record = \<lparr>lr_lease_id = uid, lr_resource_id = resource_id, lr_granted_at = now,
                        lr_expires_at = expires_at, lr_ttl_seconds = ttl_secs\<rparr>
          in case db_put_item DB tbl (lease_item f record) None d of
               (Inl e, d') \<Rightarrow> (Inl (Storage (''put_item failed: '' @ sdk_to_string e)), d')
             | (Inr _, d') \<Rightarrow> (Inr record, d'))"

definition DynamoLeaseStore_get :: "rfc3339 \<Rightarrow> 'd dynamo \<Rightarrow> string \<Rightarrow> string \<Rightarrow> 'd \<Rightarrow> LeaseRecord option result" where
  "DynamoLeaseStore_get f DB tbl lease_id d =
     (case db_get_item DB tbl (lease_key lease_id) d of
        Inl e \<Rightarrow> Inl (Storage (''get_item failed: '' @ sdk_to_string e))
      | Inr None \<Rightarrow> Inr None
      | Inr (Some i) \<Rightarrow> (case lease_from_item f i of Inl e \<Rightarrow> Inl e | Inr r \<Rightarrow> Inr (Some r)))"

definition renew_updates :: "rfc3339 \<Rightarrow> time \<Rightarrow> u64 \<Rightarrow> update list" where
  "renew_updates f new_expires_at ttl_secs =
     [SetTo ''expires_at'' (AvS (to_rfc3339 f new_expires_at)), SetTo ''ttl_seconds'' (AvN (show_u64 ttl_secs))] @
     (case ttl_epoch new_expires_at ttl_secs of
        Some epoch \<Rightarrow> [SetTo ''ttl'' (AvN (show_int epoch)),
                       SetTo ''expires_epoch'' (AvN (show_int (timestamp new_expires_at)))]
      | None \<Rightarrow> [RemoveAttr ''ttl'', RemoveAttr ''expires_epoch''])"

text \<open>Between the read and the write of \<^verbatim>\<open>renew\<close> others may change the table: \<open>gap\<close>.\<close>

definition DynamoLeaseStore_renew ::
  "chrono \<Rightarrow> rfc3339 \<Rightarrow> 'd dynamo \<Rightarrow> string \<Rightarrow> ('d \<Rightarrow> 'd) \<Rightarrow> time \<Rightarrow> string \<Rightarrow> u64 \<Rightarrow> 'd \<Rightarrow> LeaseRecord result \<times> 'd" where
  "DynamoLeaseStore_renew c f DB tbl gap now lease_id ttl_secs d =
     (case DynamoLeaseStore_get f DB tbl lease_id d of
        Inl e \<Rightarrow> (Inl e, d)
      | Inr None \<Rightarrow> (Inl (LeaseNotFound lease_id), d)
      | Inr (Some existing) \<Rightarrow>
          (case DynamoLeaseStore_expiry_for c now ttl_secs of
             Inl e \<Rightarrow> (Inl e, d)
           | Inr new_expires_at \<Rightarrow>
               (case db_update_item DB tbl (lease_key lease_id) (renew_updates f new_expires_at ttl_secs)
                       (Some (attribute_exists ''lease_id'')) (gap d) of
                  (Inl e, d') \<Rightarrow>
                    (if is_conditional_check_failed e then (Inl (LeaseNotFound lease_id), d')
                     else (Inl (Storage (''update_item failed: '' @ sdk_to_string e)), d'))
                | (Inr _, d') \<Rightarrow> (Inr (existing\<lparr>lr_expires_at := new_expires_at, lr_ttl_seconds := ttl_secs\<rparr>), d'))))"

definition DynamoLeaseStore_cancel :: "'d dynamo \<Rightarrow> string \<Rightarrow> string \<Rightarrow> 'd \<Rightarrow> unit result \<times> 'd" where
  "DynamoLeaseStore_cancel DB tbl lease_id d =
     (case db_delete_item DB tbl (lease_key lease_id) None d of
        (Inl e, d') \<Rightarrow> (Inl (Storage (''delete_item failed: '' @ sdk_to_string e)), d')
      | (Inr _, d') \<Rightarrow> (Inr (), d'))"

definition RESOURCE_GSI :: string where
  "RESOURCE_GSI = ''resource_id-index''"

definition DynamoLeaseStore_get_by_resource ::
  "rfc3339 \<Rightarrow> 'd dynamo \<Rightarrow> string \<Rightarrow> string \<Rightarrow> 'd \<Rightarrow> LeaseRecord option result" where
  "DynamoLeaseStore_get_by_resource f DB tbl resource_id d =
     (case db_query DB tbl (Some RESOURCE_GSI) (attribute_eq ''resource_id'' (AvS resource_id)) (Some 1) None d of
        Inl e \<Rightarrow> Inl (Storage (''query failed: '' @ sdk_to_string e))
      | Inr ([], _) \<Rightarrow> Inr None
      | Inr (i # _, _) \<Rightarrow> (case lease_from_item f i of Inl e \<Rightarrow> Inl e | Inr r \<Rightarrow> Inr (Some r)))"

definition expired_filter :: "time \<Rightarrow> condition" where
  "expired_filter now =
     (let n = AvN (show_int (timestamp now)) in
      cond_or (cond_and (attribute_exists ''expires_epoch'') (attribute_le ''expires_epoch'' n))
        (cond_and (cond_and (attribute_not_exists ''expires_epoch'') (attribute_exists ''ttl'')) (attribute_le ''ttl'' n)))"

text \<open>\<open>now\<close> is the reading for the filter, \<open>clk\<close> the later ones, one per record, in \<^verbatim>\<open>is_expired\<close>.\<close>

definition DynamoLeaseStore_list_expired_loop ::
  "rfc3339 \<Rightarrow> 'd dynamo \<Rightarrow> string \<Rightarrow> nat option \<Rightarrow> time \<Rightarrow> (string \<Rightarrow> time) \<Rightarrow> 'd \<Rightarrow> LeaseRecord list result option" where
  "DynamoLeaseStore_list_expired_loop f DB tbl scan_page_limit now clk d =
     paged (\<lambda>last_key. map_err (\<lambda>e. Storage (''scan failed: '' @ sdk_to_string e))
              (db_scan DB tbl (Some (expired_filter now)) scan_page_limit last_key d))
       (decoding (lease_from_item f) (\<lambda>record. if is_expired (clk (lr_lease_id record)) record then [record] else []))
       None []"

definition DynamoLeaseStore_list_expired ::
  "rfc3339 \<Rightarrow> 'd dynamo \<Rightarrow> string \<Rightarrow> nat option \<Rightarrow> time \<Rightarrow> (string \<Rightarrow> time) \<Rightarrow> 'd \<Rightarrow> LeaseRecord list result" where
  "DynamoLeaseStore_list_expired f DB tbl scan_page_limit now clk d =
     the (DynamoLeaseStore_list_expired_loop f DB tbl scan_page_limit now clk d)"

definition DynamoLeaseStore_remove_if_unchanged ::
  "rfc3339 \<Rightarrow> 'd dynamo \<Rightarrow> string \<Rightarrow> LeaseRecord \<Rightarrow> 'd \<Rightarrow> bool result \<times> 'd" where
  "DynamoLeaseStore_remove_if_unchanged f DB tbl record d =
     (case db_delete_item DB tbl (lease_key (lr_lease_id record))
             (Some (attribute_eq ''expires_at'' (AvS (to_rfc3339 f (lr_expires_at record))))) d of
        (Inr _, d') \<Rightarrow> (Inr True, d')
      | (Inl e, d') \<Rightarrow>
          (if is_conditional_check_failed e then (Inr False, d')
           else (Inl (Storage (''delete_item failed: '' @ sdk_to_string e)), d')))"

definition DynamoLeaseStore_ops ::
  "chrono \<Rightarrow> rfc3339 \<Rightarrow> 'd dynamo \<Rightarrow> string \<Rightarrow> nat option \<Rightarrow> time \<Rightarrow> 'd LeaseStore" where
  "DynamoLeaseStore_ops c f DB tbl lim now = \<lparr>
     ls_create = DynamoLeaseStore_create c f DB tbl,
     ls_renew = DynamoLeaseStore_renew c f DB tbl (\<lambda>d. d),
     ls_cancel = DynamoLeaseStore_cancel DB tbl,
     ls_get = DynamoLeaseStore_get f DB tbl,
     ls_get_by_resource = (\<lambda>_. DynamoLeaseStore_get_by_resource f DB tbl),
     ls_list_expired = (\<lambda>clk _. DynamoLeaseStore_list_expired f DB tbl lim now clk),
     ls_remove_if_unchanged = DynamoLeaseStore_remove_if_unchanged f DB tbl \<rparr>"

section \<open>The contract\<close>

text \<open>The leases of a table in which every row is a lease this code wrote under its key.\<close>

definition dynamo_leases ::
  "('d \<Rightarrow> string \<Rightarrow> key \<Rightarrow> item option) \<Rightarrow> rfc3339 \<Rightarrow> string \<Rightarrow> 'd \<Rightarrow> string \<Rightarrow> LeaseRecord option" where
  "dynamo_leases rows f tbl d lease_id = table_view rows (lease_from_item f) tbl d (lease_key lease_id)"

definition lease_table_ok :: "('d \<Rightarrow> string \<Rightarrow> key \<Rightarrow> item option) \<Rightarrow> rfc3339 \<Rightarrow> string \<Rightarrow> 'd \<Rightarrow> bool" where
  "lease_table_ok rows f tbl d \<longleftrightarrow> table_ok rows (lease_item f) (\<lambda>r. lease_key (lr_lease_id r)) tbl d"

lemma lease_key_inj [simp]: "lease_key a = lease_key b \<longleftrightarrow> a = b"
  by (simp add: lease_key_def)

lemma opt_number_lookup:
  "fmlookup (opt_number a n i) b = (if a = b \<and> n \<noteq> None then Some (AvN (show_int (the n))) else fmlookup i b)"
  by (auto simp: opt_number_def split: option.splits)

lemmas lease_item_lookup = lease_item_def opt_number_lookup fmlookup_of_list

lemma lease_from_lease_item: "rfc3339_ok f \<Longrightarrow> lease_from_item f (lease_item f r) = Inr r"
  by (cases r) (simp add: lease_from_item_def get_simps lease_item_lookup)

lemma lease_item_key: "key_of [''lease_id''] (lease_item f r) = Some (lease_key (lr_lease_id r))"
  by (simp add: key_of_def lease_key_def lease_item_lookup)

lemma lease_item_renewed:
  "apply_updates (renew_updates f t ttl) (lease_item f r) =
     Some (lease_item f (r\<lparr>lr_expires_at := t, lr_ttl_seconds := ttl\<rparr>))"
  by (cases "ttl = LEASE_FOREVER")
     (auto simp: renew_updates_def ttl_epoch_def expires_epoch_def lease_item_lookup intro!: fmap_ext)

lemma expired_filter_item:
  "cond_holds (expired_filter now) (lease_item f r) \<longleftrightarrow>
     lr_ttl_seconds r \<noteq> LEASE_FOREVER \<and> timestamp (lr_expires_at r) \<le> timestamp now"
  by (simp add: expired_filter_def Let_def lease_item_lookup ttl_epoch_def expires_epoch_def)

lemma timestamp_mono: "s \<le> t \<Longrightarrow> timestamp s \<le> timestamp t"
  by (simp add: timestamp_def zdiv_mono1)

text \<open>A table whose key is the lease id, on a service with the documented behaviour.\<close>

locale lease_table = dynamo_db DB rows pk pos
  for DB :: "'d dynamo" and rows :: "'d \<Rightarrow> string \<Rightarrow> key \<Rightarrow> item option" and pk pos +
  fixes c :: chrono and f :: rfc3339 and tbl :: string and lim :: "nat option" and scan_now :: time
  assumes lease_pk: "pk tbl = [''lease_id'']"
    and times: "rfc3339_ok f"

sublocale lease_table \<subseteq> lt: record_table DB rows pk pos tbl "lease_item f" "lease_from_item f" "\<lambda>r. lease_key (lr_lease_id r)"
  by unfold_locales (simp_all add: lease_from_lease_item times lease_pk lease_item_key)

context lease_table
begin

abbreviation live where "live \<equiv> dynamo_leases rows f tbl"
abbreviation tok where "tok \<equiv> lease_table_ok rows f tbl"

lemma lease_key_fst [simp]: "map fst (lease_key k) = pk tbl"
  by (simp add: lease_key_def lease_pk)

lemma live_upd: "lt.view d' = (lt.view d)(lease_key k := row) \<Longrightarrow> live d' = (live d)(k := row)"
  by (auto simp: dynamo_leases_def fun_eq_iff)

lemma live_same: "lt.view d' = lt.view d \<Longrightarrow> live d' = live d"
  by (simp add: dynamo_leases_def fun_eq_iff)

lemmas tok_def = lease_table_ok_def

lemma put_lease:
  assumes "tok d" "db_put_item DB tbl (lease_item f r) None d = (x, d')"
  shows "tok d'" "x = Inr u \<Longrightarrow> live d' = (live d)(lr_lease_id r \<mapsto> r)"
  using lt.put_record(1,3)[OF assms[unfolded tok_def]] live_upd[of d' d] by (auto simp: tok_def)

lemma delete_lease:
  assumes "tok d" "db_delete_item DB tbl (lease_key k) p d = (x, d')"
  shows "tok d'"
    "x = Inr old \<Longrightarrow> satisfied p (map_option (lease_item f) (live d k)) \<and> live d' = (live d)(k := None)"
    "x = Inl (ConditionalCheckFailed m) \<Longrightarrow> \<not> satisfied p (map_option (lease_item f) (live d k)) \<and> live d' = live d"
  using lt.delete_record(1,3,4)[OF assms(1)[unfolded tok_def] lease_key_fst assms(2)] live_upd[of d' d] live_same[of d' d]
  by (auto simp: tok_def dynamo_leases_def)

lemma update_lease:
  assumes "tok d" "db_update_item DB tbl (lease_key k) (renew_updates f t ttl) (Some (attribute_exists ''lease_id'')) d = (x, d')"
  shows "tok d'"
    "x = Inr new \<Longrightarrow> \<exists>r. live d k = Some r \<and> live d' = (live d)(k \<mapsto> r\<lparr>lr_expires_at := t, lr_ttl_seconds := ttl\<rparr>)"
    "x = Inl (ConditionalCheckFailed m) \<Longrightarrow> live d k = None \<and> live d' = live d"
proof -
  have up: "apply_updates (renew_updates f t ttl) (lease_item f r) = Some (lease_item f (r\<lparr>lr_expires_at := t, lr_ttl_seconds := ttl\<rparr>)) \<and>
      lease_key (lr_lease_id (r\<lparr>lr_expires_at := t, lr_ttl_seconds := ttl\<rparr>)) = lease_key (lr_lease_id r)" for r
    by (simp add: lease_item_renewed)
  note u = lt.update_record[OF assms(1)[unfolded tok_def] lease_key_fst assms(2) _ up]
  show "tok d'" using u(1) by (simp add: tok_def satisfied_def)
  show "\<exists>r. live d k = Some r \<and> live d' = (live d)(k \<mapsto> r\<lparr>lr_expires_at := t, lr_ttl_seconds := ttl\<rparr>)" if "x = Inr new"
    using u(3)[OF _ that] live_upd[of d' d k] by (auto simp: dynamo_leases_def satisfied_def)
  show "live d k = None \<and> live d' = live d" if "x = Inl (ConditionalCheckFailed m)"
    using u(4)[OF _ that] live_same[of d' d]
    by (cases "live d k") (auto simp: dynamo_leases_def satisfied_def lease_item_lookup)
qed

lemma update_lease_missing:
  assumes "tok d" "live d k = None"
    "db_update_item DB tbl (lease_key k) (renew_updates f t ttl) (Some (attribute_exists ''lease_id'')) d = (x, d')"
  shows "live d' = live d"
proof -
  have "rows d tbl (lease_key k) = None"
    using assms(2) lt.row_view[OF assms(1)[unfolded tok_def], of "lease_key k"] by (simp add: dynamo_leases_def)
  then have "rows d' = rows d" using update_step[OF lease_key_fst assms(3)] by (auto simp: satisfied_def)
  then show ?thesis using lt.same_rows[OF _ assms(1)[unfolded tok_def], of d'] live_same by blast
qed

lemma get_lease: "tok d \<Longrightarrow> DynamoLeaseStore_get f DB tbl k d = Inr x \<Longrightarrow> x = live d k"
  using lt.fetch_record[OF _ lease_key_fst, of d k]
  by (cases "db_get_item DB tbl (lease_key k) d")
     (auto simp: DynamoLeaseStore_get_def tok_def dynamo_leases_def split: option.splits)

text \<open>The pages are read to the end, and give each expired lease once.\<close>

lemma list_expired_ends: "\<exists>r. DynamoLeaseStore_list_expired_loop f DB tbl lim now clk d = Some r"
  unfolding DynamoLeaseStore_list_expired_loop_def by (rule scan_ends)

lemma list_expired_exact:
  assumes "tok d" "DynamoLeaseStore_list_expired_loop f DB tbl lim now clk d = Some (Inr rs)"
  shows "distinct (map lr_lease_id rs)"
    "r \<in> set rs \<longleftrightarrow> live d (lr_lease_id r) = Some r \<and> is_expired (clk (lr_lease_id r)) r \<and>
       timestamp (lr_expires_at r) \<le> timestamp now"
proof -
  let ?e = "\<lambda>r. is_expired (clk (lr_lease_id r)) r"
  from lt.scan_records[OF assms(1)[unfolded tok_def] assms(2)[unfolded DynamoLeaseStore_list_expired_loop_def]]
  obtain all where all: "distinct (map (\<lambda>r. lease_key (lr_lease_id r)) all)"
    "\<forall>r. r \<in> set all \<longleftrightarrow> live d (lr_lease_id r) = Some r \<and> satisfied (Some (expired_filter now)) (Some (lease_item f r))"
    "rs = concat (map (\<lambda>r. if ?e r then [r] else []) all)" by (auto simp: dynamo_leases_def)
  have rs: "rs = filter ?e all" unfolding all(3) by (induction all) auto
  have "distinct (map lr_lease_id all)" using all(1) by (auto simp: distinct_map inj_on_def)
  then show "distinct (map lr_lease_id rs)" unfolding rs by (simp add: distinct_map_filter)
  show "r \<in> set rs \<longleftrightarrow> live d (lr_lease_id r) = Some r \<and> ?e r \<and> timestamp (lr_expires_at r) \<le> timestamp now"
    unfolding rs using all(2) by (auto simp: satisfied_def expired_filter_item is_expired_def split: if_splits)
qed

end

sublocale lease_table \<subseteq> dyn: lease_store "DynamoLeaseStore_ops c f DB tbl lim scan_now" live tok
proof (unfold_locales, goal_cases)
  case (1 d k r)
  then show ?case using lt.view_key[of d "lease_key k" r] by (simp add: dynamo_leases_def tok_def)
next
  case (2 d uid now res ttl r d')
  then show ?case using put_lease(2)[OF 2(1)]
    by (auto simp: DynamoLeaseStore_ops_def DynamoLeaseStore_create_def Let_def split: sum.splits prod.splits)
next
  case (3 d uid now res ttl)
  then show ?case using put_lease(1)[OF 3(1)]
    by (auto simp: DynamoLeaseStore_ops_def DynamoLeaseStore_create_def Let_def split: sum.splits prod.splits)
next
  case (4 d now lid ttl r d')
  then show ?case using update_lease(2)[OF 4(1)] get_lease[OF 4(1)]
    by (fastforce simp: DynamoLeaseStore_ops_def DynamoLeaseStore_renew_def split: sum.splits prod.splits option.splits if_splits)
next
  case (5 d now lid ttl)
  then show ?case using update_lease(1)[OF 5(1)]
    by (auto simp: DynamoLeaseStore_ops_def DynamoLeaseStore_renew_def split: sum.splits prod.splits option.splits if_splits)
next
  case (6 d lid u d')
  then show ?case using delete_lease(2)[OF 6(1)]
    by (auto simp: DynamoLeaseStore_ops_def DynamoLeaseStore_cancel_def split: sum.splits prod.splits)
next
  case (7 d lid)
  then show ?case using delete_lease(1)[OF 7(1)]
    by (auto simp: DynamoLeaseStore_ops_def DynamoLeaseStore_cancel_def split: sum.splits prod.splits)
next
  case (8 d lid x)
  then show ?case using get_lease by (simp add: DynamoLeaseStore_ops_def)
next
  case (9 d clk ks rs r)
  then show ?case using list_expired_exact(2)[OF 9(1), of scan_now clk rs r] list_expired_ends[of scan_now clk d]
    by (auto simp: DynamoLeaseStore_ops_def DynamoLeaseStore_list_expired_def)
next
  case (10 d ks clk rs)
  then show ?case using list_expired_exact(1)[OF 10(1), of scan_now clk rs] list_expired_ends[of scan_now clk d]
    by (auto simp: DynamoLeaseStore_ops_def DynamoLeaseStore_list_expired_def)
next
  case (11 d r d')
  then show ?case using delete_lease(2)[OF 11(1)]
    by (cases "live d (lr_lease_id r)")
       (fastforce simp: DynamoLeaseStore_ops_def DynamoLeaseStore_remove_if_unchanged_def satisfied_def lease_item_lookup
             rfc3339_inj[OF times] split: sum.splits prod.splits if_splits)+
next
  case (12 d r d')
  then obtain m where "db_delete_item DB tbl (lease_key (lr_lease_id r))
      (Some (attribute_eq ''expires_at'' (AvS (to_rfc3339 f (lr_expires_at r))))) d = (Inl (ConditionalCheckFailed m), d')"
    by (auto simp: DynamoLeaseStore_ops_def DynamoLeaseStore_remove_if_unchanged_def is_conditional_check_failed_def
             split: sum.splits prod.splits if_splits sdk_error.splits)
  from delete_lease(3)[OF 12(1) this refl] show ?case by (auto simp: satisfied_def lease_item_lookup)
next
  case (13 d r)
  then show ?case using delete_lease(1)[OF 13(1)]
    by (auto simp: DynamoLeaseStore_ops_def DynamoLeaseStore_remove_if_unchanged_def split: sum.splits prod.splits if_splits)
qed

context lease_table
begin

lemma keeps_contract: "lease_store (DynamoLeaseStore_ops c f DB tbl lim scan_now) live tok"
  by (rule dyn.lease_store_axioms)

end

end
