(* ===== verification/Dynamo_Txn.thy ===== *)
theory Dynamo_Txn
  imports Txn_Store Dynamo_Table
begin

text \<open>
  The transaction store on DynamoDB, \<^verbatim>\<open>providers/dynamo/src/txn_store.rs\<close>: the encoding of a transaction and its
  participants, the operations of the \<^verbatim>\<open>TxnStore\<close> trait, and that they keep the contract of that trait. In particular the
  conditional update is the compare-and-swap on the state that the commit protocol rests on.
\<close>

section \<open>Encoding\<close>

fun state_to_str :: "TransactionState \<Rightarrow> string" where
  "state_to_str Active = ''Active''"
| "state_to_str Voting = ''Voting''"
| "state_to_str Prepared = ''Prepared''"
| "state_to_str Committed = ''Committed''"
| "state_to_str Aborted = ''Aborted''"

definition state_from_str :: "string \<Rightarrow> TransactionState result" where
  "state_from_str s =
     (if s = ''Active'' then Inr Active
      else if s = ''Voting'' then Inr Voting
      else if s = ''Prepared'' then Inr Prepared
      else if s = ''Committed'' then Inr Committed
      else if s = ''Aborted'' then Inr Aborted
      else Inl (Storage (''unknown transaction state: '' @ s)))"

definition participant_to_av :: "ParticipantRecord \<Rightarrow> AttributeValue" where
  "participant_to_av p = AvM (fmap_of_list [
     (''endpoint'', AvS (pr_endpoint p)),
     (''crash_count'', AvN (show_u64 (pr_crash_count p)))])"

definition participant_from_av :: "AttributeValue \<Rightarrow> ParticipantRecord result" where
  "participant_from_av av =
     (case as_m av of None \<Rightarrow> Inl (Storage ''participant is not a map'') | Some m \<Rightarrow>
      case get_s ''participant endpoint'' ''endpoint'' m of Inl e \<Rightarrow> Inl e | Inr endpoint \<Rightarrow>
      case get_u64 ''participant crash_count'' ''crash_count'' m of Inl e \<Rightarrow> Inl e | Inr crash_count \<Rightarrow>
        Inr \<lparr>pr_endpoint = endpoint, pr_crash_count = crash_count\<rparr>)"

definition txn_from_item :: "rfc3339 \<Rightarrow> item \<Rightarrow> TransactionRecord result" where
  "txn_from_item f i =
     (case get_s ''txn_id'' ''txn_id'' i of Inl e \<Rightarrow> Inl e | Inr txn_id \<Rightarrow>
      case get_s ''lease_id'' ''lease_id'' i of Inl e \<Rightarrow> Inl e | Inr lease_id \<Rightarrow>
      case get_s ''state'' ''state'' i of Inl e \<Rightarrow> Inl e | Inr s \<Rightarrow>
      case state_from_str s of Inl e \<Rightarrow> Inl e | Inr state \<Rightarrow>
      case get_time f ''begun_at'' i of Inl e \<Rightarrow> Inl e | Inr begun_at \<Rightarrow>
      case (case fmlookup i ''participants'' of
              Some (AvL xs) \<Rightarrow> collect_results participant_from_av xs
            | _ \<Rightarrow> Inr []) of Inl e \<Rightarrow> Inl e | Inr participants \<Rightarrow>
        Inr \<lparr>tx_txn_id = txn_id, tx_lease_id = lease_id, tx_state = state, tx_participants = participants,
             tx_begun_at = begun_at\<rparr>)"

definition participants_to_av :: "ParticipantRecord list \<Rightarrow> AttributeValue" where
  "participants_to_av ps = AvL (map participant_to_av ps)"

text \<open>The item \<^verbatim>\<open>create\<close> puts.\<close>

definition txn_item :: "rfc3339 \<Rightarrow> TransactionRecord \<Rightarrow> item" where
  "txn_item f r = fmap_of_list [
     (''txn_id'', AvS (tx_txn_id r)),
     (''lease_id'', AvS (tx_lease_id r)),
     (''state'', AvS (state_to_str (tx_state r))),
     (''begun_at'', AvS (to_rfc3339 f (tx_begun_at r))),
     (''participants'', participants_to_av (tx_participants r))]"

definition txn_key :: "string \<Rightarrow> key" where
  "txn_key txn_id = [(''txn_id'', AvS txn_id)]"

section \<open>Operations\<close>

definition DynamoTxnStore_create :: "rfc3339 \<Rightarrow> 'd dynamo \<Rightarrow> string \<Rightarrow> TransactionRecord \<Rightarrow> 'd \<Rightarrow> unit result \<times> 'd" where
  "DynamoTxnStore_create f DB tbl record d =
     (case db_put_item DB tbl (txn_item f record) None d of
        (Inl e, d') \<Rightarrow> (Inl (Storage (''put_item failed: '' @ sdk_to_string e)), d')
      | (Inr _, d') \<Rightarrow> (Inr (), d'))"

definition DynamoTxnStore_get :: "rfc3339 \<Rightarrow> 'd dynamo \<Rightarrow> string \<Rightarrow> string \<Rightarrow> 'd \<Rightarrow> TransactionRecord option result" where
  "DynamoTxnStore_get f DB tbl txn_id d =
     (case db_get_item DB tbl (txn_key txn_id) d of
        Inl e \<Rightarrow> Inl (Storage (''get_item failed: '' @ sdk_to_string e))
      | Inr got \<Rightarrow>
          (case got of None \<Rightarrow> Inr None | Some i \<Rightarrow> (case txn_from_item f i of Inl e \<Rightarrow> Inl e | Inr r \<Rightarrow> Inr (Some r))))"

definition DynamoTxnStore_update_state ::
  "'d dynamo \<Rightarrow> string \<Rightarrow> string \<Rightarrow> TransactionState \<Rightarrow> 'd \<Rightarrow> unit result \<times> 'd" where
  "DynamoTxnStore_update_state DB tbl txn_id state d =
     (case db_update_item DB tbl (txn_key txn_id) [SetTo ''state'' (AvS (state_to_str state))]
             (Some (attribute_exists ''txn_id'')) d of
        (Inr _, d') \<Rightarrow> (Inr (), d')
      | (Inl e, d') \<Rightarrow>
          (if is_conditional_check_failed e then (Inl (TransactionNotFound txn_id), d')
           else (Inl (Storage (''update_item failed: '' @ sdk_to_string e)), d')))"

text \<open>Between the refused update and the read that tells why, others may change the table: \<open>gap\<close>.\<close>

definition DynamoTxnStore_update_state_if ::
  "rfc3339 \<Rightarrow> 'd dynamo \<Rightarrow> string \<Rightarrow> ('d \<Rightarrow> 'd) \<Rightarrow> string \<Rightarrow> TransactionState \<Rightarrow> TransactionState \<Rightarrow> 'd \<Rightarrow> bool result \<times> 'd" where
  "DynamoTxnStore_update_state_if f DB tbl gap txn_id expected new d =
     (case db_update_item DB tbl (txn_key txn_id) [SetTo ''state'' (AvS (state_to_str new))]
             (Some (attribute_eq ''state'' (AvS (state_to_str expected)))) d of
        (Inr _, d') \<Rightarrow> (Inr True, d')
      | (Inl e, d') \<Rightarrow>
          (if \<not> is_conditional_check_failed e then (Inl (Storage (''update_item failed: '' @ sdk_to_string e)), d')
           else case DynamoTxnStore_get f DB tbl txn_id (gap d') of
                  Inl err \<Rightarrow> (Inl err, gap d')
                | Inr (Some _) \<Rightarrow> (Inr False, gap d')
                | Inr None \<Rightarrow> (Inl (TransactionNotFound txn_id), gap d')))"

definition DynamoTxnStore_add_participant ::
  "rfc3339 \<Rightarrow> 'd dynamo \<Rightarrow> string \<Rightarrow> ('d \<Rightarrow> 'd) \<Rightarrow> string \<Rightarrow> ParticipantRecord \<Rightarrow> 'd \<Rightarrow> unit result \<times> 'd" where
  "DynamoTxnStore_add_participant f DB tbl gap txn_id participant d =
     (case db_update_item DB tbl (txn_key txn_id) [AppendTo ''participants'' (AvL [participant_to_av participant])]
             (Some (attribute_eq ''state'' (AvS (state_to_str Active)))) d of
        (Inr _, d') \<Rightarrow> (Inr (), d')
      | (Inl e, d') \<Rightarrow>
          (if \<not> is_conditional_check_failed e then (Inl (Storage (''update_item failed: '' @ sdk_to_string e)), d')
           else case DynamoTxnStore_get f DB tbl txn_id (gap d') of
                  Inl err \<Rightarrow> (Inl err, gap d')
                | Inr (Some _) \<Rightarrow> (Inl (TransactionTerminal txn_id), gap d')
                | Inr None \<Rightarrow> (Inl (TransactionNotFound txn_id), gap d')))"

definition DynamoTxnStore_remove :: "'d dynamo \<Rightarrow> string \<Rightarrow> string \<Rightarrow> 'd \<Rightarrow> unit result \<times> 'd" where
  "DynamoTxnStore_remove DB tbl txn_id d =
     (case db_delete_item DB tbl (txn_key txn_id) None d of
        (Inl e, d') \<Rightarrow> (Inl (Storage (''delete_item failed: '' @ sdk_to_string e)), d')
      | (Inr _, d') \<Rightarrow> (Inr (), d'))"

definition DynamoTxnStore_list_all_loop :: "rfc3339 \<Rightarrow> 'd dynamo \<Rightarrow> string \<Rightarrow> 'd \<Rightarrow> TransactionRecord list result option" where
  "DynamoTxnStore_list_all_loop f DB tbl d =
     paged (\<lambda>last_key. map_err (\<lambda>e. Storage (''scan failed: '' @ sdk_to_string e)) (db_scan DB tbl None None last_key d))
       (decoding (txn_from_item f) (\<lambda>r. [r])) None []"

definition DynamoTxnStore_list_all :: "rfc3339 \<Rightarrow> 'd dynamo \<Rightarrow> string \<Rightarrow> 'd \<Rightarrow> TransactionRecord list result" where
  "DynamoTxnStore_list_all f DB tbl d = the (DynamoTxnStore_list_all_loop f DB tbl d)"

definition DynamoTxnStore_ops :: "rfc3339 \<Rightarrow> 'd dynamo \<Rightarrow> string \<Rightarrow> 'd TxnStore" where
  "DynamoTxnStore_ops f DB tbl = \<lparr>
     ts_create = DynamoTxnStore_create f DB tbl,
     ts_get = DynamoTxnStore_get f DB tbl,
     ts_update_state = DynamoTxnStore_update_state DB tbl,
     ts_update_state_if = DynamoTxnStore_update_state_if f DB tbl (\<lambda>d. d),
     ts_add_participant = DynamoTxnStore_add_participant f DB tbl (\<lambda>d. d),
     ts_remove = DynamoTxnStore_remove DB tbl,
     ts_list_all = (\<lambda>_. DynamoTxnStore_list_all f DB tbl) \<rparr>"

section \<open>The contract\<close>

definition dynamo_txns ::
  "('d \<Rightarrow> string \<Rightarrow> key \<Rightarrow> item option) \<Rightarrow> rfc3339 \<Rightarrow> string \<Rightarrow> 'd \<Rightarrow> string \<Rightarrow> TransactionRecord option" where
  "dynamo_txns rows f tbl d txn_id = table_view rows (txn_from_item f) tbl d (txn_key txn_id)"

definition txn_table_ok :: "('d \<Rightarrow> string \<Rightarrow> key \<Rightarrow> item option) \<Rightarrow> rfc3339 \<Rightarrow> string \<Rightarrow> 'd \<Rightarrow> bool" where
  "txn_table_ok rows f tbl d \<longleftrightarrow> table_ok rows (txn_item f) (\<lambda>r. txn_key (tx_txn_id r)) tbl d"

lemma txn_key_inj [simp]: "txn_key a = txn_key b \<longleftrightarrow> a = b"
  by (simp add: txn_key_def)

lemma state_from_to [simp]: "state_from_str (state_to_str s) = Inr s"
  by (cases s) (simp_all add: state_from_str_def)

lemma state_to_str_inj [simp]: "state_to_str s = state_to_str t \<longleftrightarrow> s = t"
  by (metis state_from_to sum.inject(2))

lemma participant_from_to: "participant_from_av (participant_to_av p) = Inr p"
  by (cases p) (simp add: participant_from_av_def participant_to_av_def get_simps fmlookup_of_list)

lemma participants_from_to: "collect_results participant_from_av (map participant_to_av ps) = Inr ps"
  by (induction ps) (simp_all add: participant_from_to)

lemmas txn_item_lookup = txn_item_def fmlookup_of_list

lemma txn_from_txn_item: "rfc3339_ok f \<Longrightarrow> txn_from_item f (txn_item f r) = Inr r"
  by (cases r) (simp add: txn_from_item_def get_simps txn_item_lookup participants_to_av_def participants_from_to)

lemma txn_item_key: "key_of [''txn_id''] (txn_item f r) = Some (txn_key (tx_txn_id r))"
  by (simp add: key_of_def txn_key_def txn_item_lookup)

lemma txn_item_state:
  "apply_updates [SetTo ''state'' (AvS (state_to_str s))] (txn_item f r) = Some (txn_item f (r\<lparr>tx_state := s\<rparr>))"
  by (auto simp: txn_item_lookup intro!: fmap_ext)

lemma txn_item_participant:
  "apply_updates [AppendTo ''participants'' (AvL [participant_to_av p])] (txn_item f r) =
     Some (txn_item f (r\<lparr>tx_participants := tx_participants r @ [p]\<rparr>))"
  by (auto simp: txn_item_lookup participants_to_av_def intro!: fmap_ext)

text \<open>An item that does not decode is a storage error.\<close>

lemma participant_from_av_error: "participant_from_av av = Inl e \<Longrightarrow> \<exists>m. e = Storage m"
  by (auto simp: participant_from_av_def split: option.splits sum.splits dest: get_errors)

lemma txn_from_item_error: "txn_from_item f i = Inl e \<Longrightarrow> \<exists>m. e = Storage m"
  by (auto simp: txn_from_item_def state_from_str_def
           split: option.splits sum.splits AttributeValue.splits if_splits
           dest!: get_errors collect_results_error participant_from_av_error)

locale txn_table = dynamo_db DB rows pk pos
  for DB :: "'d dynamo" and rows :: "'d \<Rightarrow> string \<Rightarrow> key \<Rightarrow> item option" and pk pos +
  fixes f :: rfc3339 and tbl :: string
  assumes txn_pk: "pk tbl = [''txn_id'']"
    and times: "rfc3339_ok f"

sublocale txn_table \<subseteq> tt: record_table DB rows pk pos tbl "txn_item f" "txn_from_item f" "\<lambda>r. txn_key (tx_txn_id r)"
  by unfold_locales (simp_all add: txn_from_txn_item times txn_pk txn_item_key)

context txn_table
begin

abbreviation live where "live \<equiv> dynamo_txns rows f tbl"
abbreviation ok where "ok \<equiv> txn_table_ok rows f tbl"

lemma txn_key_fst [simp]: "map fst (txn_key k) = pk tbl"
  by (simp add: txn_key_def txn_pk)

lemma live_upd: "tt.view d' = (tt.view d)(txn_key k := row) \<Longrightarrow> live d' = (live d)(k := row)"
  by (auto simp: dynamo_txns_def fun_eq_iff)

lemma live_same: "tt.view d' = tt.view d \<Longrightarrow> live d' = live d"
  by (simp add: dynamo_txns_def fun_eq_iff)

lemma create_txn:
  assumes "ok d" "DynamoTxnStore_create f DB tbl r d = (x, d')"
  shows "ok d' \<and> (live d' = live d \<or> live d' = (live d)(tx_txn_id r \<mapsto> r)) \<and>
    (\<forall>u. x = Inr u \<longrightarrow> live d' = (live d)(tx_txn_id r \<mapsto> r))"
proof -
  obtain y e where y: "db_put_item DB tbl (txn_item f r) None d = (y, e)" by fastforce
  with assms(2) have "d' = e" "\<And>u. x = Inr u \<Longrightarrow> y = Inr ()"
    by (auto simp: DynamoTxnStore_create_def split: sum.splits)
  with tt.put_record(1,2,3)[OF assms(1)[unfolded txn_table_ok_def] y] live_upd[of d' d] live_same[of d' d]
  show ?thesis by (auto simp: txn_table_ok_def)
qed

lemma get_txn: "ok d \<Longrightarrow> DynamoTxnStore_get f DB tbl k d = Inr x \<Longrightarrow> x = live d k"
  using tt.fetch_record[OF _ txn_key_fst, of d k]
  by (cases "db_get_item DB tbl (txn_key k) d") (auto simp: DynamoTxnStore_get_def txn_table_ok_def dynamo_txns_def)

text \<open>An update conditioned on a state.\<close>

lemma update_txn:
  assumes "ok d" "db_update_item DB tbl (txn_key k) us (Some (attribute_eq ''state'' (AvS (state_to_str s)))) d = (x, d')"
    "\<And>r. apply_updates us (txn_item f r) = Some (txn_item f (up r)) \<and> tx_txn_id (up r) = tx_txn_id r"
  shows "ok d'"
    "live d' = live d \<or> (\<exists>r. live d k = Some r \<and> tx_state r = s \<and> live d' = (live d)(k \<mapsto> up r))"
    "x = Inr new \<Longrightarrow> \<exists>r. live d k = Some r \<and> tx_state r = s \<and> live d' = (live d)(k \<mapsto> up r)"
    "x = Inl (ConditionalCheckFailed m) \<Longrightarrow> (\<forall>r. live d k = Some r \<longrightarrow> tx_state r \<noteq> s) \<and> live d' = live d"
proof -
  have st: "cond_holds (attribute_eq ''state'' (AvS (state_to_str s))) (txn_item f r) \<longleftrightarrow> tx_state r = s" for r
    by (simp add: txn_item_lookup)
  have no: "\<not> satisfied (Some (attribute_eq ''state'' (AvS (state_to_str s)))) None" by (simp add: satisfied_def)
  have up: "apply_updates us (txn_item f r) = Some (txn_item f (up r)) \<and> txn_key (tx_txn_id (up r)) = txn_key (tx_txn_id r)" for r
    using assms(3) by simp
  note u = tt.update_record[OF assms(1)[unfolded txn_table_ok_def] txn_key_fst assms(2) no up, unfolded st]
  show "ok d'" using u(1) by (simp add: txn_table_ok_def)
  show "live d' = live d \<or> (\<exists>r. live d k = Some r \<and> tx_state r = s \<and> live d' = (live d)(k \<mapsto> up r))"
    using u(2) live_upd[of d' d k] live_same[of d' d] by (auto simp: dynamo_txns_def)
  show "\<exists>r. live d k = Some r \<and> tx_state r = s \<and> live d' = (live d)(k \<mapsto> up r)" if "x = Inr new"
    using u(3)[OF that] live_upd[of d' d k] by (auto simp: dynamo_txns_def)
  show "(\<forall>r. live d k = Some r \<longrightarrow> tx_state r \<noteq> s) \<and> live d' = live d" if "x = Inl (ConditionalCheckFailed m)"
    using u(4)[OF that] live_same[of d' d] by (auto simp: dynamo_txns_def)
qed

lemmas cas_txn = update_txn[where us = "[SetTo ''state'' (AvS (state_to_str s'))]" and up = "\<lambda>r. r\<lparr>tx_state := s'\<rparr>" for s',
  OF _ _ conjI[OF txn_item_state], simplified]

lemmas append_txn = update_txn[where us = "[AppendTo ''participants'' (AvL [participant_to_av p])]"
  and up = "\<lambda>r. r\<lparr>tx_participants := tx_participants r @ [p]\<rparr>" for p, OF _ _ conjI[OF txn_item_participant], simplified]

lemma list_all_ends: "\<exists>r. DynamoTxnStore_list_all_loop f DB tbl d = Some r"
  unfolding DynamoTxnStore_list_all_loop_def by (rule scan_ends)

lemma list_all_exact:
  assumes "ok d" "DynamoTxnStore_list_all_loop f DB tbl d = Some (Inr rs)"
  shows "distinct (map tx_txn_id rs) \<and> (\<forall>r. r \<in> set rs \<longleftrightarrow> live d (tx_txn_id r) = Some r)"
proof -
  from tt.scan_records[OF assms(1)[unfolded txn_table_ok_def] assms(2)[unfolded DynamoTxnStore_list_all_loop_def]]
  obtain all where "distinct (map (\<lambda>r. txn_key (tx_txn_id r)) all)"
    "\<forall>r. r \<in> set all \<longleftrightarrow> live d (tx_txn_id r) = Some r" "rs = all"
    by (auto simp: dynamo_txns_def satisfied_def)
  then show ?thesis by (auto simp: distinct_map inj_on_def)
qed

end

sublocale txn_table \<subseteq> dyn: txn_store "DynamoTxnStore_ops f DB tbl" live ok "\<lambda>_ _. True"
proof (unfold_locales, goal_cases)
  case (1 d k r)
  then show ?case using tt.view_key[of d "txn_key k" r] by (simp add: dynamo_txns_def txn_table_ok_def)
next
  case (2 d r u d')
  then show ?case using create_txn[OF 2(1)] by (simp add: DynamoTxnStore_ops_def)
next
  case (3 d r x d')
  then show ?case using create_txn[OF 3(1)] by (simp add: DynamoTxnStore_ops_def)
next
  case (4 d k got)
  then show ?case using get_txn by (simp add: DynamoTxnStore_ops_def)
next
  case (5 d k expected new d')
  then show ?case using cas_txn(3)[OF 5(1)]
    by (auto simp: DynamoTxnStore_ops_def DynamoTxnStore_update_state_if_def split: sum.splits prod.splits option.splits if_splits)
next
  case (6 d k expected new d')
  then obtain m r where "db_update_item DB tbl (txn_key k) [SetTo ''state'' (AvS (state_to_str new))]
      (Some (attribute_eq ''state'' (AvS (state_to_str expected)))) d = (Inl (ConditionalCheckFailed m), d')"
    "DynamoTxnStore_get f DB tbl k d' = Inr (Some r)"
    by (auto simp: DynamoTxnStore_ops_def DynamoTxnStore_update_state_if_def is_conditional_check_failed_def
             split: sum.splits prod.splits option.splits if_splits sdk_error.splits)
  with cas_txn(1,4)[OF 6(1)] get_txn[of d' k "Some r"] show ?case by (metis (no_types))
next
  case (7 d k expected new msg d')
  then obtain m where "db_update_item DB tbl (txn_key k) [SetTo ''state'' (AvS (state_to_str new))]
      (Some (attribute_eq ''state'' (AvS (state_to_str expected)))) d = (Inl (ConditionalCheckFailed m), d')"
    "DynamoTxnStore_get f DB tbl k d' = Inr None"
    by (auto simp: DynamoTxnStore_ops_def DynamoTxnStore_update_state_if_def DynamoTxnStore_get_def is_conditional_check_failed_def
             split: sum.splits prod.splits option.splits if_splits sdk_error.splits dest!: txn_from_item_error)
  with cas_txn(1,4)[OF 7(1)] get_txn[of d' k None] show ?case by (metis (no_types))
next
  case (8 d k expected new b d')
  then show ?case using cas_txn(1,2)[OF 8(1), of k new expected]
    by (auto simp: DynamoTxnStore_ops_def DynamoTxnStore_update_state_if_def split: sum.splits prod.splits option.splits if_splits)
next
  case (9 d k p u d')
  then show ?case using append_txn(3)[OF 9(1)]
    by (auto simp: DynamoTxnStore_ops_def DynamoTxnStore_add_participant_def split: sum.splits prod.splits option.splits if_splits)
next
  case (10 d k p x d')
  then show ?case using append_txn(1,2)[OF 10(1), of k p Active]
    by (auto simp: DynamoTxnStore_ops_def DynamoTxnStore_add_participant_def split: sum.splits prod.splits option.splits if_splits)
next
  case (11 d ks rs r)
  then show ?case using list_all_exact[OF 11(1), of rs] list_all_ends[of d]
    by (auto simp: DynamoTxnStore_ops_def DynamoTxnStore_list_all_def)
qed

context txn_table
begin

lemma keeps_contract: "txn_store (DynamoTxnStore_ops f DB tbl) live ok (\<lambda>_ _. True)"
  by (rule dyn.txn_store_axioms)

end

end
