(* ===== verification/Dynamo_Registry.thy ===== *)
theory Dynamo_Registry
  imports Registry_Store Dynamo_Table
begin

text \<open>
  The registry store on DynamoDB, \<^verbatim>\<open>providers/dynamo/src/registry_store.rs\<close>: the encoding of an entry, the operations of
  the \<^verbatim>\<open>RegistryStore\<close> trait, and that they keep the contract of that trait.
\<close>

section \<open>Encoding\<close>

definition transport_item :: "TransportConfig option \<Rightarrow> item \<Rightarrow> item" where
  "transport_item tr i =
     (case tr of
        None \<Rightarrow> i
      | Some t \<Rightarrow> fmupd ''transport_config'' (str_map_av (config t)) (fmupd ''transport_type'' (AvS (transport_type t)) i))"

definition entry_to_item :: "RegistryEntry \<Rightarrow> item" where
  "entry_to_item entry =
     transport_item (re_transport entry) (fmap_of_list [
       (''capability_id'', AvS (re_capability_id entry)),
       (''lease_id'', AvS (re_lease_id entry)),
       (''interface'', AvS (re_interface entry)),
       (''attrs'', str_map_av (re_attrs entry))])"

definition value_error :: "string \<Rightarrow> string \<Rightarrow> string" where
  "value_error what k = what @ '' value for key '' @ quoted k @ '' is not a string''"

definition transport_from_item :: "(item \<Rightarrow> string list) \<Rightarrow> item \<Rightarrow> TransportConfig option result" where
  "transport_from_item ho i =
     (case (fmlookup i ''transport_type'', fmlookup i ''transport_config'') of
        (Some (AvS tt), Some (AvM m)) \<Rightarrow>
          (case str_map ho (value_error ''transport_config'') m of
             Inl e \<Rightarrow> Inl e | Inr cfg \<Rightarrow> Inr (Some \<lparr>transport_type = tt, config = cfg\<rparr>))
      | _ \<Rightarrow> Inr None)"

definition entry_from_item :: "(item \<Rightarrow> string list) \<Rightarrow> item \<Rightarrow> RegistryEntry result" where
  "entry_from_item ho i =
     (case get_s ''capability_id'' ''capability_id'' i of Inl e \<Rightarrow> Inl e | Inr capability_id \<Rightarrow>
      case get_s ''lease_id'' ''lease_id'' i of Inl e \<Rightarrow> Inl e | Inr lease_id \<Rightarrow>
      case get_s ''interface'' ''interface'' i of Inl e \<Rightarrow> Inl e | Inr interface \<Rightarrow>
      case get_str_map ho (value_error ''attrs'') ''attrs'' i of Inl e \<Rightarrow> Inl e | Inr attrs \<Rightarrow>
      case transport_from_item ho i of Inl e \<Rightarrow> Inl e | Inr transport \<Rightarrow>
        Inr \<lparr>re_capability_id = capability_id, re_lease_id = lease_id, re_interface = interface, re_attrs = attrs,
             re_transport = transport\<rparr>)"

definition entry_key :: "string \<Rightarrow> key" where
  "entry_key capability_id = [(''capability_id'', AvS capability_id)]"

section \<open>Operations\<close>

definition DynamoRegistryStore_insert :: "'d dynamo \<Rightarrow> string \<Rightarrow> RegistryEntry \<Rightarrow> 'd \<Rightarrow> unit result \<times> 'd" where
  "DynamoRegistryStore_insert DB tbl entry d =
     (case db_put_item DB tbl (entry_to_item entry) None d of
        (Inl e, d') \<Rightarrow> (Inl (Storage (''put_item failed: '' @ sdk_to_string e)), d')
      | (Inr _, d') \<Rightarrow> (Inr (), d'))"

definition DynamoRegistryStore_update :: "'d dynamo \<Rightarrow> string \<Rightarrow> RegistryEntry \<Rightarrow> 'd \<Rightarrow> RegistryEntry option result \<times> 'd" where
  "DynamoRegistryStore_update DB tbl entry d =
     (case db_put_item DB tbl (entry_to_item entry) (Some (attribute_exists ''capability_id'')) d of
        (Inr _, d') \<Rightarrow> (Inr (Some entry), d')
      | (Inl e, d') \<Rightarrow>
          (if is_conditional_check_failed e then (Inr None, d')
           else (Inl (Storage (''put_item (update) failed: '' @ sdk_to_string e)), d')))"

definition REGISTRY_LEASE_GSI :: string where
  "REGISTRY_LEASE_GSI = ''lease_id-index''"

definition lease_query :: "'d dynamo \<Rightarrow> string \<Rightarrow> string \<Rightarrow> 'd \<Rightarrow> item option result" where
  "lease_query DB tbl lease_id d =
     (case db_query DB tbl (Some REGISTRY_LEASE_GSI) (attribute_eq ''lease_id'' (AvS lease_id)) (Some 1) None d of
        Inl e \<Rightarrow> Inl (Storage (''query (lease GSI) failed: '' @ sdk_to_string e))
      | Inr ([], _) \<Rightarrow> Inr None
      | Inr (i # _, _) \<Rightarrow> Inr (Some i))"

text \<open>Between the query and the delete others may change the table: \<open>gap\<close>.\<close>

definition DynamoRegistryStore_remove_by_lease ::
  "(item \<Rightarrow> string list) \<Rightarrow> 'd dynamo \<Rightarrow> string \<Rightarrow> ('d \<Rightarrow> 'd) \<Rightarrow> string \<Rightarrow> 'd \<Rightarrow> RegistryEntry option result \<times> 'd" where
  "DynamoRegistryStore_remove_by_lease ho DB tbl gap lease_id d =
     (case lease_query DB tbl lease_id d of
        Inl e \<Rightarrow> (Inl e, d)
      | Inr None \<Rightarrow> (Inr None, d)
      | Inr (Some i) \<Rightarrow>
          (case Option.bind (fmlookup i ''capability_id'') as_s of
             None \<Rightarrow> (Inl (Storage ''GSI item missing capability_id''), d)
           | Some capability_id \<Rightarrow>
               (case entry_from_item ho i of
                  Inl e \<Rightarrow> (Inl e, d)
                | Inr entry \<Rightarrow>
                    (case db_delete_item DB tbl (entry_key capability_id) None (gap d) of
                       (Inl e, d') \<Rightarrow> (Inl (Storage (''delete_item failed: '' @ sdk_to_string e)), d')
                     | (Inr _, d') \<Rightarrow> (Inr (Some entry), d')))))"

definition DynamoRegistryStore_get ::
  "(item \<Rightarrow> string list) \<Rightarrow> 'd dynamo \<Rightarrow> string \<Rightarrow> string \<Rightarrow> 'd \<Rightarrow> RegistryEntry option result" where
  "DynamoRegistryStore_get ho DB tbl capability_id d =
     (case db_get_item DB tbl (entry_key capability_id) d of
        Inl e \<Rightarrow> Inl (Storage (''get_item failed: '' @ sdk_to_string e))
      | Inr got \<Rightarrow>
          (case got of None \<Rightarrow> Inr None | Some i \<Rightarrow> (case entry_from_item ho i of Inl e \<Rightarrow> Inl e | Inr r \<Rightarrow> Inr (Some r))))"

definition DynamoRegistryStore_get_by_lease ::
  "(item \<Rightarrow> string list) \<Rightarrow> 'd dynamo \<Rightarrow> string \<Rightarrow> string \<Rightarrow> 'd \<Rightarrow> RegistryEntry option result" where
  "DynamoRegistryStore_get_by_lease ho DB tbl lease_id d =
     (case lease_query DB tbl lease_id d of
        Inl e \<Rightarrow> Inl e
      | Inr None \<Rightarrow> Inr None
      | Inr (Some i) \<Rightarrow> (case entry_from_item ho i of Inl e \<Rightarrow> Inl e | Inr r \<Rightarrow> Inr (Some r)))"

definition DynamoRegistryStore_list_all_loop ::
  "(item \<Rightarrow> string list) \<Rightarrow> 'd dynamo \<Rightarrow> string \<Rightarrow> 'd \<Rightarrow> RegistryEntry list result option" where
  "DynamoRegistryStore_list_all_loop ho DB tbl d =
     paged (\<lambda>last_key. map_err (\<lambda>e. Storage (''scan failed: '' @ sdk_to_string e)) (db_scan DB tbl None None last_key d))
       (decoding (entry_from_item ho) (\<lambda>r. [r])) None []"

definition DynamoRegistryStore_list_all ::
  "(item \<Rightarrow> string list) \<Rightarrow> 'd dynamo \<Rightarrow> string \<Rightarrow> 'd \<Rightarrow> RegistryEntry list result" where
  "DynamoRegistryStore_list_all ho DB tbl d = the (DynamoRegistryStore_list_all_loop ho DB tbl d)"

definition DynamoRegistryStore_ops :: "(item \<Rightarrow> string list) \<Rightarrow> 'd dynamo \<Rightarrow> string \<Rightarrow> 'd RegistryStore" where
  "DynamoRegistryStore_ops ho DB tbl = \<lparr>
     rg_insert = DynamoRegistryStore_insert DB tbl,
     rg_update = DynamoRegistryStore_update DB tbl,
     rg_remove_by_lease = DynamoRegistryStore_remove_by_lease ho DB tbl (\<lambda>d. d),
     rg_get = DynamoRegistryStore_get ho DB tbl,
     rg_get_by_lease = DynamoRegistryStore_get_by_lease ho DB tbl,
     rg_list_all = (\<lambda>_. DynamoRegistryStore_list_all ho DB tbl) \<rparr>"

section \<open>The contract\<close>

definition dynamo_entries ::
  "('d \<Rightarrow> string \<Rightarrow> key \<Rightarrow> item option) \<Rightarrow> (item \<Rightarrow> string list) \<Rightarrow> string \<Rightarrow> 'd \<Rightarrow> string \<Rightarrow> RegistryEntry option" where
  "dynamo_entries rows ho tbl d capability_id = table_view rows (entry_from_item ho) tbl d (entry_key capability_id)"

text \<open>Every row is an entry under its key, and no two entries have the same lease.\<close>

definition registry_table_ok ::
  "('d \<Rightarrow> string \<Rightarrow> key \<Rightarrow> item option) \<Rightarrow> (item \<Rightarrow> string list) \<Rightarrow> string \<Rightarrow> 'd \<Rightarrow> bool" where
  "registry_table_ok rows ho tbl d \<longleftrightarrow>
     table_ok rows entry_to_item (\<lambda>r. entry_key (re_capability_id r)) tbl d \<and>
     (\<forall>k e k' e'. dynamo_entries rows ho tbl d k = Some e \<longrightarrow> dynamo_entries rows ho tbl d k' = Some e' \<longrightarrow>
        re_lease_id e = re_lease_id e' \<longrightarrow> k = k')"

lemma entry_key_inj [simp]: "entry_key a = entry_key b \<longleftrightarrow> a = b"
  by (simp add: entry_key_def)

lemma entry_to_item_lookup:
  "fmlookup (entry_to_item e) ''capability_id'' = Some (AvS (re_capability_id e))"
  "fmlookup (entry_to_item e) ''lease_id'' = Some (AvS (re_lease_id e))"
  "fmlookup (entry_to_item e) ''interface'' = Some (AvS (re_interface e))"
  "fmlookup (entry_to_item e) ''attrs'' = Some (str_map_av (re_attrs e))"
  "fmlookup (entry_to_item e) ''transport_type'' = map_option (\<lambda>t. AvS (transport_type t)) (re_transport e)"
  "fmlookup (entry_to_item e) ''transport_config'' = map_option (\<lambda>t. str_map_av (config t)) (re_transport e)"
  by (cases "re_transport e"; simp add: entry_to_item_def transport_item_def fmlookup_of_list)+

lemma transport_from_to: "transport_from_item ho (entry_to_item e) = Inr (re_transport e)"
  by (cases "re_transport e")
     (auto simp: transport_from_item_def entry_to_item_lookup str_map_av_def str_map_strings)

lemma entry_from_to: "entry_from_item ho (entry_to_item e) = Inr e"
  by (cases e) (simp add: entry_from_item_def get_simps get_str_map_av entry_to_item_lookup transport_from_to)

lemma entry_item_key: "key_of [''capability_id''] (entry_to_item e) = Some (entry_key (re_capability_id e))"
  by (simp add: key_of_def entry_key_def entry_to_item_lookup)

locale registry_table = dynamo_db DB rows pk pos
  for DB :: "'d dynamo" and rows :: "'d \<Rightarrow> string \<Rightarrow> key \<Rightarrow> item option" and pk pos +
  fixes ho :: "item \<Rightarrow> string list" and tbl :: string
  assumes entry_pk: "pk tbl = [''capability_id'']"

sublocale registry_table \<subseteq> rt: record_table DB rows pk pos tbl entry_to_item "entry_from_item ho" "\<lambda>r. entry_key (re_capability_id r)"
  by unfold_locales (simp_all add: entry_from_to entry_pk entry_item_key)

context registry_table
begin

abbreviation live where "live \<equiv> dynamo_entries rows ho tbl"
abbreviation ok where "ok \<equiv> registry_table_ok rows ho tbl"

lemma entry_key_fst [simp]: "map fst (entry_key k) = pk tbl"
  by (simp add: entry_key_def entry_pk)

lemma live_upd: "rt.view d' = (rt.view d)(entry_key k := row) \<Longrightarrow> live d' = (live d)(k := row)"
  by (auto simp: dynamo_entries_def fun_eq_iff)

lemma live_same: "rt.view d' = rt.view d \<Longrightarrow> live d' = live d"
  by (simp add: dynamo_entries_def fun_eq_iff)

lemma ok_tok: "ok d \<Longrightarrow> rt.tok d"
  by (simp add: registry_table_ok_def)

lemma live_key: "ok d \<Longrightarrow> live d k = Some e \<Longrightarrow> re_capability_id e = k"
  using rt.view_key[OF ok_tok, of d "entry_key k" e] by (simp add: dynamo_entries_def)

lemma ok_unique: "ok d \<Longrightarrow> live d k = Some e \<Longrightarrow> live d k' = Some e' \<Longrightarrow> re_lease_id e = re_lease_id e' \<Longrightarrow> k = k'"
  by (auto simp: registry_table_ok_def)

lemma ok_put:
  assumes "ok d" "rt.tok d'" "live d' = (live d)(re_capability_id e \<mapsto> e)"
    "\<forall>k e'. live d k = Some e' \<longrightarrow> k \<noteq> re_capability_id e \<longrightarrow> re_lease_id e' \<noteq> re_lease_id e"
  shows "ok d'"
proof -
  have "k = k'" if "live d' k = Some a" "live d' k' = Some b" "re_lease_id a = re_lease_id b" for k k' a b
    using that assms(4) ok_unique[OF assms(1), of k a k' b] unfolding assms(3) by (auto split: if_splits)
  then show ?thesis using assms(2) by (simp add: registry_table_ok_def)
qed

lemma ok_less:
  assumes "ok d" "rt.tok d'" "\<And>k e. live d' k = Some e \<Longrightarrow> live d k = Some e"
  shows "ok d'"
  using assms(2) assms(3) ok_unique[OF assms(1)] by (simp add: registry_table_ok_def)

lemma query_entry:
  assumes "ok d" "lease_query DB tbl l d = Inr x"
  shows "case x of None \<Rightarrow> \<forall>k e. live d k = Some e \<longrightarrow> re_lease_id e \<noteq> l
         | Some i \<Rightarrow> \<exists>e. i = entry_to_item e \<and> live d (re_capability_id e) = Some e \<and> re_lease_id e = l"
proof -
  obtain items lek where q: "db_query DB tbl (Some REGISTRY_LEASE_GSI) (attribute_eq ''lease_id'' (AvS l)) (Some 1) None d = Inr (items, lek)"
    and x: "x = (case items of [] \<Rightarrow> None | i # _ \<Rightarrow> Some i)"
    using assms(2) by (auto simp: lease_query_def split: sum.splits list.splits prod.splits)
  from rt.query_record[OF ok_tok[OF assms(1)] q] x show ?thesis
    by (cases items) (auto simp: entry_to_item_lookup dynamo_entries_def)
qed

lemma list_all_ends: "\<exists>r. DynamoRegistryStore_list_all_loop ho DB tbl d = Some r"
  unfolding DynamoRegistryStore_list_all_loop_def by (rule scan_ends)

lemma list_all_exact:
  assumes "ok d" "DynamoRegistryStore_list_all_loop ho DB tbl d = Some (Inr rs)"
  shows "distinct (map re_capability_id rs) \<and> (\<forall>r. r \<in> set rs \<longleftrightarrow> live d (re_capability_id r) = Some r)"
proof -
  from rt.scan_records[OF ok_tok[OF assms(1)] assms(2)[unfolded DynamoRegistryStore_list_all_loop_def]]
  obtain all where "distinct (map (\<lambda>r. entry_key (re_capability_id r)) all)"
    "\<forall>r. r \<in> set all \<longleftrightarrow> live d (re_capability_id r) = Some r" "rs = all"
    by (auto simp: dynamo_entries_def satisfied_def)
  then show ?thesis by (auto simp: distinct_map inj_on_def)
qed

lemma put_entry:
  assumes "ok d" "db_put_item DB tbl (entry_to_item e) p d = (x, d')"
    "\<forall>k e'. live d k = Some e' \<longrightarrow> k \<noteq> re_capability_id e \<longrightarrow> re_lease_id e' \<noteq> re_lease_id e"
  shows "x = Inr u \<Longrightarrow> satisfied p (map_option entry_to_item (live d (re_capability_id e))) \<and> ok d' \<and>
           live d' = (live d)(re_capability_id e \<mapsto> e)"
    "x = Inl (ConditionalCheckFailed m) \<Longrightarrow> \<not> satisfied p (map_option entry_to_item (live d (re_capability_id e))) \<and> ok d' \<and>
           live d' = live d"
proof -
  note p = rt.put_record[OF ok_tok[OF assms(1)] assms(2)]
  show "satisfied p (map_option entry_to_item (live d (re_capability_id e))) \<and> ok d' \<and>
           live d' = (live d)(re_capability_id e \<mapsto> e)" if "x = Inr u"
    using p(3)[OF that] live_upd[of d' d] ok_put[OF assms(1) p(1) _ assms(3)] by (auto simp: dynamo_entries_def)
  show "\<not> satisfied p (map_option entry_to_item (live d (re_capability_id e))) \<and> ok d' \<and> live d' = live d"
    if "x = Inl (ConditionalCheckFailed m)"
    using p(4)[OF that] live_same[of d' d] ok_less[OF assms(1) p(1)] by (auto simp: dynamo_entries_def)
qed

lemma remove_entry:
  assumes "ok d" "DynamoRegistryStore_remove_by_lease ho DB tbl (\<lambda>d. d) l d = (Inr (Some e), d')"
  shows "ok d' \<and> live d (re_capability_id e) = Some e \<and> re_lease_id e = l \<and> live d' = (live d)(re_capability_id e := None)"
proof -
  from assms(2) obtain i cap old where i: "lease_query DB tbl l d = Inr (Some i)"
    "Option.bind (fmlookup i ''capability_id'') as_s = Some cap" "entry_from_item ho i = Inr e"
    and del: "db_delete_item DB tbl (entry_key cap) None d = (Inr old, d')"
    by (auto simp: DynamoRegistryStore_remove_by_lease_def split: sum.splits option.splits prod.splits)
  from query_entry[OF assms(1) i(1)] i(2,3) have e: "cap = re_capability_id e" "live d cap = Some e" "re_lease_id e = l"
    by (auto simp: entry_from_to entry_to_item_lookup)
  note dr = rt.delete_record[OF ok_tok[OF assms(1)] entry_key_fst del]
  have live: "live d' = (live d)(cap := None)" using dr(3)[OF refl] live_upd by blast
  moreover have "ok d'" by (rule ok_less[OF assms(1) dr(1)]) (simp add: live split: if_splits)
  ultimately show ?thesis using e by simp
qed

end

sublocale registry_table \<subseteq> dyn: registry_store "DynamoRegistryStore_ops ho DB tbl" live ok "\<lambda>_ _. True"
proof (unfold_locales, goal_cases)
  case (1 d k e)
  then show ?case by (rule live_key)
next
  case (2 d k e k' e')
  then show ?case by (rule ok_unique)
next
  case (3 d e u d')
  then show ?case using put_entry(1)[OF 3(1), of e None]
    by (auto simp: DynamoRegistryStore_ops_def DynamoRegistryStore_insert_def split: sum.splits prod.splits)
next
  case (4 d e x d')
  let ?p = "Some (attribute_exists ''capability_id'')"
  have here: "satisfied ?p (map_option entry_to_item row) \<longleftrightarrow> row \<noteq> None" for row
    by (cases row) (simp_all add: satisfied_def entry_to_item_lookup)
  from 4 show ?case using put_entry[OF 4(1) _ 4(2), of ?p, unfolded here]
    by (auto simp: DynamoRegistryStore_ops_def DynamoRegistryStore_update_def is_conditional_check_failed_def
             split: sum.splits prod.splits if_splits sdk_error.splits)
next
  case (5 d l d')
  then show ?case using query_entry[OF 5(1), of l None]
    by (auto simp: DynamoRegistryStore_ops_def DynamoRegistryStore_remove_by_lease_def split: sum.splits prod.splits option.splits)
next
  case (6 d l e d')
  then show ?case using remove_entry by (simp add: DynamoRegistryStore_ops_def)
next
  case (7 d k x)
  then show ?case using rt.fetch_record[OF ok_tok[OF 7(1)] entry_key_fst, of k]
    by (cases "db_get_item DB tbl (entry_key k) d")
       (auto simp: DynamoRegistryStore_ops_def DynamoRegistryStore_get_def dynamo_entries_def)
next
  case (8 d l x)
  then show ?case using query_entry[OF 8(1), of l]
    by (force simp: DynamoRegistryStore_ops_def DynamoRegistryStore_get_by_lease_def entry_from_to
             split: sum.splits option.splits)
next
  case (9 d ks es e)
  then show ?case using list_all_exact[OF 9(1), of es] list_all_ends[of d]
    by (auto simp: DynamoRegistryStore_ops_def DynamoRegistryStore_list_all_def)
next
  case (10 d ks es)
  then show ?case using list_all_exact[OF 10(1), of es] list_all_ends[of d]
    by (auto simp: DynamoRegistryStore_ops_def DynamoRegistryStore_list_all_def)
qed

context registry_table
begin

lemma keeps_contract: "registry_store (DynamoRegistryStore_ops ho DB tbl) live ok (\<lambda>_ _. True)"
  by (rule dyn.registry_store_axioms)

end

end
