(* ===== verification/Dynamo_Event.thy ===== *)
theory Dynamo_Event
  imports Event_Store Dynamo_Table
begin

text \<open>
  The event store on DynamoDB, \<^verbatim>\<open>providers/dynamo/src/event_store.rs\<close>: a table of subscriptions, which also holds the counter
  of each mailbox, and a table of mailbox entries under the registration and the sequence number. The operations of the
  \<^verbatim>\<open>EventStore\<close> trait with their loops over pages and over batches of deletes, and that they keep the contract.
\<close>

section \<open>Encoding\<close>

fun delivery_to_str :: "DeliveryMode \<Rightarrow> string" where
  "delivery_to_str Durable = ''Durable''"
| "delivery_to_str BestEffort = ''BestEffort''"

definition delivery_from_str :: "string \<Rightarrow> DeliveryMode result" where
  "delivery_from_str s =
     (if s = ''Durable'' then Inr Durable
      else if s = ''BestEffort'' then Inr BestEffort
      else Inl (Storage (''unknown delivery mode: '' @ s)))"

definition sub_from_item :: "(item \<Rightarrow> string list) \<Rightarrow> item \<Rightarrow> SubscriptionRecord result" where
  "sub_from_item ho i =
     (case get_s ''registration_id'' ''registration_id'' i of Inl e \<Rightarrow> Inl e | Inr registration_id \<Rightarrow>
      case get_s ''source'' ''source'' i of Inl e \<Rightarrow> Inl e | Inr source \<Rightarrow>
      case get_s ''lease_id'' ''lease_id'' i of Inl e \<Rightarrow> Inl e | Inr lease_id \<Rightarrow>
      case get_s ''delivery'' ''delivery'' i of Inl e \<Rightarrow> Inl e | Inr m \<Rightarrow>
      case delivery_from_str m of Inl e \<Rightarrow> Inl e | Inr delivery \<Rightarrow>
      case get_str_map ho (not_a_string ''template'') ''template'' i of Inl e \<Rightarrow> Inl e | Inr template \<Rightarrow>
        Inr \<lparr>sb_registration_id = registration_id, sb_source = source, sb_template = template, sb_delivery = delivery,
             sb_lease_id = lease_id, sb_handback = get_bytes ''handback'' i,
             sb_initial_seq_num =
               (case Option.bind (Option.bind (fmlookup i ''initial_seq_num'') as_n) parse_u64 of None \<Rightarrow> 0 | Some n \<Rightarrow> n)\<rparr>)"

definition event_from_item :: "rfc3339 \<Rightarrow> (item \<Rightarrow> string list) \<Rightarrow> item \<Rightarrow> EventRecord result" where
  "event_from_item f ho i =
     (case get_s ''event_id'' ''event_id'' i of Inl e \<Rightarrow> Inl e | Inr event_id \<Rightarrow>
      case get_s ''source'' ''source'' i of Inl e \<Rightarrow> Inl e | Inr source \<Rightarrow>
      case get_s ''event_type'' ''event_type'' i of Inl e \<Rightarrow> Inl e | Inr event_type \<Rightarrow>
      case get_u64 ''seq_num'' ''seq_num'' i of Inl e \<Rightarrow> Inl e | Inr seq_num \<Rightarrow>
      case get_time f ''emitted_at'' i of Inl e \<Rightarrow> Inl e | Inr emitted_at \<Rightarrow>
      case get_str_map ho (not_a_string ''attrs'') ''attrs'' i of Inl e \<Rightarrow> Inl e | Inr attrs \<Rightarrow>
        Inr \<lparr>ev_event_id = event_id, ev_source = source, ev_event_type = event_type, ev_seq_num = seq_num,
             ev_attrs = attrs, ev_payload = get_bytes ''payload'' i, ev_emitted_at = emitted_at\<rparr>)"

text \<open>The items \<^verbatim>\<open>create_subscription\<close> and \<^verbatim>\<open>enqueue\<close> put, and their keys.\<close>

definition sub_item :: "SubscriptionRecord \<Rightarrow> item" where
  "sub_item sub = put_bytes ''handback'' (sb_handback sub) (fmap_of_list [
     (''registration_id'', AvS (sb_registration_id sub)),
     (''source'', AvS (sb_source sub)),
     (''lease_id'', AvS (sb_lease_id sub)),
     (''delivery'', AvS (delivery_to_str (sb_delivery sub))),
     (''template'', str_map_av (sb_template sub)),
     (''initial_seq_num'', AvN (show_u64 (sb_initial_seq_num sub)))])"

definition mail_item :: "rfc3339 \<Rightarrow> string \<Rightarrow> u64 \<Rightarrow> EventRecord \<Rightarrow> item" where
  "mail_item f registration_id seq event = put_bytes ''payload'' (ev_payload event) (fmap_of_list [
     (''registration_id'', AvS registration_id),
     (''seq_num'', AvN (show_u64 seq)),
     (''event_id'', AvS (ev_event_id event)),
     (''source'', AvS (ev_source event)),
     (''event_type'', AvS (ev_event_type event)),
     (''emitted_at'', AvS (to_rfc3339 f (ev_emitted_at event))),
     (''attrs'', str_map_av (ev_attrs event))])"

definition sub_key :: "string \<Rightarrow> key" where
  "sub_key registration_id = [(''registration_id'', AvS registration_id)]"

definition mailbox_key :: "string \<Rightarrow> string \<Rightarrow> key" where
  "mailbox_key registration_id seq_num = [(''registration_id'', AvS registration_id), (''seq_num'', AvN seq_num)]"

section \<open>Operations on the mailbox table\<close>

definition BATCH_DELETE_MAX_ATTEMPTS :: nat where
  "BATCH_DELETE_MAX_ATTEMPTS = 6"

text \<open>The inner loop of \<^verbatim>\<open>batch_delete\<close>: send what is pending, until nothing is or the attempts are used up.\<close>

function flush_batch :: "'d dynamo \<Rightarrow> string \<Rightarrow> nat \<Rightarrow> key list \<Rightarrow> 'd \<Rightarrow> unit result \<times> 'd" where
  "flush_batch DB tbl attempt pending d =
     (if pending = [] then (Inr (), d)
      else if attempt \<ge> BATCH_DELETE_MAX_ATTEMPTS then
        (Inl (Storage (''batch_write_item: '' @ show_nat (length pending) @
           '' mailbox deletes still unprocessed after '' @ show_nat attempt @ '' attempts'')), d)
      else case db_batch_delete DB tbl pending d of
             (Inl e, d') \<Rightarrow> (Inl (Storage (''batch_write_item failed: '' @ sdk_to_string e)), d')
           | (Inr unprocessed, d') \<Rightarrow> flush_batch DB tbl (attempt + 1) unprocessed d')"
  by pat_completeness auto
termination
  by (relation "measure (\<lambda>(_, _, attempt, _, _). BATCH_DELETE_MAX_ATTEMPTS - attempt)") auto

declare flush_batch.simps [simp del]

text \<open>\<^verbatim>\<open>keys.chunks(n + 1)\<close>.\<close>

fun chunks :: "nat \<Rightarrow> 'a list \<Rightarrow> 'a list list" where
  "chunks n [] = []"
| "chunks n (x # xs) = (x # take n xs) # chunks n (drop n xs)"

fun flush_chunks :: "'d dynamo \<Rightarrow> string \<Rightarrow> key list list \<Rightarrow> 'd \<Rightarrow> unit result \<times> 'd" where
  "flush_chunks DB tbl [] d = (Inr (), d)"
| "flush_chunks DB tbl (c # cs) d =
     (case flush_batch DB tbl 0 c d of (Inl e, d') \<Rightarrow> (Inl e, d') | (Inr _, d') \<Rightarrow> flush_chunks DB tbl cs d')"

definition batch_delete :: "'d dynamo \<Rightarrow> string \<Rightarrow> key list \<Rightarrow> 'd \<Rightarrow> unit result \<times> 'd" where
  "batch_delete DB tbl keys d = flush_chunks DB tbl (chunks 24 keys) d"

definition mail_key_of :: "string \<Rightarrow> item \<Rightarrow> key option" where
  "mail_key_of registration_id i = map_option (mailbox_key registration_id) (Option.bind (fmlookup i ''seq_num'') as_n)"

partial_function (option) drain_mailbox_loop ::
  "'d dynamo \<Rightarrow> string \<Rightarrow> string \<Rightarrow> key option \<Rightarrow> 'd \<Rightarrow> (unit result \<times> 'd) option" where
  "drain_mailbox_loop DB tbl registration_id last_key d =
     (case db_query DB tbl None (attribute_eq ''registration_id'' (AvS registration_id)) None last_key d of
        Inl e \<Rightarrow> Some (Inl (Storage (''query failed: '' @ sdk_to_string e)), d)
      | Inr (items, lek) \<Rightarrow>
          (case batch_delete DB tbl (List.map_filter (mail_key_of registration_id) items) d of
             (Inl e, d') \<Rightarrow> Some (Inl e, d')
           | (Inr _, d') \<Rightarrow>
               (case lek of None \<Rightarrow> Some (Inr (), d') | Some k \<Rightarrow> drain_mailbox_loop DB tbl registration_id (Some k) d')))"

definition drain_mailbox :: "'d dynamo \<Rightarrow> string \<Rightarrow> string \<Rightarrow> 'd \<Rightarrow> unit result \<times> 'd" where
  "drain_mailbox DB tbl registration_id d = the (drain_mailbox_loop DB tbl registration_id None d)"

definition past_cursor :: "string \<Rightarrow> u64 \<Rightarrow> condition" where
  "past_cursor registration_id after_seq =
     cond_and (attribute_eq ''registration_id'' (AvS registration_id)) (attribute_gt ''seq_num'' (AvN (show_u64 after_seq)))"

partial_function (option) peek_loop ::
  "rfc3339 \<Rightarrow> (item \<Rightarrow> string list) \<Rightarrow> 'd dynamo \<Rightarrow> string \<Rightarrow> string \<Rightarrow> u64 \<Rightarrow> nat \<Rightarrow> key option \<Rightarrow> EventRecord list \<Rightarrow> 'd
   \<Rightarrow> EventRecord list result option" where
  "peek_loop f ho DB tbl registration_id after_seq limit last_key events d =
     (if length events < limit then
        case db_query DB tbl None (past_cursor registration_id after_seq) (Some (min (limit - length events) 2147483647)) last_key d of
          Inl e \<Rightarrow> Some (Inl (Storage (''query failed: '' @ sdk_to_string e)))
        | Inr (items, lek) \<Rightarrow>
            (case push_all (decoding (event_from_item f ho) (\<lambda>e. [e])) items events of
               Inl e \<Rightarrow> Some (Inl e)
             | Inr events' \<Rightarrow>
                 (case lek of
                    None \<Rightarrow> Some (Inr events')
                  | Some k \<Rightarrow> peek_loop f ho DB tbl registration_id after_seq limit (Some k) events' d))
      else Some (Inr events))"

section \<open>Operations\<close>

definition DynamoEventStore_create_subscription :: "'d dynamo \<Rightarrow> string \<Rightarrow> SubscriptionRecord \<Rightarrow> 'd \<Rightarrow> unit result \<times> 'd" where
  "DynamoEventStore_create_subscription DB sub_table sub d =
     (case db_put_item DB sub_table (sub_item sub) None d of
        (Inl e, d') \<Rightarrow> (Inl (Storage (''put_item failed: '' @ sdk_to_string e)), d')
      | (Inr _, d') \<Rightarrow> (Inr (), d'))"

definition DynamoEventStore_get_subscription ::
  "(item \<Rightarrow> string list) \<Rightarrow> 'd dynamo \<Rightarrow> string \<Rightarrow> string \<Rightarrow> 'd \<Rightarrow> SubscriptionRecord option result" where
  "DynamoEventStore_get_subscription ho DB sub_table registration_id d =
     (case db_get_item DB sub_table (sub_key registration_id) d of
        Inl e \<Rightarrow> Inl (Storage (''get_item failed: '' @ sdk_to_string e))
      | Inr None \<Rightarrow> Inr None
      | Inr (Some i) \<Rightarrow> (case sub_from_item ho i of Inl e \<Rightarrow> Inl e | Inr r \<Rightarrow> Inr (Some r)))"

definition delete_and_drain :: "'d dynamo \<Rightarrow> string \<Rightarrow> string \<Rightarrow> string \<Rightarrow> 'd \<Rightarrow> unit result \<times> 'd" where
  "delete_and_drain DB sub_table mailbox_table registration_id d =
     (case db_delete_item DB sub_table (sub_key registration_id) None d of
        (Inl e, d') \<Rightarrow> (Inl (Storage (''delete_item failed: '' @ sdk_to_string e)), d')
      | (Inr _, d') \<Rightarrow> drain_mailbox DB mailbox_table registration_id d')"

definition DynamoEventStore_remove_subscription :: "'d dynamo \<Rightarrow> string \<Rightarrow> string \<Rightarrow> string \<Rightarrow> 'd \<Rightarrow> unit result \<times> 'd" where
  "DynamoEventStore_remove_subscription DB sub_table mailbox_table registration_id d =
     delete_and_drain DB sub_table mailbox_table registration_id d"

definition EVENT_SUB_LEASE_GSI :: string where
  "EVENT_SUB_LEASE_GSI = ''lease_id-index''"

definition DynamoEventStore_remove_by_lease ::
  "(item \<Rightarrow> string list) \<Rightarrow> 'd dynamo \<Rightarrow> string \<Rightarrow> string \<Rightarrow> string \<Rightarrow> 'd \<Rightarrow> SubscriptionRecord option result \<times> 'd" where
  "DynamoEventStore_remove_by_lease ho DB sub_table mailbox_table lease_id d =
     (case db_query DB sub_table (Some EVENT_SUB_LEASE_GSI) (attribute_eq ''lease_id'' (AvS lease_id)) (Some 1) None d of
        Inl e \<Rightarrow> (Inl (Storage (''query (lease GSI) failed: '' @ sdk_to_string e)), d)
      | Inr ([], _) \<Rightarrow> (Inr None, d)
      | Inr (i # _, _) \<Rightarrow>
          (case sub_from_item ho i of
             Inl e \<Rightarrow> (Inl e, d)
           | Inr sub \<Rightarrow>
               (case delete_and_drain DB sub_table mailbox_table (sb_registration_id sub) d of
                  (Inl e, d') \<Rightarrow> (Inl e, d')
                | (Inr _, d') \<Rightarrow> (Inr (Some sub), d'))))"

definition DynamoEventStore_list_subscriptions_loop ::
  "(item \<Rightarrow> string list) \<Rightarrow> 'd dynamo \<Rightarrow> string \<Rightarrow> 'd \<Rightarrow> SubscriptionRecord list result option" where
  "DynamoEventStore_list_subscriptions_loop ho DB sub_table d =
     paged (\<lambda>last_key. map_err (\<lambda>e. Storage (''scan failed: '' @ sdk_to_string e)) (db_scan DB sub_table None None last_key d))
       (decoding (sub_from_item ho) (\<lambda>r. [r])) None []"

definition DynamoEventStore_list_subscriptions ::
  "(item \<Rightarrow> string list) \<Rightarrow> 'd dynamo \<Rightarrow> string \<Rightarrow> 'd \<Rightarrow> SubscriptionRecord list result" where
  "DynamoEventStore_list_subscriptions ho DB sub_table d = the (DynamoEventStore_list_subscriptions_loop ho DB sub_table d)"

text \<open>Between the allocation of the number and the write of the entry others may change the tables: \<open>gap\<close>.\<close>

definition DynamoEventStore_enqueue ::
  "rfc3339 \<Rightarrow> 'd dynamo \<Rightarrow> string \<Rightarrow> string \<Rightarrow> ('d \<Rightarrow> 'd) \<Rightarrow> string \<Rightarrow> EventRecord \<Rightarrow> 'd \<Rightarrow> u64 result \<times> 'd" where
  "DynamoEventStore_enqueue f DB sub_table mailbox_table gap registration_id event d =
     (case db_update_item DB sub_table (sub_key registration_id) [AddTo ''mailbox_seq'' 1]
             (Some (attribute_exists ''registration_id'')) d of
        (Inl e, d') \<Rightarrow>
          (Inl (if is_conditional_check_failed e then SubscriptionNotFound registration_id
                else Storage (''update_item (mailbox_seq) failed: '' @ sdk_to_string e)), d')
      | (Inr attributes, d') \<Rightarrow>
          (case Option.bind (Option.bind (fmlookup attributes ''mailbox_seq'') as_n) parse_u64 of
             None \<Rightarrow> (Inl (Storage ''update_item returned no mailbox_seq''), d')
           | Some seq \<Rightarrow>
               (case db_put_item DB mailbox_table (mail_item f registration_id seq event)
                       (Some (attribute_not_exists ''seq_num'')) (gap d') of
                  (Inl e, d'') \<Rightarrow>
                    (Inl (Storage (''put_item (mailbox seq '' @ show_u64 seq @ '') failed: '' @ sdk_to_string e)), d'')
                | (Inr _, d'') \<Rightarrow> (Inr seq, d''))))"

definition DynamoEventStore_peek ::
  "rfc3339 \<Rightarrow> (item \<Rightarrow> string list) \<Rightarrow> 'd dynamo \<Rightarrow> string \<Rightarrow> string \<Rightarrow> u64 \<Rightarrow> nat \<Rightarrow> 'd \<Rightarrow> EventRecord list result" where
  "DynamoEventStore_peek f ho DB mailbox_table registration_id after_seq limit d =
     (case the (peek_loop f ho DB mailbox_table registration_id after_seq limit None [] d) of
        Inl e \<Rightarrow> Inl e | Inr events \<Rightarrow> Inr (take limit events))"

definition DynamoEventStore_ack :: "'d dynamo \<Rightarrow> string \<Rightarrow> string \<Rightarrow> u64 list \<Rightarrow> 'd \<Rightarrow> unit result \<times> 'd" where
  "DynamoEventStore_ack DB mailbox_table registration_id seq_nums d =
     batch_delete DB mailbox_table (map (\<lambda>seq. mailbox_key registration_id (show_u64 seq)) seq_nums) d"

definition DynamoEventStore_ops ::
  "rfc3339 \<Rightarrow> (item \<Rightarrow> string list) \<Rightarrow> 'd dynamo \<Rightarrow> string \<Rightarrow> string \<Rightarrow> 'd EventStore" where
  "DynamoEventStore_ops f ho DB sub_table mailbox_table = \<lparr>
     es_create_subscription = DynamoEventStore_create_subscription DB sub_table,
     es_get_subscription = DynamoEventStore_get_subscription ho DB sub_table,
     es_remove_subscription = DynamoEventStore_remove_subscription DB sub_table mailbox_table,
     es_remove_by_lease = (\<lambda>_. DynamoEventStore_remove_by_lease ho DB sub_table mailbox_table),
     es_list_subscriptions = (\<lambda>_. DynamoEventStore_list_subscriptions ho DB sub_table),
     es_enqueue = DynamoEventStore_enqueue f DB sub_table mailbox_table (\<lambda>d. d),
     es_peek = DynamoEventStore_peek f ho DB mailbox_table,
     es_ack = DynamoEventStore_ack DB mailbox_table \<rparr>"

end
