(* ===== verification/Dynamo_Mailbox.thy ===== *)
theory Dynamo_Mailbox
  imports Dynamo_Event
begin

text \<open>
  The event store on DynamoDB keeps the contract of the event store: its encodings round-trip, batches of deletes remove
  what they are given and nothing else, draining a mailbox ends and empties it, and reading a mailbox ends and gives the
  oldest entries past the cursor.
\<close>

section \<open>Encodings\<close>

text \<open>A subscription's row also holds its counter; a mailbox row its registration.\<close>

definition sub_row :: "SubscriptionRecord \<times> string option \<Rightarrow> item" where
  "sub_row r = (case snd r of None \<Rightarrow> sub_item (fst r) | Some s \<Rightarrow> fmupd ''mailbox_seq'' (AvN s) (sub_item (fst r)))"

definition sub_row_from :: "(item \<Rightarrow> string list) \<Rightarrow> item \<Rightarrow> (SubscriptionRecord \<times> string option) result" where
  "sub_row_from ho i =
     (case sub_from_item ho i of Inl e \<Rightarrow> Inl e | Inr sub \<Rightarrow> Inr (sub, Option.bind (fmlookup i ''mailbox_seq'') as_n))"

definition mail_row :: "rfc3339 \<Rightarrow> string \<times> EventRecord \<Rightarrow> item" where
  "mail_row f r = mail_item f (fst r) (ev_seq_num (snd r)) (snd r)"

definition mail_row_from :: "rfc3339 \<Rightarrow> (item \<Rightarrow> string list) \<Rightarrow> item \<Rightarrow> (string \<times> EventRecord) result" where
  "mail_row_from f ho i =
     (case get_s ''registration_id'' ''registration_id'' i of Inl e \<Rightarrow> Inl e | Inr reg \<Rightarrow>
      case event_from_item f ho i of Inl e \<Rightarrow> Inl e | Inr event \<Rightarrow> Inr (reg, event))"

definition mail_row_key :: "string \<times> EventRecord \<Rightarrow> key" where
  "mail_row_key r = mailbox_key (fst r) (show_u64 (ev_seq_num (snd r)))"

lemma sub_key_inj [simp]: "sub_key a = sub_key b \<longleftrightarrow> a = b"
  by (simp add: sub_key_def)

lemma show_u64_inj [simp]: "show_u64 m = show_u64 n \<longleftrightarrow> m = n"
  by (metis option.inject parse_u64_show)

lemma mailbox_key_inj [simp]: "mailbox_key a s = mailbox_key b t \<longleftrightarrow> a = b \<and> s = t"
  by (simp add: mailbox_key_def)

lemma delivery_from_to [simp]: "delivery_from_str (delivery_to_str m) = Inr m"
  by (cases m) (simp_all add: delivery_from_str_def)

lemmas sub_item_lookup = sub_item_def put_bytes_lookup fmlookup_of_list
lemmas mail_item_lookup = mail_item_def put_bytes_lookup fmlookup_of_list

lemma sub_row_lookup: "a \<noteq> ''mailbox_seq'' \<Longrightarrow> fmlookup (sub_row r) a = fmlookup (sub_item (fst r)) a"
  by (simp add: sub_row_def split: option.splits)

lemma sub_from_sub_row: "sub_from_item ho (sub_row r) = Inr (fst r)"
  by (cases "fst r") (simp add: sub_from_item_def get_simps get_str_map_av sub_row_lookup sub_item_lookup get_bytes_def)

lemma sub_row_seq: "fmlookup (sub_row r) ''mailbox_seq'' = map_option AvN (snd r)"
  by (cases "snd r") (simp_all add: sub_row_def sub_item_lookup)

lemma sub_row_from_to: "sub_row_from ho (sub_row r) = Inr r"
  by (cases "snd r") (simp_all add: sub_row_from_def sub_from_sub_row sub_row_seq prod_eq_iff)

lemma sub_row_key: "key_of [''registration_id''] (sub_row r) = Some (sub_key (sb_registration_id (fst r)))"
  by (simp add: key_of_def sub_key_def sub_row_lookup sub_item_lookup)

lemma event_from_mail_item: "rfc3339_ok f \<Longrightarrow> event_from_item f ho (mail_item f reg n e) = Inr (e\<lparr>ev_seq_num := n\<rparr>)"
  by (cases e) (simp add: event_from_item_def get_simps get_str_map_av mail_item_lookup get_bytes_def)

lemma mail_item_seq: "mail_item f reg n e = mail_row f (reg, e\<lparr>ev_seq_num := n\<rparr>)"
  by (simp add: mail_row_def mail_item_def)

lemma mail_item_reg: "fmlookup (mail_item f reg n e) ''registration_id'' = Some (AvS reg)"
  by (simp add: mail_item_lookup)

lemma mail_row_from_to: "rfc3339_ok f \<Longrightarrow> mail_row_from f ho (mail_row f r) = Inr r"
  by (cases r) (simp add: mail_row_from_def mail_row_def event_from_mail_item get_s_def mail_item_reg)

lemma event_from_mail_row: "rfc3339_ok f \<Longrightarrow> event_from_item f ho (mail_row f r) = Inr (snd r)"
  by (simp add: mail_row_def event_from_mail_item)

lemma mail_row_key_of: "key_of [''registration_id'', ''seq_num''] (mail_row f r) = Some (mail_row_key r)"
  by (simp add: key_of_def mail_row_key_def mailbox_key_def mail_row_def mail_item_lookup)

lemma mail_key_of_row: "mail_key_of (fst r) (mail_row f r) = Some (mail_row_key r)"
  by (simp add: mail_key_of_def mail_row_key_def mail_row_def mail_item_lookup)

lemma show_int_nat: "show_int (int n) = show_nat n"
  by (simp add: show_int_def)

lemma number_of_u64 [simp]: "number_of (show_u64 n) = Some (int (unat n))"
  unfolding show_u64_def by (metis number_of_show_int show_int_nat)

lemma past_cursor_row:
  "cond_holds (past_cursor reg n) (mail_row f r) \<longleftrightarrow> fst r = reg \<and> n < ev_seq_num (snd r)"
  by (auto simp: past_cursor_def mail_row_def mail_item_lookup word_less_def)

text \<open>The next number, unless the counter is at its end.\<close>

lemma unat_next: "(n :: u64) < - 1 \<Longrightarrow> unat (n + 1) = unat n + 1"
  using unatSuc[of n] by (metis Suc_eq_plus1 add.commute add_eq_0_iff less_irrefl)

lemma next_less: "(n :: u64) < - 1 \<Longrightarrow> n < n + 1"
  by (simp add: word_less_nat_alt unat_next)

lemma show_u64_next: "n < - 1 \<Longrightarrow> show_int (int (unat n) + 1) = show_u64 (n + 1)"
  unfolding show_u64_def using show_int_nat[of "unat n + 1"] by (simp only: unat_next of_nat_add of_nat_1)

section \<open>Sorted lists\<close>

text \<open>A list is known by its elements and a key that increases along it.\<close>

lemma strictly_sorted_unique:
  fixes h :: "'a \<Rightarrow> 'b::linorder"
  assumes "sorted_wrt (<) (map h xs)" "sorted_wrt (<) (map h ys)" "set xs = set ys"
  shows "xs = ys"
proof -
  have "map h xs = map h ys" using assms by (intro strict_sorted_equal) simp_all
  moreover have "inj_on h (set xs)" using assms(1) by (metis distinct_map strict_sorted_iff)
  ultimately show ?thesis using assms(3) by (intro map_inj_on[of h xs ys]) simp_all
qed

lemma finite_sorted_key:
  assumes "finite A"
  shows "\<exists>xs. distinct xs \<and> sorted (map h xs) \<and> set xs = A"
proof -
  obtain xs where "set xs = A" "distinct xs" using finite_distinct_list[OF assms] by blast
  then show ?thesis by (intro exI[of _ "sort_key h xs"]) auto
qed

section \<open>Batches of deletes\<close>

lemma set_chunks: "\<Union> (set ` set (chunks n xs)) = set xs"
  by (induction n xs rule: chunks.induct) (auto dest: in_set_takeD in_set_dropD, metis append_take_drop_id Un_iff set_append)

context dynamo_db
begin

lemma flush_batch_removes:
  assumes "\<forall>k \<in> set p. map fst k = pk tbl" "flush_batch DB tbl a p d = (x, d')"
  shows "\<exists>D. D \<subseteq> set p \<and> rows_removed rows tbl D d d' \<and> (x = Inr () \<longrightarrow> D = set p)"
  using assms
proof (induction "BATCH_DELETE_MAX_ATTEMPTS - a" arbitrary: a p d rule: less_induct)
  case less
  consider "p = []" | "p \<noteq> []" "a \<ge> BATCH_DELETE_MAX_ATTEMPTS"
    | e d1 where "p \<noteq> []" "\<not> a \<ge> BATCH_DELETE_MAX_ATTEMPTS" "db_batch_delete DB tbl p d = (Inl e, d1)"
    | un d1 where "p \<noteq> []" "\<not> a \<ge> BATCH_DELETE_MAX_ATTEMPTS" "db_batch_delete DB tbl p d = (Inr un, d1)"
    by (metis surj_pair sum.exhaust)
  then show ?case
  proof cases
    case 1
    with less.prems(2) show ?thesis by (auto simp: flush_batch.simps[of _ _ a] rows_removed_refl)
  next
    case 2
    with less.prems(2) have "x \<noteq> Inr ()" "d' = d" by (auto simp: flush_batch.simps[of _ _ a])
    with rows_removed_refl[of rows tbl d] show ?thesis by blast
  next
    case 3
    with less.prems(2) have "x \<noteq> Inr ()" "d' = d1" by (auto simp: flush_batch.simps[of _ _ a])
    with batch_step[OF less.prems(1) 3(3)] show ?thesis by (auto simp: rows_removed_def)
  next
    case 4
    from batch_done[OF less.prems(1) 4(3)] have un: "set un \<subseteq> set p" "rows_removed rows tbl (set p - set un) d d1"
      by (auto simp: rows_removed_def)
    from 4 less.prems(2) have "flush_batch DB tbl (a + 1) un d1 = (x, d')" by (simp add: flush_batch.simps[of _ _ a])
    moreover have "BATCH_DELETE_MAX_ATTEMPTS - (a + 1) < BATCH_DELETE_MAX_ATTEMPTS - a" using 4(2) by simp
    ultimately obtain D where D: "D \<subseteq> set un" "rows_removed rows tbl D d1 d'" "x = Inr () \<longrightarrow> D = set un"
      using less.hyps[of "a + 1" un d1] less.prems(1) un(1) by blast
    from rows_removed_trans[OF un(2) D(2)] D un(1) show ?thesis
      by (intro exI[of _ "(set p - set un) \<union> D"]) auto
  qed
qed

lemma flush_chunks_removes:
  assumes "\<forall>c \<in> set cs. \<forall>k \<in> set c. map fst k = pk tbl" "flush_chunks DB tbl cs d = (x, d')"
  shows "\<exists>D. D \<subseteq> \<Union> (set ` set cs) \<and> rows_removed rows tbl D d d' \<and> (x = Inr () \<longrightarrow> D = \<Union> (set ` set cs))"
  using assms
proof (induction cs arbitrary: d)
  case Nil
  then show ?case by (auto simp: rows_removed_refl)
next
  case (Cons c cs)
  obtain y d1 where y: "flush_batch DB tbl 0 c d = (y, d1)" by fastforce
  from flush_batch_removes[OF _ y] Cons.prems(1) obtain D where D: "D \<subseteq> set c" "rows_removed rows tbl D d d1"
    "y = Inr () \<longrightarrow> D = set c" by auto
  show ?case
  proof (cases y)
    case (Inl e)
    with Cons.prems(2) y D show ?thesis by auto
  next
    case (Inr u)
    with Cons.prems(2) y have "flush_chunks DB tbl cs d1 = (x, d')" by simp
    from Cons.IH[OF _ this] Cons.prems(1) obtain E where E: "E \<subseteq> \<Union> (set ` set cs)" "rows_removed rows tbl E d1 d'"
      "x = Inr () \<longrightarrow> E = \<Union> (set ` set cs)" by auto
    from rows_removed_trans[OF D(2) E(2)] D E Inr show ?thesis by (intro exI[of _ "D \<union> E"]) auto
  qed
qed

lemma batch_delete_removes:
  assumes "\<forall>k \<in> set ks. map fst k = pk tbl" "batch_delete DB tbl ks d = (x, d')"
  shows "\<exists>D. D \<subseteq> set ks \<and> rows_removed rows tbl D d d' \<and> (x = Inr () \<longrightarrow> D = set ks)"
  using flush_chunks_removes[of "chunks 24 ks", unfolded set_chunks] assms set_chunks[of 24 ks]
  unfolding batch_delete_def by fastforce

end

section \<open>The tables\<close>

definition counter :: "string option \<Rightarrow> u64" where
  "counter q = (case q of None \<Rightarrow> 0 | Some s \<Rightarrow> (case parse_u64 s of None \<Rightarrow> 0 | Some n \<Rightarrow> n))"

definition dynamo_subs ::
  "('d \<Rightarrow> string \<Rightarrow> key \<Rightarrow> item option) \<Rightarrow> (item \<Rightarrow> string list) \<Rightarrow> string \<Rightarrow> 'd \<Rightarrow> string \<Rightarrow> SubscriptionRecord option" where
  "dynamo_subs rows ho st d reg = map_option fst (table_view rows (sub_row_from ho) st d (sub_key reg))"

text \<open>The entries of a mailbox in the order of their numbers.\<close>

definition mail_seqs ::
  "('d \<Rightarrow> string \<Rightarrow> key \<Rightarrow> item option) \<Rightarrow> rfc3339 \<Rightarrow> (item \<Rightarrow> string list) \<Rightarrow> string \<Rightarrow> 'd \<Rightarrow> string \<Rightarrow> u64 set" where
  "mail_seqs rows f ho mt d reg = {n. table_view rows (mail_row_from f ho) mt d (mailbox_key reg (show_u64 n)) \<noteq> None}"

definition mail_events ::
  "('d \<Rightarrow> string \<Rightarrow> key \<Rightarrow> item option) \<Rightarrow> rfc3339 \<Rightarrow> (item \<Rightarrow> string list) \<Rightarrow> string \<Rightarrow> 'd \<Rightarrow> string \<Rightarrow> EventRecord list" where
  "mail_events rows f ho mt d reg =
     map (\<lambda>n. snd (the (table_view rows (mail_row_from f ho) mt d (mailbox_key reg (show_u64 n)))))
       (sorted_list_of_set (mail_seqs rows f ho mt d reg))"

definition dynamo_mail ::
  "('d \<Rightarrow> string \<Rightarrow> key \<Rightarrow> item option) \<Rightarrow> rfc3339 \<Rightarrow> (item \<Rightarrow> string list) \<Rightarrow> string \<Rightarrow> string \<Rightarrow> 'd \<Rightarrow> string \<Rightarrow> mailbox_view option" where
  "dynamo_mail rows f ho st mt d reg =
     map_option (\<lambda>r. (counter (snd r), mail_events rows f ho mt d reg)) (table_view rows (sub_row_from ho) st d (sub_key reg))"

definition box_keys :: "('d \<Rightarrow> string \<Rightarrow> key \<Rightarrow> item option) \<Rightarrow> string \<Rightarrow> 'd \<Rightarrow> string \<Rightarrow> key set" where
  "box_keys rows mt d reg = {k. \<exists>i. rows d mt k = Some i \<and> cond_holds (attribute_eq ''registration_id'' (AvS reg)) i}"

text \<open>
  Both tables hold what this code writes, the counters are numbers, and each mailbox entry belongs to a subscription whose
  counter has reached its number.
\<close>

definition event_tables_ok ::
  "('d \<Rightarrow> string \<Rightarrow> key \<Rightarrow> item option) \<Rightarrow> rfc3339 \<Rightarrow> (item \<Rightarrow> string list) \<Rightarrow> string \<Rightarrow> string \<Rightarrow> 'd \<Rightarrow> bool" where
  "event_tables_ok rows f ho st mt d \<longleftrightarrow>
     table_ok rows sub_row (\<lambda>r. sub_key (sb_registration_id (fst r))) st d \<and>
     table_ok rows (mail_row f) mail_row_key mt d \<and>
     (\<forall>reg r. table_view rows (sub_row_from ho) st d (sub_key reg) = Some r \<longrightarrow> snd r = None \<or> (\<exists>n. snd r = Some (show_u64 n))) \<and>
     (\<forall>reg. \<forall>n \<in> mail_seqs rows f ho mt d reg.
        \<exists>r. table_view rows (sub_row_from ho) st d (sub_key reg) = Some r \<and> 0 < n \<and> n \<le> counter (snd r))"

lemma counter_simps [simp]: "counter None = 0" "counter (Some (show_u64 n)) = n"
  by (simp_all add: counter_def)

locale event_tables = dynamo_db DB rows pk pos
  for DB :: "'d dynamo" and rows :: "'d \<Rightarrow> string \<Rightarrow> key \<Rightarrow> item option" and pk pos +
  fixes f :: rfc3339 and ho :: "item \<Rightarrow> string list" and st mt :: string
  assumes sub_pk: "pk st = [''registration_id'']"
    and mail_pk: "pk mt = [''registration_id'', ''seq_num'']"
    and two_tables: "st \<noteq> mt"
    and times: "rfc3339_ok f"

sublocale event_tables \<subseteq> sb: record_table DB rows pk pos st sub_row "sub_row_from ho" "\<lambda>r. sub_key (sb_registration_id (fst r))"
  by unfold_locales (simp_all add: sub_row_from_to sub_pk sub_row_key)

sublocale event_tables \<subseteq> ml: record_table DB rows pk pos mt "mail_row f" "mail_row_from f ho" mail_row_key
  by unfold_locales (simp_all add: mail_row_from_to times mail_pk mail_row_key_of)

context event_tables
begin

abbreviation subs where "subs \<equiv> dynamo_subs rows ho st"
abbreviation mail where "mail \<equiv> dynamo_mail rows f ho st mt"
abbreviation seqs where "seqs \<equiv> mail_seqs rows f ho mt"
abbreviation events where "events \<equiv> mail_events rows f ho mt"
abbreviation ok where "ok \<equiv> event_tables_ok rows f ho st mt"

lemma sub_key_fst [simp]: "map fst (sub_key k) = pk st"
  by (simp add: sub_key_def sub_pk)

lemma mailbox_key_fst [simp]: "map fst (mailbox_key k s) = pk mt"
  by (simp add: mailbox_key_def mail_pk)

lemma okD:
  assumes "ok d"
  shows "sb.tok d" "ml.tok d"
    "sb.view d (sub_key reg) = Some r \<Longrightarrow> snd r = None \<or> (\<exists>n. snd r = Some (show_u64 n))"
    "n \<in> seqs d reg \<Longrightarrow> \<exists>r. sb.view d (sub_key reg) = Some r \<and> 0 < n \<and> n \<le> counter (snd r)"
  using assms unfolding event_tables_ok_def by blast+

lemma mail_entry: "ml.tok d \<Longrightarrow> ml.view d (mailbox_key reg (show_u64 n)) = Some r \<Longrightarrow> fst r = reg \<and> ev_seq_num (snd r) = n"
  using ml.view_key[of d "mailbox_key reg (show_u64 n)" r] by (simp add: mail_row_key_def)

lemma mail_row_lookup: "ml.tok d \<Longrightarrow> rows d mt k = Some i \<Longrightarrow>
  \<exists>r. i = mail_row f r \<and> k = mail_row_key r \<and> ml.view d k = Some r \<and> ev_seq_num (snd r) \<in> seqs d (fst r)"
  using ml.view_row[of d k i] by (auto simp: mail_seqs_def mail_row_key_def)

lemma finite_seqs [simp]: "finite (seqs d reg)"
  by simp

lemma events_seqs: "ml.tok d \<Longrightarrow> map ev_seq_num (events d reg) = sorted_list_of_set (seqs d reg)"
  unfolding mail_events_def using mail_entry[of d reg] by (auto simp: mail_seqs_def intro!: map_idI)

lemma events_set: "ml.tok d \<Longrightarrow> e \<in> set (events d reg) \<longleftrightarrow> ml.view d (mailbox_key reg (show_u64 (ev_seq_num e))) = Some (reg, e)"
proof
  assume t: "ml.tok d" and "e \<in> set (events d reg)"
  then obtain n r where "ml.view d (mailbox_key reg (show_u64 n)) = Some r" "e = snd r"
    by (auto simp: mail_events_def mail_seqs_def)
  with mail_entry[OF t this(1)] show "ml.view d (mailbox_key reg (show_u64 (ev_seq_num e))) = Some (reg, e)"
    by (cases r) auto
next
  assume v: "ml.view d (mailbox_key reg (show_u64 (ev_seq_num e))) = Some (reg, e)"
  then have "ev_seq_num e \<in> seqs d reg" by (simp add: mail_seqs_def)
  then show "e \<in> set (events d reg)" using v unfolding mail_events_def by (force intro: rev_image_eqI)
qed

lemma events_sorted: "ml.tok d \<Longrightarrow> sorted_wrt (<) (map ev_seq_num (events d reg))"
  by (simp add: events_seqs)

lemma events_eqI:
  assumes "ml.tok d" "sorted_wrt (<) (map ev_seq_num es)"
    "\<And>e. e \<in> set es \<longleftrightarrow> ml.view d (mailbox_key reg (show_u64 (ev_seq_num e))) = Some (reg, e)"
  shows "events d reg = es"
  using events_set[OF assms(1)] assms(3) by (intro strictly_sorted_unique[OF events_sorted[OF assms(1)] assms(2)]) blast

lemma same_mail: "rows d' mt = rows d mt \<Longrightarrow> seqs d' = seqs d \<and> events d' = events d"
  unfolding mail_seqs_def mail_events_def by (simp add: table_view_cong[of rows d' mt d])

text \<open>Draining ends, removes only entries of its mailbox, and on success all of them.\<close>

abbreviation box where "box \<equiv> box_keys rows mt"

lemma box_row:
  assumes "ml.tok d"
  shows "k \<in> box d reg \<longleftrightarrow> (\<exists>e. k = mail_row_key (reg, e) \<and> rows d mt k = Some (mail_row f (reg, e)) \<and> ml.view d k = Some (reg, e))"
proof
  assume "k \<in> box d reg"
  then obtain i where i: "rows d mt k = Some i" "fmlookup i ''registration_id'' = Some (AvS reg)" by (auto simp: box_keys_def)
  from ml.view_row[OF assms i(1)] obtain r where r: "i = mail_row f r" "k = mail_row_key r" "ml.view d k = Some r" by blast
  with i(2) have "fst r = reg" by (simp add: mail_row_def mail_item_reg)
  then show "\<exists>e. k = mail_row_key (reg, e) \<and> rows d mt k = Some (mail_row f (reg, e)) \<and> ml.view d k = Some (reg, e)"
    using r i(1) by (cases r) auto
next
  assume "\<exists>e. k = mail_row_key (reg, e) \<and> rows d mt k = Some (mail_row f (reg, e)) \<and> ml.view d k = Some (reg, e)"
  then show "k \<in> box d reg" by (auto simp: box_keys_def mail_row_def mail_item_reg)
qed

lemma drain_page:
  assumes "ml.tok d" "db_query DB mt None (attribute_eq ''registration_id'' (AvS reg)) None start d = Inr (items, lek)"
  shows "\<exists>ks. evaluates (pos mt None) (after (pos mt None) start (box d reg)) ks lek \<and>
           List.map_filter (mail_key_of reg) items = ks \<and> (\<forall>k \<in> set ks. map fst k = pk mt)"
proof -
  from query_page[OF assms(2)] obtain ks where ks: "evaluates (pos mt None) (after (pos mt None) start (box d reg)) ks lek"
    "items = map (\<lambda>k. the (rows d mt k)) ks" unfolding box_keys_def by blast
  have "set ks \<subseteq> box d reg" using ks(1) by (auto simp: evaluates_def after_def)
  then have k: "\<exists>e. rows d mt k = Some (mail_row f (reg, e)) \<and> k = mail_row_key (reg, e)" if "k \<in> set ks" for k
    using that box_row[OF assms(1), of k reg] by blast
  then have "mail_key_of reg (the (rows d mt k)) = Some k" if "k \<in> set ks" for k
    using that mail_key_of_row[of "(reg, e)" f for e] by fastforce
  then have "List.map_filter (mail_key_of reg) items = ks" unfolding ks(2) by (induction ks) (auto simp: List.map_filter_simps)
  moreover have "\<forall>k \<in> set ks. map fst k = pk mt" using k by (fastforce simp: mail_row_key_def)
  ultimately show ?thesis using ks(1) by blast
qed

lemma drain_removes:
  assumes "ml.tok d"
  shows "\<exists>x d' D. drain_mailbox_loop DB mt reg start d = Some (x, d') \<and> rows_removed rows mt D d d' \<and> D \<subseteq> box d reg \<and>
           (x = Inr () \<longrightarrow> after (pos mt None) start (box d reg) \<subseteq> D)"
  using assms
proof (induction "card (after (pos mt None) start (box d reg))" arbitrary: start d rule: less_induct)
  case less
  let ?p = "pos mt None"
  show ?case
  proof (cases "db_query DB mt None (attribute_eq ''registration_id'' (AvS reg)) None start d")
    case (Inl e)
    then show ?thesis using rows_removed_refl[of rows mt d] by (auto simp: drain_mailbox_loop.simps[of _ _ _ start])
  next
    case (Inr page)
    obtain items lek where page: "page = (items, lek)" by (cases page)
    from drain_page[OF less.prems Inr[unfolded page]] obtain ks where
      ks: "evaluates ?p (after ?p start (box d reg)) ks lek" "List.map_filter (mail_key_of reg) items = ks"
        "\<forall>k \<in> set ks. map fst k = pk mt" by blast
    obtain y d1 where y: "batch_delete DB mt ks d = (y, d1)" by fastforce
    from batch_delete_removes[OF ks(3) y] obtain D where
      D: "D \<subseteq> set ks" "rows_removed rows mt D d d1" "y = Inr () \<longrightarrow> D = set ks" by blast
    have sub: "set ks \<subseteq> after ?p start (box d reg)" "set ks \<subseteq> box d reg" using ks(1) by (auto simp: evaluates_def after_def)
    have step: "drain_mailbox_loop DB mt reg start d =
        (case y of Inl e \<Rightarrow> Some (Inl e, d1)
         | Inr _ \<Rightarrow> (case lek of None \<Rightarrow> Some (Inr (), d1) | Some k \<Rightarrow> drain_mailbox_loop DB mt reg (Some k) d1))"
      using Inr page ks(2) y by (subst drain_mailbox_loop.simps) (auto split: sum.splits)
    show ?thesis
    proof (cases "\<exists>k. y = Inr () \<and> lek = Some k")
      case False
      then show ?thesis using step D sub ks(1) by (cases y; cases lek) (auto simp: evaluates_def)
    next
      case True
      then obtain k where k: "y = Inr ()" "lek = Some k" by blast
      note er = evaluates_rest[OF ks(1)[unfolded k(2)]]
      have box1: "box d1 reg = box d reg - set ks"
        using D k(1) rows_removed_row[OF D(2)] by (auto simp: box_keys_def split: if_splits)
      have rest: "after ?p (Some k) (box d1 reg) = after ?p (Some k) (box d reg)"
        using er(1) unfolding box1 by (auto simp: after_def)
      have fin: "finite (after ?p start (box d reg))" using finite_matching[of d mt] by (auto simp: after_def box_keys_def)
      have "card (after ?p (Some k) (box d1 reg)) < card (after ?p start (box d reg))"
        unfolding rest using er(2) fin by (rule psubset_card_mono[rotated])
      from less.hyps[OF this rows_removed_ok[OF D(2) less.prems]] obtain x d' E where
        E: "drain_mailbox_loop DB mt reg (Some k) d1 = Some (x, d')" "rows_removed rows mt E d1 d'" "E \<subseteq> box d1 reg"
          "x = Inr () \<longrightarrow> after ?p (Some k) (box d1 reg) \<subseteq> E" by blast
      have "x = Inr () \<longrightarrow> after ?p start (box d reg) \<subseteq> D \<union> E" using E(4) D(3) k(1) er(1) unfolding rest by blast
      moreover have "D \<union> E \<subseteq> box d reg" using E(3) D(1) sub(2) box1 by blast
      ultimately show ?thesis using step k E(1) rows_removed_trans[OF D(2) E(2)] by auto
    qed
  qed
qed

text \<open>Reading ends, and gives the oldest entries past the cursor.\<close>

abbreviation past where "past d reg n \<equiv> {k. \<exists>i. rows d mt k = Some i \<and> cond_holds (past_cursor reg n) i}"

lemma past_row:
  assumes "ml.tok d"
  shows "k \<in> past d reg n \<longleftrightarrow> (\<exists>e. k = mail_row_key (reg, e) \<and> rows d mt k = Some (mail_row f (reg, e)) \<and>
           ml.view d k = Some (reg, e) \<and> n < ev_seq_num e)"
proof
  assume "k \<in> past d reg n"
  then obtain i where i: "rows d mt k = Some i" "cond_holds (past_cursor reg n) i" by blast
  from ml.view_row[OF assms i(1)] obtain r where r: "i = mail_row f r" "k = mail_row_key r" "ml.view d k = Some r" by blast
  with i(2) have "fst r = reg" "n < ev_seq_num (snd r)" by (simp_all add: past_cursor_row)
  then show "\<exists>e. k = mail_row_key (reg, e) \<and> rows d mt k = Some (mail_row f (reg, e)) \<and> ml.view d k = Some (reg, e) \<and> n < ev_seq_num e"
    using r i(1) by (cases r) auto
next
  assume "\<exists>e. k = mail_row_key (reg, e) \<and> rows d mt k = Some (mail_row f (reg, e)) \<and> ml.view d k = Some (reg, e) \<and> n < ev_seq_num e"
  then show "k \<in> past d reg n" by (auto simp: past_cursor_row)
qed

lemma push_events:
  assumes "ml.tok d" "set ks \<subseteq> past d reg n"
  shows "push_all (decoding (event_from_item f ho) (\<lambda>e. [e])) (map (\<lambda>k. the (rows d mt k)) ks) acc =
           Inr (acc @ map (\<lambda>k. snd (the (ml.view d k))) ks)"
  using assms(2)
proof (induction ks arbitrary: acc)
  case (Cons k ks)
  then obtain e where "rows d mt k = Some (mail_row f (reg, e))" "ml.view d k = Some (reg, e)"
    using past_row[OF assms(1), of k reg n] by auto
  with Cons show ?case by (simp add: decoding_def event_from_mail_row[OF times])
qed simp

lemma peek_collects:
  assumes "ml.tok d"
  shows "\<exists>out. peek_loop f ho DB mt reg n limit start acc d = Some out \<and>
    (\<forall>es. out = Inr es \<longrightarrow> (\<exists>ks. distinct ks \<and> sorted (map (pos mt None) ks) \<and>
       set ks = after (pos mt None) start (past d reg n) \<and>
       take limit es = take limit (acc @ map (\<lambda>k. snd (the (ml.view d k))) ks)))"
proof (induction "card (after (pos mt None) start (past d reg n))" arbitrary: start acc rule: less_induct)
  case less
  let ?p = "pos mt None" and ?g = "\<lambda>k. snd (the (ml.view d k))"
  have fin: "finite (after ?p s (past d reg n))" for s using finite_matching[of d mt] by (auto simp: after_def)
  let ?q = "db_query DB mt None (past_cursor reg n) (Some (min (limit - length acc) 2147483647)) start d"
  consider "limit \<le> length acc" | e where "length acc < limit" "?q = Inl e"
    | items lek where "length acc < limit" "?q = Inr (items, lek)"
    by (metis linorder_not_less old.prod.exhaust sum.exhaust)
  then show ?case
  proof cases
    case 1
    then show ?thesis using finite_sorted_key[OF fin, of ?p start] by (subst peek_loop.simps) auto
  next
    case 2
    then show ?thesis by (subst peek_loop.simps) simp
  next
    case 3
    from query_page[OF 3(2)] obtain ks where ks: "evaluates ?p (after ?p start (past d reg n)) ks lek"
      "items = map (\<lambda>k. the (rows d mt k)) ks" by blast
    then have sub: "set ks \<subseteq> after ?p start (past d reg n)" "set ks \<subseteq> past d reg n" by (auto simp: evaluates_def after_def)
    have step: "peek_loop f ho DB mt reg n limit start acc d =
        (case lek of None \<Rightarrow> Some (Inr (acc @ map ?g ks))
         | Some k \<Rightarrow> peek_loop f ho DB mt reg n limit (Some k) (acc @ map ?g ks) d)"
      using 3 push_events[OF assms sub(2)] ks(2) by (subst peek_loop.simps) simp
    show ?thesis
    proof (cases lek)
      case None
      then show ?thesis using step ks(1) by (auto simp: evaluates_def)
    next
      case (Some k)
      note er = evaluates_rest[OF ks(1)[unfolded Some]]
      have "card (after ?p (Some k) (past d reg n)) < card (after ?p start (past d reg n))"
        using er(2) fin by (rule psubset_card_mono[rotated])
      from less[OF this, of "acc @ map ?g ks"] obtain out where
        out: "peek_loop f ho DB mt reg n limit (Some k) (acc @ map ?g ks) d = Some out"
          "\<forall>es. out = Inr es \<longrightarrow> (\<exists>ks'. distinct ks' \<and> sorted (map ?p ks') \<and> set ks' = after ?p (Some k) (past d reg n) \<and>
             take limit es = take limit ((acc @ map ?g ks) @ map ?g ks'))" by blast
      have "\<exists>xs. distinct xs \<and> sorted (map ?p xs) \<and> set xs = after ?p start (past d reg n) \<and>
          take limit es = take limit (acc @ map ?g xs)" if es: "out = Inr es" for es
      proof -
        from out(2) es obtain ks' where ks': "distinct ks'" "sorted (map ?p ks')" "set ks' = after ?p (Some k) (past d reg n)"
          "take limit es = take limit ((acc @ map ?g ks) @ map ?g ks')" by blast
        have "sorted (map ?p (ks @ ks'))" using ks(1) ks'(2,3) er(3) by (auto simp: evaluates_def sorted_append less_imp_le)
        moreover have "distinct (ks @ ks')" "set (ks @ ks') = after ?p start (past d reg n)"
          using ks(1) ks'(1,3) er(1) sub(1) by (auto simp: evaluates_def)
        ultimately show ?thesis using ks'(4) by (intro exI[of _ "ks @ ks'"]) simp
      qed
      then show ?thesis using step Some out(1) by simp
    qed
  qed
qed

lemma peek_events:
  assumes "ml.tok d" "DynamoEventStore_peek f ho DB mt reg n limit d = Inr es"
  shows "es = take limit (filter (\<lambda>e. n < ev_seq_num e) (events d reg))"
proof -
  let ?g = "\<lambda>k. snd (the (ml.view d k))"
  from peek_collects[OF assms(1), of reg n limit None "[]"] assms(2) obtain ks where ks: "distinct ks"
    "sorted (map (pos mt None) ks)" "set ks = past d reg n" "es = take limit (map ?g ks)"
    by (auto simp: DynamoEventStore_peek_def split: sum.splits)
  have g: "k = mail_row_key (reg, ?g k) \<and> ml.view d k = Some (reg, ?g k) \<and> n < ev_seq_num (?g k)" if "k \<in> set ks" for k
    using that past_row[OF assms(1), of k reg n] unfolding ks(3) by auto
  have less: "ev_seq_num (?g a) < ev_seq_num (?g b)" if ab: "a \<in> set ks" "b \<in> set ks" "pos mt None a \<le> pos mt None b" "a \<noteq> b" for a b
  proof (rule ccontr)
    assume "\<not> ev_seq_num (?g a) < ev_seq_num (?g b)"
    moreover have "ev_seq_num (?g a) \<noteq> ev_seq_num (?g b)" using g[OF ab(1)] g[OF ab(2)] ab(4) by (auto simp: mail_row_key_def)
    ultimately have "unat (ev_seq_num (?g b)) < unat (ev_seq_num (?g a))" by (simp add: word_less_nat_alt word_unat_eq_iff)
    from sort_order[OF this, of mt "(''registration_id'', AvS reg)" "''seq_num''"] g[OF ab(1)] g[OF ab(2)]
    have "pos mt None b < pos mt None a" by (simp add: mail_row_key_def mailbox_key_def show_u64_def)
    then show False using ab(3) by simp
  qed
  have "sorted_wrt (\<lambda>a b. pos mt None a \<le> pos mt None b \<and> a \<noteq> b) ks"
    using ks(1,2) by (auto simp: sorted_wrt_iff_nth_less distinct_conv_nth sorted_iff_nth_mono)
  then have "sorted_wrt (\<lambda>a b. ev_seq_num (?g a) < ev_seq_num (?g b)) ks"
    by (rule sorted_wrt_mono_rel[rotated]) (use less in blast)
  then have sorted: "sorted_wrt (<) (map ev_seq_num (map ?g ks))" by (simp add: sorted_wrt_map)
  have "e \<in> set (map ?g ks) \<longleftrightarrow> e \<in> set (events d reg) \<and> n < ev_seq_num e" for e
  proof
    assume "e \<in> set (map ?g ks)"
    then obtain k where "k \<in> set ks" "e = ?g k" by auto
    with g[of k] show "e \<in> set (events d reg) \<and> n < ev_seq_num e" unfolding events_set[OF assms(1)] by (simp add: mail_row_key_def)
  next
    assume e: "e \<in> set (events d reg) \<and> n < ev_seq_num e"
    let ?k = "mailbox_key reg (show_u64 (ev_seq_num e))"
    from e have v: "ml.view d ?k = Some (reg, e)" using events_set[OF assms(1)] by blast
    then have "?k \<in> set ks" unfolding ks(3) past_row[OF assms(1)]
      using e ml.row_view[OF assms(1), of ?k] by (auto simp: mail_row_key_def)
    then show "e \<in> set (map ?g ks)" using v by (force intro: rev_image_eqI)
  qed
  then have "set (map ?g ks) = set (filter (\<lambda>e. n < ev_seq_num e) (events d reg))" by auto
  moreover have "sorted_wrt (<) (map ev_seq_num (filter (\<lambda>e. n < ev_seq_num e) (events d reg)))"
    using events_sorted[OF assms(1), of reg] by (simp add: sorted_wrt_map sorted_wrt_filter)
  ultimately have "map ?g ks = filter (\<lambda>e. n < ev_seq_num e) (events d reg)" using sorted by (intro strictly_sorted_unique) 
  then show ?thesis using ks(4) by simp
qed

section \<open>The operations\<close>

text \<open>What a write to the subscriptions, and the removal of entries, do to the view and the invariant.\<close>

lemma sub_written:
  assumes "sb.view d' = (sb.view d)(sub_key k := row)" "rows d' mt = rows d mt"
  shows "subs d' = (subs d)(k := map_option fst row)"
    "mail d' = (mail d)(k := map_option (\<lambda>r. (counter (snd r), events d k)) row)"
  using assms same_mail[OF assms(2)] by (auto simp: dynamo_subs_def dynamo_mail_def fun_eq_iff)

lemma sub_written_ok:
  assumes "ok d" "sb.tok d'" "sb.view d' = (sb.view d)(sub_key k := row)" "rows d' mt = rows d mt"
    "\<And>r. row = Some r \<Longrightarrow> (snd r = None \<or> (\<exists>n. snd r = Some (show_u64 n))) \<and> (\<forall>n \<in> seqs d k. n \<le> counter (snd r))"
    "row = None \<Longrightarrow> seqs d k = {}"
  shows "ok d'"
proof -
  have "ml.tok d'" using okD(2)[OF assms(1)] table_ok_cong[of rows d' mt d] assms(4) by metis
  moreover have "snd r = None \<or> (\<exists>n. snd r = Some (show_u64 n))" if "sb.view d' (sub_key reg) = Some r" for reg r
    using that okD(3)[OF assms(1)] assms(5) unfolding assms(3) by (auto split: if_splits)
  moreover have "\<exists>r. sb.view d' (sub_key reg) = Some r \<and> 0 < n \<and> n \<le> counter (snd r)" if n: "n \<in> seqs d' reg" for reg n
  proof -
    from n have n: "n \<in> seqs d reg" using same_mail[OF assms(4)] by simp
    then show ?thesis using okD(4)[OF assms(1) n] assms(5,6) unfolding assms(3) by (cases "reg = k"; cases row) auto
  qed
  ultimately show ?thesis using assms(2) unfolding event_tables_ok_def by blast
qed

lemma removed_same_subs:
  assumes "rows_removed rows mt D d d'"
  shows "sb.view d' = sb.view d" "subs d' = subs d" "sb.tok d' = sb.tok d"
proof -
  have frame: "rows d' st = rows d st" using rows_removed_frame[OF assms two_tables] .
  show "sb.view d' = sb.view d" "subs d' = subs d" "sb.tok d' = sb.tok d"
    by (simp_all add: dynamo_subs_def fun_eq_iff table_view_cong[of rows d' st d, OF frame] table_ok_cong[of rows d' st d, OF frame])
qed

lemma removed_seqs: "rows_removed rows mt D d d' \<Longrightarrow> seqs d' reg \<subseteq> seqs d reg"
  by (auto simp: mail_seqs_def rows_removed_view split: if_splits)

lemma removed_ok:
  assumes "rows_removed rows mt D d d'" "sb.tok d" "ml.tok d"
    "\<And>reg r. sb.view d (sub_key reg) = Some r \<Longrightarrow> snd r = None \<or> (\<exists>n. snd r = Some (show_u64 n))"
    "\<And>reg n. n \<in> seqs d' reg \<Longrightarrow> \<exists>r. sb.view d (sub_key reg) = Some r \<and> 0 < n \<and> n \<le> counter (snd r)"
  shows "ok d'"
  unfolding event_tables_ok_def removed_same_subs[OF assms(1)]
  using assms(2,4,5) rows_removed_ok[OF assms(1,3)] by blast

lemma removed_events:
  assumes "rows_removed rows mt D d d'" "ml.tok d"
  shows "events d' reg = filter (\<lambda>e. mailbox_key reg (show_u64 (ev_seq_num e)) \<notin> D) (events d reg)"
proof (rule events_eqI[OF rows_removed_ok[OF assms]])
  show "sorted_wrt (<) (map ev_seq_num (filter (\<lambda>e. mailbox_key reg (show_u64 (ev_seq_num e)) \<notin> D) (events d reg)))"
    using events_sorted[OF assms(2), of reg] by (simp add: sorted_wrt_map sorted_wrt_filter)
  show "e \<in> set (filter (\<lambda>e. mailbox_key reg (show_u64 (ev_seq_num e)) \<notin> D) (events d reg)) \<longleftrightarrow>
      ml.view d' (mailbox_key reg (show_u64 (ev_seq_num e))) = Some (reg, e)" for e
    by (auto simp: events_set[OF assms(2)] rows_removed_view[OF assms(1)])
qed

lemma events_none: "seqs d reg = {} \<Longrightarrow> events d reg = []"
  by (simp add: mail_events_def)

lemma seqs_box:
  assumes "ml.tok d"
  shows "n \<in> seqs d reg \<longleftrightarrow> mailbox_key reg (show_u64 n) \<in> box d reg"
proof
  assume "n \<in> seqs d reg"
  then obtain r where r: "ml.view d (mailbox_key reg (show_u64 n)) = Some r" by (auto simp: mail_seqs_def)
  with mail_entry[OF assms r] ml.row_view[OF assms, of "mailbox_key reg (show_u64 n)"]
  show "mailbox_key reg (show_u64 n) \<in> box d reg" unfolding box_row[OF assms] by (cases r) (auto simp: mail_row_key_def)
next
  assume "mailbox_key reg (show_u64 n) \<in> box d reg"
  then show "n \<in> seqs d reg" unfolding box_row[OF assms] by (auto simp: mail_seqs_def)
qed

lemma create_sub:
  assumes "ok d" "subs d (sb_registration_id sub) = None"
    "DynamoEventStore_create_subscription DB st sub d = (Inr u, d')"
  shows "ok d' \<and> subs d' = (subs d)(sb_registration_id sub \<mapsto> sub) \<and> mail d' = (mail d)(sb_registration_id sub \<mapsto> (0, []))"
proof -
  let ?k = "sb_registration_id sub"
  from assms(3) have p: "db_put_item DB st (sub_row (sub, None)) None d = (Inr (), d')"
    by (auto simp: DynamoEventStore_create_subscription_def sub_row_def split: sum.splits prod.splits)
  note pr = sb.put_record[OF okD(1)[OF assms(1)] p]
  have view: "sb.view d' = (sb.view d)(sub_key ?k \<mapsto> (sub, None))" using pr(3)[OF refl] by simp
  have frame: "rows d' mt = rows d mt" by (rule put_frame[OF _ p]) (use two_tables sub_row_key sub_pk in auto)
  have none: "seqs d ?k = {}" using okD(4)[OF assms(1), of _ ?k] assms(2) by (auto simp: dynamo_subs_def)
  have "ok d'" by (rule sub_written_ok[OF assms(1) pr(1) view frame]) (auto simp: none)
  then show ?thesis using sub_written[OF view frame] events_none[OF none] by simp
qed

lemma delete_drain:
  assumes "ok d" "delete_and_drain DB st mt reg d = (Inr u, d')"
  shows "ok d' \<and> subs d' = (subs d)(reg := None) \<and> mail d' = (mail d)(reg := None)"
proof -
  from assms(2) obtain old d1 where del: "db_delete_item DB st (sub_key reg) None d = (Inr old, d1)"
    and drain: "drain_mailbox DB mt reg d1 = (Inr u, d')"
    by (auto simp: delete_and_drain_def split: sum.splits prod.splits)
  note dr = sb.delete_record[OF okD(1)[OF assms(1)] sub_key_fst del]
  have frame: "rows d1 mt = rows d mt" by (rule delete_frame[OF _ del]) (use two_tables in auto)
  have view: "sb.view d1 = (sb.view d)(sub_key reg := None)" using dr(3)[OF refl] by simp
  have tok: "ml.tok d1" using okD(2)[OF assms(1)] table_ok_cong[of rows d1 mt d] frame by metis
  from drain_removes[OF tok, of reg None] drain obtain D where D: "rows_removed rows mt D d1 d'" "D \<subseteq> box d1 reg" "box d1 reg \<subseteq> D"
    by (auto simp: drain_mailbox_def)
  have DD: "D = box d1 reg" using D by blast
  have seqs: "seqs d' reg = {}"
    using seqs_box[OF tok, of _ reg] DD by (auto simp: mail_seqs_def rows_removed_view[OF D(1)])
  have other: "mailbox_key reg' s \<notin> D" if "reg' \<noteq> reg" for reg' s
    using that box_row[OF tok] unfolding DD by (auto simp: mail_row_key_def)
  have ev: "events d' reg' = events d reg'" if "reg' \<noteq> reg" for reg'
    using removed_events[OF D(1) tok, of reg'] other[OF that] same_mail[OF frame] by simp
  have "ok d'"
  proof (rule removed_ok[OF D(1) dr(1) tok])
    show "snd r = None \<or> (\<exists>n. snd r = Some (show_u64 n))" if "sb.view d1 (sub_key reg') = Some r" for reg' r
      using that okD(3)[OF assms(1)] unfolding view by (auto split: if_splits)
    show "\<exists>r. sb.view d1 (sub_key reg') = Some r \<and> 0 < n \<and> n \<le> counter (snd r)" if "n \<in> seqs d' reg'" for reg' n
    proof (cases "reg' = reg")
      case False
      have "n \<in> seqs d reg'" using that removed_seqs[OF D(1), of reg'] same_mail[OF frame] by auto
      then show ?thesis using False okD(4)[OF assms(1)] unfolding view by auto
    qed (use that seqs in auto)
  qed
  moreover have "subs d' = (subs d)(reg := None)" using sub_written(1)[OF view frame] removed_same_subs(2)[OF D(1)] by simp
  moreover have "mail d' = (mail d)(reg := None)"
    using ev removed_same_subs(1)[OF D(1)] view by (auto simp: dynamo_mail_def fun_eq_iff)
  ultimately show ?thesis by blast
qed

lemma ack_entries:
  assumes "ok d" "DynamoEventStore_ack DB mt reg ns d = (x, d')"
  shows "\<exists>N. N \<subseteq> set ns \<and> (x = Inr () \<longrightarrow> N = set ns) \<and> ok d' \<and> subs d' = subs d \<and>
    mail d' = (mail d)(reg := map_option (map_prod id (filter (\<lambda>e. ev_seq_num e \<notin> N))) (mail d reg))"
proof -
  let ?k = "\<lambda>n. mailbox_key reg (show_u64 n)"
  from batch_delete_removes[of "map ?k ns" mt d x d'] assms(2) obtain D where
    D: "D \<subseteq> ?k ` set ns" "rows_removed rows mt D d d'" "x = Inr () \<longrightarrow> D = ?k ` set ns"
    by (auto simp: DynamoEventStore_ack_def)
  then obtain N where N: "N \<subseteq> set ns" "D = ?k ` N" by (metis subset_image_iff)
  have "inj ?k" by (auto simp: inj_def)
  then have all: "x = Inr () \<longrightarrow> N = set ns" using D(3) N by (metis inj_image_eq_iff)
  note tok = okD(2)[OF assms(1)]
  have "ok d'" by (rule removed_ok[OF D(2) okD(1,2)[OF assms(1)] okD(3)[OF assms(1)]])
      (use okD(4)[OF assms(1)] removed_seqs[OF D(2)] in blast)+
  moreover have "events d' r = (if r = reg then filter (\<lambda>e. ev_seq_num e \<notin> N) (events d r) else events d r)" for r
    using removed_events[OF D(2) tok, of r] by (auto simp: N(2) image_iff intro!: filter_cong)
  then have "mail d' = (mail d)(reg := map_option (map_prod id (filter (\<lambda>e. ev_seq_num e \<notin> N))) (mail d reg))"
    using removed_same_subs(1)[OF D(2)] by (auto simp: dynamo_mail_def fun_eq_iff option.map_comp comp_def)
  ultimately show ?thesis using N(1) all removed_same_subs(2)[OF D(2)] by blast
qed

text \<open>Allocating a number.\<close>

lemma next_counter:
  assumes "snd r = None \<or> (\<exists>n. snd r = Some (show_u64 n))" "counter (snd r) < - 1"
  shows "apply_updates [AddTo ''mailbox_seq'' 1] (sub_row r) = Some (sub_row (fst r, Some (show_u64 (counter (snd r) + 1))))"
proof -
  have "fmupd ''mailbox_seq'' v (sub_row r) = fmupd ''mailbox_seq'' v (sub_item (fst r))" for v
    by (cases "snd r") (auto simp: sub_row_def intro!: fmap_ext)
  moreover have "show_int 1 = show_u64 1" by (simp add: show_int_def show_u64_def)
  ultimately show ?thesis using assms show_u64_next[of "counter (snd r)"]
    by (cases "snd r") (auto simp: sub_row_seq sub_row_def[of "(fst r, Some x)" for x])
qed

lemma allocate:
  assumes "ok d" "mail d reg = Some (lst, es)" "lst < - 1"
    "db_update_item DB st (sub_key reg) [AddTo ''mailbox_seq'' 1] (Some (attribute_exists ''registration_id'')) d = (Inr new, d')"
  shows "ok d' \<and> rows d' mt = rows d mt \<and> fmlookup new ''mailbox_seq'' = Some (AvN (show_u64 (lst + 1))) \<and>
         subs d' = subs d \<and> mail d' = (mail d)(reg \<mapsto> (lst + 1, es))"
proof -
  let ?up = "\<lambda>r. (fst r, Some (show_u64 (counter (snd r) + 1)))"
  from assms(2) obtain r where r: "sb.view d (sub_key reg) = Some r" "lst = counter (snd r)" "es = events d reg"
    by (auto simp: dynamo_mail_def)
  have up: "apply_updates [AddTo ''mailbox_seq'' 1] (sub_row r') = Some (sub_row (?up r')) \<and>
      sub_key (sb_registration_id (fst (?up r'))) = sub_key (sb_registration_id (fst r'))"
    if "sb.view d (sub_key reg) = Some r'" for r'
    using next_counter[OF okD(3)[OF assms(1) that]] assms(3) r that by (simp del: apply_updates.simps)
  note u = sb.update_record[OF okD(1)[OF assms(1)] sub_key_fst assms(4) _ up, simplified satisfied_def]
  have view: "sb.view d' = (sb.view d)(sub_key reg \<mapsto> ?up r)" and new: "new = sub_row (?up r)"
    using u(3)[OF _ refl] r(1) by auto
  have tok: "sb.tok d'" using u(1) by simp
  have frame: "rows d' mt = rows d mt" by (rule update_frame[OF _ assms(4)]) (use two_tables in auto)
  have le: "n \<le> lst + 1" if "n \<in> seqs d reg" for n
    using okD(4)[OF assms(1) that] r next_less[OF assms(3)] by auto
  have "ok d'" by (rule sub_written_ok[OF assms(1) tok view frame]) (use le r(2) in auto)
  moreover have "subs d' = subs d" using sub_written(1)[OF view frame] r(1) by (auto simp: dynamo_subs_def fun_eq_iff)
  moreover have "mail d' = (mail d)(reg \<mapsto> (lst + 1, es))" using sub_written(2)[OF view frame] r by simp
  ultimately show ?thesis using frame new r(2) by (simp add: sub_row_seq)
qed

text \<open>No row for an unknown registration: the update is refused, or fails, and nothing changes.\<close>

lemma allocate_missing:
  assumes "ok d" "mail d reg = None"
    "db_update_item DB st (sub_key reg) [AddTo ''mailbox_seq'' 1] (Some (attribute_exists ''registration_id'')) d = (x, d')"
  shows "(\<exists>e. x = Inl e) \<and> rows d' = rows d"
proof -
  have none: "rows d st (sub_key reg) = None"
    using assms(2) sb.row_view[OF okD(1)[OF assms(1)], of "sub_key reg"] by (simp add: dynamo_mail_def)
  have "False" if "x = Inr new" for new
    using update_done[OF sub_key_fst assms(3)[unfolded that]] none by (simp add: satisfied_def)
  moreover have "rows d' = rows d" using update_step[OF sub_key_fst assms(3)] none by (auto simp: satisfied_def)
  ultimately show ?thesis by (cases x) auto
qed

lemma same_rows_view: "rows d' = rows d \<Longrightarrow> ok d' = ok d \<and> subs d' = subs d \<and> mail d' = mail d"
  unfolding event_tables_ok_def dynamo_subs_def dynamo_mail_def mail_events_def mail_seqs_def table_view_def table_ok_def
  by simp

lemma enqueue_entry:
  assumes "ok d" "mail d reg = Some (lst, es)" "lst < - 1"
    "DynamoEventStore_enqueue f DB st mt (\<lambda>d. d) reg e d = (Inr n, d')"
  shows "ok d' \<and> n = lst + 1 \<and> subs d' = subs d \<and> mail d' = (mail d)(reg \<mapsto> (n, es @ [e\<lparr>ev_seq_num := n\<rparr>]))"
proof -
  let ?e = "e\<lparr>ev_seq_num := lst + 1\<rparr>"
  from assms(4) obtain new d1 where
    up: "db_update_item DB st (sub_key reg) [AddTo ''mailbox_seq'' 1] (Some (attribute_exists ''registration_id'')) d = (Inr new, d1)"
    by (auto simp: DynamoEventStore_enqueue_def split: sum.splits prod.splits if_splits)
  note al = allocate[OF assms(1-3) up]
  have put: "db_put_item DB mt (mail_row f (reg, ?e)) (Some (attribute_not_exists ''seq_num'')) d1 = (Inr (), d')" and n: "n = lst + 1"
    using assms(4) up al by (auto simp: DynamoEventStore_enqueue_def mail_item_seq split: sum.splits prod.splits)
  note tok = okD(2)[OF al[THEN conjunct1]]
  note pr = ml.put_record[OF tok put]
  have view: "ml.view d' = (ml.view d1)(mailbox_key reg (show_u64 (lst + 1)) \<mapsto> (reg, ?e))"
    using pr(3)[OF refl] by (simp add: mail_row_key_def)
  have frame: "rows d' st = rows d1 st" by (rule put_frame[OF _ put]) (use two_tables mail_row_key_of mail_pk in auto)
  have sview: "sb.view d' = sb.view d1" and stok: "sb.tok d'"
    using okD(1)[OF al[THEN conjunct1]] by (simp_all add: table_view_cong[of rows d' st d1, OF frame] table_ok_cong[of rows d' st d1, OF frame])
  have seqs: "seqs d' r = (if r = reg then insert (lst + 1) (seqs d1 r) else seqs d1 r)" for r
    by (auto simp: mail_seqs_def view)
  have es: "es = events d1 reg" using al assms(2) same_mail[of d1 d] by (auto simp: dynamo_mail_def)
  have old: "m < lst + 1" if "m \<in> seqs d1 reg" for m
    using okD(4)[OF assms(1), of m reg] that al assms(2) same_mail[of d1 d] next_less[OF assms(3)]
    by (auto simp: dynamo_mail_def intro: le_less_trans)
  have ev: "events d' reg = es @ [?e]"
  proof (rule events_eqI[OF pr(1)])
    have "m < lst + 1" if "m \<in> set (map ev_seq_num es)" for m using that old unfolding es events_seqs[OF tok] by simp
    then show "sorted_wrt (<) (map ev_seq_num (es @ [?e]))" using events_sorted[OF tok, of reg]
      by (auto simp: es sorted_wrt_append)
    show "x \<in> set (es @ [?e]) \<longleftrightarrow> ml.view d' (mailbox_key reg (show_u64 (ev_seq_num x))) = Some (reg, x)" for x
      using old[of "ev_seq_num x"] unfolding es view by (auto simp: events_set[OF tok] mail_seqs_def)
  qed
  have other: "events d' r = events d1 r" if "r \<noteq> reg" for r
    using that unfolding mail_events_def seqs by (simp add: view)
  have "mail d1 reg = Some (lst + 1, es)" using al by simp
  then obtain q0 where q0: "sb.view d1 (sub_key reg) = Some q0" "counter (snd q0) = lst + 1" by (auto simp: dynamo_mail_def)
  have pos: "0 < lst + 1" using next_less[OF assms(3)] by (metis word_gt_0 word_not_simps(1))
  have "ok d'"
    unfolding event_tables_ok_def sview
  proof (intro conjI allI ballI impI)
    fix r n assume "n \<in> seqs d' r"
    then show "\<exists>q. sb.view d1 (sub_key r) = Some q \<and> 0 < n \<and> n \<le> counter (snd q)"
      using okD(4)[OF al[THEN conjunct1], of n r] q0 pos unfolding seqs by (cases q0) (auto split: if_splits)
  qed (use stok pr(1) okD(3)[OF al[THEN conjunct1]] in auto)
  moreover have "mail d' = (mail d)(reg \<mapsto> (lst + 1, es @ [?e]))"
  proof
    fix r
    have "mail d1 = (mail d)(reg \<mapsto> (lst + 1, es))" using al by blast
    moreover have "mail d' r = (if r = reg then Some (lst + 1, es @ [?e]) else mail d1 r)"
      using ev other q0 by (simp add: dynamo_mail_def sview)
    ultimately show "mail d' r = ((mail d)(reg \<mapsto> (lst + 1, es @ [?e]))) r" by simp
  qed
  moreover have "subs d' = subs d" using al by (simp add: dynamo_subs_def sview fun_eq_iff)
  ultimately show ?thesis using n by simp
qed

text \<open>Subscriptions read alone, without their counter.\<close>

lemma decoding_subs: "decoding (sub_from_item ho) keep = decoding (sub_row_from ho) (\<lambda>r. keep (fst r))"
  by (auto simp: decoding_def sub_row_from_def fun_eq_iff split: sum.splits)

lemma list_subs_ends: "\<exists>r. DynamoEventStore_list_subscriptions_loop ho DB st d = Some r"
  unfolding DynamoEventStore_list_subscriptions_loop_def by (rule scan_ends)

lemma list_subs_exact:
  assumes "ok d" "DynamoEventStore_list_subscriptions_loop ho DB st d = Some (Inr xs)"
  shows "distinct (map sb_registration_id xs) \<and> (\<forall>sub. sub \<in> set xs \<longleftrightarrow> subs d (sb_registration_id sub) = Some sub)"
proof -
  from sb.scan_records[OF okD(1)[OF assms(1)] assms(2)[unfolded DynamoEventStore_list_subscriptions_loop_def decoding_subs]]
  obtain rs where rs: "distinct (map (\<lambda>r. sub_key (sb_registration_id (fst r))) rs)"
    "\<forall>r. r \<in> set rs \<longleftrightarrow> sb.view d (sub_key (sb_registration_id (fst r))) = Some r" "xs = map fst rs"
    by (auto simp: satisfied_def)
  have "distinct (map sb_registration_id xs)"
    using rs(1) unfolding rs(3) by (auto simp: distinct_map inj_on_def comp_def)
  moreover have "sub \<in> set xs \<longleftrightarrow> subs d (sb_registration_id sub) = Some sub" for sub
  proof
    assume "sub \<in> set xs"
    then show "subs d (sb_registration_id sub) = Some sub" unfolding rs(3) dynamo_subs_def using rs(2) by auto
  next
    assume "subs d (sb_registration_id sub) = Some sub"
    then obtain r where "sb.view d (sub_key (sb_registration_id sub)) = Some r" "fst r = sub" by (auto simp: dynamo_subs_def)
    then have "r \<in> set rs" "fst r = sub" using rs(2) by (cases r, simp)+
    then show "sub \<in> set xs" unfolding rs(3) by auto
  qed
  ultimately show ?thesis by blast
qed

lemma query_sub:
  assumes "ok d" "db_query DB st (Some EVENT_SUB_LEASE_GSI) (attribute_eq ''lease_id'' (AvS l)) (Some 1) None d = Inr (items, lek)"
  shows "case items of [] \<Rightarrow> \<forall>k sub. subs d k = Some sub \<longrightarrow> sb_lease_id sub \<noteq> l
         | i # _ \<Rightarrow> \<exists>sub. sub_from_item ho i = Inr sub \<and> subs d (sb_registration_id sub) = Some sub \<and> sb_lease_id sub = l"
  using sb.query_record[OF okD(1)[OF assms(1)] assms(2)]
  by (cases items) (auto simp: dynamo_subs_def sub_row_lookup sub_item_lookup sub_from_sub_row)

lemma sub_view_key: "ok d \<Longrightarrow> subs d k = Some sub \<Longrightarrow> sb_registration_id sub = k"
  using sb.view_key[OF okD(1), of d "sub_key k"] by (auto simp: dynamo_subs_def)

lemma mail_view_ok:
  assumes "ok d" "mail d k = Some mb"
  shows "mailbox_ok mb"
proof -
  note tok = okD(2)[OF assms(1)]
  from assms(2) obtain r where r: "sb.view d (sub_key k) = Some r" "mb = (counter (snd r), events d k)"
    by (auto simp: dynamo_mail_def)
  have "0 < ev_seq_num e \<and> ev_seq_num e \<le> counter (snd r)" if "e \<in> set (events d k)" for e
    using that okD(4)[OF assms(1), of "ev_seq_num e" k] r(1) by (auto simp: events_set[OF tok] mail_seqs_def)
  then show ?thesis using events_sorted[OF tok, of k] r(2) by (simp add: mailbox_ok_def)
qed

end

sublocale event_tables \<subseteq> dyn: event_store "DynamoEventStore_ops f ho DB st mt" subs mail ok "\<lambda>_ _. True"
proof (unfold_locales, goal_cases)
  case (1 d k sub)
  then show ?case by (rule sub_view_key)
next
  case (2 d k mb)
  then show ?case by (rule mail_view_ok)
next
  case (3 d k)
  then show ?case by (simp add: dynamo_mail_def dynamo_subs_def)
next
  case (4 d sub u d')
  then show ?case using create_sub[OF 4(1,2)] by (simp add: DynamoEventStore_ops_def)
next
  case (5 d k x)
  then show ?case using sb.get_record[OF okD(1)[OF 5(1)] sub_key_fst, of k]
    by (auto simp: DynamoEventStore_ops_def DynamoEventStore_get_subscription_def dynamo_subs_def sub_from_sub_row
             split: sum.splits option.splits)
next
  case (6 d k u d')
  then show ?case using delete_drain[OF 6(1)]
    by (simp add: DynamoEventStore_ops_def DynamoEventStore_remove_subscription_def)
next
  case (7 d ks l d')
  then show ?case using query_sub[OF 7(1), of l "[]"]
    by (auto simp: DynamoEventStore_ops_def DynamoEventStore_remove_by_lease_def split: sum.splits prod.splits list.splits)
next
  case (8 d ks l sub d')
  then obtain i rest lek u where q: "db_query DB st (Some EVENT_SUB_LEASE_GSI) (attribute_eq ''lease_id'' (AvS l)) (Some 1) None d = Inr (i # rest, lek)"
    and s: "sub_from_item ho i = Inr sub" "delete_and_drain DB st mt (sb_registration_id sub) d = (Inr u, d')"
    by (auto simp: DynamoEventStore_ops_def DynamoEventStore_remove_by_lease_def split: sum.splits prod.splits list.splits)
  from query_sub[OF 8(1) q] s(1) delete_drain[OF 8(1) s(2)] show ?case by simp
next
  case (9 d ks xs)
  then show ?case using list_subs_exact[OF 9(1), of xs] list_subs_ends[of d]
    by (auto simp: DynamoEventStore_ops_def DynamoEventStore_list_subscriptions_def)
next
  case (10 d k lst es e n d')
  then show ?case using enqueue_entry[OF 10(1,2,3)] by (simp add: DynamoEventStore_ops_def)
next
  case (11 d k e nf d')
  then obtain m d1 where "db_update_item DB st (sub_key k) [AddTo ''mailbox_seq'' 1] (Some (attribute_exists ''registration_id'')) d =
      (Inl (ConditionalCheckFailed m), d1)"
    by (auto simp: DynamoEventStore_ops_def DynamoEventStore_enqueue_def is_conditional_check_failed_def
             split: sum.splits prod.splits option.splits if_splits sdk_error.splits)
  from update_refused[OF sub_key_fst this] sb.row_view[OF okD(1)[OF 11(1)], of "sub_key k"] show ?case
    by (cases "sb.view d (sub_key k)") (auto simp: dynamo_mail_def satisfied_def sub_row_lookup sub_item_lookup)
next
  case (12 d k e res d')
  obtain x d1 where u: "db_update_item DB st (sub_key k) [AddTo ''mailbox_seq'' 1] (Some (attribute_exists ''registration_id'')) d = (x, d1)"
    by fastforce
  from allocate_missing[OF 12(1,2) u] obtain er where "x = Inl er" "rows d1 = rows d" by blast
  with 12 u same_rows_view[of d1 d] show ?case by (auto simp: DynamoEventStore_ops_def DynamoEventStore_enqueue_def)
next
  case (13 d k aft limit es)
  have none: "events d k = []" if "mail d k = None"
    using that okD(4)[OF 13(1), of _ k] by (intro events_none) (auto simp: dynamo_mail_def)
  from 13 peek_events[OF okD(2)[OF 13(1)], of k aft limit es] none show ?case
    by (cases "mail d k") (auto simp: DynamoEventStore_ops_def dynamo_mail_def)
next
  case (14 d k ns u d')
  then show ?case using ack_entries[OF 14(1), of k ns "Inr ()" d'] by (auto simp: DynamoEventStore_ops_def)
next
  case (15 d k ns er d')
  then show ?case using ack_entries[OF 15(1), of k ns "Inl er" d'] by (auto simp: DynamoEventStore_ops_def)
qed

context event_tables
begin

lemma keeps_contract: "event_store (DynamoEventStore_ops f ho DB st mt) subs mail ok (\<lambda>_ _. True)"
  by (rule dyn.event_store_axioms)

end

end
