(* ===== verification/Dynamo_Props.thy ===== *)
theory Dynamo_Props
  imports Local_Lease Dynamo_Lease Dynamo_Txn Dynamo_Registry Dynamo_Mailbox
begin

text \<open>
  What the DynamoDB providers promise, for every service with the documented behaviour: each keeps the contract that the
  managers are verified against, what they write reads back, their loops end, and a renewal that races with a reclaim
  does not bring the lease back. The witnesses run on the service in memory.
\<close>

section \<open>The contracts\<close>





text \<open>
  the registry store on DynamoDB keeps the contract of the registry store: inserts, conditional updates and removals
  by lease that succeed change exactly their entry, an update of an entry that is gone changes nothing, and a listing
  gives each entry once.
\<close>

theorem dynamo_registry_store:
  assumes "dynamo_db DB rows pk pos" "pk tbl = [''capability_id'']"
  shows "registry_store (DynamoRegistryStore_ops ho DB tbl) (dynamo_entries rows ho tbl) (registry_table_ok rows ho tbl) (\<lambda>_ _. True)"
  using assms by (intro registry_table.keeps_contract[of DB rows pk pos]) (simp add: registry_table_def registry_table_axioms_def)

theorem dynamo_registry_store_witness:
  "registry_store (DynamoRegistryStore_ops (\<lambda>_. []) (table_db (\<lambda>_. [''capability_id''])) ''registry'')
     (dynamo_entries table_rows (\<lambda>_. []) ''registry'') (registry_table_ok table_rows (\<lambda>_. []) ''registry'') (\<lambda>_ _. True)"
  by (rule dynamo_registry_store[OF table.dynamo_db_axioms]) simp



section \<open>Leases\<close>


definition dyn_lease :: LeaseRecord where
  "dyn_lease = \<lparr>lr_lease_id = ''l1'', lr_resource_id = ''r'', lr_granted_at = 0, lr_expires_at = 5000000000, lr_ttl_seconds = 5\<rparr>"

definition dyn_lease_table :: tables where
  "dyn_lease_table = (\<lambda>t. if t = ''leases'' then [(lease_key ''l1'', lease_item epoch_text dyn_lease)] else [])"

lemma dyn_lease_table_ok: "lease_table_ok table_rows epoch_text ''leases'' dyn_lease_table"
  by (auto simp: lease_table_ok_def table_ok_def table_rows_def dyn_lease_table_def dyn_lease_def split: if_splits)

lemma dyn_lease_stored: "dynamo_leases table_rows epoch_text ''leases'' dyn_lease_table ''l1'' = Some dyn_lease"
  by (simp add: dynamo_leases_def table_view_def table_rows_def dyn_lease_table_def lease_from_lease_item[OF epoch_text_ok])


text \<open>
  C31: a renewal writes to the lease that is stored when its update runs, whatever happened since it read the lease: if
  the lease is gone by then it stays gone and the renewal fails; if the renewal succeeds, the stored lease gets the new
  expiry and TTL and no other lease changes.
\<close>

theorem renewal_does_not_resurrect:
  assumes "dynamo_db DB rows pk pos" "pk tbl = [''lease_id'']" "rfc3339_ok f" "lease_table_ok rows f tbl (gap d)"
    "DynamoLeaseStore_renew c f DB tbl gap now lid ttl d = (x, d')"
  shows "case x of
      Inl e \<Rightarrow> d' = d \<or> (dynamo_leases rows f tbl (gap d) lid = None \<longrightarrow>
                         dynamo_leases rows f tbl d' = dynamo_leases rows f tbl (gap d))
    | Inr r \<Rightarrow> \<exists>r0. dynamo_leases rows f tbl (gap d) lid = Some r0 \<and> lr_ttl_seconds r = ttl \<and>
                dynamo_leases rows f tbl d' =
                  (dynamo_leases rows f tbl (gap d))(lid \<mapsto> r0\<lparr>lr_expires_at := lr_expires_at r, lr_ttl_seconds := ttl\<rparr>)"
proof -
  have lt: "lease_table DB rows pk pos f tbl" using assms(1-3) by (simp add: lease_table_def lease_table_axioms_def)
  show ?thesis
  proof (cases "\<exists>existing t. DynamoLeaseStore_get f DB tbl lid d = Inr (Some existing) \<and> DynamoLeaseStore_expiry_for c now ttl = Inr t")
    case False
    then show ?thesis using assms(5) by (auto simp: DynamoLeaseStore_renew_def split: sum.splits option.splits)
  next
    case True
    then obtain existing t where e: "DynamoLeaseStore_get f DB tbl lid d = Inr (Some existing)" "DynamoLeaseStore_expiry_for c now ttl = Inr t"
      by blast
    obtain y d1 where u: "db_update_item DB tbl (lease_key lid) (renew_updates f t ttl) (Some (attribute_exists ''lease_id'')) (gap d) = (y, d1)"
      by fastforce
    note up = lease_table.update_lease[OF lt assms(4) u] and missing = lease_table.update_lease_missing[OF lt assms(4) _ u]
    from e u assms(5) have x: "d' = d1" "case y of Inl _ \<Rightarrow> \<exists>er. x = Inl er | Inr _ \<Rightarrow> x = Inr (existing\<lparr>lr_expires_at := t, lr_ttl_seconds := ttl\<rparr>)"
      by (auto simp: DynamoLeaseStore_renew_def split: sum.splits if_splits)
    show ?thesis using x up(2) missing by (cases y) fastforce+
  qed
qed

theorem renewal_does_not_resurrect_witness:
  "\<exists>x d'. DynamoLeaseStore_renew chrono_std epoch_text (table_db (\<lambda>_. [''lease_id''])) ''leases'' (\<lambda>d. d(''leases'' := []))
       7 ''l1'' 60 dyn_lease_table = (x, d') \<and> x = Inl (LeaseNotFound ''l1'') \<and>
     dynamo_leases table_rows epoch_text ''leases'' d' ''l1'' = None"
proof -
  let ?DB = "table_db (\<lambda>_. [''lease_id''])" and ?gap = "\<lambda>d :: tables. d(''leases'' := [])"
  have tok: "lease_table_ok table_rows epoch_text ''leases'' (?gap dyn_lease_table)"
    by (simp add: lease_table_ok_def table_ok_def table_rows_def)
  have run: "DynamoLeaseStore_renew chrono_std epoch_text ?DB ''leases'' ?gap 7 ''l1'' 60 dyn_lease_table =
      (Inl (LeaseNotFound ''l1''), ?gap dyn_lease_table)"
    by (simp add: DynamoLeaseStore_renew_def DynamoLeaseStore_get_def DynamoLeaseStore_expiry_for_def table_db_def table_rows_def
        dyn_lease_table_def lease_from_lease_item[OF epoch_text_ok] checked_def satisfied_def is_conditional_check_failed_def
        checked_expiry_def chrono_std_def LEASE_FOREVER_def)
  from renewal_does_not_resurrect[OF table.dynamo_db_axioms _ epoch_text_ok tok run] run show ?thesis
    by (auto simp: dynamo_leases_def table_view_def table_rows_def)
qed

text \<open>
  DynamoDB may delete the row of a lease by itself only an hour after the lease expired, and never for a lease that
  does not expire: the attribute it goes by lies more than 3599 seconds after the expiry, whatever the reaper did until
  then. The bound on the expiry excludes saturation; chrono's last instant is far below it.
\<close>

theorem native_ttl_is_a_backstop:
  assumes "lr_expires_at r < (2 ^ 63 - 3600) * 1000000000"
  shows "case fmlookup (lease_item f r) ''ttl'' of
      None \<Rightarrow> lr_ttl_seconds r = LEASE_FOREVER
    | Some v \<Rightarrow> \<exists>n. v = AvN (show_int n) \<and> lr_ttl_seconds r \<noteq> LEASE_FOREVER \<and> lr_expires_at r + 3599 * 1000000000 < n * 1000000000"
proof (cases "lr_ttl_seconds r = LEASE_FOREVER")
  case True
  then show ?thesis by (simp add: lease_item_lookup ttl_epoch_def expires_epoch_def)
next
  case False
  let ?n = "saturating_add_i64 (timestamp (lr_expires_at r)) TTL_GRACE_SECS"
  have "timestamp (lr_expires_at r) < 2 ^ 63 - 3600" using assms by (simp add: timestamp_def div_less_iff_less_mult)
  then have "timestamp (lr_expires_at r) + 3600 \<le> ?n" by (simp add: saturating_add_i64_def TTL_GRACE_SECS_def)
  moreover have "lr_expires_at r < (timestamp (lr_expires_at r) + 1) * 1000000000" by (simp add: timestamp_def)
  moreover have "(timestamp (lr_expires_at r) + 3600) * 1000000000 \<le> ?n * 1000000000" using calculation(1) by simp
  ultimately have "lr_expires_at r + 3599 * 1000000000 < ?n * 1000000000" by (simp add: algebra_simps)
  with False show ?thesis by (auto simp: lease_item_lookup ttl_epoch_def expires_epoch_def)
qed

theorem native_ttl_is_a_backstop_witness:
  "(case fmlookup (lease_item epoch_text dyn_lease) ''ttl'' of
      None \<Rightarrow> lr_ttl_seconds dyn_lease = LEASE_FOREVER
    | Some v \<Rightarrow> \<exists>n. v = AvN (show_int n) \<and> lr_ttl_seconds dyn_lease \<noteq> LEASE_FOREVER \<and>
        lr_expires_at dyn_lease + 3599 * 1000000000 < n * 1000000000)"
  by (rule native_ttl_is_a_backstop) (simp add: dyn_lease_def)

section \<open>Encodings\<close>

text \<open>
  C35: what the providers write reads back: the items of leases, transactions (with their participants), registry entries,
  subscriptions and mailbox entries decode to the records they encode; a mailbox entry comes back with the number it was
  filed under. The one hypothesis is that chrono's RFC 3339 text parses back to the same instant.
\<close>

theorem items_read_back:
  assumes "rfc3339_ok f"
  shows "lease_from_item f (lease_item f l) = Inr l \<and> txn_from_item f (txn_item f t) = Inr t \<and>
    entry_from_item ho (entry_to_item e) = Inr e \<and> sub_from_item ho (sub_item s) = Inr s \<and>
    event_from_item f ho (mail_item f reg n ev) = Inr (ev\<lparr>ev_seq_num := n\<rparr>)"
  using lease_from_lease_item[OF assms] txn_from_txn_item[OF assms] entry_from_to sub_from_sub_row[of ho "(s, None)"]
    event_from_mail_item[OF assms] by (simp add: sub_row_def)

theorem items_read_back_witness: "lease_from_item epoch_text (lease_item epoch_text dyn_lease) = Inr dyn_lease"
  using items_read_back[OF epoch_text_ok] by blast

end
