(* ===== verification/Auth.thy ===== *)
theory Auth
  imports Prelude
begin

text \<open>
  Authentication of \<^verbatim>\<open>coordin8-auth/src/lib.rs\<close>: the server side (\<^verbatim>\<open>AuthConfig\<close>, the interceptor every service
  mounts), the client side (\<^verbatim>\<open>ClientAuthConfig\<close>, what a service attaches to its own calls) and the minting of tokens.

  Signing and checking of tokens is the \<^verbatim>\<open>jsonwebtoken\<close> crate, a parameter \<open>J\<close>; the conversion between text and
  metadata values is tonic's, a parameter \<open>W\<close>. The clock reading of each \<^verbatim>\<open>Utc::now()\<close> is an argument, and the sum of a
  clock reading and a lifetime is taken exact (it would panic only beyond the year 262142).
\<close>

section \<open>The libraries\<close>

record Claims =
  cl_sub :: string
  cl_exp :: int
  cl_iat :: int
  cl_scope :: "string option"
  cl_iss :: "string option"

text \<open>The algorithm of a token, and the options of its validation that the code sets, with their defaults.\<close>

datatype Algorithm = HS256

record Validation =
  vd_algorithm :: Algorithm
  vd_validate_exp :: bool
  vd_required_spec_claims :: "string list"
  vd_validate_signature :: bool

definition Validation_new :: "Algorithm \<Rightarrow> Validation" where
  "Validation_new a = \<lparr>vd_algorithm = a, vd_validate_exp = True, vd_required_spec_claims = [''exp''],
     vd_validate_signature = True\<rparr>"

record jwt =
  jwt_encode :: "Algorithm \<Rightarrow> Claims \<Rightarrow> string \<Rightarrow> string + string"
  jwt_decode :: "string \<Rightarrow> string \<Rightarrow> Validation \<Rightarrow> string + Claims"

record 'm metadata_lib =
  md_parse :: "string \<Rightarrow> 'm option"
  md_to_str :: "'m \<Rightarrow> string option"

type_synonym 'm metadata = "(string, 'm) fmap"

text \<open>
  What the code relies on. A token that was encoded decodes to its claims when expiry and required claims are not
  asked for and either the signature is not checked or the key is the one it was signed with; it consists of base64url
  texts joined by dots. Text of visible ASCII characters is a metadata value, and a value made from text is that text.
\<close>

definition token_char :: "char \<Rightarrow> bool" where
  "token_char c \<longleftrightarrow>
     (let n = of_char c :: nat in 48 \<le> n \<and> n \<le> 57 \<or> 65 \<le> n \<and> n \<le> 90 \<or> 97 \<le> n \<and> n \<le> 122 \<or> n = 45 \<or> n = 46 \<or> n = 95)"

definition visible_ascii :: "char \<Rightarrow> bool" where
  "visible_ascii c \<longleftrightarrow> (let n = of_char c :: nat in 32 \<le> n \<and> n \<le> 126)"

definition jwt_ok :: "jwt \<Rightarrow> bool" where
  "jwt_ok J \<longleftrightarrow>
     (\<forall>a c k t. jwt_encode J a c k = Inr t \<longrightarrow> list_all token_char t) \<and>
     (\<forall>a c k t k' v. jwt_encode J a c k = Inr t \<and> vd_algorithm v = a \<and> \<not> vd_validate_exp v \<and>
        vd_required_spec_claims v = [] \<and> (vd_validate_signature v \<longrightarrow> k' = k) \<longrightarrow> jwt_decode J t k' v = Inr c)"

definition metadata_ok :: "'m metadata_lib \<Rightarrow> bool" where
  "metadata_ok W \<longleftrightarrow>
     (\<forall>s. list_all visible_ascii s \<longrightarrow> md_parse W s \<noteq> None) \<and>
     (\<forall>s v. md_parse W s = Some v \<longrightarrow> md_to_str W v = Some s)"

section \<open>The server side\<close>

record AuthConfig =
  ac_secret :: "string option"
  ac_verify_signature :: bool
  ac_issuer :: "string option"
  ac_claims_check :: "(Claims \<Rightarrow> unit rpc) option"

definition AuthConfig_default :: AuthConfig where
  "AuthConfig_default = \<lparr>ac_secret = None, ac_verify_signature = True, ac_issuer = None, ac_claims_check = None\<rparr>"

definition AuthConfig_from_env :: "(string \<Rightarrow> string option) \<Rightarrow> AuthConfig" where
  "AuthConfig_from_env env = \<lparr>
     ac_secret = (case env ''COORDIN8_JWT_SECRET'' of Some s \<Rightarrow> if s = [] then None else Some s | None \<Rightarrow> None),
     ac_verify_signature = (case env ''COORDIN8_AUTH_VERIFY_SIGNATURE'' of
       Some v \<Rightarrow> v \<noteq> ''false'' \<and> v \<noteq> ''0'' | None \<Rightarrow> True),
     ac_issuer = None, ac_claims_check = None\<rparr>"

definition with_issuer :: "string \<Rightarrow> AuthConfig \<Rightarrow> AuthConfig" where
  "with_issuer issuer cfg = cfg\<lparr>ac_issuer := Some issuer\<rparr>"

definition with_claims_check :: "(Claims \<Rightarrow> unit rpc) \<Rightarrow> AuthConfig \<Rightarrow> AuthConfig" where
  "with_claims_check check cfg = cfg\<lparr>ac_claims_check := Some check\<rparr>"

definition enabled :: "AuthConfig \<Rightarrow> bool" where
  "enabled cfg \<longleftrightarrow> ac_secret cfg \<noteq> None"

abbreviation unauthenticated :: "string \<Rightarrow> status" where
  "unauthenticated msg \<equiv> Status Code_Unauthenticated msg"

definition extract_bearer_token :: "'m metadata_lib \<Rightarrow> 'm metadata \<Rightarrow> string rpc" where
  "extract_bearer_token W req =
     (case fmlookup req ''authorization'' of
        None \<Rightarrow> Inl (unauthenticated ''missing authorization metadata'')
      | Some v \<Rightarrow>
          (case md_to_str W v of
             None \<Rightarrow> Inl (unauthenticated ''authorization metadata is not valid UTF-8'')
           | Some raw \<Rightarrow>
               (case strip_prefix raw ''Bearer '' of
                  None \<Rightarrow> Inl (unauthenticated ''authorization metadata must be a Bearer token'')
                | Some token \<Rightarrow> Inr token)))"

definition decode_and_verify :: "jwt \<Rightarrow> string \<Rightarrow> string \<Rightarrow> Claims rpc" where
  "decode_and_verify J token secret =
     (let validation = (Validation_new HS256)\<lparr>vd_validate_exp := False, vd_required_spec_claims := []\<rparr>
      in map_err (\<lambda>e. unauthenticated (''invalid token: '' @ e)) (jwt_decode J token secret validation))"

definition decode_unverified :: "jwt \<Rightarrow> string \<Rightarrow> Claims rpc" where
  "decode_unverified J token =
     (let validation = (Validation_new HS256)\<lparr>vd_validate_signature := False, vd_validate_exp := False,
            vd_required_spec_claims := []\<rparr>
      in map_err (\<lambda>e. unauthenticated (''malformed token: '' @ e)) (jwt_decode J token [] validation))"

definition validate_baseline :: "time \<Rightarrow> Claims \<Rightarrow> string option \<Rightarrow> unit rpc" where
  "validate_baseline now claims required_issuer =
     (if cl_exp claims \<le> timestamp now then Inl (unauthenticated ''token expired'')
      else case required_issuer of
             None \<Rightarrow> Inr ()
           | Some required \<Rightarrow>
               if cl_iss claims \<noteq> Some required then Inl (unauthenticated ''token issuer not trusted'') else Inr ())"

definition validate :: "jwt \<Rightarrow> 'm metadata_lib \<Rightarrow> time \<Rightarrow> AuthConfig \<Rightarrow> 'm metadata \<Rightarrow> unit rpc" where
  "validate J W now cfg req =
     (case ac_secret cfg of
        None \<Rightarrow> Inr ()
      | Some secret \<Rightarrow>
          (case extract_bearer_token W req of
             Inl st \<Rightarrow> Inl st
           | Inr token \<Rightarrow>
               (case (if ac_verify_signature cfg then decode_and_verify J token secret else decode_unverified J token) of
                  Inl st \<Rightarrow> Inl st
                | Inr claims \<Rightarrow>
                    (case validate_baseline now claims (ac_issuer cfg) of
                       Inl st \<Rightarrow> Inl st
                     | Inr _ \<Rightarrow>
                         (case ac_claims_check cfg of
                            None \<Rightarrow> Inr ()
                          | Some check \<Rightarrow> check claims)))))"

definition AuthConfig_call :: "jwt \<Rightarrow> 'm metadata_lib \<Rightarrow> time \<Rightarrow> AuthConfig \<Rightarrow> 'm metadata \<Rightarrow> 'm metadata rpc" where
  "AuthConfig_call J W now cfg req = (case validate J W now cfg req of Inl st \<Rightarrow> Inl st | Inr _ \<Rightarrow> Inr req)"

section \<open>The client side\<close>

definition mint_token ::
  "jwt \<Rightarrow> time \<Rightarrow> string \<Rightarrow> string \<Rightarrow> time \<Rightarrow> string option \<Rightarrow> string option \<Rightarrow> string + string"
where
  "mint_token J now secret subject ttl scope issuer =
     (let claims = \<lparr>cl_sub = subject, cl_exp = timestamp (now + ttl), cl_iat = timestamp now, cl_scope = scope,
                    cl_iss = issuer\<rparr>
      in jwt_encode J HS256 claims secret)"

text \<open>A provider is what its closure answers when it is called at a given time.\<close>

type_synonym TokenProvider = "time \<Rightarrow> string option"

record ClientAuthConfig =
  ca_provider :: "TokenProvider option"

definition trust :: ClientAuthConfig where
  "trust = \<lparr>ca_provider = None\<rparr>"

definition SELF_MINTED_TTL :: time where "SELF_MINTED_TTL = 5 * 60 * 1000000000"

definition self_minted :: "jwt \<Rightarrow> string \<Rightarrow> string \<Rightarrow> ClientAuthConfig" where
  "self_minted J secret subject = \<lparr>ca_provider = Some (\<lambda>now.
     case mint_token J now secret subject SELF_MINTED_TTL None None of Inl _ \<Rightarrow> None | Inr t \<Rightarrow> Some t)\<rparr>"

definition from_provider :: "TokenProvider \<Rightarrow> ClientAuthConfig" where
  "from_provider provider = \<lparr>ca_provider = Some provider\<rparr>"

definition client_config :: "jwt \<Rightarrow> AuthConfig \<Rightarrow> string \<Rightarrow> ClientAuthConfig" where
  "client_config J cfg subject =
     (case ac_secret cfg of Some secret \<Rightarrow> self_minted J secret subject | None \<Rightarrow> trust)"

definition ClientAuthInterceptor_call ::
  "'m metadata_lib \<Rightarrow> time \<Rightarrow> ClientAuthConfig \<Rightarrow> 'm metadata \<Rightarrow> 'm metadata rpc"
where
  "ClientAuthInterceptor_call W now ca req =
     (case ca_provider ca of
        None \<Rightarrow> Inr req
      | Some provider \<Rightarrow>
          (case provider now of
             None \<Rightarrow> Inr req
           | Some token \<Rightarrow>
               (case md_parse W (''Bearer '' @ token) of
                  None \<Rightarrow> Inl (Status Code_Internal ''token is not valid metadata'')
                | Some value \<Rightarrow> Inr (fmupd ''authorization'' value req))))"

section \<open>Lemmas\<close>

named_theorems auth_defs \<open>definitions of the two interceptors\<close>

declare validate_def [auth_defs] AuthConfig_call_def [auth_defs] extract_bearer_token_def [auth_defs]
  decode_and_verify_def [auth_defs] decode_unverified_def [auth_defs] validate_baseline_def [auth_defs]
  ClientAuthInterceptor_call_def [auth_defs]

lemma timestamp_plus_secs: "timestamp (now + s * 1000000000) = timestamp now + s"
  by (simp add: timestamp_def)

lemma timestamp_self_minted [simp]: "timestamp (now + SELF_MINTED_TTL) = timestamp now + 300"
  using timestamp_plus_secs[of now 300] by (simp add: SELF_MINTED_TTL_def)

lemma token_char_visible: "list_all token_char t \<Longrightarrow> list_all visible_ascii t"
  by (induction t) (auto simp: token_char_def visible_ascii_def Let_def)

lemma bearer_parses:
  "\<lbrakk>jwt_ok J; metadata_ok W; jwt_encode J a c k = Inr t\<rbrakk> \<Longrightarrow> \<exists>v. md_parse W (''Bearer '' @ t) = Some v"
proof -
  assume J: "jwt_ok J" and W: "metadata_ok W" and t: "jwt_encode J a c k = Inr t"
  from J t have "list_all token_char t" by (auto simp: jwt_ok_def)
  then have "list_all visible_ascii (''Bearer '' @ t)"
    by (auto simp: visible_ascii_def Let_def dest: token_char_visible)
  with W show ?thesis unfolding metadata_ok_def by blast
qed

text \<open>The token of the metadata is what the server-side check reads, whoever wrote it.\<close>

lemma extract_bearer_token_Inr:
  "extract_bearer_token W req = Inr token \<longleftrightarrow>
   (\<exists>v. fmlookup req ''authorization'' = Some v \<and> md_to_str W v = Some (''Bearer '' @ token))"
  by (auto simp: extract_bearer_token_def strip_prefix_eq_None split: option.splits)

lemma decodes:
  assumes "jwt_ok J" "jwt_encode J HS256 c k = Inr t"
  shows "decode_and_verify J t k = Inr c" "decode_unverified J t = Inr c"
  using assms by (auto simp: jwt_ok_def decode_and_verify_def decode_unverified_def Validation_new_def Let_def)

lemma self_minted_attaches:
  assumes "jwt_ok J" "metadata_ok W"
    "jwt_encode J HS256 \<lparr>cl_sub = subject, cl_exp = timestamp now + 300, cl_iat = timestamp now, cl_scope = None,
       cl_iss = None\<rparr> secret = Inr t"
  obtains v where "ClientAuthInterceptor_call W now (self_minted J secret subject) req = Inr (fmupd ''authorization'' v req)"
    "md_to_str W v = Some (''Bearer '' @ t)"
proof -
  obtain v where v: "md_parse W (''Bearer '' @ t) = Some v" using bearer_parses assms by blast
  with assms(2) have "md_to_str W v = Some (''Bearer '' @ t)" unfolding metadata_ok_def by blast
  moreover have "ClientAuthInterceptor_call W now (self_minted J secret subject) req = Inr (fmupd ''authorization'' v req)"
    using v assms(3) by (simp add: ClientAuthInterceptor_call_def self_minted_def mint_token_def)
  ultimately show thesis using that by blast
qed

section \<open>The properties\<close>

text \<open>
  With a secret configured, a request passes the interceptor exactly when its authorization metadata is a Bearer
  token that decodes under the configured secret (any decodable token when signature checks are off), expires later
  than now, carries the required issuer and passes the service's own check; and it passes unchanged.
\<close>

theorem request_passes_iff:
  assumes "ac_secret cfg = Some secret"
  shows "AuthConfig_call J W now cfg req = Inr req' \<longleftrightarrow>
    req' = req \<and>
    (\<exists>v token claims.
       fmlookup req ''authorization'' = Some v \<and> md_to_str W v = Some (''Bearer '' @ token) \<and>
       (if ac_verify_signature cfg then decode_and_verify J token secret else decode_unverified J token) = Inr claims \<and>
       timestamp now < cl_exp claims \<and>
       (\<forall>i. ac_issuer cfg = Some i \<longrightarrow> cl_iss claims = Some i) \<and>
       (\<forall>check. ac_claims_check cfg = Some check \<longrightarrow> check claims = Inr ()))"
proof -
  have "validate J W now cfg req = Inr () \<longleftrightarrow>
    (\<exists>token claims. extract_bearer_token W req = Inr token \<and>
       (if ac_verify_signature cfg then decode_and_verify J token secret else decode_unverified J token) = Inr claims \<and>
       validate_baseline now claims (ac_issuer cfg) = Inr () \<and>
       (\<forall>check. ac_claims_check cfg = Some check \<longrightarrow> check claims = Inr ()))"
    using assms by (auto simp: validate_def split: sum.splits option.splits)
  moreover have "validate_baseline now claims iss = Inr () \<longleftrightarrow>
      timestamp now < cl_exp claims \<and> (\<forall>i. iss = Some i \<longrightarrow> cl_iss claims = Some i)" for claims iss
    by (auto simp: validate_baseline_def split: option.splits)
  ultimately show ?thesis
    by (auto simp: AuthConfig_call_def extract_bearer_token_Inr split: sum.splits)
qed

end
