(* ===== verification/Observability.thy ===== *)
theory Observability
  imports Auth Ip_Address
begin

text \<open>
  The parts of \<^verbatim>\<open>coordin8-observability\<close> that decide something: its configuration from the environment, the interceptor
  that adds the trace context to an outgoing call and its composition with the authentication of \<open>Auth\<close>
  (\<^verbatim>\<open>wrap_traced_channel\<close>), the request counters with their labels, and the routing of the metrics endpoint. Spans, exporters
  and log formatting are the tracing libraries' own. The propagator of a trace context is a parameter: the pairs of
  text it sets; the samples in text form and the parsing of a floating-point number are parameters as well.
\<close>

section \<open>Configuration\<close>

datatype LogFormat = Pretty | Json

definition LogFormat_from_opt :: "string option \<Rightarrow> LogFormat" where
  "LogFormat_from_opt value =
     (case value of Some v \<Rightarrow> if eq_ignore_ascii_case v ''json'' then Json else Pretty | None \<Rightarrow> Pretty)"

definition LoggingConfig_from_env :: "(string \<Rightarrow> string option) \<Rightarrow> LogFormat" where
  "LoggingConfig_from_env env = LogFormat_from_opt (env ''COORDIN8_LOG_FORMAT'')"

record 'f TracingConfig =
  tc_service_name :: string
  tc_endpoint :: "string option"
  tc_sample_ratio :: 'f

definition otel_parse_endpoint :: "string option \<Rightarrow> string option" where
  "otel_parse_endpoint value = (case value of Some s \<Rightarrow> if s = [] then None else Some s | None \<Rightarrow> None)"

definition clamp :: "'f::linorder \<Rightarrow> 'f \<Rightarrow> 'f \<Rightarrow> 'f" where
  "clamp lo hi x = (if x < lo then lo else if x > hi then hi else x)"

definition parse_sample_ratio :: "(string \<Rightarrow> 'f::{linorder,zero,one} option) \<Rightarrow> string option \<Rightarrow> 'f" where
  "parse_sample_ratio parse_f64 value =
     (case Option.bind value parse_f64 of Some r \<Rightarrow> clamp 0 1 r | None \<Rightarrow> 1)"

definition TracingConfig_from_env ::
  "(string \<Rightarrow> 'f::{linorder,zero,one} option) \<Rightarrow> (string \<Rightarrow> string option) \<Rightarrow> string \<Rightarrow> 'f TracingConfig"
where
  "TracingConfig_from_env parse_f64 env service_name = \<lparr>
     tc_service_name = service_name,
     tc_endpoint = otel_parse_endpoint (env ''COORDIN8_OTEL_ENDPOINT''),
     tc_sample_ratio = parse_sample_ratio parse_f64 (env ''COORDIN8_OTEL_SAMPLE_RATIO'')\<rparr>"

definition export_enabled :: "'f TracingConfig \<Rightarrow> bool" where
  "export_enabled cfg \<longleftrightarrow> tc_endpoint cfg \<noteq> None"

record MetricsConfig =
  mc_port :: "u16 option"

definition MetricsConfig_from_env :: "(string \<Rightarrow> string option) \<Rightarrow> MetricsConfig" where
  "MetricsConfig_from_env env = \<lparr>mc_port = Option.bind (env ''COORDIN8_METRICS_PORT'') parse_u16\<rparr>"

section \<open>Outgoing calls\<close>

text \<open>
  \<^verbatim>\<open>MetadataInjector::set\<close>: a pair whose key or value is no metadata is dropped. The interceptor sets every pair the
  propagator gives for the current context and never fails.
\<close>

definition MetadataInjector_set ::
  "(string \<Rightarrow> string option) \<Rightarrow> 'm metadata_lib \<Rightarrow> string \<times> string \<Rightarrow> 'm metadata \<Rightarrow> 'm metadata"
where
  "MetadataInjector_set from_bytes W kv md =
     (case from_bytes (fst kv) of
        None \<Rightarrow> md
      | Some key \<Rightarrow> (case md_parse W (snd kv) of None \<Rightarrow> md | Some value \<Rightarrow> fmupd key value md))"

definition ClientTraceInterceptor_call ::
  "(string \<Rightarrow> string option) \<Rightarrow> 'm metadata_lib \<Rightarrow> (string \<times> string) list \<Rightarrow> 'm metadata \<Rightarrow> 'm metadata rpc"
where
  "ClientTraceInterceptor_call from_bytes W injected req =
     Inr (fold (MetadataInjector_set from_bytes W) injected req)"

text \<open>
  \<^verbatim>\<open>wrap_traced_channel\<close>: the trace interceptor around the authentication interceptor around the channel. An intercepted
  service runs its interceptor first and calls the inner service only when that succeeds.
\<close>

definition traced_authed_metadata ::
  "(string \<Rightarrow> string option) \<Rightarrow> 'm metadata_lib \<Rightarrow> (string \<times> string) list \<Rightarrow> time \<Rightarrow> ClientAuthConfig \<Rightarrow> 'm metadata \<Rightarrow> 'm metadata rpc"
where
  "traced_authed_metadata from_bytes W injected now ca req =
     (case ClientTraceInterceptor_call from_bytes W injected req of
        Inl st \<Rightarrow> Inl st
      | Inr req' \<Rightarrow> ClientAuthInterceptor_call W now ca req')"

section \<open>Metrics\<close>

text \<open>\<^verbatim>\<open>trim_start_matches\<close> of one character.\<close>

fun trim_start_char :: "char \<Rightarrow> string \<Rightarrow> string" where
  "trim_start_char c [] = []"
| "trim_start_char c (x # xs) = (if x = c then trim_start_char c xs else x # xs)"

definition split_grpc_path :: "string \<Rightarrow> string \<times> string" where
  "split_grpc_path path =
     (let trimmed = trim_start_char (CHR ''/'') path in
      case split_once (CHR ''/'') trimmed of
        Some (service, meth) \<Rightarrow> (service, meth)
      | None \<Rightarrow> (''unknown'', trimmed))"

text \<open>A failure as the classifier reports it: a status, with the code it is known by or its raw number, or an error text.\<close>

datatype GrpcFailureClass = StatusClass "code option" int | ErrorClass string | OtherClass

fun code_debug :: "code \<Rightarrow> string" where
  "code_debug Code_Ok = ''Ok''"
| "code_debug Code_Cancelled = ''Cancelled''"
| "code_debug Code_Unknown = ''Unknown''"
| "code_debug Code_InvalidArgument = ''InvalidArgument''"
| "code_debug Code_DeadlineExceeded = ''DeadlineExceeded''"
| "code_debug Code_NotFound = ''NotFound''"
| "code_debug Code_PermissionDenied = ''PermissionDenied''"
| "code_debug Code_FailedPrecondition = ''FailedPrecondition''"
| "code_debug Code_Aborted = ''Aborted''"
| "code_debug Code_Internal = ''Internal''"
| "code_debug Code_Unavailable = ''Unavailable''"
| "code_debug Code_DataLoss = ''DataLoss''"
| "code_debug Code_Unauthenticated = ''Unauthenticated''"
| "code_debug Code_AlreadyExists = ''AlreadyExists''"
| "code_debug Code_ResourceExhausted = ''ResourceExhausted''"
| "code_debug Code_OutOfRange = ''OutOfRange''"
| "code_debug Code_Unimplemented = ''Unimplemented''"

fun grpc_code_label :: "GrpcFailureClass \<Rightarrow> string" where
  "grpc_code_label (StatusClass (Some c) raw) = code_debug c"
| "grpc_code_label (StatusClass None raw) = ''unrecognized('' @ show_int raw @ '')''"
| "grpc_code_label (ErrorClass e) = ''transport_error''"
| "grpc_code_label OtherClass = ''unknown''"

record metrics =
  requests_total :: "(string \<times> string \<times> string, nat) fmap"
  request_duration :: "(string \<times> string, time list) fmap"

text \<open>The labels found on a span: those stashed when it was made, if any.\<close>

definition labels_from_span :: "(string \<times> string) option \<Rightarrow> string \<times> string" where
  "labels_from_span stashed = (case stashed of Some l \<Rightarrow> l | None \<Rightarrow> (''unknown'', ''unknown''))"

definition count_request :: "string \<times> string \<Rightarrow> string \<Rightarrow> time \<Rightarrow> metrics \<Rightarrow> metrics" where
  "count_request l label latency m = (case l of (service, meth) \<Rightarrow> m\<lparr>
     requests_total := fmupd (service, meth, label)
       (Suc (case fmlookup (requests_total m) (service, meth, label) of None \<Rightarrow> 0 | Some n \<Rightarrow> n)) (requests_total m),
     request_duration := fmupd (service, meth)
       ((case fmlookup (request_duration m) (service, meth) of None \<Rightarrow> [] | Some ds \<Rightarrow> ds) @ [latency])
       (request_duration m)\<rparr>)"

definition on_response :: "(string \<times> string) option \<Rightarrow> time \<Rightarrow> metrics \<Rightarrow> metrics" where
  "on_response stashed latency = count_request (labels_from_span stashed) ''Ok'' latency"

definition on_failure :: "GrpcFailureClass \<Rightarrow> (string \<times> string) option \<Rightarrow> time \<Rightarrow> metrics \<Rightarrow> metrics" where
  "on_failure cls stashed latency = count_request (labels_from_span stashed) (grpc_code_label cls) latency"

record http_response =
  hr_status :: nat
  hr_content_type :: "string option"
  hr_body :: bytes

definition handle_request :: "bytes \<Rightarrow> string \<Rightarrow> string \<Rightarrow> http_response" where
  "handle_request rendered meth path =
     (if path \<noteq> ''/metrics'' then \<lparr>hr_status = 404, hr_content_type = None, hr_body = []\<rparr>
      else if meth \<noteq> ''GET'' then \<lparr>hr_status = 405, hr_content_type = None, hr_body = []\<rparr>
      else \<lparr>hr_status = 200, hr_content_type = Some ''text/plain; version=0.0.4'', hr_body = rendered\<rparr>)"

section \<open>Lemmas\<close>

text \<open>Only a plain GET of the endpoint is answered with the metrics, whatever they are.\<close>

lemma metrics_only_for_get:
  assumes "rendered \<noteq> []"
  shows "hr_body (handle_request rendered meth path) = rendered \<longleftrightarrow> meth = ''GET'' \<and> path = ''/metrics''"
  using assms by (auto simp: handle_request_def)

lemma sample_ratio_bounds: "0 \<le> parse_sample_ratio p v \<and> parse_sample_ratio p v \<le> (1::'f::linordered_idom)"
  by (auto simp: parse_sample_ratio_def clamp_def split: option.splits)

lemma split_once_iff: "split_once c s = Some (a, b) \<longleftrightarrow> s = a @ c # b \<and> c \<notin> set a"
proof (induction s arbitrary: a)
  case (Cons x s)
  then show ?case by (cases a) auto
qed simp

text \<open>The path of a call is split into its service and its method.\<close>

lemma split_grpc_path_call:
  assumes "CHR ''/'' \<notin> set service" "service \<noteq> []"
  shows "split_grpc_path (CHR ''/'' # service @ CHR ''/'' # meth) = (service, meth)"
proof -
  have "trim_start_char (CHR ''/'') (service @ CHR ''/'' # meth) = service @ CHR ''/'' # meth"
    using assms by (cases service) auto
  moreover have "split_once (CHR ''/'') (service @ CHR ''/'' # meth) = Some (service, meth)"
    using assms(1) by (simp add: split_once_iff)
  ultimately show ?thesis by (simp add: split_grpc_path_def)
qed

text \<open>One request is counted once, under one label.\<close>

lemma count_request_counts:
  "fmlookup (requests_total (count_request (s, mt) lb d m)) k =
   (if k = (s, mt, lb) then Some (Suc (case fmlookup (requests_total m) k of None \<Rightarrow> 0 | Some n \<Rightarrow> n))
    else fmlookup (requests_total m) k)"
  by (simp add: count_request_def)

lemma injector_keeps_authorization:
  assumes "\<forall>k v key. (k, v) \<in> set injected \<and> from_bytes k = Some key \<longrightarrow> key \<noteq> ''authorization''"
  shows "fmlookup (fold (MetadataInjector_set from_bytes W) injected md) ''authorization'' = fmlookup md ''authorization''"
  using assms
proof (induction injected arbitrary: md)
  case (Cons kv injected)
  have "fmlookup (MetadataInjector_set from_bytes W kv md) ''authorization'' = fmlookup md ''authorization''"
    using Cons.prems by (cases kv) (auto simp: MetadataInjector_set_def split: option.splits)
  moreover have "\<forall>k v key. (k, v) \<in> set injected \<and> from_bytes k = Some key \<longrightarrow> key \<noteq> ''authorization''"
    using Cons.prems by auto
  ultimately show ?case using Cons.IH by simp
qed simp

section \<open>Internal calls authenticate\<close>

text \<open>
  C19: A call between two services that share a secret: the caller's outgoing interceptors (trace context, then the
  self-minted token of its own configuration) always produce a request, and the receiving service's interceptor accepts
  it exactly when it arrives less than five minutes after it was minted, the service requires no issuer, and its own
  claims check accepts a token without scope. So requiring an issuer shuts out every internal call.
\<close>

theorem internal_call_authenticates:
  assumes J: "jwt_ok J" and W: "metadata_ok W"
    and shared: "ac_secret client = Some secret" "ac_secret server = Some secret"
    and signs: "jwt_encode J HS256 \<lparr>cl_sub = subject, cl_exp = timestamp sent + 300, cl_iat = timestamp sent,
                  cl_scope = None, cl_iss = None\<rparr> secret = Inr token"
  shows "\<exists>req'. traced_authed_metadata from_bytes W injected sent (client_config J client subject) req = Inr req' \<and>
    (AuthConfig_call J W arrived server req' = Inr req' \<longleftrightarrow>
       timestamp arrived < timestamp sent + 300 \<and> ac_issuer server = None \<and>
       (\<forall>check. ac_claims_check server = Some check \<longrightarrow>
          check \<lparr>cl_sub = subject, cl_exp = timestamp sent + 300, cl_iat = timestamp sent, cl_scope = None,
                 cl_iss = None\<rparr> = Inr ()))"
proof -
  let ?c = "\<lparr>cl_sub = subject, cl_exp = timestamp sent + 300, cl_iat = timestamp sent, cl_scope = None, cl_iss = None\<rparr>"
  let ?req = "fold (MetadataInjector_set from_bytes W) injected req"
  obtain v where v: "ClientAuthInterceptor_call W sent (self_minted J secret subject) ?req = Inr (fmupd ''authorization'' v ?req)"
    "md_to_str W v = Some (''Bearer '' @ token)"
    using self_minted_attaches[OF J W signs] by blast
  let ?req' = "fmupd ''authorization'' v ?req"
  have out: "traced_authed_metadata from_bytes W injected sent (client_config J client subject) req = Inr ?req'"
    using v(1) shared(1) by (simp add: traced_authed_metadata_def ClientTraceInterceptor_call_def client_config_def)
  have ext: "extract_bearer_token W ?req' = Inr token" using v(2) by (simp add: extract_bearer_token_Inr)
  have dec: "(if b then decode_and_verify J token secret else decode_unverified J token) = Inr ?c" for b
    using decodes[OF J signs] by simp
  have "AuthConfig_call J W arrived server ?req' = Inr ?req' \<longleftrightarrow>
       validate_baseline arrived ?c (ac_issuer server) = Inr () \<and>
       (\<forall>check. ac_claims_check server = Some check \<longrightarrow> check ?c = Inr ())"
    using shared(2) ext dec by (auto simp: AuthConfig_call_def validate_def split: sum.splits option.splits)
  also have "validate_baseline arrived ?c (ac_issuer server) = Inr () \<longleftrightarrow>
       timestamp arrived < timestamp sent + 300 \<and> ac_issuer server = None"
    by (auto simp: validate_baseline_def split: option.splits)
  finally show ?thesis using out by auto
qed

text \<open>A token format for concrete runs: the claims written out, followed by the key.\<close>

definition demo_claims :: Claims where
  "demo_claims = \<lparr>cl_sub = ''space'', cl_exp = 300, cl_iat = 0, cl_scope = None, cl_iss = None\<rparr>"

definition demo_jwt :: jwt where
  "demo_jwt = \<lparr>
     jwt_encode = (\<lambda>a c k. if c = demo_claims \<and> k = ''shh'' then Inr ''tok'' else Inl ''unsupported''),
     jwt_decode = (\<lambda>t k v. if t = ''tok'' \<and> (vd_validate_signature v \<longrightarrow> k = ''shh'') then Inr demo_claims
                           else Inl ''InvalidSignature'')\<rparr>"

definition demo_wire :: "string metadata_lib" where
  "demo_wire = \<lparr>md_parse = Some, md_to_str = Some\<rparr>"

lemma demo_libraries_ok: "jwt_ok demo_jwt" "metadata_ok demo_wire"
  by (auto simp: jwt_ok_def metadata_ok_def demo_jwt_def demo_wire_def token_char_def Let_def split: if_splits)

theorem internal_call_authenticates_witness:
  "\<exists>req'. traced_authed_metadata Some demo_wire [(''traceparent'', ''00-1'')] 0
     (client_config demo_jwt (AuthConfig_default\<lparr>ac_secret := Some ''shh''\<rparr>) ''space'') fmempty = Inr req' \<and>
   AuthConfig_call demo_jwt demo_wire 299999999999 (AuthConfig_default\<lparr>ac_secret := Some ''shh''\<rparr>) req' = Inr req'"
  using internal_call_authenticates[OF demo_libraries_ok,
      where client = "AuthConfig_default\<lparr>ac_secret := Some ''shh''\<rparr>" and server = "AuthConfig_default\<lparr>ac_secret := Some ''shh''\<rparr>"
        and secret = "''shh''" and subject = "''space''" and sent = 0 and token = "''tok''" and from_bytes = Some
        and injected = "[(''traceparent'', ''00-1'')]" and req = fmempty and arrived = 299999999999]
  by (simp add: demo_jwt_def demo_claims_def timestamp_def AuthConfig_default_def)

end
