(* ===== verification/Bootstrap.thy ===== *)
theory Bootstrap
  imports Observability Registry Proxy Txn
begin

text \<open>
  The clients of \<^verbatim>\<open>coordin8-bootstrap/src/lib.rs\<close> with which split services find and keep each other: retrying with
  backoff, discovery through the Registry, self-registration with its renewal task, and the remote implementations of the
  resolver and enlister interfaces.

  The network is a parameter \<open>N\<close> over a world \<open>'w\<close> that holds everything on its far side: connecting, and each remote
  call with its metadata. A call that never reaches a server is answered with a status like any other. The renewal task is
  given by what one tick of its interval does; a handle and its task share the registration they keep alive.
\<close>

section \<open>The network\<close>

record ('c, 'm, 'w) net =
  nt_valid_uri :: "string \<Rightarrow> bool"
  nt_connect :: "string \<Rightarrow> 'w \<Rightarrow> (string + 'c) \<times> 'w"
  nt_register :: "'c \<Rightarrow> 'm metadata \<Rightarrow> RegisterRequest \<Rightarrow> 'w \<Rightarrow> RegisterResponse rpc \<times> 'w"
  nt_lookup :: "'c \<Rightarrow> 'm metadata \<Rightarrow> attrs \<Rightarrow> 'w \<Rightarrow> Capability rpc \<times> 'w"
  nt_cancel :: "'c \<Rightarrow> 'm metadata \<Rightarrow> string \<Rightarrow> 'w \<Rightarrow> unit rpc \<times> 'w"
  nt_enlist :: "'c \<Rightarrow> 'm metadata \<Rightarrow> string \<times> string \<times> u64 \<Rightarrow> 'w \<Rightarrow> unit rpc \<times> 'w"
  nt_sleep :: "u64 \<Rightarrow> 'w \<Rightarrow> 'w"
  nt_clock :: "'w \<Rightarrow> time"
  nt_trace :: "'w \<Rightarrow> (string \<times> string) list"
  nt_wire :: "'m metadata_lib"
  nt_metadata_key :: "string \<Rightarrow> string option"
  nt_show_status :: "status \<Rightarrow> string"

text \<open>\<^verbatim>\<open>AuthedChannel\<close>, and a call through it: the interceptors first, the channel only when they agree.\<close>

type_synonym 'c authed_channel = "'c \<times> ClientAuthConfig"

definition wrap_channel :: "'c \<Rightarrow> ClientAuthConfig \<Rightarrow> 'c authed_channel" where
  "wrap_channel channel client_auth = (channel, client_auth)"

definition authed_call ::
  "('c, 'm, 'w) net \<Rightarrow> ('c \<Rightarrow> 'm metadata \<Rightarrow> 'q \<Rightarrow> 'w \<Rightarrow> 'p rpc \<times> 'w) \<Rightarrow> 'c authed_channel \<Rightarrow> 'q \<Rightarrow> 'w \<Rightarrow> 'p rpc \<times> 'w"
where
  "authed_call N rpc ch q w =
     (case traced_authed_metadata (nt_metadata_key N) (nt_wire N) (nt_trace N w) (nt_clock N w) (snd ch) fmempty of
        Inl st \<Rightarrow> (Inl st, w)
      | Inr md \<Rightarrow> rpc (fst ch) md q w)"

datatype BootError = Transport string | RpcStatus status | MissingTransport string

section \<open>Retrying and discovery\<close>

text \<open>\<^verbatim>\<open>retry_forever\<close>: not returning is \<open>None\<close>.\<close>

partial_function (option) retry_loop ::
  "(u64 \<Rightarrow> 'w \<Rightarrow> 'w) \<Rightarrow> u64 \<Rightarrow> ('w \<Rightarrow> ('e + 'a) \<times> 'w) \<Rightarrow> 'w \<Rightarrow> ('a \<times> 'w) option"
where
  "retry_loop slp backoff_ms op w =
     (case op w of
        (Inr v, w') \<Rightarrow> Some (v, w')
      | (Inl e, w') \<Rightarrow> retry_loop slp (min (backoff_ms * 2) 5000) op (slp backoff_ms w'))"

definition retry_forever :: "(u64 \<Rightarrow> 'w \<Rightarrow> 'w) \<Rightarrow> ('w \<Rightarrow> ('e + 'a) \<times> 'w) \<Rightarrow> 'w \<Rightarrow> ('a \<times> 'w) option" where
  "retry_forever slp op w = retry_loop slp 100 op w"

definition dial :: "('c, 'm, 'w) net \<Rightarrow> string \<Rightarrow> string \<Rightarrow> 'w \<Rightarrow> (BootError + 'c) \<times> 'w" where
  "dial N invalid addr w =
     (if \<not> nt_valid_uri N addr then (Inl (MissingTransport invalid), w)
      else case nt_connect N addr w of (Inl e, w') \<Rightarrow> (Inl (Transport e), w') | (Inr c, w') \<Rightarrow> (Inr c, w'))"

definition discover_service_channel ::
  "('c, 'm, 'w) net \<Rightarrow> string \<Rightarrow> string \<Rightarrow> ClientAuthConfig \<Rightarrow> 'w \<Rightarrow> (BootError + 'c) \<times> 'w"
where
  "discover_service_channel N registry_addr interface client_auth w =
     (case dial N ''invalid registry address'' registry_addr w of
        (Inl e, w1) \<Rightarrow> (Inl e, w1)
      | (Inr channel, w1) \<Rightarrow>
          (case authed_call N (nt_lookup N) (wrap_channel channel client_auth) (fmupd ''interface'' interface fmempty) w1 of
             (Inl st, w2) \<Rightarrow> (Inl (RpcStatus st), w2)
           | (Inr cap, w2) \<Rightarrow>
               (case cap_transport cap of
                  None \<Rightarrow> (Inl (MissingTransport ''transport''), w2)
                | Some transport \<Rightarrow>
                    (case fmlookup (config transport) ''host'' of
                       None \<Rightarrow> (Inl (MissingTransport ''host''), w2)
                     | Some host \<Rightarrow>
                         (case fmlookup (config transport) ''port'' of
                            None \<Rightarrow> (Inl (MissingTransport ''port''), w2)
                          | Some port \<Rightarrow>
                              dial N ''host/port formed invalid URL'' (''http://'' @ host @ '':'' @ port) w2)))))"

definition discover_txn_mgr ::
  "('c, 'm, 'w) net \<Rightarrow> string \<Rightarrow> ClientAuthConfig \<Rightarrow> 'w \<Rightarrow> ('c authed_channel \<times> 'w) option"
where
  "discover_txn_mgr N registry_addr client_auth w =
     retry_forever (nt_sleep N)
       (\<lambda>w. case discover_service_channel N registry_addr ''TransactionMgr'' client_auth w of
              (Inl e, w') \<Rightarrow> (Inl e, w')
            | (Inr channel, w') \<Rightarrow> (Inr (wrap_channel channel client_auth), w')) w"

section \<open>Self-registration\<close>

record CurrentRegistration =
  cr_lease_id :: string
  cr_capability_id :: string

text \<open>A handle together with what its renewal task keeps: the request it repeats and the capability id it logs.\<close>

record 'c SelfRegistrationHandle =
  sr_initial_lease_id :: string
  sr_initial_capability_id :: string
  sr_current :: CurrentRegistration
  sr_channel :: "'c authed_channel"
  sr_request :: RegisterRequest
  sr_log_cap_id :: string
  sr_running :: bool

definition entry_is_unusable :: "code \<Rightarrow> bool" where
  "entry_is_unusable c \<longleftrightarrow> c = Code_NotFound \<or> c = Code_FailedPrecondition"

definition lease_id_or_empty :: "RegisterResponse \<Rightarrow> string" where
  "lease_id_or_empty resp = (case rp_lease resp of Some l \<Rightarrow> pl_lease_id l | None \<Rightarrow> [])"

definition self_request :: "string \<Rightarrow> attrs \<Rightarrow> string \<Rightarrow> u16 \<Rightarrow> u64 \<Rightarrow> RegisterRequest" where
  "self_request interface at host port ttl_seconds = \<lparr>
     rq_interface = interface, rq_attrs = at, rq_ttl_seconds = ttl_seconds,
     rq_transport = Some \<lparr>transport_type = ''grpc'',
       config = fmupd ''port'' (show_nat (unat port)) (fmupd ''host'' host fmempty)\<rparr>,
     rq_capability_id = [], rq_lease_id = []\<rparr>"

definition self_register ::
  "('c, 'm, 'w) net \<Rightarrow> 'c authed_channel \<Rightarrow> string \<Rightarrow> attrs \<Rightarrow> string \<Rightarrow> u16 \<Rightarrow> u64 \<Rightarrow> 'w
   \<Rightarrow> (BootError + 'c SelfRegistrationHandle) \<times> 'w"
where
  "self_register N channel interface at host port ttl_seconds w =
     (let initial = self_request interface at host port ttl_seconds in
      case authed_call N (nt_register N) channel initial w of
        (Inl st, w') \<Rightarrow> (Inl (RpcStatus st), w')
      | (Inr resp, w') \<Rightarrow>
          let capability_id = rp_capability_id resp; lease_id = lease_id_or_empty resp in
          (Inr \<lparr>sr_initial_lease_id = lease_id, sr_initial_capability_id = capability_id,
                sr_current = \<lparr>cr_lease_id = lease_id, cr_capability_id = capability_id\<rparr>,
                sr_channel = channel,
                sr_request = initial\<lparr>rq_capability_id := capability_id, rq_lease_id := lease_id\<rparr>,
                sr_log_cap_id = capability_id, sr_running = True\<rparr>, w'))"

definition renewal_interval_secs :: "u64 \<Rightarrow> u64" where
  "renewal_interval_secs ttl_seconds = (max ttl_seconds 3) div 3"

text \<open>How a tick ended, as the task logs it.\<close>

datatype tick = Renewed | Reregistered | RecoveryFailed status | RenewalFailed status

definition renewal_tick ::
  "('c, 'm, 'w) net \<Rightarrow> 'c SelfRegistrationHandle \<Rightarrow> 'w \<Rightarrow> tick \<times> 'c SelfRegistrationHandle \<times> 'w"
where
  "renewal_tick N h w =
     (case authed_call N (nt_register N) (sr_channel h) (sr_request h) w of
        (Inr resp, w') \<Rightarrow>
          (Renewed,
           (case rp_lease resp of
              Some l \<Rightarrow> h\<lparr>sr_current := (sr_current h)\<lparr>cr_lease_id := pl_lease_id l\<rparr>\<rparr>
            | None \<Rightarrow> h), w')
      | (Inl e, w') \<Rightarrow>
          if entry_is_unusable (status_code e) then
            let request = (sr_request h)\<lparr>rq_capability_id := [], rq_lease_id := []\<rparr>;
                h1 = h\<lparr>sr_request := request, sr_current := (sr_current h)\<lparr>cr_lease_id := []\<rparr>\<rparr>
            in case authed_call N (nt_register N) (sr_channel h) request w' of
                 (Inr resp, w'') \<Rightarrow>
                   let new_cap_id = rp_capability_id resp; new_lease_id = lease_id_or_empty resp in
                   (Reregistered,
                    h1\<lparr>sr_request := request\<lparr>rq_lease_id := new_lease_id, rq_capability_id := new_cap_id\<rparr>,
                       sr_current := \<lparr>cr_lease_id = new_lease_id, cr_capability_id = new_cap_id\<rparr>,
                       sr_log_cap_id := new_cap_id\<rparr>, w'')
               | (Inl e2, w'') \<Rightarrow> (RecoveryFailed e2, h1, w'')
          else (RenewalFailed e, h, w'))"

text \<open>The task over a sequence of gaps: what happens in the world before each tick.\<close>

fun renewal_ticks ::
  "('c, 'm, 'w) net \<Rightarrow> ('w \<Rightarrow> 'w) list \<Rightarrow> 'c SelfRegistrationHandle \<Rightarrow> 'w \<Rightarrow> tick list \<times> 'c SelfRegistrationHandle \<times> 'w"
where
  "renewal_ticks N [] h w = ([], h, w)"
| "renewal_ticks N (g # gaps) h w =
     (case renewal_tick N h (g w) of
        (t, h', w') \<Rightarrow> (case renewal_ticks N gaps h' w' of (ts, h'', w'') \<Rightarrow> (t # ts, h'', w'')))"

definition current_lease_id :: "'c SelfRegistrationHandle \<Rightarrow> string" where
  "current_lease_id h = cr_lease_id (sr_current h)"

definition current_capability_id :: "'c SelfRegistrationHandle \<Rightarrow> string" where
  "current_capability_id h = cr_capability_id (sr_current h)"

definition SelfRegistrationHandle_cancel ::
  "('c, 'm, 'w) net \<Rightarrow> 'c SelfRegistrationHandle \<Rightarrow> 'w \<Rightarrow> (BootError + unit) \<times> 'c SelfRegistrationHandle \<times> 'w"
where
  "SelfRegistrationHandle_cancel N h w =
     (let h' = h\<lparr>sr_running := False\<rparr>; lease_id = current_lease_id h in
      if lease_id = [] then (Inr (), h', w)
      else case authed_call N (nt_cancel N) (sr_channel h) lease_id w of
             (Inr _, w') \<Rightarrow> (Inr (), h', w')
           | (Inl s, w') \<Rightarrow>
               if status_code s = Code_NotFound then (Inr (), h', w') else (Inl (RpcStatus s), h', w'))"

section \<open>The remote resolver\<close>

definition is_transport_failure :: "status \<Rightarrow> bool" where
  "is_transport_failure st \<longleftrightarrow>
     status_code st = Code_Unavailable \<or> status_code st = Code_Cancelled \<or> status_code st = Code_Unknown \<or>
     status_code st = Code_DeadlineExceeded"

record 'c RemoteCapabilityResolver =
  rcr_registry_addr :: string
  rcr_client_auth :: ClientAuthConfig
  rcr_client :: "'c authed_channel"

definition RemoteCapabilityResolver_connect ::
  "('c, 'm, 'w) net \<Rightarrow> string \<Rightarrow> ClientAuthConfig \<Rightarrow> 'w \<Rightarrow> ('c RemoteCapabilityResolver \<times> 'w) option"
where
  "RemoteCapabilityResolver_connect N registry_addr client_auth w =
     map_option (\<lambda>(channel, w'). (\<lparr>rcr_registry_addr = registry_addr, rcr_client_auth = client_auth,
                                   rcr_client = wrap_channel channel client_auth\<rparr>, w'))
       (retry_forever (nt_sleep N) (dial N ''invalid registry address'' registry_addr) w)"

definition reconnect ::
  "('c, 'm, 'w) net \<Rightarrow> 'c RemoteCapabilityResolver \<Rightarrow> 'w \<Rightarrow> unit result \<times> 'c RemoteCapabilityResolver \<times> 'w"
where
  "reconnect N r w =
     (if \<not> nt_valid_uri N (rcr_registry_addr r) then (Inl (Internal ''invalid registry address''), r, w)
      else case nt_connect N (rcr_registry_addr r) w of
             (Inl e, w') \<Rightarrow> (Inl (Internal (''registry reconnect failed: '' @ e)), r, w')
           | (Inr channel, w') \<Rightarrow> (Inr (), r\<lparr>rcr_client := wrap_channel channel (rcr_client_auth r)\<rparr>, w'))"

definition lookup_with_retry ::
  "('c, 'm, 'w) net \<Rightarrow> attrs \<Rightarrow> 'c RemoteCapabilityResolver \<Rightarrow> 'w \<Rightarrow> Capability rpc \<times> 'c RemoteCapabilityResolver \<times> 'w"
where
  "lookup_with_retry N template r w =
     (case authed_call N (nt_lookup N) (rcr_client r) template w of
        (Inr resp, w1) \<Rightarrow> (Inr resp, r, w1)
      | (Inl st, w1) \<Rightarrow>
          if is_transport_failure st then
            (case reconnect N r w1 of
               (Inl e, r', w2) \<Rightarrow> (Inl (Status Code_Unavailable (error_to_string e)), r', w2)
             | (Inr _, r', w2) \<Rightarrow>
                 (case authed_call N (nt_lookup N) (rcr_client r') template w2 of (x, w3) \<Rightarrow> (x, r', w3)))
          else (Inl st, r, w1))"

definition capability_to_registry_entry :: "Capability \<Rightarrow> RegistryEntry" where
  "capability_to_registry_entry cap = \<lparr>re_capability_id = cap_capability_id cap, re_lease_id = [],
     re_interface = cap_interface cap, re_attrs = cap_attrs cap,
     re_transport = map_option (\<lambda>t. \<lparr>transport_type = transport_type t, config = config t\<rparr>) (cap_transport cap)\<rparr>"

definition RemoteCapabilityResolver_resolve ::
  "('c, 'm, 'w) net \<Rightarrow> attrs \<Rightarrow> 'c RemoteCapabilityResolver \<Rightarrow> 'w
   \<Rightarrow> RegistryEntry option result \<times> 'c RemoteCapabilityResolver \<times> 'w"
where
  "RemoteCapabilityResolver_resolve N template r w =
     (case lookup_with_retry N template r w of
        (Inr resp, r', w') \<Rightarrow> (Inr (Some (capability_to_registry_entry resp)), r', w')
      | (Inl st, r', w') \<Rightarrow>
          if status_code st = Code_NotFound then (Inr None, r', w')
          else (Inl (Internal (''registry lookup failed: '' @ nt_show_status N st)), r', w'))"

text \<open>The resolver a Proxy starts with: empty until the background task installs a connected one.\<close>

record 'c PendingCapabilityResolver =
  pcr_inner :: "'c RemoteCapabilityResolver option"

definition PendingCapabilityResolver_new :: "'c PendingCapabilityResolver" where
  "PendingCapabilityResolver_new = \<lparr>pcr_inner = None\<rparr>"

definition install :: "'c RemoteCapabilityResolver \<Rightarrow> 'c PendingCapabilityResolver \<Rightarrow> 'c PendingCapabilityResolver" where
  "install resolved p = p\<lparr>pcr_inner := Some resolved\<rparr>"

definition PendingCapabilityResolver_resolve ::
  "('c, 'm, 'w) net \<Rightarrow> attrs \<Rightarrow> 'c PendingCapabilityResolver \<Rightarrow> 'w
   \<Rightarrow> RegistryEntry option result \<times> 'c PendingCapabilityResolver \<times> 'w"
where
  "PendingCapabilityResolver_resolve N template p w =
     (case pcr_inner p of
        Some resolver \<Rightarrow>
          (case RemoteCapabilityResolver_resolve N template resolver w of
             (x, resolver', w') \<Rightarrow> (x, p\<lparr>pcr_inner := Some resolver'\<rparr>, w'))
      | None \<Rightarrow> (Inl (Unavailable ''waiting on dependency: Registry''), p, w))"

section \<open>The remote enlister\<close>

record 'c RemoteTxnEnlister =
  rte_registry_addr :: string
  rte_client_auth :: ClientAuthConfig
  rte_client :: "'c authed_channel option"

definition RemoteTxnEnlister_new :: "string \<Rightarrow> ClientAuthConfig \<Rightarrow> 'c RemoteTxnEnlister" where
  "RemoteTxnEnlister_new registry_addr client_auth =
     \<lparr>rte_registry_addr = registry_addr, rte_client_auth = client_auth, rte_client = None\<rparr>"

definition rediscover ::
  "('c, 'm, 'w) net \<Rightarrow> 'c RemoteTxnEnlister \<Rightarrow> 'w \<Rightarrow> ('c authed_channel \<times> 'c RemoteTxnEnlister \<times> 'w) option"
where
  "rediscover N e w =
     map_option (\<lambda>(fresh, w'). (fresh, e\<lparr>rte_client := Some fresh\<rparr>, w'))
       (discover_txn_mgr N (rte_registry_addr e) (rte_client_auth e) w)"

definition ensure_client ::
  "('c, 'm, 'w) net \<Rightarrow> 'c RemoteTxnEnlister \<Rightarrow> 'w \<Rightarrow> ('c authed_channel \<times> 'c RemoteTxnEnlister \<times> 'w) option"
where
  "ensure_client N e w =
     (case rte_client e of
        Some c \<Rightarrow> Some (c, e, w)
      | None \<Rightarrow>
          map_option (\<lambda>(fresh, w'). (fresh, e\<lparr>rte_client := Some fresh\<rparr>, w'))
            (discover_txn_mgr N (rte_registry_addr e) (rte_client_auth e) w))"

definition RemoteTxnEnlister_enlist ::
  "('c, 'm, 'w) net \<Rightarrow> string \<Rightarrow> string \<Rightarrow> 'c RemoteTxnEnlister \<Rightarrow> 'w \<Rightarrow> (unit result \<times> 'c RemoteTxnEnlister \<times> 'w) option"
where
  "RemoteTxnEnlister_enlist N txn_id endpoint e w =
     (let request = (txn_id, endpoint, 0);
          failed = (\<lambda>st. Internal (''enlist failed: '' @ nt_show_status N st)) in
      case ensure_client N e w of
        None \<Rightarrow> None
      | Some (client, e1, w1) \<Rightarrow>
          (case authed_call N (nt_enlist N) client request w1 of
             (Inr _, w2) \<Rightarrow> Some (Inr (), e1, w2)
           | (Inl st, w2) \<Rightarrow>
               if is_transport_failure st then
                 (case rediscover N e1 w2 of
                    None \<Rightarrow> None
                  | Some (client', e2, w3) \<Rightarrow>
                      (case authed_call N (nt_enlist N) client' request w3 of
                         (r, w4) \<Rightarrow> Some (map_err failed r, e2, w4)))
               else Some (Inl (failed st), e1, w2)))"

end
