(* ===== verification/Bootstrap_Props.thy ===== *)
theory Bootstrap_Props
  imports Bootstrap
begin

text \<open>
  What the clients of \<open>Bootstrap\<close> achieve. Retrying is characterised by its attempts. Self-registration, cancellation
  and remote resolution are run against the Registry of \<open>Registry\<close>: the locale \<open>registry_link\<close> says what a network that
  carries calls to a Registry promises, and \<open>loopback\<close> is such a network, in front of an in-memory Registry behind its
  authentication interceptor, that may lose calls.
\<close>

section \<open>Retrying\<close>

definition backoff :: "nat \<Rightarrow> u64" where
  "backoff k = of_nat (min (100 * 2 ^ k) 5000)"

text \<open>The world before attempt \<open>k\<close>, when all attempts before it failed.\<close>

fun retried :: "(u64 \<Rightarrow> 'w \<Rightarrow> 'w) \<Rightarrow> ('w \<Rightarrow> ('e + 'a) \<times> 'w) \<Rightarrow> nat \<Rightarrow> 'w \<Rightarrow> 'w" where
  "retried slp op 0 w = w"
| "retried slp op (Suc k) w = slp (backoff k) (snd (op (retried slp op k w)))"

lemma backoff_0 [simp]: "backoff 0 = 100"
  by (simp add: backoff_def)

lemma unat_backoff: "unat (backoff k) = min (100 * 2 ^ k) 5000"
proof -
  have "min (100 * 2 ^ k) 5000 < (2 :: nat) ^ 64" by (rule le_less_trans[OF min.cobounded2]) simp
  then show ?thesis by (simp add: backoff_def unsigned_of_nat take_bit_nat_eq_self)
qed

lemma backoff_Suc: "min (backoff k * 2) 5000 = backoff (Suc k)"
proof -
  have "unat (backoff k * 2) = unat (backoff k) * 2"
  proof -
    have "unat (backoff k) * unat (2 :: u64) < 2 ^ LENGTH(64)" by (simp add: unat_backoff)
    from unat_mult_lem[THEN iffD1, OF this] show ?thesis by simp
  qed
  moreover have "unat (min a b) = min (unat a) (unat b)" for a b :: u64
    by (simp add: min_def word_le_nat_alt)
  ultimately have "unat (min (backoff k * 2) 5000) = unat (backoff (Suc k))"
    by (simp add: unat_backoff)
  then show ?thesis by (simp add: word_unat_eq_iff)
qed

lemma retry_loop_fails:
  "fst (op (retried slp op k w)) = Inl e \<Longrightarrow>
   retry_loop slp (backoff k) op (retried slp op k w) = retry_loop slp (backoff (Suc k)) op (retried slp op (Suc k) w)"
  by (subst retry_loop.simps) (auto simp: backoff_Suc split: prod.splits)

lemma retry_loop_skip:
  "\<forall>k < n. \<exists>e. fst (op (retried slp op k w)) = Inl e \<Longrightarrow>
   retry_forever slp op w = retry_loop slp (backoff n) op (retried slp op n w)"
proof (induction n)
  case (Suc n)
  then obtain e where e: "fst (op (retried slp op n w)) = Inl e" by blast
  have "retry_forever slp op w = retry_loop slp (backoff n) op (retried slp op n w)" using Suc by simp
  then show ?case using retry_loop_fails[of op slp n w e, OF e] by simp
qed (simp add: retry_forever_def)

lemma retry_loop_stops:
  "retry_loop slp b op w0 = Some y \<Longrightarrow>
   \<forall>m w. b = backoff m \<longrightarrow> w0 = retried slp op m w \<longrightarrow>
     (\<exists>n \<ge> m. (\<forall>k. m \<le> k \<and> k < n \<longrightarrow> (\<exists>e. fst (op (retried slp op k w)) = Inl e)) \<and>
       op (retried slp op n w) = (Inr (fst y), snd y))"
proof (rule retry_loop.raw_induct[where P = "\<lambda>slp b op w0 y. \<forall>m w. b = backoff m \<longrightarrow> w0 = retried slp op m w \<longrightarrow>
     (\<exists>n \<ge> m. (\<forall>k. m \<le> k \<and> k < n \<longrightarrow> (\<exists>e. fst (op (retried slp op k w)) = Inl e)) \<and>
       op (retried slp op n w) = (Inr (fst y), snd y))"], goal_cases)
  case (1 f slp b op w0 y)
  show ?case
  proof (intro allI impI)
    fix m w
    assume b: "b = backoff m" and w0: "w0 = retried slp op m w"
    obtain r w' where op: "op w0 = (r, w')" by (cases "op w0")
    show "\<exists>n \<ge> m. (\<forall>k. m \<le> k \<and> k < n \<longrightarrow> (\<exists>e. fst (op (retried slp op k w)) = Inl e)) \<and>
       op (retried slp op n w) = (Inr (fst y), snd y)"
    proof (cases r)
      case (Inr v)
      then show ?thesis using 1(3) op w0 by (intro exI[of _ m]) auto
    next
      case (Inl e)
      have "f slp (min (b * 2) 5000) op (slp b w') = Some y" using 1(3) op Inl by simp
      from 1(2)[OF this, rule_format, of "Suc m" w] b w0 op backoff_Suc[of m] obtain n where
        n: "n \<ge> Suc m" "\<forall>k. Suc m \<le> k \<and> k < n \<longrightarrow> (\<exists>e. fst (op (retried slp op k w)) = Inl e)"
          "op (retried slp op n w) = (Inr (fst y), snd y)" by auto
      have "\<exists>e. fst (op (retried slp op k w)) = Inl e" if "m \<le> k" "k < n" for k
        using n(2) that op w0 Inl by (cases "k = m") auto
      then show ?thesis using n(1,3) by (intro exI[of _ n]) auto
    qed
  qed
qed

text \<open>
  C32: \<^verbatim>\<open>retry_forever\<close> returns exactly when some attempt succeeds, with the result of the first that does; attempt \<open>k + 1\<close>
  starts after a pause that doubles from a tenth of a second and never exceeds five seconds, and never overflows.
\<close>

theorem retry_returns_first_success:
  "(retry_forever slp op w = Some (v, w') \<longleftrightarrow>
      (\<exists>n. (\<forall>k < n. \<exists>e. fst (op (retried slp op k w)) = Inl e) \<and> op (retried slp op n w) = (Inr v, w'))) \<and>
   unat (backoff k) = min (100 * 2 ^ k) 5000"
proof -
  have "retry_forever slp op w = Some (v, w')"
    if "\<forall>k < n. \<exists>e. fst (op (retried slp op k w)) = Inl e" "op (retried slp op n w) = (Inr v, w')" for n
    using retry_loop_skip[OF that(1)] that(2) by (simp add: retry_loop.simps)
  moreover have "\<exists>n. (\<forall>k < n. \<exists>e. fst (op (retried slp op k w)) = Inl e) \<and> op (retried slp op n w) = (Inr v, w')"
    if r: "retry_forever slp op w = Some (v, w')"
  proof -
    have "retry_loop slp 100 op w = Some (v, w')" using r by (simp add: retry_forever_def)
    from retry_loop_stops[OF this, rule_format, of 0 w] show ?thesis by auto
  qed
  ultimately show ?thesis using unat_backoff by blast
qed

definition third_time_lucky :: "nat \<Rightarrow> (string + nat) \<times> nat" where
  "third_time_lucky n = (if n < 2 then Inl ''refused'' else Inr n, Suc n)"

theorem retry_returns_first_success_witness:
  "retry_forever (\<lambda>ms w. w) third_time_lucky 0 = Some (2, 3) \<and> unat (backoff 7) = 5000"
proof -
  let ?r = "\<lambda>k. retried (\<lambda>ms w. w) third_time_lucky k 0"
  have "?r 1 = 1" "?r 2 = 2" by (simp_all add: third_time_lucky_def numeral_2_eq_2)
  then have "(\<forall>k < 2. \<exists>e. fst (third_time_lucky (?r k)) = Inl e) \<and> third_time_lucky (?r 2) = (Inr 2, 3)"
    by (auto simp: third_time_lucky_def less_2_cases_iff)
  then show ?thesis
    using retry_returns_first_success[of "\<lambda>ms w. w" third_time_lucky 0 2 3 7] by auto
qed

section \<open>A network that carries calls to a Registry\<close>

text \<open>Identifiers no entry and no lease uses yet.\<close>

context registry_service
begin

definition fresh_for :: "('r, 'l) RegistryServiceImpl \<Rightarrow> string \<Rightarrow> string \<Rightarrow> bool" where
  "fresh_for svc cuid luid \<longleftrightarrow> cuid \<noteq> [] \<and> luid \<noteq> [] \<and> live (rsv_lease_manager svc) luid = None \<and>
     entries (rsv_index svc) cuid = None \<and> (\<forall>k e. entries (rsv_index svc) k = Some e \<longrightarrow> re_lease_id e \<noteq> luid)"

text \<open>A request is served by an entry: it holds the requested data and its lease, which is live.\<close>

definition serves_request :: "('r, 'l) RegistryServiceImpl \<Rightarrow> RegisterRequest \<Rightarrow> string \<Rightarrow> string \<Rightarrow> bool" where
  "serves_request svc r cap lid \<longleftrightarrow> lid \<noteq> [] \<and>
     entries (rsv_index svc) cap = Some \<lparr>re_capability_id = cap, re_lease_id = lid, re_interface = rq_interface r,
       re_attrs = rq_attrs r, re_transport = rq_transport r\<rparr> \<and>
     live (rsv_lease_manager svc) lid \<noteq> None"

lemma register_serves:
  assumes "svc_ok svc" "fresh_for svc cuid luid" "RegistryService_register R L now1 now2 cuid luid r svc = (Inr resp, svc')"
  obtains l where "svc_ok svc'" "rp_lease resp = Some l" "serves_request svc' r (rp_capability_id resp) (pl_lease_id l)"
    "rp_capability_id resp = (if rq_capability_id r = [] then cuid else rq_capability_id r)"
    "pl_lease_id l = (if rq_capability_id r = [] then luid else rq_lease_id r)"
    "entries (rsv_index svc') = (entries (rsv_index svc))(rp_capability_id resp \<mapsto>
       \<lparr>re_capability_id = rp_capability_id resp, re_lease_id = pl_lease_id l, re_interface = rq_interface r,
        re_attrs = rq_attrs r, re_transport = rq_transport r\<rparr>)"
    "\<forall>k. live (rsv_lease_manager svc') k = None \<longleftrightarrow> live (rsv_lease_manager svc) k = None \<and> k \<noteq> pl_lease_id l"
    "rq_capability_id r \<noteq> [] \<longrightarrow>
       (\<exists>old. entries (rsv_index svc) (rq_capability_id r) = Some old \<and> re_lease_id old = rq_lease_id r) \<and>
       live (rsv_lease_manager svc) (rq_lease_id r) \<noteq> None"
proof (cases "rq_capability_id r = []")
  case True
  then have reg: "RegistryService_register_new R L now1 cuid luid r svc = (Inr resp, svc')"
    using assms(3) by (simp add: RegistryService_register_def)
  have f: "live (rsv_lease_manager svc) luid = None" "entries (rsv_index svc) cuid = None"
    "\<forall>k e. entries (rsv_index svc) k = Some e \<longrightarrow> re_lease_id e \<noteq> luid" "luid \<noteq> []"
    using assms(2) by (auto simp: fresh_for_def)
  from register_new_ok[OF assms(1) f(1-3) reg] obtain lease entry where
    o: "svc_ok svc'" "entry = \<lparr>re_capability_id = cuid, re_lease_id = luid, re_interface = rq_interface r,
                            re_attrs = rq_attrs r, re_transport = rq_transport r\<rparr>"
    "entries (rsv_index svc') = (entries (rsv_index svc))(cuid \<mapsto> entry)"
    "live (rsv_lease_manager svc') = (live (rsv_lease_manager svc))(luid \<mapsto> lease)"
    "lr_lease_id lease = luid"
    "resp = \<lparr>rp_capability_id = cuid, rp_lease = Some (RegistryServiceImpl_lease_to_proto svc lease)\<rparr>"
    by metis
  have id: "pl_lease_id (RegistryServiceImpl_lease_to_proto svc lease) = luid"
    using o(5) by (simp add: RegistryServiceImpl_lease_to_proto_def)
  show thesis
    by (rule that[of "RegistryServiceImpl_lease_to_proto svc lease"])
       (use o id f(4) True in \<open>auto simp: serves_request_def\<close>)
next
  case False
  then have re: "RegistryService_reregister R L now1 now2 r svc = (Inr resp, svc')"
    using assms(3) by (simp add: RegistryService_register_def)
  from reregister_ok[OF assms(1) re] obtain old lease entry where
    o: "svc_ok svc'" "entries (rsv_index svc) (rq_capability_id r) = Some old" "rq_lease_id r = re_lease_id old"
    "entry = \<lparr>re_capability_id = rq_capability_id r, re_lease_id = re_lease_id old, re_interface = rq_interface r,
              re_attrs = rq_attrs r, re_transport = rq_transport r\<rparr>"
    "entries (rsv_index svc') = (entries (rsv_index svc))(rq_capability_id r \<mapsto> entry)"
    "live (rsv_lease_manager svc') = (live (rsv_lease_manager svc))(re_lease_id old \<mapsto> lease)"
    "live (rsv_lease_manager svc) (re_lease_id old) \<noteq> None"
    by metis
  have ok: "rok (rsv_index svc)" "lok (rsv_lease_manager svc)" using assms(1) by (auto simp: svc_ok_def)
  from re obtain old' where get: "rg_get R (rq_capability_id r) (rsv_index svc) = Inr (Some old')"
    and ne: "rq_lease_id r \<noteq> []"
    by (auto simp: registry_defs Let_def split: sum.splits option.splits prod.splits if_splits)
  have old': "old' = old" using reg.get_ok[OF ok(1) get] o(2) by simp
  have co: "check_owner old (rq_lease_id r) = Inr ()" using o(3) ne by simp
  from re obtain lease' l' where
    ren: "lg_renew L now1 now2 (re_lease_id old) (rq_ttl_seconds r) (rsv_lease_manager svc) = (Inr lease', l')"
    and resp: "resp = \<lparr>rp_capability_id = rq_capability_id r, rp_lease = Some (RegistryServiceImpl_lease_to_proto svc lease')\<rparr>"
    by (auto simp: registry_defs Let_def get old' co split: sum.splits prod.splits if_splits)
  have "lr_lease_id lease' = re_lease_id old" using lease.renew_ok[OF ok(2) ren] by blast
  then have id: "pl_lease_id (RegistryServiceImpl_lease_to_proto svc lease') = re_lease_id old"
    by (simp add: RegistryServiceImpl_lease_to_proto_def)
  show thesis
    by (rule that[of "RegistryServiceImpl_lease_to_proto svc lease'"])
       (use o id ne False resp in \<open>auto simp: serves_request_def\<close>)
qed

end

text \<open>
  What such a network promises: the calls it answers with success were carried out by the Registry, under fresh
  identifiers, and no call breaks the Registry's invariant.
\<close>

locale registry_link = registry_service L live lok R entries rok rvisits
  for L :: "'l Leasing" and live lok and R :: "'r RegistryStore" and entries rok rvisits +
  fixes N :: "('c, 'm, 'w) net" and svc :: "'w \<Rightarrow> ('r, 'l) RegistryServiceImpl" and wok :: "'w \<Rightarrow> bool"
  assumes wok_svc: "wok w \<Longrightarrow> svc_ok (svc w)"
    and register_carried: "wok w \<Longrightarrow> nt_register N c md q w = (Inr resp, w') \<Longrightarrow>
      \<exists>now1 now2 cuid luid. fresh_for (svc w) cuid luid \<and>
        RegistryService_register R L now1 now2 cuid luid q (svc w) = (Inr resp, svc w')"
    and register_keeps: "wok w \<Longrightarrow> nt_register N c md q w = (x, w') \<Longrightarrow> wok w'"
begin

lemma authed_register:
  assumes "wok w" "authed_call N (nt_register N) ch q w = (x, w')"
  shows "wok w'"
    "x = Inr resp \<Longrightarrow> \<exists>l. rp_lease resp = Some l \<and> serves_request (svc w') q (rp_capability_id resp) (pl_lease_id l)"
proof -
  show "wok w'" using assms register_keeps by (auto simp: authed_call_def split: sum.splits)
  assume x: "x = Inr resp"
  from assms(2) x obtain md where "nt_register N (fst ch) md q w = (Inr resp, w')"
    by (auto simp: authed_call_def split: sum.splits)
  from register_carried[OF assms(1) this] obtain now1 now2 cuid luid where
    "fresh_for (svc w) cuid luid" "RegistryService_register R L now1 now2 cuid luid q (svc w) = (Inr resp, svc w')" by blast
  from register_serves[OF wok_svc[OF assms(1)] this]
  show "\<exists>l. rp_lease resp = Some l \<and> serves_request (svc w') q (rp_capability_id resp) (pl_lease_id l)" by metis
qed

text \<open>A tick that ends well leaves the service registered under the lease the handle would cancel.\<close>

lemma tick_serves:
  assumes "wok w" "renewal_tick N h w = (t, h', w')" "t = Renewed \<or> t = Reregistered"
  shows "wok w' \<and> (\<exists>cap. serves_request (svc w') (sr_request h) cap (current_lease_id h'))"
proof -
  obtain x w1 where c1: "authed_call N (nt_register N) (sr_channel h) (sr_request h) w = (x, w1)" by force
  show ?thesis
  proof (cases x)
    case (Inr resp)
    with authed_register[OF assms(1) c1] obtain l where
      "rp_lease resp = Some l" "serves_request (svc w1) (sr_request h) (rp_capability_id resp) (pl_lease_id l)" "wok w1" by blast
    then show ?thesis using assms(2) c1 Inr by (auto simp: renewal_tick_def current_lease_id_def)
  next
    case (Inl e)
    define q where "q = (sr_request h)\<lparr>rq_capability_id := [], rq_lease_id := []\<rparr>"
    obtain y w2 where c2: "authed_call N (nt_register N) (sr_channel h) q w1 = (y, w2)" by force
    have u: "entry_is_unusable (status_code e)" using assms(2,3) c1 Inl by (auto simp: renewal_tick_def split: if_splits)
    obtain resp where y: "y = Inr resp"
      using assms(2,3) c1 c2 Inl u by (cases y) (auto simp: renewal_tick_def q_def)
    from authed_register[OF authed_register(1)[OF assms(1) c1] c2] y obtain l where
      l: "rp_lease resp = Some l" "serves_request (svc w2) q (rp_capability_id resp) (pl_lease_id l)" "wok w2" by blast
    have "current_lease_id h' = pl_lease_id l" "w' = w2"
      using assms(2) c1 c2 Inl u y l(1) by (auto simp: renewal_tick_def q_def current_lease_id_def lease_id_or_empty_def Let_def)
    moreover have "serves_request (svc w2) (sr_request h) (rp_capability_id resp) (pl_lease_id l)"
      using l(2) by (simp add: serves_request_def q_def)
    ultimately show ?thesis using l(3) by auto
  qed
qed

text \<open>The first registration.\<close>

lemma self_register_serves:
  assumes "wok w" "self_register N ch interface at host port ttl w = (Inr h, w')"
  shows "wok w' \<and> serves_request (svc w') (sr_request h) (current_capability_id h) (current_lease_id h) \<and>
    rq_capability_id (sr_request h) = current_capability_id h \<and> rq_lease_id (sr_request h) = current_lease_id h \<and>
    rq_interface (sr_request h) = interface"
proof -
  let ?q = "self_request interface at host port ttl"
  obtain x w1 where c: "authed_call N (nt_register N) ch ?q w = (x, w1)" by force
  then obtain resp where x: "x = Inr resp" "w' = w1"
    using assms(2) by (cases x) (auto simp: self_register_def Let_def)
  with authed_register[OF assms(1) c] obtain l where
    l: "rp_lease resp = Some l" "serves_request (svc w1) ?q (rp_capability_id resp) (pl_lease_id l)" "wok w1" by blast
  then show ?thesis using assms(2) c x
    by (auto simp: self_register_def Let_def current_lease_id_def current_capability_id_def lease_id_or_empty_def
        serves_request_def self_request_def)
qed

end

section \<open>The loopback network\<close>

text \<open>
  A Registry with the in-memory providers behind its interceptor. \<open>lw_lost\<close> says which of the next calls are lost on
  the way; past its end none is. Identifiers are numbered.
\<close>

record loopback_world =
  lw_registry :: mem_registry
  lw_auth :: AuthConfig
  lw_now :: time
  lw_next :: nat
  lw_lost :: "bool list"

definition uid :: "nat \<Rightarrow> string" where
  "uid n = CHR ''u'' # show_nat n"

definition deliver ::
  "jwt \<Rightarrow> 'm metadata_lib \<Rightarrow> 'm metadata \<Rightarrow> (loopback_world \<Rightarrow> 'p rpc \<times> loopback_world) \<Rightarrow> loopback_world
   \<Rightarrow> 'p rpc \<times> loopback_world"
where
  "deliver J W md f w =
     (let lost = lw_lost w \<noteq> [] \<and> hd (lw_lost w); w' = w\<lparr>lw_lost := tl (lw_lost w)\<rparr> in
      if lost then (Inl (Status Code_Unavailable ''connection lost''), w')
      else case AuthConfig_call J W (lw_now w) (lw_auth w) md of
             Inl st \<Rightarrow> (Inl st, w')
           | Inr _ \<Rightarrow> f w')"

definition loopback :: "jwt \<Rightarrow> 'm metadata_lib \<Rightarrow> chrono \<Rightarrow> (mem_registry \<Rightarrow> string list) \<Rightarrow> (unit, 'm, loopback_world) net" where
  "loopback J W c ord = \<lparr>
     nt_valid_uri = (\<lambda>_. True),
     nt_connect = (\<lambda>_ w. (Inr (), w)),
     nt_register = (\<lambda>_ md q. deliver J W md (\<lambda>w.
       case mem_register c (lw_now w) (lw_now w) (uid (lw_next w)) (uid (lw_next w + 1)) q (lw_registry w) of
         (x, r) \<Rightarrow> (x, w\<lparr>lw_registry := r, lw_next := lw_next w + 2\<rparr>))),
     nt_lookup = (\<lambda>_ md t. deliver J W md (\<lambda>w.
       (RegistryService_lookup InMemoryRegistryStore_ops (ord (lw_registry w)) t (lw_registry w), w))),
     nt_cancel = (\<lambda>_ md lid. deliver J W md (\<lambda>w.
       case LeaseService_cancel (InMemoryLeaseStore_ops c) lid (rsv_lease_manager (lw_registry w)) of
         (x, l) \<Rightarrow> (x, w\<lparr>lw_registry := (lw_registry w)\<lparr>rsv_lease_manager := l\<rparr>\<rparr>))),
     nt_enlist = (\<lambda>_ md q w. (Inl (Status Code_Unavailable ''no transaction manager''), w)),
     nt_sleep = (\<lambda>_ w. w),
     nt_clock = lw_now, nt_trace = (\<lambda>_. []), nt_wire = W, nt_metadata_key = Some,
     nt_show_status = status_message\<rparr>"

definition loopback_ok :: "loopback_world \<Rightarrow> bool" where
  "loopback_ok w \<longleftrightarrow> mem_registry_ok (lw_registry w) \<and>
     (\<forall>n \<ge> lw_next w. live_leases (rsv_lease_manager (lw_registry w)) (uid n) = None \<and>
        mem_entries (lw_registry w) (uid n) = None \<and>
        (\<forall>k e. mem_entries (lw_registry w) k = Some e \<longrightarrow> re_lease_id e \<noteq> uid n))"

lemma uid_eq [simp]: "uid m = uid n \<longleftrightarrow> m = n"
  by (metis list.inject option.inject parse_digits_show_nat uid_def)

lemma uid_not_Nil [simp]: "uid n \<noteq> []"
  by (simp add: uid_def)

lemma loopback_fresh: "loopback_ok w \<Longrightarrow> mem_rs.fresh_for (lw_registry w) (uid (lw_next w)) (uid (lw_next w + 1))"
  by (auto simp: loopback_ok_def mem_rs.fresh_for_def)

text \<open>A failed registration changes no entry and no lease, and only the two codes of an unusable entry can come of it.\<close>

lemma mem_register_fails:
  assumes "mem_register c now1 now2 cuid luid q svc = (Inl st, svc')"
  shows "svc' = svc" "rq_capability_id q \<noteq> [] \<Longrightarrow>
      (\<forall>e. mem_entries svc (rq_capability_id q) = Some e \<longrightarrow> re_lease_id e = rq_lease_id q) \<Longrightarrow> rq_lease_id q \<noteq> [] \<Longrightarrow>
    entry_is_unusable (status_code st)"
proof -
  have renew: "lg_renew (mem_leasing c) now1 now2 lid ttl m = (Inl e, m') \<Longrightarrow> m' = m" for lid ttl m e m'
    by (auto simp: Leasing_of_LeaseManager_def lease_defs mem_lease_defs Let_def split: option.splits if_splits sum.splits)
  have grant: "lg_grant (mem_leasing c) now1 u r ttl m = (Inl e, m') \<Longrightarrow> m' = m" for u r ttl m e m'
    by (auto simp: Leasing_of_LeaseManager_def lease_defs mem_lease_defs Let_def split: option.splits if_splits sum.splits)
  show "svc' = svc"
    using assms renew grant mem_update_total mem_insert_total
    by (auto simp: RegistryService_register_def RegistryService_reregister_def RegistryService_register_new_def
        RegistryIndex_get_def RegistryIndex_update_def RegistryIndex_register_def Let_def
        split: if_splits option.splits sum.splits prod.splits) (metis Inl_Inr_False prod.inject)+
  show "rq_capability_id q \<noteq> [] \<Longrightarrow>
      (\<forall>e. mem_entries svc (rq_capability_id q) = Some e \<longrightarrow> re_lease_id e = rq_lease_id q) \<Longrightarrow> rq_lease_id q \<noteq> [] \<Longrightarrow>
    entry_is_unusable (status_code st)"
    using assms mem_update_total
    by (auto simp: RegistryService_register_def RegistryService_reregister_def entry_is_unusable_def check_owner_def
        RegistryIndex_get_def RegistryIndex_update_def Let_def
        split: if_splits option.splits sum.splits prod.splits) (metis Inl_Inr_False prod.inject)+
qed

lemma mem_register_keeps:
  assumes "loopback_ok w" "mem_register c n1 n2 (uid (lw_next w)) (uid (lw_next w + 1)) q (lw_registry w) = (x, r)"
  shows "loopback_ok (w\<lparr>lw_registry := r, lw_next := lw_next w + 2\<rparr>)"
proof (cases x)
  case (Inl st)
  then have "r = lw_registry w" using mem_register_fails(1) assms(2) by simp
  then show ?thesis using assms(1) by (simp add: loopback_ok_def)
next
  case (Inr resp)
  have ok: "mem_rs.svc_ok (lw_registry w)" using assms(1) by (simp add: loopback_ok_def)
  have reg: "mem_register c n1 n2 (uid (lw_next w)) (uid (lw_next w + 1)) q (lw_registry w) = (Inr resp, r)"
    using assms(2) Inr by simp
  obtain l :: Lease where l: "mem_rs.svc_ok r"
    "rp_capability_id resp = (if rq_capability_id q = [] then uid (lw_next w) else rq_capability_id q)"
    "pl_lease_id l = (if rq_capability_id q = [] then uid (lw_next w + 1) else rq_lease_id q)"
    "mem_entries r = (mem_entries (lw_registry w))(rp_capability_id resp \<mapsto>
       \<lparr>re_capability_id = rp_capability_id resp, re_lease_id = pl_lease_id l, re_interface = rq_interface q,
        re_attrs = rq_attrs q, re_transport = rq_transport q\<rparr>)"
    "\<forall>k. live_leases (rsv_lease_manager r) k = None \<longleftrightarrow> live_leases (rsv_lease_manager (lw_registry w)) k = None \<and> k \<noteq> pl_lease_id l"
    "rq_capability_id q \<noteq> [] \<longrightarrow> mem_entries (lw_registry w) (rq_capability_id q) \<noteq> None \<and>
       live_leases (rsv_lease_manager (lw_registry w)) (rq_lease_id q) \<noteq> None"
    by (rule mem_rs.register_serves[OF ok loopback_fresh[OF assms(1)] reg]) blast
  have ne: "uid n \<noteq> rp_capability_id resp" "uid n \<noteq> pl_lease_id l" if "n \<ge> lw_next w + 2" for n
  proof -
    have f: "live_leases (rsv_lease_manager (lw_registry w)) (uid n) = None" "mem_entries (lw_registry w) (uid n) = None"
      using that assms(1) by (simp_all add: loopback_ok_def)
    have n: "n \<noteq> lw_next w" "n \<noteq> lw_next w + 1" using that by auto
    show "uid n \<noteq> rp_capability_id resp"
    proof (cases "rq_capability_id q = []")
      case False
      then show ?thesis using l(2,6) f(2) by metis
    qed (use l(2) n in simp)
    show "uid n \<noteq> pl_lease_id l"
    proof (cases "rq_capability_id q = []")
      case False
      then show ?thesis using l(3,6) f(1) by metis
    qed (use l(3) n in simp)
  qed
  have old: "live_leases (rsv_lease_manager (lw_registry w)) (uid n) = None" "mem_entries (lw_registry w) (uid n) = None"
    "mem_entries (lw_registry w) k = Some e \<Longrightarrow> re_lease_id e \<noteq> uid n" if "n \<ge> lw_next w + 2" for n k e
    using that assms(1) by (simp_all add: loopback_ok_def)
  have "re_lease_id e \<noteq> uid n" if "n \<ge> lw_next w + 2" "mem_entries r k = Some e" for n k e
    using that(2) old(3)[OF that(1)] ne(2)[OF that(1)] unfolding l(4) by (cases "k = rp_capability_id resp") auto
  moreover have "live_leases (rsv_lease_manager r) (uid n) = None" "mem_entries r (uid n) = None" if "n \<ge> lw_next w + 2" for n
    using l(5) old(1,2)[OF that] ne[OF that] unfolding l(4) by simp_all
  ultimately show ?thesis using l(1) unfolding loopback_ok_def by simp
qed

interpretation lb: registry_link "mem_leasing c" live_leases "\<lambda>m. lease_keys_ok (lm_store m)"
  InMemoryRegistryStore_ops "\<lambda>s. fmlookup (rm_entries s)" registry_index_ok "\<lambda>ks s. iterates ks (rm_entries s)"
  "loopback J W c ord" lw_registry loopback_ok for c J ord and W :: "'m metadata_lib"
proof (unfold_locales, goal_cases)
  case (1 w)
  then show ?case by (simp add: loopback_ok_def)
next
  case (2 w k md q resp w')
  from 2(2) obtain r where
    reg: "mem_register c (lw_now w) (lw_now w) (uid (lw_next w)) (uid (lw_next w + 1)) q (lw_registry w) = (Inr resp, r)"
    and w': "w' = w\<lparr>lw_lost := tl (lw_lost w), lw_registry := r, lw_next := lw_next w + 2\<rparr>"
    by (auto simp: loopback_def deliver_def Let_def split: if_splits sum.splits prod.splits)
  then show ?case using loopback_fresh[OF 2(1)] by auto
next
  case (3 w k md q x w')
  show ?case
  proof (cases "w' = w\<lparr>lw_lost := tl (lw_lost w)\<rparr>")
    case True
    then show ?thesis using 3(1) by (auto simp: loopback_ok_def)
  next
    case False
    then obtain r where
      "mem_register c (lw_now w) (lw_now w) (uid (lw_next w)) (uid (lw_next w + 1)) q (lw_registry w) = (x, r)"
      "w' = w\<lparr>lw_lost := tl (lw_lost w), lw_registry := r, lw_next := lw_next w + 2\<rparr>"
      using 3(2) by (auto simp: loopback_def deliver_def Let_def split: if_splits sum.splits prod.splits)
    then show ?thesis using mem_register_keeps[OF 3(1)] by (simp add: loopback_ok_def)
  qed
qed

text \<open>The caller's interceptors and the Registry's let a call pass.\<close>

definition admitted :: "jwt \<Rightarrow> 'm metadata_lib \<Rightarrow> ClientAuthConfig \<Rightarrow> loopback_world \<Rightarrow> bool" where
  "admitted J W ca w \<longleftrightarrow>
     (\<exists>md. traced_authed_metadata Some W [] (lw_now w) ca fmempty = Inr md \<and>
       AuthConfig_call J W (lw_now w) (lw_auth w) md = Inr md)"

lemma admitted_delivers:
  assumes "admitted J W (snd ch) w" "lw_lost w = []"
  shows "authed_call (loopback J W c ord) (nt_register (loopback J W c ord)) ch q w =
      (case mem_register c (lw_now w) (lw_now w) (uid (lw_next w)) (uid (lw_next w + 1)) q (lw_registry w) of
         (x, r) \<Rightarrow> (x, w\<lparr>lw_registry := r, lw_next := lw_next w + 2\<rparr>))"
    "authed_call (loopback J W c ord) (nt_lookup (loopback J W c ord)) ch t w =
      (RegistryService_lookup InMemoryRegistryStore_ops (ord (lw_registry w)) t (lw_registry w), w)"
    "authed_call (loopback J W c ord) (nt_cancel (loopback J W c ord)) ch lid w =
      (case LeaseService_cancel (InMemoryLeaseStore_ops c) lid (rsv_lease_manager (lw_registry w)) of
         (x, l) \<Rightarrow> (x, w\<lparr>lw_registry := (lw_registry w)\<lparr>rsv_lease_manager := l\<rparr>\<rparr>))"
  using assms by (auto simp: admitted_def authed_call_def loopback_def deliver_def split: prod.splits)

lemma admitted_cong: "lw_now w' = lw_now w \<Longrightarrow> lw_auth w' = lw_auth w \<Longrightarrow> admitted J W ca w' = admitted J W ca w"
  by (simp add: admitted_def)

text \<open>A request for a time that the clock can represent is granted.\<close>

definition representable :: "chrono \<Rightarrow> RegisterRequest \<Rightarrow> time \<Rightarrow> bool" where
  "representable c q now \<longleftrightarrow> rq_ttl_seconds q \<noteq> LEASE_ANY \<and> rq_ttl_seconds q \<le> MAX_REPRESENTABLE_TTL_SECS \<and>
     0 \<le> now \<and> now + 3153600000000000000 \<le> MAX_UTC c"

lemma mem_register_new_succeeds:
  assumes "chrono_ok c" "representable c q now" "rq_capability_id q = []"
  shows "\<exists>resp r. mem_register c now now2 cuid luid q svc = (Inr resp, r)"
proof -
  let ?m = "rsv_lease_manager svc"
  have "negotiate (lm_config ?m) (rq_ttl_seconds q) \<le> MAX_REPRESENTABLE_TTL_SECS"
  proof (cases "max_ttl (lm_config ?m)")
    case None
    then show ?thesis using assms(2) uint_MAX_REPRESENTABLE
      by (auto simp: negotiate_def representable_def LEASE_FOREVER_def MAX_REPRESENTABLE_TTL_SECS_def)
  next
    case (Some mx)
    then show ?thesis using assms(2) negotiate_capped[OF Some] by (auto simp: representable_def min_def)
  qed
  then have "\<exists>t. expiry_for c now (negotiate (lm_config ?m) (rq_ttl_seconds q)) = Inr t"
    using assms(2) checked_expiry_representable[OF assms(1)] by (auto simp: expiry_for_def representable_def)
  then show ?thesis
    using assms(3) by (auto simp: RegistryService_register_def RegistryService_register_new_def Leasing_of_LeaseManager_def
      lease_defs mem_lease_defs RegistryIndex_register_def mem_registry_defs Let_def)
qed

section \<open>A self-registered service stays registered\<close>

text \<open>
  C13: Whatever became of a service's entry (renewed in time, gone with a restarted Registry, or still there with an
  expired lease), one tick of its renewal task that reaches the Registry leaves the service registered: there is an
  entry with the service's interface, attributes and address, under a live lease, and that lease is the one the handle
  cancels at shutdown. The tick fails in no other way as long as nobody else holds the entry's lease.
\<close>

theorem self_registration_recovers:
  assumes "chrono_ok c" "loopback_ok w" "lw_lost w = []" "admitted J W (snd (sr_channel h)) w"
    "representable c (sr_request h) (lw_now w)"
    "\<forall>e. mem_entries (lw_registry w) (rq_capability_id (sr_request h)) = Some e \<longrightarrow> re_lease_id e = rq_lease_id (sr_request h)"
    "rq_capability_id (sr_request h) \<noteq> [] \<longrightarrow> rq_lease_id (sr_request h) \<noteq> []"
    "renewal_tick (loopback J W c ord) h w = (t, h', w')"
  shows "(t = Renewed \<or> t = Reregistered) \<and> loopback_ok w' \<and>
    (\<exists>cap e. mem_entries (lw_registry w') cap = Some e \<and>
       re_interface e = rq_interface (sr_request h) \<and> re_attrs e = rq_attrs (sr_request h) \<and>
       re_transport e = rq_transport (sr_request h) \<and> re_lease_id e = current_lease_id h' \<and>
       live_leases (rsv_lease_manager (lw_registry w')) (current_lease_id h') \<noteq> None)"
proof -
  obtain x r where reg: "mem_register c (lw_now w) (lw_now w) (uid (lw_next w)) (uid (lw_next w + 1)) (sr_request h) (lw_registry w)
      = (x, r)" by force
  let ?w1 = "w\<lparr>lw_registry := r, lw_next := lw_next w + 2\<rparr>"
  note c1 = admitted_delivers(1)[OF assms(4,3), of c ord "sr_request h"]
  have good: "t = Renewed \<or> t = Reregistered"
  proof (cases x)
    case (Inr resp)
    then show ?thesis using assms(8) c1 reg by (auto simp: renewal_tick_def)
  next
    case (Inl st)
    have ne: "rq_capability_id (sr_request h) \<noteq> []"
      using mem_register_new_succeeds[OF assms(1,5), of "lw_now w" "uid (lw_next w)" "uid (lw_next w + 1)" "lw_registry w"] reg Inl
      by auto
    have u: "entry_is_unusable (status_code st)"
      using mem_register_fails(2)[of c _ _ _ _ "sr_request h" "lw_registry w" st r] reg Inl ne assms(6,7) by blast
    let ?q = "(sr_request h)\<lparr>rq_capability_id := [], rq_lease_id := []\<rparr>"
    have ad: "admitted J W (snd (sr_channel h)) ?w1" "lw_lost ?w1 = []"
      using assms(3,4) by (simp_all add: admitted_def)
    have "representable c ?q (lw_now w)" using assms(5) by (simp add: representable_def)
    then obtain resp r2 where "mem_register c (lw_now w) (lw_now w) (uid (lw_next ?w1)) (uid (lw_next ?w1 + 1)) ?q r = (Inr resp, r2)"
      using mem_register_new_succeeds[OF assms(1), of ?q] by fastforce
    then show ?thesis using assms(8) c1 reg Inl u admitted_delivers(1)[OF ad, of c ord ?q]
      by (auto simp: renewal_tick_def Let_def)
  qed
  then show ?thesis
    using lb.tick_serves[OF assms(2,8)] by (force simp: mem_rs.serves_request_def)
qed

text \<open>A Registry that was just restarted, and the handle of a service that registered before.\<close>

definition demo_restarted :: loopback_world where
  "demo_restarted = \<lparr>
     lw_registry = \<lparr>rsv_index = InMemoryRegistryStore_new, rsv_lease_manager = demo_mgr, rsv_event_tx = [],
       rsv_grantor_host = ''h'', rsv_grantor_port = 9002\<rparr>,
     lw_auth = AuthConfig_default, lw_now = 2000, lw_next = 0, lw_lost = []\<rparr>"

definition demo_handle :: "unit SelfRegistrationHandle" where
  "demo_handle = \<lparr>sr_initial_lease_id = ''l1'', sr_initial_capability_id = ''cap1'',
     sr_current = \<lparr>cr_lease_id = ''l1'', cr_capability_id = ''cap1''\<rparr>, sr_channel = ((), trust),
     sr_request = (self_request ''Space'' fmempty ''h'' 9006 30)\<lparr>rq_capability_id := ''cap1'', rq_lease_id := ''l1''\<rparr>,
     sr_log_cap_id = ''cap1'', sr_running = True\<rparr>"

lemma demo_restarted_ok: "loopback_ok demo_restarted"
  by (simp add: loopback_ok_def demo_restarted_def mem_registry_ok_def registry_index_ok_def lease_keys_ok_def
      InMemoryRegistryStore_new_def demo_mgr_def LeaseManager_new_def InMemoryLeaseStore_new_def)

lemma admitted_disabled: "ac_secret (lw_auth w) = None \<Longrightarrow> admitted J W trust w"
  by (simp add: admitted_def AuthConfig_call_def validate_def traced_authed_metadata_def ClientTraceInterceptor_call_def
      ClientAuthInterceptor_call_def trust_def)

lemma demo_representable: "representable chrono_std (sr_request demo_handle) 2000"
  by (simp add: representable_def demo_handle_def self_request_def LEASE_ANY_def MAX_REPRESENTABLE_TTL_SECS_def chrono_std_def)

theorem self_registration_recovers_witness:
  "\<exists>t h' w' cap e. renewal_tick (loopback demo_jwt demo_wire chrono_std (\<lambda>_. [])) demo_handle demo_restarted = (t, h', w') \<and>
     mem_entries (lw_registry w') cap = Some e \<and> re_interface e = ''Space'' \<and> re_lease_id e = current_lease_id h'"
proof -
  let ?N = "loopback demo_jwt demo_wire chrono_std (\<lambda>_. [])"
  obtain t h' w' where tick: "renewal_tick ?N demo_handle demo_restarted = (t, h', w')" by (metis prod_cases3)
  have "admitted demo_jwt demo_wire (snd (sr_channel demo_handle)) demo_restarted"
    using admitted_disabled[of demo_restarted] by (simp add: demo_handle_def demo_restarted_def AuthConfig_default_def)
  from self_registration_recovers[OF chrono_std_ok demo_restarted_ok _ this _ _ _ tick] demo_representable
  obtain cap e where "mem_entries (lw_registry w') cap = Some e" "re_interface e = ''Space''" "re_lease_id e = current_lease_id h'"
    by (auto simp: demo_restarted_def demo_handle_def self_request_def InMemoryRegistryStore_new_def)
  with tick show ?thesis by blast
qed

section \<open>A recovery that fails once is not adopted\<close>

lemma tick_without_id:
  assumes "chrono_ok c" "loopback_ok w" "lw_lost w = []" "admitted J W (snd (sr_channel h)) w"
    "representable c (sr_request h) (lw_now w)" "rq_capability_id (sr_request h) = []"
  obtains h' w' where "renewal_tick (loopback J W c ord) h w = (Renewed, h', w')"
    "sr_request h' = sr_request h" "sr_channel h' = sr_channel h" "current_capability_id h' = current_capability_id h"
    "loopback_ok w'" "lw_lost w' = []" "lw_now w' = lw_now w" "lw_auth w' = lw_auth w" "lw_next w' = lw_next w + 2"
    "mem_entries (lw_registry w') = (mem_entries (lw_registry w))(uid (lw_next w) \<mapsto>
       \<lparr>re_capability_id = uid (lw_next w), re_lease_id = uid (lw_next w + 1), re_interface = rq_interface (sr_request h),
        re_attrs = rq_attrs (sr_request h), re_transport = rq_transport (sr_request h)\<rparr>)"
    "current_lease_id h' = uid (lw_next w + 1)"
proof -
  obtain resp r where reg: "mem_register c (lw_now w) (lw_now w) (uid (lw_next w)) (uid (lw_next w + 1)) (sr_request h)
      (lw_registry w) = (Inr resp, r)" using mem_register_new_succeeds[OF assms(1,5,6)] by blast
  have ok: "mem_rs.svc_ok (lw_registry w)" using assms(2) by (simp add: loopback_ok_def)
  obtain l :: Lease where l: "rp_lease resp = Some l" "rp_capability_id resp = uid (lw_next w)" "pl_lease_id l = uid (lw_next w + 1)"
    "mem_entries r = (mem_entries (lw_registry w))(rp_capability_id resp \<mapsto>
       \<lparr>re_capability_id = rp_capability_id resp, re_lease_id = pl_lease_id l, re_interface = rq_interface (sr_request h),
        re_attrs = rq_attrs (sr_request h), re_transport = rq_transport (sr_request h)\<rparr>)"
    by (rule mem_rs.register_serves[OF ok loopback_fresh[OF assms(2)] reg]) (use assms(6) in simp)
  let ?h = "h\<lparr>sr_current := (sr_current h)\<lparr>cr_lease_id := pl_lease_id l\<rparr>\<rparr>"
  let ?w = "w\<lparr>lw_registry := r, lw_next := lw_next w + 2\<rparr>"
  have "renewal_tick (loopback J W c ord) h w = (Renewed, ?h, ?w)"
    using admitted_delivers(1)[OF assms(4,3), of c ord "sr_request h"] reg l(1) by (simp add: renewal_tick_def)
  moreover have "loopback_ok ?w" using mem_register_keeps[OF assms(2) reg] .
  ultimately show thesis using that[of ?h ?w] l assms(3) by (simp add: current_capability_id_def current_lease_id_def)
qed

lemma ticks_without_id:
  assumes "chrono_ok c" "loopback_ok w" "lw_lost w = []" "admitted J W (snd (sr_channel h)) w"
    "representable c (sr_request h) (lw_now w)" "rq_capability_id (sr_request h) = []"
  shows "\<exists>h' w'. renewal_ticks (loopback J W c ord) (replicate n (\<lambda>w. w)) h w = (replicate n Renewed, h', w') \<and>
    (\<forall>k e. mem_entries (lw_registry w) k = Some e \<longrightarrow> mem_entries (lw_registry w') k = Some e) \<and>
    (\<forall>i < n. mem_entries (lw_registry w') (uid (lw_next w + 2 * i)) = Some
       \<lparr>re_capability_id = uid (lw_next w + 2 * i), re_lease_id = uid (lw_next w + 2 * i + 1),
        re_interface = rq_interface (sr_request h), re_attrs = rq_attrs (sr_request h),
        re_transport = rq_transport (sr_request h)\<rparr>) \<and>
    current_capability_id h' = current_capability_id h \<and>
    (n > 0 \<longrightarrow> current_lease_id h' = uid (lw_next w + 2 * (n - 1) + 1))"
  using assms
proof (induction n arbitrary: h w)
  case (Suc n)
  obtain h1 w1 where t: "renewal_tick (loopback J W c ord) h w = (Renewed, h1, w1)"
    "sr_request h1 = sr_request h" "sr_channel h1 = sr_channel h" "current_capability_id h1 = current_capability_id h"
    "loopback_ok w1" "lw_lost w1 = []" "lw_now w1 = lw_now w" "lw_auth w1 = lw_auth w" "lw_next w1 = lw_next w + 2"
    "mem_entries (lw_registry w1) = (mem_entries (lw_registry w))(uid (lw_next w) \<mapsto>
       \<lparr>re_capability_id = uid (lw_next w), re_lease_id = uid (lw_next w + 1), re_interface = rq_interface (sr_request h),
        re_attrs = rq_attrs (sr_request h), re_transport = rq_transport (sr_request h)\<rparr>)"
    "current_lease_id h1 = uid (lw_next w + 1)"
    by (rule tick_without_id[OF Suc.prems, of ord])
  have ad: "admitted J W (snd (sr_channel h1)) w1" using Suc.prems(4) t by (simp add: admitted_def)
  have new: "mem_entries (lw_registry w) (uid (lw_next w)) = None" using Suc.prems(2) by (simp add: loopback_ok_def)
  from Suc.IH[OF Suc.prems(1) t(5,6) ad] Suc.prems(5,6) t(2,7) obtain h2 w2 where
    r: "renewal_ticks (loopback J W c ord) (replicate n (\<lambda>w. w)) h1 w1 = (replicate n Renewed, h2, w2)"
      "\<forall>k e. mem_entries (lw_registry w1) k = Some e \<longrightarrow> mem_entries (lw_registry w2) k = Some e"
      "\<forall>i < n. mem_entries (lw_registry w2) (uid (lw_next w1 + 2 * i)) = Some
         \<lparr>re_capability_id = uid (lw_next w1 + 2 * i), re_lease_id = uid (lw_next w1 + 2 * i + 1),
          re_interface = rq_interface (sr_request h), re_attrs = rq_attrs (sr_request h),
          re_transport = rq_transport (sr_request h)\<rparr>"
      "current_capability_id h2 = current_capability_id h1"
      "n > 0 \<longrightarrow> current_lease_id h2 = uid (lw_next w1 + 2 * (n - 1) + 1)" by auto
  have ticks: "renewal_ticks (loopback J W c ord) (replicate (Suc n) (\<lambda>w. w)) h w = (replicate (Suc n) Renewed, h2, w2)"
    using t(1) r(1) by simp
  have keep: "\<forall>k e. mem_entries (lw_registry w) k = Some e \<longrightarrow> mem_entries (lw_registry w2) k = Some e"
  proof (intro allI impI)
    fix k e
    assume "mem_entries (lw_registry w) k = Some e"
    then have "mem_entries (lw_registry w1) k = Some e" using new by (auto simp: t(10))
    then show "mem_entries (lw_registry w2) k = Some e" using r(2) by blast
  qed
  have ents: "mem_entries (lw_registry w2) (uid (lw_next w + 2 * i)) = Some
       \<lparr>re_capability_id = uid (lw_next w + 2 * i), re_lease_id = uid (lw_next w + 2 * i + 1),
        re_interface = rq_interface (sr_request h), re_attrs = rq_attrs (sr_request h),
        re_transport = rq_transport (sr_request h)\<rparr>" if "i < Suc n" for i
  proof (cases i)
    case 0
    then show ?thesis using r(2) t(10) by simp
  next
    case (Suc j)
    then show ?thesis using r(3)[rule_format, of j] that t(9) by (simp add: algebra_simps)
  qed
  have last: "current_lease_id h2 = uid (lw_next w + 2 * (Suc n - 1) + 1)"
    using r(5) t(9,11) r(1) by (cases n) (auto simp: algebra_simps)
  show ?case
    by (intro exI[of _ h2] exI[of _ w2] conjI impI allI) (use ticks keep ents r(4) t(4) last in simp_all)
qed simp



section \<open>Cancelling\<close>

text \<open>
  C33: Cancelling a registration withdraws it at once. The call to the Registry removes the lease and broadcasts its
  reclaim, and the Registry's cascade on that broadcast removes the service's entry and no other, so that lookups no longer
  find it, without waiting for the lease to run out.
\<close>

theorem cancelled_registration_is_gone:
  assumes "loopback_ok w" "lw_lost w = []" "admitted J W (snd (sr_channel h)) w" "current_lease_id h \<noteq> []"
    "mem_entries (lw_registry w) cap = Some e" "re_lease_id e = current_lease_id h"
    "live_leases (rsv_lease_manager (lw_registry w)) (current_lease_id h) = Some lease"
  shows "\<exists>h' w' evs. SelfRegistrationHandle_cancel (loopback J W c ord) h w = (Inr (), h', w') \<and> \<not> sr_running h' \<and>
    live_leases (rsv_lease_manager (lw_registry w')) = (live_leases (rsv_lease_manager (lw_registry w)))(current_lease_id h := None) \<and>
    lm_expiry_tx (rsv_lease_manager (lw_registry w')) = lm_expiry_tx (rsv_lease_manager (lw_registry w)) @ evs \<and>
    mem_entries (spawn_cascade (registry_cascade InMemoryRegistryStore_ops) (map Received evs) (lw_registry w'))
      = (mem_entries (lw_registry w))(cap := None)"
proof -
  let ?m = "rsv_lease_manager (lw_registry w)" and ?lid = "current_lease_id h"
  have ok: "lease_keys_ok (lm_store ?m)" "mem_registry_ok (lw_registry w)" "mem_rs.svc_ok (lw_registry w)"
    using assms(1) by (auto simp: loopback_ok_def mem_registry_ok_def mem_rs.svc_ok_def)
  obtain m' where can: "LeaseManager_cancel (InMemoryLeaseStore_ops c) ?lid ?m = (Inr (), m')"
    using assms(7) by (auto simp: lease_defs mem_lease_defs)
  let ?ev = "\<lparr>rc_record = lease, rc_reason = Cancelled\<rparr>"
  have m': "live_leases m' = (live_leases ?m)(?lid := None)" "lm_expiry_tx m' = lm_expiry_tx ?m @ [?ev]"
    using mem_lease.mgr_cancel_ok[OF ok(1) can] assms(7) by simp_all
  have okm: "lease_keys_ok (lm_store m')" using mem_lease.mgr_cancel_inv[OF ok(1), of c ?lid] can by simp
  have lid: "lr_lease_id lease = ?lid" using mem_lease.live_key[OF ok(1) assms(7)] by simp
  let ?svc = "(lw_registry w)\<lparr>rsv_lease_manager := m'\<rparr>"
  let ?w = "w\<lparr>lw_registry := ?svc\<rparr>"
  have run: "SelfRegistrationHandle_cancel (loopback J W c ord) h w = (Inr (), h\<lparr>sr_running := False\<rparr>, ?w)"
    using admitted_delivers(3)[OF assms(3,2), of c ord ?lid] can assms(4)
    by (simp add: SelfRegistrationHandle_cancel_def LeaseService_cancel_def Let_def)
  have sok: "mem_rs.svc_ok ?svc" using ok(2) okm by (simp add: mem_registry_ok_def)
  obtain x s' where rm: "rg_remove_by_lease InMemoryRegistryStore_ops (lr_lease_id (rc_record ?ev)) (rsv_index ?svc) = (Inr x, s')"
    using mem_remove_total by blast
  have "mem_entries (registry_cascade InMemoryRegistryStore_ops ?ev ?svc) k = ((mem_entries (lw_registry w))(cap := None)) k" for k
  proof -
    have "re_lease_id e' \<noteq> ?lid" if "mem_entries (lw_registry w) k = Some e'" "k \<noteq> cap" for e'
      using mem_registry.lease_unique[OF _ that(1) assms(5)] ok(2) that(2) assms(6) by (auto simp: mem_registry_ok_def)
    then show ?thesis
      unfolding mem_rs.cascade_ok(3)[OF sok rm, of k] using assms(5,6) lid by (auto split: option.split)
  qed
  then have "mem_entries (spawn_cascade (registry_cascade InMemoryRegistryStore_ops) (map Received [?ev]) ?svc)
      = (mem_entries (lw_registry w))(cap := None)" by auto
  then show ?thesis
    by (intro exI[of _ "h\<lparr>sr_running := False\<rparr>"] exI[of _ ?w] exI[of _ "[?ev]"]) (use run m' in simp)
qed

theorem cancelled_registration_is_gone_witness:
  "\<exists>h' w'. SelfRegistrationHandle_cancel (loopback demo_jwt demo_wire chrono_std (\<lambda>_. [])) demo_handle
      (demo_restarted\<lparr>lw_registry := demo_registry\<rparr>) = (Inr (), h', w') \<and>
    live_leases (rsv_lease_manager (lw_registry w')) ''l1'' = None"
proof -
  let ?w = "demo_restarted\<lparr>lw_registry := demo_registry\<rparr>"
  have u: "uid n \<noteq> ''l1''" "uid n \<noteq> ''cap1''" for n by (simp_all add: uid_def)
  have ok: "loopback_ok ?w"
    using demo_registry_ok u u[symmetric] by (auto simp: loopback_ok_def demo_restarted_def demo_registry_def demo_entry_def
        demo_mgr1_def lease_defs)
  have ad: "admitted demo_jwt demo_wire (snd (sr_channel demo_handle)) ?w"
    using admitted_disabled[of ?w] by (simp add: demo_handle_def demo_restarted_def AuthConfig_default_def)
  have cur: "current_lease_id demo_handle = ''l1''" by (simp add: current_lease_id_def demo_handle_def)
  have e: "mem_entries (lw_registry ?w) ''cap1'' = Some demo_entry" "re_lease_id demo_entry = ''l1''"
    "live_leases (rsv_lease_manager (lw_registry ?w)) ''l1'' = Some demo_lease" "lw_lost ?w = []"
    by (simp_all add: demo_restarted_def demo_registry_def demo_entry_def demo_mgr1_def lease_defs)
  from cancelled_registration_is_gone[OF ok e(4) ad, of "''cap1''" demo_entry demo_lease chrono_std "\<lambda>_. []"] e cur
  show ?thesis by fastforce
qed

section \<open>Resolving remotely\<close>

text \<open>
  C20: A split Proxy resolves as a bundled one does. Through the remote resolver a template gets the entry the in-process
  resolver would pick from the same Registry, without its lease id, even when the first call is lost (one reconnect
  absorbs it); so opening a proxy and forwarding a connection come to the same address, or fail alike.
\<close>

theorem remote_resolution_agrees:
  assumes "lw_lost w = [] \<or> lw_lost w = [True]" "admitted J W (rcr_client_auth r) w" "snd (rcr_client r) = rcr_client_auth r"
  shows "\<exists>r' w'. RemoteCapabilityResolver_resolve (loopback J W c ord) t r w =
      (map_sum id (map_option (re_lease_id_update (\<lambda>_. [])))
         (LocalCapabilityResolver_resolve InMemoryRegistryStore_ops (ord (lw_registry w)) t (rsv_index (lw_registry w))), r', w') \<and>
    lw_registry w' = lw_registry w \<and>
    forward (\<lambda>t. fst (RemoteCapabilityResolver_resolve (loopback J W c ord) t r w)) t =
      forward (\<lambda>t. LocalCapabilityResolver_resolve InMemoryRegistryStore_ops (ord (lw_registry w)) t (rsv_index (lw_registry w))) t \<and>
    ProxyManager_resolve (\<lambda>t. fst (RemoteCapabilityResolver_resolve (loopback J W c ord) t r w)) t =
      ProxyManager_resolve (\<lambda>t. LocalCapabilityResolver_resolve InMemoryRegistryStore_ops (ord (lw_registry w)) t (rsv_index (lw_registry w))) t"
proof -
  let ?N = "loopback J W c ord"
  let ?local = "LocalCapabilityResolver_resolve InMemoryRegistryStore_ops (ord (lw_registry w)) t (rsv_index (lw_registry w))"
  let ?answer = "RegistryService_lookup InMemoryRegistryStore_ops (ord (lw_registry w)) t (lw_registry w)"
  have look: "\<exists>r' w'. lookup_with_retry ?N t r w = (?answer, r', w') \<and> lw_registry w' = lw_registry w"
  proof (cases "lw_lost w = []")
    case True
    note d = admitted_delivers(2)[of J W "rcr_client r" w c ord t]
    have "\<not> is_transport_failure st" if "?answer = Inl st" for st
      using that by (auto simp: RegistryService_lookup_def is_transport_failure_def internal_status_def
          split: sum.splits option.splits)
    then show ?thesis using d True assms(2,3) by (cases ?answer) (auto simp: lookup_with_retry_def)
  next
    case False
    then have lost: "lw_lost w = [True]" using assms(1) by simp
    let ?w1 = "w\<lparr>lw_lost := []\<rparr>" and ?r1 = "r\<lparr>rcr_client := wrap_channel () (rcr_client_auth r)\<rparr>"
    have first: "authed_call ?N (nt_lookup ?N) (rcr_client r) t w = (Inl (Status Code_Unavailable ''connection lost''), ?w1)"
      using assms(2,3) lost by (auto simp: admitted_def authed_call_def loopback_def deliver_def)
    have re: "reconnect ?N r ?w1 = (Inr (), ?r1, ?w1)" by (simp add: reconnect_def loopback_def)
    have ad: "admitted J W (snd (rcr_client ?r1)) ?w1" using assms(2) by (simp add: admitted_def wrap_channel_def)
    show ?thesis using first re admitted_delivers(2)[OF ad, of c ord t]
      by (simp add: lookup_with_retry_def is_transport_failure_def)
  qed
  have loc: "?answer = (case ?local of Inl e \<Rightarrow> Inl (internal_status e) | Inr None \<Rightarrow> Inl (Status Code_NotFound ''no matching capability'')
      | Inr (Some e) \<Rightarrow> Inr (entry_to_capability e))" "\<exists>x. ?local = Inr x"
    by (auto simp: RegistryService_lookup_def RegistryIndex_lookup_def LocalCapabilityResolver_resolve_def combined_attrs_def
        mem_registry_defs Let_def split: sum.splits option.splits)
  have ent: "capability_to_registry_entry (entry_to_capability e) = e\<lparr>re_lease_id := []\<rparr>" for e
    by (cases e; cases "re_transport e") (auto simp: capability_to_registry_entry_def entry_to_capability_def)
  from look loc ent obtain r' w' where res: "RemoteCapabilityResolver_resolve ?N t r w =
      (map_sum id (map_option (re_lease_id_update (\<lambda>_. []))) ?local, r', w')" "lw_registry w' = lw_registry w"
    by (auto simp: RemoteCapabilityResolver_resolve_def split: option.splits)
  have "forward (\<lambda>t. fst (RemoteCapabilityResolver_resolve ?N t r w)) t =
      forward (\<lambda>t. LocalCapabilityResolver_resolve InMemoryRegistryStore_ops (ord (lw_registry w)) t (rsv_index (lw_registry w))) t"
    "ProxyManager_resolve (\<lambda>t. fst (RemoteCapabilityResolver_resolve ?N t r w)) t =
      ProxyManager_resolve (\<lambda>t. LocalCapabilityResolver_resolve InMemoryRegistryStore_ops (ord (lw_registry w)) t (rsv_index (lw_registry w))) t"
    using loc(2) res(1) by (auto simp: forward_def ProxyManager_resolve_def split: option.splits)
  with res show ?thesis by blast
qed

theorem remote_resolution_agrees_witness:
  "\<exists>e r' w'. RemoteCapabilityResolver_resolve (loopback demo_jwt demo_wire chrono_std (\<lambda>_. [''cap1''])) (fmupd ''interface'' ''Greeter'' fmempty)
     \<lparr>rcr_registry_addr = ''http://registry'', rcr_client_auth = trust, rcr_client = ((), trust)\<rparr>
     (demo_restarted\<lparr>lw_registry := demo_registry, lw_lost := [True]\<rparr>) = (Inr (Some e), r', w') \<and> re_lease_id e = []"
proof -
  let ?w = "demo_restarted\<lparr>lw_registry := demo_registry, lw_lost := [True]\<rparr>"
    and ?r = "\<lparr>rcr_registry_addr = ''http://registry'', rcr_client_auth = trust, rcr_client = ((), trust)\<rparr>"
  have ad: "admitted demo_jwt demo_wire (rcr_client_auth ?r) ?w"
    using admitted_disabled[of ?w] by (simp add: demo_restarted_def AuthConfig_default_def)
  have "matches (parse_template (fmupd ''interface'' ''Greeter'' fmempty)) (fmupd ''interface'' ''Greeter'' a)" for a
    by (auto simp: matches_iff_lookup parse_template_def parse_op_def strip_prefix_def)
  then have "LocalCapabilityResolver_resolve InMemoryRegistryStore_ops [''cap1''] (fmupd ''interface'' ''Greeter'' fmempty)
      (rsv_index demo_registry) = Inr (Some demo_entry)"
    by (simp add: LocalCapabilityResolver_resolve_def demo_registry_def demo_entry_def mem_registry_defs iter_values_def
        List.map_filter_def)
  then show ?thesis
    using remote_resolution_agrees[where w = ?w and r = ?r and c = chrono_std and ord = "\<lambda>_. [''cap1'']" and J = demo_jwt and W = demo_wire
        and t = "fmupd ''interface'' ''Greeter'' fmempty"] ad by auto
qed

end
