(* ===== verification/Dynamo_Space.thy ===== *)
theory Dynamo_Space
  imports Space_Store Dynamo_Table
begin

text \<open>
  The space store on DynamoDB, \<^verbatim>\<open>providers/dynamo/src/space_store.rs\<close>: a table of visible tuples, two tables of what
  transactions wrote and took, and a table of watches. The encodings and every operation of the \<^verbatim>\<open>SpaceStore\<close> trait.
\<close>

section \<open>Encoding\<close>

definition tuple_to_item :: "rfc3339 \<Rightarrow> TupleRecord \<Rightarrow> item" where
  "tuple_to_item f record =
     (case tp_input_tuple_id record of None \<Rightarrow> (\<lambda>i. i) | Some input_id \<Rightarrow> fmupd ''input_tuple_id'' (AvS input_id))
      (put_bytes ''payload'' (tp_payload record) (fmap_of_list [
         (''tuple_id'', AvS (tp_tuple_id record)),
         (''lease_id'', AvS (tp_lease_id record)),
         (''written_by'', AvS (tp_written_by record)),
         (''written_at'', AvS (to_rfc3339 f (tp_written_at record))),
         (''attrs'', str_map_av (tp_attrs record))]))"

definition tuple_from_item :: "rfc3339 \<Rightarrow> (item \<Rightarrow> string list) \<Rightarrow> item \<Rightarrow> TupleRecord result" where
  "tuple_from_item f ho i =
     (case get_s ''tuple_id'' ''tuple_id'' i of Inl e \<Rightarrow> Inl e | Inr tuple_id \<Rightarrow>
      case get_s ''lease_id'' ''lease_id'' i of Inl e \<Rightarrow> Inl e | Inr lease_id \<Rightarrow>
      case get_s ''written_by'' ''written_by'' i of Inl e \<Rightarrow> Inl e | Inr written_by \<Rightarrow>
      case get_time f ''written_at'' i of Inl e \<Rightarrow> Inl e | Inr written_at \<Rightarrow>
      case get_str_map ho (not_a_string ''attrs'') ''attrs'' i of Inl e \<Rightarrow> Inl e | Inr attrs \<Rightarrow>
        Inr \<lparr>tp_tuple_id = tuple_id, tp_attrs = attrs, tp_payload = get_bytes ''payload'' i, tp_lease_id = lease_id,
             tp_written_by = written_by, tp_written_at = written_at,
             tp_input_tuple_id = Option.bind (fmlookup i ''input_tuple_id'') as_s\<rparr>)"

fun event_kind_to_str :: "SpaceEventKind \<Rightarrow> string" where
  "event_kind_to_str Appearance = ''Appearance''"
| "event_kind_to_str Expiration = ''Expiration''"

text \<open>\<open>dbg\<close> is the \<^verbatim>\<open>{:?}\<close> form of a string.\<close>

definition event_kind_from_item :: "(string \<Rightarrow> string) \<Rightarrow> item \<Rightarrow> SpaceEventKind result" where
  "event_kind_from_item dbg i =
     (case Option.bind (fmlookup i ''on'') as_s of
        None \<Rightarrow> Inl (Storage ''unknown SpaceEventKind: None'')
      | Some s \<Rightarrow>
          (if s = ''Appearance'' then Inr Appearance
           else if s = ''Expiration'' then Inr Expiration
           else Inl (Storage (''unknown SpaceEventKind: Some('' @ dbg s @ '')''))))"

definition watch_from_item :: "(string \<Rightarrow> string) \<Rightarrow> (item \<Rightarrow> string list) \<Rightarrow> item \<Rightarrow> SpaceWatchRecord result" where
  "watch_from_item dbg ho i =
     (case get_s ''watch_id'' ''watch_id'' i of Inl e \<Rightarrow> Inl e | Inr watch_id \<Rightarrow>
      case get_s ''lease_id'' ''lease_id'' i of Inl e \<Rightarrow> Inl e | Inr lease_id \<Rightarrow>
      case event_kind_from_item dbg i of Inl e \<Rightarrow> Inl e | Inr on \<Rightarrow>
      case get_str_map ho (not_a_string ''template'') ''template'' i of Inl e \<Rightarrow> Inl e | Inr template \<Rightarrow>
        Inr \<lparr>sw_watch_id = watch_id, sw_template = template, sw_on = on, sw_lease_id = lease_id,
             sw_handback = get_bytes ''handback'' i\<rparr>)"

text \<open>The item \<^verbatim>\<open>create_watch\<close> puts.\<close>

definition space_watch_item :: "SpaceWatchRecord \<Rightarrow> item" where
  "space_watch_item w = put_bytes ''handback'' (sw_handback w) (fmap_of_list [
     (''watch_id'', AvS (sw_watch_id w)),
     (''lease_id'', AvS (sw_lease_id w)),
     (''on'', AvS (event_kind_to_str (sw_on w))),
     (''template'', str_map_av (sw_template w))])"

definition OWN_WRITE_ATTR :: string where
  "OWN_WRITE_ATTR = ''own_write''"

definition is_own_write :: "item \<Rightarrow> bool" where
  "is_own_write i \<longleftrightarrow> fmlookup i OWN_WRITE_ATTR = Some (AvBool True)"

text \<open>The items of the buffers, and the keys of the tables.\<close>

definition buffer_item :: "rfc3339 \<Rightarrow> string \<Rightarrow> TupleRecord \<Rightarrow> item" where
  "buffer_item f txn_id record = fmupd ''txn_id'' (AvS txn_id) (tuple_to_item f record)"

definition own_item :: "rfc3339 \<Rightarrow> string \<Rightarrow> TupleRecord \<Rightarrow> item" where
  "own_item f txn_id record = fmupd OWN_WRITE_ATTR (AvBool True) (buffer_item f txn_id record)"

definition tuple_key :: "string \<Rightarrow> key" where
  "tuple_key tuple_id = [(''tuple_id'', AvS tuple_id)]"

definition buffer_key :: "string \<Rightarrow> string \<Rightarrow> key" where
  "buffer_key txn_id tuple_id = [(''txn_id'', AvS txn_id), (''tuple_id'', AvS tuple_id)]"

definition watch_key :: "string \<Rightarrow> key" where
  "watch_key watch_id = [(''watch_id'', AvS watch_id)]"

section \<open>Loops over pages\<close>

definition scan_all_loop :: "'d dynamo \<Rightarrow> string \<Rightarrow> 'd \<Rightarrow> item list result option" where
  "scan_all_loop DB table_name d =
     paged (\<lambda>last_key. map_err (\<lambda>e. Storage (''scan failed: '' @ sdk_to_string e)) (db_scan DB table_name None None last_key d))
       (\<lambda>i. Inr [i]) None []"

definition scan_all :: "'d dynamo \<Rightarrow> string \<Rightarrow> 'd \<Rightarrow> item list result" where
  "scan_all DB table_name d = the (scan_all_loop DB table_name d)"

definition query_by_pk_loop :: "'d dynamo \<Rightarrow> string \<Rightarrow> string \<Rightarrow> string \<Rightarrow> 'd \<Rightarrow> item list result option" where
  "query_by_pk_loop DB table_name pk_name pk_value d =
     paged (\<lambda>last_key. map_err (\<lambda>e. Storage (''query failed: '' @ sdk_to_string e))
              (db_query DB table_name None (attribute_eq pk_name (AvS pk_value)) None last_key d))
       (\<lambda>i. Inr [i]) None []"

definition query_by_pk :: "'d dynamo \<Rightarrow> string \<Rightarrow> string \<Rightarrow> string \<Rightarrow> 'd \<Rightarrow> item list result" where
  "query_by_pk DB table_name pk_name pk_value d = the (query_by_pk_loop DB table_name pk_name pk_value d)"

definition scan_by_lease_loop :: "'d dynamo \<Rightarrow> string \<Rightarrow> string \<Rightarrow> 'd \<Rightarrow> item list result option" where
  "scan_by_lease_loop DB table_name lease_id d =
     paged (\<lambda>last_key. map_err (\<lambda>e. Storage (''scan (lease filter) failed: '' @ sdk_to_string e))
              (db_scan DB table_name (Some (attribute_eq ''lease_id'' (AvS lease_id))) None last_key d))
       (\<lambda>i. Inr [i]) None []"

definition scan_by_lease :: "'d dynamo \<Rightarrow> string \<Rightarrow> string \<Rightarrow> 'd \<Rightarrow> item list result" where
  "scan_by_lease DB table_name lease_id d = the (scan_by_lease_loop DB table_name lease_id d)"

section \<open>Operations\<close>

record space_tables =
  tuple_table :: string
  uncommitted_table :: string
  txn_taken_table :: string
  watches_table :: string

definition delete_row :: "'d dynamo \<Rightarrow> string \<Rightarrow> key \<Rightarrow> 'd \<Rightarrow> item option result \<times> 'd" where
  "delete_row DB tbl k d =
     (case db_delete_item DB tbl k None d of
        (Inl e, d') \<Rightarrow> (Inl (Storage (''delete_item failed: '' @ sdk_to_string e)), d')
      | (Inr old, d') \<Rightarrow> (Inr old, d'))"

definition put_row :: "'d dynamo \<Rightarrow> string \<Rightarrow> string \<Rightarrow> item \<Rightarrow> 'd \<Rightarrow> unit result \<times> 'd" where
  "put_row DB what tbl i d =
     (case db_put_item DB tbl i None d of
        (Inl e, d') \<Rightarrow> (Inl (Storage (what @ '' failed: '' @ sdk_to_string e)), d')
      | (Inr _, d') \<Rightarrow> (Inr (), d'))"

definition DynamoSpaceStore_insert :: "rfc3339 \<Rightarrow> 'd dynamo \<Rightarrow> space_tables \<Rightarrow> TupleRecord \<Rightarrow> 'd \<Rightarrow> unit result \<times> 'd" where
  "DynamoSpaceStore_insert f DB T record d = put_row DB ''put_item'' (tuple_table T) (tuple_to_item f record) d"

definition DynamoSpaceStore_insert_uncommitted ::
  "rfc3339 \<Rightarrow> 'd dynamo \<Rightarrow> space_tables \<Rightarrow> string \<Rightarrow> TupleRecord \<Rightarrow> 'd \<Rightarrow> unit result \<times> 'd" where
  "DynamoSpaceStore_insert_uncommitted f DB T txn_id record d =
     put_row DB ''put_item'' (uncommitted_table T) (buffer_item f txn_id record) d"

definition decode_option :: "(item \<Rightarrow> 'r result) \<Rightarrow> item option \<Rightarrow> 'r option result" where
  "decode_option dec got = (case got of None \<Rightarrow> Inr None | Some i \<Rightarrow> (case dec i of Inl e \<Rightarrow> Inl e | Inr r \<Rightarrow> Inr (Some r)))"

definition DynamoSpaceStore_get ::
  "rfc3339 \<Rightarrow> (item \<Rightarrow> string list) \<Rightarrow> 'd dynamo \<Rightarrow> space_tables \<Rightarrow> string \<Rightarrow> 'd \<Rightarrow> TupleRecord option result" where
  "DynamoSpaceStore_get f ho DB T tuple_id d =
     (case db_get_item DB (tuple_table T) (tuple_key tuple_id) d of
        Inl e \<Rightarrow> Inl (Storage (''get_item failed: '' @ sdk_to_string e))
      | Inr got \<Rightarrow> decode_option (tuple_from_item f ho) got)"

definition DynamoSpaceStore_remove ::
  "rfc3339 \<Rightarrow> (item \<Rightarrow> string list) \<Rightarrow> 'd dynamo \<Rightarrow> space_tables \<Rightarrow> string \<Rightarrow> 'd \<Rightarrow> TupleRecord option result \<times> 'd" where
  "DynamoSpaceStore_remove f ho DB T tuple_id d =
     (case delete_row DB (tuple_table T) (tuple_key tuple_id) d of
        (Inl e, d') \<Rightarrow> (Inl e, d')
      | (Inr old, d') \<Rightarrow> (decode_option (tuple_from_item f ho) old, d'))"

text \<open>The inner loop of \<^verbatim>\<open>remove_txn_buffered_by_lease\<close>: the first of the items that is still there.\<close>

fun delete_first_item ::
  "rfc3339 \<Rightarrow> (item \<Rightarrow> string list) \<Rightarrow> 'd dynamo \<Rightarrow> string \<Rightarrow> item list \<Rightarrow> 'd \<Rightarrow> TupleRecord option result \<times> 'd" where
  "delete_first_item f ho DB tbl [] d = (Inr None, d)"
| "delete_first_item f ho DB tbl (i # is) d =
     (case Option.bind (fmlookup i ''txn_id'') as_s of
        None \<Rightarrow> (Inl (Storage ''buffer item missing txn_id''), d)
      | Some txn_id \<Rightarrow>
          (case Option.bind (fmlookup i ''tuple_id'') as_s of
             None \<Rightarrow> (Inl (Storage ''buffer item missing tuple_id''), d)
           | Some tuple_id \<Rightarrow>
               (case delete_row DB tbl (buffer_key txn_id tuple_id) d of
                  (Inl e, d') \<Rightarrow> (Inl e, d')
                | (Inr (Some old), d') \<Rightarrow> (decode_option (tuple_from_item f ho) (Some old), d')
                | (Inr None, d') \<Rightarrow> delete_first_item f ho DB tbl is d')))"

fun remove_buffered ::
  "rfc3339 \<Rightarrow> (item \<Rightarrow> string list) \<Rightarrow> 'd dynamo \<Rightarrow> string list \<Rightarrow> string \<Rightarrow> 'd \<Rightarrow> TupleRecord option result \<times> 'd" where
  "remove_buffered f ho DB [] lease_id d = (Inr None, d)"
| "remove_buffered f ho DB (tbl # tbls) lease_id d =
     (case scan_by_lease DB tbl lease_id d of
        Inl e \<Rightarrow> (Inl e, d)
      | Inr items \<Rightarrow>
          (case delete_first_item f ho DB tbl items d of
             (Inr None, d') \<Rightarrow> remove_buffered f ho DB tbls lease_id d'
           | done \<Rightarrow> done))"

definition remove_txn_buffered_by_lease ::
  "rfc3339 \<Rightarrow> (item \<Rightarrow> string list) \<Rightarrow> 'd dynamo \<Rightarrow> space_tables \<Rightarrow> string \<Rightarrow> 'd \<Rightarrow> TupleRecord option result \<times> 'd" where
  "remove_txn_buffered_by_lease f ho DB T lease_id d =
     remove_buffered f ho DB [uncommitted_table T, txn_taken_table T] lease_id d"

definition SPACE_LEASE_GSI :: string where
  "SPACE_LEASE_GSI = ''lease_id-index''"

definition DynamoSpaceStore_remove_by_lease ::
  "rfc3339 \<Rightarrow> (item \<Rightarrow> string list) \<Rightarrow> 'd dynamo \<Rightarrow> space_tables \<Rightarrow> string \<Rightarrow> 'd \<Rightarrow> TupleRecord option result \<times> 'd" where
  "DynamoSpaceStore_remove_by_lease f ho DB T lease_id d =
     (case db_query DB (tuple_table T) (Some SPACE_LEASE_GSI) (attribute_eq ''lease_id'' (AvS lease_id)) (Some 1) None d of
        Inl e \<Rightarrow> (Inl (Storage (''query (lease GSI) failed: '' @ sdk_to_string e)), d)
      | Inr ([], _) \<Rightarrow> remove_txn_buffered_by_lease f ho DB T lease_id d
      | Inr (i # _, _) \<Rightarrow>
          (case Option.bind (fmlookup i ''tuple_id'') as_s of
             None \<Rightarrow> (Inl (Storage ''GSI item missing tuple_id''), d)
           | Some tuple_id \<Rightarrow>
               (case DynamoSpaceStore_remove f ho DB T tuple_id d of
                  (Inr None, d') \<Rightarrow> remove_txn_buffered_by_lease f ho DB T lease_id d'
                | done \<Rightarrow> done)))"

text \<open>The first item that matches; an item before it that does not decode ends the search.\<close>

fun first_match :: "rfc3339 \<Rightarrow> (item \<Rightarrow> string list) \<Rightarrow> (string, MatchOp) fmap \<Rightarrow> item list \<Rightarrow> TupleRecord option result" where
  "first_match f ho ops [] = Inr None"
| "first_match f ho ops (i # is) =
     (case tuple_from_item f ho i of
        Inl e \<Rightarrow> Inl e
      | Inr record \<Rightarrow> if matches ops (tp_attrs record) then Inr (Some record) else first_match f ho ops is)"

definition own_match ::
  "rfc3339 \<Rightarrow> (item \<Rightarrow> string list) \<Rightarrow> 'd dynamo \<Rightarrow> space_tables \<Rightarrow> (string, MatchOp) fmap \<Rightarrow> string option \<Rightarrow> 'd \<Rightarrow> TupleRecord option result" where
  "own_match f ho DB T ops txn_id d =
     (case txn_id of
        None \<Rightarrow> Inr None
      | Some tid \<Rightarrow>
          (case query_by_pk DB (uncommitted_table T) ''txn_id'' tid d of
             Inl e \<Rightarrow> Inl e | Inr uncommitted \<Rightarrow> first_match f ho ops uncommitted))"

definition DynamoSpaceStore_find_match ::
  "rfc3339 \<Rightarrow> (item \<Rightarrow> string list) \<Rightarrow> 'd dynamo \<Rightarrow> space_tables \<Rightarrow> attrs \<Rightarrow> string option \<Rightarrow> 'd \<Rightarrow> TupleRecord option result" where
  "DynamoSpaceStore_find_match f ho DB T template txn_id d =
     (let ops = parse_template template in
      case scan_all DB (tuple_table T) d of
        Inl e \<Rightarrow> Inl e
      | Inr items \<Rightarrow>
          (case first_match f ho ops items of
             Inr None \<Rightarrow> own_match f ho DB T ops txn_id d
           | found \<Rightarrow> found))"

definition take_own ::
  "rfc3339 \<Rightarrow> 'd dynamo \<Rightarrow> space_tables \<Rightarrow> string \<Rightarrow> TupleRecord \<Rightarrow> 'd \<Rightarrow> TupleRecord option result \<times> 'd" where
  "take_own f DB T tid record d =
     (case delete_row DB (uncommitted_table T) (buffer_key tid (tp_tuple_id record)) d of
        (Inl e, d') \<Rightarrow> (Inl e, d')
      | (Inr _, d') \<Rightarrow>
          (case put_row DB ''put_item (txn_taken)'' (txn_taken_table T) (own_item f tid record) d' of
             (Inl e, d'') \<Rightarrow> (Inl e, d'')
           | (Inr _, d'') \<Rightarrow> (Inr (Some record), d'')))"

text \<open>Inside a transaction, a deleted tuple is kept in the table of taken ones.\<close>

definition hold_taken ::
  "rfc3339 \<Rightarrow> 'd dynamo \<Rightarrow> space_tables \<Rightarrow> string option \<Rightarrow> TupleRecord \<Rightarrow> 'd \<Rightarrow> TupleRecord option result \<times> 'd" where
  "hold_taken f DB T txn_id taken d =
     (case txn_id of
        None \<Rightarrow> (Inr (Some taken), d)
      | Some tid \<Rightarrow>
          (case put_row DB ''put_item (txn_taken)'' (txn_taken_table T) (buffer_item f tid taken) d of
             (Inl e, d') \<Rightarrow> (Inl e, d')
           | (Inr _, d') \<Rightarrow> (Inr (Some taken), d')))"

text \<open>
  The loop over the committed tuples. A match is deleted on the condition that it still exists; refused means another
  taker was faster, and the loop goes on. \<open>gaps\<close> gives what others do before each of the deletes, nothing after the last.
\<close>

fun take_scanned ::
  "rfc3339 \<Rightarrow> (item \<Rightarrow> string list) \<Rightarrow> 'd dynamo \<Rightarrow> space_tables \<Rightarrow> (string, MatchOp) fmap \<Rightarrow> string option \<Rightarrow> ('d \<Rightarrow> 'd) list
   \<Rightarrow> item list \<Rightarrow> 'd \<Rightarrow> TupleRecord option result \<times> 'd" where
  "take_scanned f ho DB T ops txn_id gaps [] d = (Inr None, d)"
| "take_scanned f ho DB T ops txn_id gaps (i # is) d =
     (case tuple_from_item f ho i of
        Inl e \<Rightarrow> (Inl e, d)
      | Inr record \<Rightarrow>
          if \<not> matches ops (tp_attrs record) then take_scanned f ho DB T ops txn_id gaps is d
          else
            (case db_delete_item DB (tuple_table T) (tuple_key (tp_tuple_id record)) (Some (attribute_exists ''tuple_id''))
                    (case gaps of [] \<Rightarrow> d | g # _ \<Rightarrow> g d) of
               (Inl e, d') \<Rightarrow>
                 (if is_conditional_check_failed e then take_scanned f ho DB T ops txn_id (tl gaps) is d'
                  else (Inl (Storage (''delete_item failed: '' @ sdk_to_string e)), d'))
             | (Inr None, d') \<Rightarrow> take_scanned f ho DB T ops txn_id (tl gaps) is d'
             | (Inr (Some deleted_item), d') \<Rightarrow>
                 (case tuple_from_item f ho deleted_item of
                    Inl e \<Rightarrow> (Inl e, d')
                  | Inr taken \<Rightarrow> hold_taken f DB T txn_id taken d')))"

definition DynamoSpaceStore_take_match ::
  "rfc3339 \<Rightarrow> (item \<Rightarrow> string list) \<Rightarrow> 'd dynamo \<Rightarrow> space_tables \<Rightarrow> ('d \<Rightarrow> 'd) list \<Rightarrow> attrs \<Rightarrow> string option \<Rightarrow> 'd
   \<Rightarrow> TupleRecord option result \<times> 'd" where
  "DynamoSpaceStore_take_match f ho DB T gaps template txn_id d =
     (let ops = parse_template template in
      case own_match f ho DB T ops txn_id d of
        Inl e \<Rightarrow> (Inl e, d)
      | Inr (Some record) \<Rightarrow> take_own f DB T (the txn_id) record d
      | Inr None \<Rightarrow>
          (case scan_all DB (tuple_table T) d of
             Inl e \<Rightarrow> (Inl e, d)
           | Inr items \<Rightarrow> take_scanned f ho DB T ops txn_id gaps items d))"

definition all_matches :: "rfc3339 \<Rightarrow> (item \<Rightarrow> string list) \<Rightarrow> (string, MatchOp) fmap \<Rightarrow> item list \<Rightarrow> TupleRecord list \<Rightarrow> TupleRecord list result" where
  "all_matches f ho ops items results =
     push_all (decoding (tuple_from_item f ho) (\<lambda>r. if ops = fmempty \<or> matches ops (tp_attrs r) then [r] else [])) items results"

definition DynamoSpaceStore_find_all_matches ::
  "rfc3339 \<Rightarrow> (item \<Rightarrow> string list) \<Rightarrow> 'd dynamo \<Rightarrow> space_tables \<Rightarrow> attrs \<Rightarrow> string option \<Rightarrow> 'd \<Rightarrow> TupleRecord list result" where
  "DynamoSpaceStore_find_all_matches f ho DB T template txn_id d =
     (let ops = parse_template template in
      case scan_all DB (tuple_table T) d of
        Inl e \<Rightarrow> Inl e
      | Inr items \<Rightarrow>
          (case all_matches f ho ops items [] of
             Inl e \<Rightarrow> Inl e
           | Inr results \<Rightarrow>
               (case txn_id of
                  None \<Rightarrow> Inr results
                | Some tid \<Rightarrow>
                    (case query_by_pk DB (uncommitted_table T) ''txn_id'' tid d of
                       Inl e \<Rightarrow> Inl e | Inr uncommitted \<Rightarrow> all_matches f ho ops uncommitted results))))"

text \<open>
  The loops of \<^verbatim>\<open>commit_txn\<close> and \<^verbatim>\<open>abort_txn\<close>. Each item decodes before its tuple id is read for the delete, so the id is
  the one of the record.
\<close>

fun flush_items ::
  "rfc3339 \<Rightarrow> (item \<Rightarrow> string list) \<Rightarrow> 'd dynamo \<Rightarrow> space_tables \<Rightarrow> string \<Rightarrow> item list \<Rightarrow> TupleRecord list \<Rightarrow> 'd
   \<Rightarrow> TupleRecord list result \<times> 'd" where
  "flush_items f ho DB T txn_id [] flushed d = (Inr flushed, d)"
| "flush_items f ho DB T txn_id (i # is) flushed d =
     (case tuple_from_item f ho i of
        Inl e \<Rightarrow> (Inl e, d)
      | Inr record \<Rightarrow>
          (case DynamoSpaceStore_insert f DB T record d of
             (Inl e, d') \<Rightarrow> (Inl e, d')
           | (Inr _, d') \<Rightarrow>
               (case delete_row DB (uncommitted_table T) (buffer_key txn_id (tp_tuple_id record)) d' of
                  (Inl e, d'') \<Rightarrow> (Inl e, d'')
                | (Inr _, d'') \<Rightarrow> flush_items f ho DB T txn_id is (flushed @ [record]) d'')))"

fun drop_items ::
  "rfc3339 \<Rightarrow> (item \<Rightarrow> string list) \<Rightarrow> 'd dynamo \<Rightarrow> string \<Rightarrow> string \<Rightarrow> item list \<Rightarrow> TupleRecord list \<Rightarrow> 'd
   \<Rightarrow> TupleRecord list result \<times> 'd" where
  "drop_items f ho DB tbl txn_id [] dropped d = (Inr dropped, d)"
| "drop_items f ho DB tbl txn_id (i # is) dropped d =
     (case tuple_from_item f ho i of
        Inl e \<Rightarrow> (Inl e, d)
      | Inr record \<Rightarrow>
          (case delete_row DB tbl (buffer_key txn_id (tp_tuple_id record)) d of
             (Inl e, d') \<Rightarrow> (Inl e, d')
           | (Inr _, d') \<Rightarrow> drop_items f ho DB tbl txn_id is (dropped @ [record]) d'))"

fun restore_items ::
  "rfc3339 \<Rightarrow> (item \<Rightarrow> string list) \<Rightarrow> 'd dynamo \<Rightarrow> space_tables \<Rightarrow> string \<Rightarrow> item list \<Rightarrow> TupleRecord list \<Rightarrow> TupleRecord list \<Rightarrow> 'd
   \<Rightarrow> (TupleRecord list \<times> TupleRecord list) result \<times> 'd" where
  "restore_items f ho DB T txn_id [] discarded restored d = (Inr (discarded, restored), d)"
| "restore_items f ho DB T txn_id (i # is) discarded restored d =
     (case tuple_from_item f ho i of
        Inl e \<Rightarrow> (Inl e, d)
      | Inr record \<Rightarrow>
          (case (if is_own_write i then (Inr (), d) else DynamoSpaceStore_insert f DB T record d) of
             (Inl e, d') \<Rightarrow> (Inl e, d')
           | (Inr _, d') \<Rightarrow>
               (case delete_row DB (txn_taken_table T) (buffer_key txn_id (tp_tuple_id record)) d' of
                  (Inl e, d'') \<Rightarrow> (Inl e, d'')
                | (Inr _, d'') \<Rightarrow>
                    restore_items f ho DB T txn_id is
                      (if is_own_write i then discarded @ [record] else discarded)
                      (if is_own_write i then restored else restored @ [record]) d'')))"

definition DynamoSpaceStore_commit_txn ::
  "rfc3339 \<Rightarrow> (item \<Rightarrow> string list) \<Rightarrow> 'd dynamo \<Rightarrow> space_tables \<Rightarrow> string \<Rightarrow> 'd \<Rightarrow> (TupleRecord list \<times> TupleRecord list) result \<times> 'd" where
  "DynamoSpaceStore_commit_txn f ho DB T txn_id d =
     (case query_by_pk DB (uncommitted_table T) ''txn_id'' txn_id d of
        Inl e \<Rightarrow> (Inl e, d)
      | Inr uncommitted_items \<Rightarrow>
          (case flush_items f ho DB T txn_id uncommitted_items [] d of
             (Inl e, d') \<Rightarrow> (Inl e, d')
           | (Inr flushed, d') \<Rightarrow>
               (case query_by_pk DB (txn_taken_table T) ''txn_id'' txn_id d' of
                  Inl e \<Rightarrow> (Inl e, d')
                | Inr taken_items \<Rightarrow>
                    (case drop_items f ho DB (txn_taken_table T) txn_id taken_items [] d' of
                       (Inl e, d'') \<Rightarrow> (Inl e, d'')
                     | (Inr taken, d'') \<Rightarrow> (Inr (flushed, taken), d'')))))"

definition DynamoSpaceStore_abort_txn ::
  "rfc3339 \<Rightarrow> (item \<Rightarrow> string list) \<Rightarrow> 'd dynamo \<Rightarrow> space_tables \<Rightarrow> string \<Rightarrow> 'd \<Rightarrow> (TupleRecord list \<times> TupleRecord list) result \<times> 'd" where
  "DynamoSpaceStore_abort_txn f ho DB T txn_id d =
     (case query_by_pk DB (uncommitted_table T) ''txn_id'' txn_id d of
        Inl e \<Rightarrow> (Inl e, d)
      | Inr uncommitted_items \<Rightarrow>
          (case drop_items f ho DB (uncommitted_table T) txn_id uncommitted_items [] d of
             (Inl e, d') \<Rightarrow> (Inl e, d')
           | (Inr discarded, d') \<Rightarrow>
               (case query_by_pk DB (txn_taken_table T) ''txn_id'' txn_id d' of
                  Inl e \<Rightarrow> (Inl e, d')
                | Inr taken_items \<Rightarrow> restore_items f ho DB T txn_id taken_items discarded [] d')))"

definition DynamoSpaceStore_has_txn :: "'d dynamo \<Rightarrow> space_tables \<Rightarrow> string \<Rightarrow> 'd \<Rightarrow> bool result" where
  "DynamoSpaceStore_has_txn DB T txn_id d =
     (case query_by_pk DB (uncommitted_table T) ''txn_id'' txn_id d of
        Inl e \<Rightarrow> Inl e
      | Inr uncommitted \<Rightarrow>
          if uncommitted \<noteq> [] then Inr True
          else (case query_by_pk DB (txn_taken_table T) ''txn_id'' txn_id d of
                  Inl e \<Rightarrow> Inl e | Inr taken \<Rightarrow> Inr (taken \<noteq> [])))"

definition DynamoSpaceStore_list_all ::
  "rfc3339 \<Rightarrow> (item \<Rightarrow> string list) \<Rightarrow> 'd dynamo \<Rightarrow> space_tables \<Rightarrow> 'd \<Rightarrow> TupleRecord list result" where
  "DynamoSpaceStore_list_all f ho DB T d =
     (case scan_all DB (tuple_table T) d of Inl e \<Rightarrow> Inl e | Inr items \<Rightarrow> collect_results (tuple_from_item f ho) items)"

definition DynamoSpaceStore_create_watch :: "'d dynamo \<Rightarrow> space_tables \<Rightarrow> SpaceWatchRecord \<Rightarrow> 'd \<Rightarrow> unit result \<times> 'd" where
  "DynamoSpaceStore_create_watch DB T watch d = put_row DB ''put_item'' (watches_table T) (space_watch_item watch) d"

definition DynamoSpaceStore_remove_watch :: "'d dynamo \<Rightarrow> space_tables \<Rightarrow> string \<Rightarrow> 'd \<Rightarrow> unit result \<times> 'd" where
  "DynamoSpaceStore_remove_watch DB T watch_id d =
     (case delete_row DB (watches_table T) (watch_key watch_id) d of (Inl e, d') \<Rightarrow> (Inl e, d') | (Inr _, d') \<Rightarrow> (Inr (), d'))"

definition SPACE_WATCHES_LEASE_GSI :: string where
  "SPACE_WATCHES_LEASE_GSI = ''lease_id-index''"

definition DynamoSpaceStore_remove_watch_by_lease ::
  "(string \<Rightarrow> string) \<Rightarrow> (item \<Rightarrow> string list) \<Rightarrow> 'd dynamo \<Rightarrow> space_tables \<Rightarrow> string \<Rightarrow> 'd \<Rightarrow> SpaceWatchRecord option result \<times> 'd" where
  "DynamoSpaceStore_remove_watch_by_lease dbg ho DB T lease_id d =
     (case db_query DB (watches_table T) (Some SPACE_WATCHES_LEASE_GSI) (attribute_eq ''lease_id'' (AvS lease_id)) (Some 1) None d of
        Inl e \<Rightarrow> (Inl (Storage (''query (lease GSI) failed: '' @ sdk_to_string e)), d)
      | Inr ([], _) \<Rightarrow> (Inr None, d)
      | Inr (i # _, _) \<Rightarrow>
          (case watch_from_item dbg ho i of
             Inl e \<Rightarrow> (Inl e, d)
           | Inr watch \<Rightarrow>
               (case delete_row DB (watches_table T) (watch_key (sw_watch_id watch)) d of
                  (Inl e, d') \<Rightarrow> (Inl e, d') | (Inr _, d') \<Rightarrow> (Inr (Some watch), d'))))"

definition DynamoSpaceStore_list_watches ::
  "(string \<Rightarrow> string) \<Rightarrow> (item \<Rightarrow> string list) \<Rightarrow> 'd dynamo \<Rightarrow> space_tables \<Rightarrow> 'd \<Rightarrow> SpaceWatchRecord list result" where
  "DynamoSpaceStore_list_watches dbg ho DB T d =
     (case scan_all DB (watches_table T) d of Inl e \<Rightarrow> Inl e | Inr items \<Rightarrow> collect_results (watch_from_item dbg ho) items)"

text \<open>
  The trait object. Of the races of a take, the first falls between the scan and the first delete; the contract says
  nothing of the races of the other operations.
\<close>

definition DynamoSpaceStore_ops ::
  "rfc3339 \<Rightarrow> (string \<Rightarrow> string) \<Rightarrow> (item \<Rightarrow> string list) \<Rightarrow> 'd dynamo \<Rightarrow> space_tables \<Rightarrow> 'd SpaceStore" where
  "DynamoSpaceStore_ops f dbg ho DB T = \<lparr>
     sp_insert = DynamoSpaceStore_insert f DB T,
     sp_insert_uncommitted = DynamoSpaceStore_insert_uncommitted f DB T,
     sp_get = DynamoSpaceStore_get f ho DB T,
     sp_remove = DynamoSpaceStore_remove f ho DB T,
     sp_remove_by_lease = DynamoSpaceStore_remove_by_lease f ho DB T,
     sp_find_match = (\<lambda>_. DynamoSpaceStore_find_match f ho DB T),
     sp_take_match = (\<lambda>races _. DynamoSpaceStore_take_match f ho DB T (map snd (take 1 races))),
     sp_find_all_matches = (\<lambda>_. DynamoSpaceStore_find_all_matches f ho DB T),
     sp_commit_txn = DynamoSpaceStore_commit_txn f ho DB T,
     sp_abort_txn = DynamoSpaceStore_abort_txn f ho DB T,
     sp_has_txn = DynamoSpaceStore_has_txn DB T,
     sp_list_all = (\<lambda>_. DynamoSpaceStore_list_all f ho DB T),
     sp_create_watch = DynamoSpaceStore_create_watch DB T,
     sp_remove_watch = DynamoSpaceStore_remove_watch DB T,
     sp_remove_watch_by_lease = DynamoSpaceStore_remove_watch_by_lease dbg ho DB T,
     sp_list_watches = (\<lambda>_. DynamoSpaceStore_list_watches dbg ho DB T) \<rparr>"

end
