(* ===== verification/Dynamo_Tuples.thy ===== *)
theory Dynamo_Tuples
  imports Space_View Dynamo_Space
begin

text \<open>
  The space store on DynamoDB keeps the contract of the space store: the encodings round-trip, the three tables of tuples
  represent a view of the Space, and every operation changes the tables as the contract changes the view.
\<close>

section \<open>Encodings\<close>

text \<open>Rows of the buffers: a transaction and a tuple, and for a taken tuple whether the transaction itself wrote it.\<close>

definition buf_row :: "rfc3339 \<Rightarrow> string \<times> TupleRecord \<Rightarrow> item" where
  "buf_row f r = buffer_item f (fst r) (snd r)"

definition buf_row_from :: "rfc3339 \<Rightarrow> (item \<Rightarrow> string list) \<Rightarrow> item \<Rightarrow> (string \<times> TupleRecord) result" where
  "buf_row_from f ho i =
     (case get_s ''txn_id'' ''txn_id'' i of Inl e \<Rightarrow> Inl e | Inr t \<Rightarrow>
      case tuple_from_item f ho i of Inl e \<Rightarrow> Inl e | Inr r \<Rightarrow> Inr (t, r))"

definition buf_row_key :: "string \<times> TupleRecord \<Rightarrow> key" where
  "buf_row_key r = buffer_key (fst r) (tp_tuple_id (snd r))"

definition taken_row :: "rfc3339 \<Rightarrow> string \<times> bool \<times> TupleRecord \<Rightarrow> item" where
  "taken_row f r = (case r of (t, own, x) \<Rightarrow> if own then own_item f t x else buffer_item f t x)"

definition taken_row_from :: "rfc3339 \<Rightarrow> (item \<Rightarrow> string list) \<Rightarrow> item \<Rightarrow> (string \<times> bool \<times> TupleRecord) result" where
  "taken_row_from f ho i =
     (case buf_row_from f ho i of Inl e \<Rightarrow> Inl e | Inr (t, r) \<Rightarrow> Inr (t, is_own_write i, r))"

definition taken_row_key :: "string \<times> bool \<times> TupleRecord \<Rightarrow> key" where
  "taken_row_key r = (case r of (t, own, x) \<Rightarrow> buffer_key t (tp_tuple_id x))"

lemma key_inj [simp]:
  "tuple_key a = tuple_key b \<longleftrightarrow> a = b"
  "buffer_key s a = buffer_key t b \<longleftrightarrow> s = t \<and> a = b"
  "watch_key a = watch_key b \<longleftrightarrow> a = b"
  by (auto simp: tuple_key_def buffer_key_def watch_key_def)

lemma tuple_item_lookup:
  "fmlookup (tuple_to_item f r) a =
     (if a = ''input_tuple_id'' then map_option AvS (tp_input_tuple_id r)
      else fmlookup (put_bytes ''payload'' (tp_payload r) (fmap_of_list [
         (''tuple_id'', AvS (tp_tuple_id r)),
         (''lease_id'', AvS (tp_lease_id r)),
         (''written_by'', AvS (tp_written_by r)),
         (''written_at'', AvS (to_rfc3339 f (tp_written_at r))),
         (''attrs'', str_map_av (tp_attrs r))])) a)"
  by (cases "a = ''input_tuple_id''") (simp_all add: tuple_to_item_def put_bytes_lookup fmlookup_of_list split: option.splits)

lemma tuple_from_to: "rfc3339_ok f \<Longrightarrow> tuple_from_item f ho (tuple_to_item f r) = Inr r"
  by (cases r; cases "tp_input_tuple_id r")
     (simp_all add: tuple_from_item_def get_simps get_str_map_av tuple_item_lookup put_bytes_lookup fmlookup_of_list get_bytes_def)

lemma tuple_from_upd:
  "a \<notin> {''tuple_id'', ''lease_id'', ''written_by'', ''written_at'', ''attrs'', ''payload'', ''input_tuple_id''} \<Longrightarrow>
   tuple_from_item f ho (fmupd a v i) = tuple_from_item f ho i"
  by (simp add: tuple_from_item_def get_s_def get_time_def get_str_map_def get_bytes_def cong: sum.case_cong)

lemma tuple_from_buffer:
  assumes "rfc3339_ok f"
  shows "tuple_from_item f ho (buffer_item f t r) = Inr r" "tuple_from_item f ho (own_item f t r) = Inr r"
  using tuple_from_to[OF assms] by (simp_all add: buffer_item_def own_item_def OWN_WRITE_ATTR_def tuple_from_upd)

lemma buffer_item_lookup:
  "fmlookup (buffer_item f t r) a = (if a = ''txn_id'' then Some (AvS t) else fmlookup (tuple_to_item f r) a)"
  "fmlookup (own_item f t r) a = (if a = ''own_write'' then Some (AvBool True) else fmlookup (buffer_item f t r) a)"
  by (simp_all add: buffer_item_def own_item_def OWN_WRITE_ATTR_def)

lemmas row_lookups = buffer_item_lookup tuple_item_lookup put_bytes_lookup fmlookup_of_list

lemma own_write_iff: "\<not> is_own_write (buffer_item f t r)" "is_own_write (own_item f t r)"
  by (simp_all add: is_own_write_def OWN_WRITE_ATTR_def row_lookups)

lemma buf_row_from_to: "rfc3339_ok f \<Longrightarrow> buf_row_from f ho (buf_row f r) = Inr r"
  by (cases r) (simp add: buf_row_from_def buf_row_def tuple_from_buffer get_s_S row_lookups)

lemma taken_row_from_to: "rfc3339_ok f \<Longrightarrow> taken_row_from f ho (taken_row f r) = Inr r"
  by (cases r) (simp add: taken_row_from_def taken_row_def buf_row_from_def tuple_from_buffer get_s_S own_write_iff row_lookups)

lemma tuple_from_rows:
  assumes "rfc3339_ok f"
  shows "tuple_from_item f ho (buf_row f r) = Inr (snd r)" "tuple_from_item f ho (taken_row f s) = Inr (snd (snd s))"
  using tuple_from_buffer[OF assms] by (simp_all add: buf_row_def taken_row_def split: prod.splits)

lemma row_keys:
  "key_of [''tuple_id''] (tuple_to_item f x) = Some (tuple_key (tp_tuple_id x))"
  "key_of [''txn_id'', ''tuple_id''] (buf_row f r) = Some (buf_row_key r)"
  "key_of [''txn_id'', ''tuple_id''] (taken_row f s) = Some (taken_row_key s)"
  by (simp_all add: key_of_def tuple_key_def buf_row_def buf_row_key_def buffer_key_def taken_row_def taken_row_key_def row_lookups
      split: prod.splits)

lemma row_ids:
  "Option.bind (fmlookup (tuple_to_item f x) ''tuple_id'') as_s = Some (tp_tuple_id x)"
  "Option.bind (fmlookup (buf_row f r) ''txn_id'') as_s = Some (fst r)"
  "Option.bind (fmlookup (buf_row f r) ''tuple_id'') as_s = Some (tp_tuple_id (snd r))"
  "Option.bind (fmlookup (taken_row f s) ''txn_id'') as_s = Some (fst s)"
  "Option.bind (fmlookup (taken_row f s) ''tuple_id'') as_s = Some (tp_tuple_id (snd (snd s)))"
  by (simp_all add: buf_row_def taken_row_def row_lookups split: prod.splits)

lemma row_attributes:
  "cond_holds (attribute_eq ''lease_id'' (AvS l)) (tuple_to_item f x) \<longleftrightarrow> tp_lease_id x = l"
  "cond_holds (attribute_eq ''lease_id'' (AvS l)) (buf_row f r) \<longleftrightarrow> tp_lease_id (snd r) = l"
  "cond_holds (attribute_eq ''lease_id'' (AvS l)) (taken_row f s) \<longleftrightarrow> tp_lease_id (snd (snd s)) = l"
  "cond_holds (attribute_eq ''txn_id'' (AvS t)) (buf_row f r) \<longleftrightarrow> fst r = t"
  "cond_holds (attribute_eq ''txn_id'' (AvS t)) (taken_row f s) \<longleftrightarrow> fst s = t"
  "cond_holds (attribute_exists ''tuple_id'') (tuple_to_item f x)"
  by (simp_all add: buf_row_def taken_row_def row_lookups split: prod.splits)

lemma event_kind_from_to:
  "fmlookup i ''on'' = Some (AvS (event_kind_to_str k)) \<Longrightarrow> event_kind_from_item dbg i = Inr k"
  by (cases k) (simp_all add: event_kind_from_item_def)

lemmas watch_lookups = space_watch_item_def put_bytes_lookup fmlookup_of_list

lemma watch_from_to: "watch_from_item dbg ho (space_watch_item w) = Inr w"
  by (cases w) (simp add: watch_from_item_def get_simps get_str_map_av event_kind_from_to watch_lookups get_bytes_def)

lemma watch_row_key: "key_of [''watch_id''] (space_watch_item w) = Some (watch_key (sw_watch_id w))"
  by (simp add: key_of_def watch_key_def watch_lookups)

lemma watch_row_lease: "cond_holds (attribute_eq ''lease_id'' (AvS l)) (space_watch_item w) \<longleftrightarrow> sw_lease_id w = l"
  by (simp add: watch_lookups)

section \<open>Items of a table\<close>

context record_table
begin

lemma scan_items:
  assumes "tok d" "paged (\<lambda>start. map_err g (db_scan DB tbl c lim start d)) (\<lambda>i. Inr [i]) None [] = Some (Inr out)"
  shows "\<exists>rs. distinct (map rkey rs) \<and> (\<forall>r. r \<in> set rs \<longleftrightarrow> view d (rkey r) = Some r \<and> satisfied c (Some (enc r))) \<and> out = map enc rs"
proof -
  from scan_collects[OF assms(2), of "\<lambda>i. [i]"] obtain ks where ks: "distinct ks"
    "set ks = {k. \<exists>i. rows d tbl k = Some i \<and> satisfied c (Some i)}"
    "out = map (\<lambda>k. the (rows d tbl k)) ks" by (auto simp: comp_def)
  from concat_keep[OF assms(1) ks(1,2)] ks(1,3) show ?thesis by metis
qed

lemma query_items:
  assumes "tok d" "paged (\<lambda>start. map_err g (db_query DB tbl idx p (lim start) start d)) (\<lambda>i. Inr [i]) None [] = Some (Inr out)"
  shows "\<exists>rs. distinct (map rkey rs) \<and> (\<forall>r. r \<in> set rs \<longleftrightarrow> view d (rkey r) = Some r \<and> cond_holds p (enc r)) \<and> out = map enc rs"
proof -
  from query_collects[OF assms(2), of "\<lambda>i. [i]"] obtain ks where ks: "distinct ks"
    "set ks = {k. \<exists>i. rows d tbl k = Some i \<and> cond_holds p i}"
    "out = map (\<lambda>k. the (rows d tbl k)) ks" by (auto simp: comp_def)
  from concat_keep[OF assms(1) ks(1,2)] ks(1,3) show ?thesis by metis
qed

end

section \<open>The tables as a view\<close>

definition visible_rows ::
  "('d \<Rightarrow> string \<Rightarrow> key \<Rightarrow> item option) \<Rightarrow> rfc3339 \<Rightarrow> (item \<Rightarrow> string list) \<Rightarrow> space_tables \<Rightarrow> 'd \<Rightarrow> string \<Rightarrow> TupleRecord option" where
  "visible_rows rows f ho T d k = table_view rows (tuple_from_item f ho) (tuple_table T) d (tuple_key k)"

definition written_rows ::
  "('d \<Rightarrow> string \<Rightarrow> key \<Rightarrow> item option) \<Rightarrow> rfc3339 \<Rightarrow> (item \<Rightarrow> string list) \<Rightarrow> space_tables \<Rightarrow> 'd
   \<Rightarrow> string \<Rightarrow> string \<Rightarrow> TupleRecord option" where
  "written_rows rows f ho T d t k =
     map_option snd (table_view rows (buf_row_from f ho) (uncommitted_table T) d (buffer_key t k))"

definition taken_rows ::
  "('d \<Rightarrow> string \<Rightarrow> key \<Rightarrow> item option) \<Rightarrow> rfc3339 \<Rightarrow> (item \<Rightarrow> string list) \<Rightarrow> space_tables \<Rightarrow> 'd
   \<Rightarrow> string \<Rightarrow> string \<Rightarrow> (bool \<times> TupleRecord) option" where
  "taken_rows rows f ho T d t k =
     map_option snd (table_view rows (taken_row_from f ho) (txn_taken_table T) d (buffer_key t k))"

definition space_tables_ok :: "('d \<Rightarrow> string \<Rightarrow> key \<Rightarrow> item option) \<Rightarrow> rfc3339 \<Rightarrow> space_tables \<Rightarrow> 'd \<Rightarrow> bool" where
  "space_tables_ok rows f T d \<longleftrightarrow>
     table_ok rows (tuple_to_item f) (\<lambda>r. tuple_key (tp_tuple_id r)) (tuple_table T) d \<and>
     table_ok rows (buf_row f) buf_row_key (uncommitted_table T) d \<and>
     table_ok rows (taken_row f) taken_row_key (txn_taken_table T) d"

definition represents ::
  "(string \<Rightarrow> TupleRecord option) \<Rightarrow> (string \<Rightarrow> string \<Rightarrow> TupleRecord option) \<Rightarrow> (string \<Rightarrow> string \<Rightarrow> (bool \<times> TupleRecord) option)
   \<Rightarrow> space_view \<Rightarrow> bool" where
  "represents V W K m \<longleftrightarrow> view_ok m \<and>
     (\<forall>k r. V k = Some r \<longleftrightarrow> m k = Some (r, Visible)) \<and>
     (\<forall>t k r. W t k = Some r \<longleftrightarrow> m k = Some (r, Written t)) \<and>
     (\<forall>t k r. K t k = Some (False, r) \<longleftrightarrow> m k = Some (r, Taken t)) \<and>
     (\<forall>t k r. K t k = Some (True, r) \<longleftrightarrow> m k = Some (r, SelfTaken t))"

definition dynamo_space ::
  "('d \<Rightarrow> string \<Rightarrow> key \<Rightarrow> item option) \<Rightarrow> rfc3339 \<Rightarrow> (item \<Rightarrow> string list) \<Rightarrow> space_tables \<Rightarrow> 'd \<Rightarrow> space_view \<Rightarrow> bool" where
  "dynamo_space rows f ho T d m \<longleftrightarrow> space_tables_ok rows f T d \<and>
     represents (visible_rows rows f ho T d) (written_rows rows f ho T d) (taken_rows rows f ho T d) m"

lemma representsD:
  assumes "represents V W K m"
  shows "view_ok m" "V k = Some r \<longleftrightarrow> m k = Some (r, Visible)" "W t k = Some r \<longleftrightarrow> m k = Some (r, Written t)"
    "K t k = Some (False, r) \<longleftrightarrow> m k = Some (r, Taken t)" "K t k = Some (True, r) \<longleftrightarrow> m k = Some (r, SelfTaken t)"
  using assms by (simp_all add: represents_def)

text \<open>How the tables follow a change of the view, one row at a time and for a whole transaction.\<close>

named_theorems rep_intros \<open>how the tables follow a change of the view\<close>

lemma rep_insert [rep_intros]:
  "represents V W K m \<Longrightarrow> unused r m \<Longrightarrow> represents (V(tp_tuple_id r \<mapsto> r)) W K (m(tp_tuple_id r \<mapsto> (r, Visible)))"
  using view_ok_upd[of m r Visible] unusedD(1)[of r m] by (auto simp: represents_def split: if_splits)

lemma rep_write [rep_intros]:
  "represents V W K m \<Longrightarrow> unused r m \<Longrightarrow>
   represents V (W(t := (W t)(tp_tuple_id r \<mapsto> r))) K (m(tp_tuple_id r \<mapsto> (r, Written t)))"
  using view_ok_upd[of m r "Written t"] unusedD(1)[of r m] by (auto simp: represents_def split: if_splits)

lemma rep_drop_visible [rep_intros]:
  "represents V W K m \<Longrightarrow> m k = Some (r, Visible) \<Longrightarrow> represents (V(k := None)) W K (m(k := None))"
  using view_ok_drop[of m k] by (auto simp: represents_def split: if_splits)

lemma rep_drop_written [rep_intros]:
  "represents V W K m \<Longrightarrow> m k = Some (r, Written t) \<Longrightarrow> represents V (W(t := (W t)(k := None))) K (m(k := None))"
  using view_ok_drop[of m k] by (auto simp: represents_def split: if_splits)

lemma rep_drop_taken [rep_intros]:
  "represents V W K m \<Longrightarrow> m k = Some (r, Taken t) \<or> m k = Some (r, SelfTaken t) \<Longrightarrow>
   represents V W (K(t := (K t)(k := None))) (m(k := None))"
  using view_ok_drop[of m k] by (auto simp: represents_def split: if_splits)

lemma rep_record [rep_intros]:
  "represents V W K m \<Longrightarrow> m k = None \<Longrightarrow> st = (if own then SelfTaken t else Taken t) \<Longrightarrow> view_ok (m(k \<mapsto> (r, st))) \<Longrightarrow>
   represents V W (K(t := (K t)(k \<mapsto> (own, r)))) (m(k \<mapsto> (r, st)))"
  by (auto simp: represents_def split: if_splits)

lemma rep_commit:
  assumes "represents V W K m"
  shows "represents (V ++ W t) (W(t := \<lambda>_. None)) (K(t := \<lambda>_. None)) (settle after_commit t m)"
proof -
  note R = representsD[OF assms]
  have V: "(V ++ W t) k = Some r \<longleftrightarrow> m k = Some (r, Visible) \<or> m k = Some (r, Written t)" for k r
  proof (cases "W t k")
    case None
    then show ?thesis using R(2)[of k r] R(3)[of t k r] by (simp add: map_add_def)
  next
    case (Some a)
    then have "m k = Some (a, Written t)" using R(3)[of t k a] by simp
    then show ?thesis using Some by (simp add: map_add_def)
  qed
  show ?thesis unfolding represents_def
  proof (intro conjI allI, goal_cases)
    case 1
    show ?case using R(1) by (rule view_ok_settle)
  next
    case (2 k r)
    show ?case unfolding V settle_commit ..
  next
    case (3 t' k r)
    show ?case using R(3)[of t' k r] by simp
  next
    case (4 t' k r)
    show ?case using R(4)[of t' k r] by simp
  next
    case (5 t' k r)
    show ?case using R(5)[of t' k r] by simp
  qed
qed

text \<open>The tuples of others that a transaction has taken.\<close>

definition untaken :: "(string \<Rightarrow> (bool \<times> TupleRecord) option) \<Rightarrow> string \<Rightarrow> TupleRecord option" where
  "untaken K k = (case K k of Some (False, r) \<Rightarrow> Some r | _ \<Rightarrow> None)"

lemma rep_abort:
  assumes "represents V W K m"
  shows "represents (V ++ untaken (K t)) (W(t := \<lambda>_. None)) (K(t := \<lambda>_. None)) (settle after_abort t m)"
proof -
  note R = representsD[OF assms]
  have V: "(V ++ untaken (K t)) k = Some r \<longleftrightarrow> m k = Some (r, Visible) \<or> m k = Some (r, Taken t)" for k r
  proof (cases "K t k")
    case None
    then show ?thesis using R(2)[of k r] R(4)[of t k r] by (simp add: map_add_def untaken_def)
  next
    case (Some p)
    show ?thesis
    proof (cases "fst p")
      case True
      then have "m k = Some (snd p, SelfTaken t)" using R(5)[of t k "snd p"] Some by (cases p) simp
      then show ?thesis using R(2)[of k r] Some True by (cases p) (simp add: map_add_def untaken_def)
    next
      case False
      then have "m k = Some (snd p, Taken t)" using R(4)[of t k "snd p"] Some by (cases p) simp
      then show ?thesis using Some False by (cases p) (simp add: map_add_def untaken_def)
    qed
  qed
  show ?thesis unfolding represents_def
  proof (intro conjI allI, goal_cases)
    case 1
    show ?case using R(1) by (rule view_ok_settle)
  next
    case (2 k r)
    show ?case unfolding V settle_abort ..
  next
    case (3 t' k r)
    show ?case using R(3)[of t' k r] by simp
  next
    case (4 t' k r)
    show ?case using R(4)[of t' k r] by simp
  next
    case (5 t' k r)
    show ?case using R(5)[of t' k r] by simp
  qed
qed

section \<open>Requests\<close>

locale space_tables_db = dynamo_db DB rows pk pos
  for DB :: "'d dynamo" and rows :: "'d \<Rightarrow> string \<Rightarrow> key \<Rightarrow> item option" and pk pos +
  fixes f :: rfc3339 and ho :: "item \<Rightarrow> string list" and dbg :: "string \<Rightarrow> string" and T :: space_tables
  assumes tuple_pk: "pk (tuple_table T) = [''tuple_id'']"
    and uncommitted_pk: "pk (uncommitted_table T) = [''txn_id'', ''tuple_id'']"
    and taken_pk: "pk (txn_taken_table T) = [''txn_id'', ''tuple_id'']"
    and watches_pk: "pk (watches_table T) = [''watch_id'']"
    and four_tables: "distinct [tuple_table T, uncommitted_table T, txn_taken_table T, watches_table T]"
    and times: "rfc3339_ok f"

sublocale space_tables_db \<subseteq> tp: record_table DB rows pk pos "tuple_table T" "tuple_to_item f" "tuple_from_item f ho"
    "\<lambda>r. tuple_key (tp_tuple_id r)"
  by unfold_locales (simp_all add: tuple_from_to times tuple_pk row_keys)

sublocale space_tables_db \<subseteq> un: record_table DB rows pk pos "uncommitted_table T" "buf_row f" "buf_row_from f ho" buf_row_key
  by unfold_locales (simp_all add: buf_row_from_to times uncommitted_pk row_keys)

sublocale space_tables_db \<subseteq> tk: record_table DB rows pk pos "txn_taken_table T" "taken_row f" "taken_row_from f ho" taken_row_key
  by unfold_locales (simp_all add: taken_row_from_to times taken_pk row_keys)

sublocale space_tables_db \<subseteq> wt: record_table DB rows pk pos "watches_table T" space_watch_item "watch_from_item dbg ho"
    "\<lambda>w. watch_key (sw_watch_id w)"
  by unfold_locales (simp_all add: watch_from_to watches_pk watch_row_key)

context space_tables_db
begin

abbreviation vis where "vis \<equiv> visible_rows rows f ho T"
abbreviation wr where "wr \<equiv> written_rows rows f ho T"
abbreviation tak where "tak \<equiv> taken_rows rows f ho T"
abbreviation tables where "tables \<equiv> space_tables_ok rows f T"
abbreviation shows_view where "shows_view \<equiv> dynamo_space rows f ho T"

lemma key_fsts [simp]:
  "map fst (tuple_key k) = pk (tuple_table T)"
  "map fst (buffer_key t k) = pk (uncommitted_table T)"
  "map fst (buffer_key t k) = pk (txn_taken_table T)"
  "map fst (watch_key k) = pk (watches_table T)"
  by (simp_all add: tuple_key_def buffer_key_def watch_key_def tuple_pk uncommitted_pk taken_pk watches_pk)

lemma tables_iff: "tables d \<longleftrightarrow> tp.tok d \<and> un.tok d \<and> tk.tok d"
  by (simp add: space_tables_ok_def)

lemmas tablesD = tables_iff[THEN iffD1, THEN conjunct1]
  tables_iff[THEN iffD1, THEN conjunct2, THEN conjunct1]
  tables_iff[THEN iffD1, THEN conjunct2, THEN conjunct2]

text \<open>A write to one of the tables leaves the maps of the others.\<close>

lemma same_table:
  assumes "rows d' t = rows d t"
  shows "table_view rows dec t d' = table_view rows dec t d" "table_ok rows enc rkey t d' = table_ok rows enc rkey t d"
  using assms by (simp_all add: table_view_cong[of rows d' t d] table_ok_cong[of rows d' t d])

lemma tables_differ [simp]:
  "tuple_table T \<noteq> uncommitted_table T" "uncommitted_table T \<noteq> tuple_table T"
  "tuple_table T \<noteq> txn_taken_table T" "txn_taken_table T \<noteq> tuple_table T"
  "tuple_table T \<noteq> watches_table T" "watches_table T \<noteq> tuple_table T"
  "uncommitted_table T \<noteq> txn_taken_table T" "txn_taken_table T \<noteq> uncommitted_table T"
  "uncommitted_table T \<noteq> watches_table T" "watches_table T \<noteq> uncommitted_table T"
  "txn_taken_table T \<noteq> watches_table T" "watches_table T \<noteq> txn_taken_table T"
  using four_tables by auto

lemma frame_tuple:
  assumes "\<forall>t. t \<noteq> tuple_table T \<longrightarrow> rows d' t = rows d t"
  shows "wr d' = wr d" "tak d' = tak d" "tables d \<Longrightarrow> tp.tok d' \<Longrightarrow> tables d'" "rows d' (watches_table T) = rows d (watches_table T)"
  using assms
  by (simp_all add: written_rows_def[abs_def] taken_rows_def[abs_def] tables_iff same_table[of d' _ d])

lemma frame_uncommitted:
  assumes "\<forall>t. t \<noteq> uncommitted_table T \<longrightarrow> rows d' t = rows d t"
  shows "vis d' = vis d" "tak d' = tak d" "tables d \<Longrightarrow> un.tok d' \<Longrightarrow> tables d'" "rows d' (watches_table T) = rows d (watches_table T)"
  using assms
  by (simp_all add: visible_rows_def[abs_def] taken_rows_def[abs_def] tables_iff same_table[of d' _ d])

lemma frame_taken:
  assumes "\<forall>t. t \<noteq> txn_taken_table T \<longrightarrow> rows d' t = rows d t"
  shows "vis d' = vis d" "wr d' = wr d" "tables d \<Longrightarrow> tk.tok d' \<Longrightarrow> tables d'" "rows d' (watches_table T) = rows d (watches_table T)"
  using assms
  by (simp_all add: visible_rows_def[abs_def] written_rows_def[abs_def] tables_iff same_table[of d' _ d])

lemma frame_watches:
  assumes "\<forall>t. t \<noteq> watches_table T \<longrightarrow> rows d' t = rows d t"
  shows "shows_view d' m \<longleftrightarrow> shows_view d m"
  using assms
  by (simp add: dynamo_space_def visible_rows_def[abs_def] written_rows_def[abs_def] taken_rows_def[abs_def] space_tables_ok_def
      same_table[of d' _ d])

text \<open>Single writes, on every outcome and on success.\<close>

lemma put_visible:
  assumes "tables d" "put_row DB what (tuple_table T) (tuple_to_item f r) d = (x, d')"
  shows "tables d'" "wr d' = wr d" "tak d' = tak d" "vis d' = vis d \<or> vis d' = (vis d)(tp_tuple_id r \<mapsto> r)"
    "x = Inr u \<Longrightarrow> vis d' = (vis d)(tp_tuple_id r \<mapsto> r)"
proof -
  obtain y where y: "db_put_item DB (tuple_table T) (tuple_to_item f r) None d = (y, d')" "x = Inr u \<Longrightarrow> y = Inr ()"
    using assms(2) by (auto simp: put_row_def split: prod.splits sum.splits)
  note P = tp.put_record[OF tablesD(1)[OF assms(1)] y(1)]
  have fr: "\<forall>t. t \<noteq> tuple_table T \<longrightarrow> rows d' t = rows d t" using put_frame[OF tp.enc_key y(1)] by blast
  note F = frame_tuple[of d' d, OF fr]
  show "wr d' = wr d" "tak d' = tak d" "tables d'" using F(1,2) F(3)[OF assms(1) P(1)] by auto
  have v: "vis d' = (vis d)(tp_tuple_id r \<mapsto> r)" if "tp.view d' = (tp.view d)(tuple_key (tp_tuple_id r) \<mapsto> r)"
    using that by (simp add: visible_rows_def fun_eq_iff)
  moreover have "vis d' = vis d" if "tp.view d' = tp.view d" using that by (simp add: visible_rows_def[abs_def])
  ultimately show "vis d' = vis d \<or> vis d' = (vis d)(tp_tuple_id r \<mapsto> r)" using P(2) by blast
  show "vis d' = (vis d)(tp_tuple_id r \<mapsto> r)" if "x = Inr u" using P(3)[OF y(2)[OF that]] v by blast
qed

lemma put_written:
  assumes "tables d" "put_row DB what (uncommitted_table T) (buffer_item f t r) d = (x, d')"
  shows "tables d'" "vis d' = vis d" "tak d' = tak d"
    "x = Inr u \<Longrightarrow> wr d' = (wr d)(t := (wr d t)(tp_tuple_id r \<mapsto> r))"
proof -
  have row: "buffer_item f t r = buf_row f (t, r)" by (simp add: buf_row_def)
  obtain y where y: "db_put_item DB (uncommitted_table T) (buf_row f (t, r)) None d = (y, d')" "x = Inr u \<Longrightarrow> y = Inr ()"
    using assms(2) by (auto simp: put_row_def row split: prod.splits sum.splits)
  note P = un.put_record[OF tablesD(2)[OF assms(1)] y(1)]
  have fr: "\<forall>t. t \<noteq> uncommitted_table T \<longrightarrow> rows d' t = rows d t" using put_frame[OF un.enc_key y(1)] by blast
  note F = frame_uncommitted[of d' d, OF fr]
  show "vis d' = vis d" "tak d' = tak d" "tables d'" using F(1,2) F(3)[OF assms(1) P(1)] by auto
  show "wr d' = (wr d)(t := (wr d t)(tp_tuple_id r \<mapsto> r))" if "x = Inr u"
    using P(3)[OF y(2)[OF that]] by (simp add: written_rows_def fun_eq_iff buf_row_key_def)
qed

lemma put_taken:
  assumes "tables d" "put_row DB what (txn_taken_table T) (taken_row f (t, own, r)) d = (x, d')"
  shows "tables d'" "vis d' = vis d" "wr d' = wr d"
    "tak d' = tak d \<or> tak d' = (tak d)(t := (tak d t)(tp_tuple_id r \<mapsto> (own, r)))"
    "x = Inr u \<Longrightarrow> tak d' = (tak d)(t := (tak d t)(tp_tuple_id r \<mapsto> (own, r)))"
proof -
  obtain y where y: "db_put_item DB (txn_taken_table T) (taken_row f (t, own, r)) None d = (y, d')" "x = Inr u \<Longrightarrow> y = Inr ()"
    using assms(2) by (auto simp: put_row_def split: prod.splits sum.splits)
  note P = tk.put_record[OF tablesD(3)[OF assms(1)] y(1)]
  have fr: "\<forall>t. t \<noteq> txn_taken_table T \<longrightarrow> rows d' t = rows d t" using put_frame[OF tk.enc_key y(1)] by blast
  note F = frame_taken[of d' d, OF fr]
  show "vis d' = vis d" "wr d' = wr d" "tables d'" using F(1,2) F(3)[OF assms(1) P(1)] by auto
  have v: "tak d' = (tak d)(t := (tak d t)(tp_tuple_id r \<mapsto> (own, r)))"
    if "tk.view d' = (tk.view d)(taken_row_key (t, own, r) \<mapsto> (t, own, r))"
    using that by (simp add: taken_rows_def fun_eq_iff taken_row_key_def)
  moreover have "tak d' = tak d" if "tk.view d' = tk.view d" using that by (simp add: taken_rows_def[abs_def])
  ultimately show "tak d' = tak d \<or> tak d' = (tak d)(t := (tak d t)(tp_tuple_id r \<mapsto> (own, r)))" using P(2) by blast
  show "tak d' = (tak d)(t := (tak d t)(tp_tuple_id r \<mapsto> (own, r)))" if "x = Inr u" using P(3)[OF y(2)[OF that]] v by blast
qed

lemma delete_visible:
  assumes "tables d" "db_delete_item DB (tuple_table T) (tuple_key k) c d = (x, d')"
  shows "tables d'" "wr d' = wr d" "tak d' = tak d" "vis d' = vis d \<or> vis d' = (vis d)(k := None)"
    "x = Inr old \<Longrightarrow> vis d' = (vis d)(k := None) \<and> old = map_option (tuple_to_item f) (vis d k)"
    "x = Inl (ConditionalCheckFailed msg) \<Longrightarrow> \<not> satisfied c (map_option (tuple_to_item f) (vis d k)) \<and> vis d' = vis d"
proof -
  note P = tp.delete_record[OF tablesD(1)[OF assms(1)] key_fsts(1) assms(2)]
  have fr: "\<forall>t. t \<noteq> tuple_table T \<longrightarrow> rows d' t = rows d t" using delete_frame[OF key_fsts(1) assms(2)] by blast
  note F = frame_tuple[of d' d, OF fr]
  show "wr d' = wr d" "tak d' = tak d" "tables d'" using F(1,2) F(3)[OF assms(1) P(1)] by auto
  have v: "vis d' = (vis d)(k := None)" if "tp.view d' = (tp.view d)(tuple_key k := None)"
    using that by (simp add: visible_rows_def fun_eq_iff)
  have s: "vis d' = vis d" if "tp.view d' = tp.view d" using that by (simp add: visible_rows_def[abs_def])
  show "vis d' = vis d \<or> vis d' = (vis d)(k := None)" using P(2) v s by blast
  show "vis d' = (vis d)(k := None) \<and> old = map_option (tuple_to_item f) (vis d k)" if "x = Inr old"
    using P(3)[OF that] v by (simp add: visible_rows_def)
  show "\<not> satisfied c (map_option (tuple_to_item f) (vis d k)) \<and> vis d' = vis d" if "x = Inl (ConditionalCheckFailed msg)"
    using P(4)[OF that] s by (simp add: visible_rows_def)
qed

lemma delete_row_Inr: "delete_row DB tbl k d = (Inr old, d') \<longleftrightarrow> db_delete_item DB tbl k None d = (Inr old, d')"
  by (auto simp: delete_row_def split: prod.splits sum.splits)

lemma delete_row_db: "delete_row DB tbl k d = (x, d') \<Longrightarrow> \<exists>y. db_delete_item DB tbl k None d = (y, d')"
  by (auto simp: delete_row_def split: prod.splits sum.splits)

lemma delete_written:
  assumes "tables d" "delete_row DB (uncommitted_table T) (buffer_key t k) d = (x, d')"
  shows "tables d'" "vis d' = vis d" "tak d' = tak d" "wr d' = wr d \<or> wr d' = (wr d)(t := (wr d t)(k := None))"
    "x = Inr old \<Longrightarrow> wr d' = (wr d)(t := (wr d t)(k := None)) \<and> old = map_option (\<lambda>r. buf_row f (t, r)) (wr d t k)"
proof -
  from delete_row_db[OF assms(2)] obtain y where y: "db_delete_item DB (uncommitted_table T) (buffer_key t k) None d = (y, d')" by blast
  note P = un.delete_record[OF tablesD(2)[OF assms(1)] key_fsts(2) y]
  have fr: "\<forall>t. t \<noteq> uncommitted_table T \<longrightarrow> rows d' t = rows d t" using delete_frame[OF key_fsts(2) y] by blast
  note F = frame_uncommitted[of d' d, OF fr]
  show "vis d' = vis d" "tak d' = tak d" "tables d'" using F(1,2) F(3)[OF assms(1) P(1)] by auto
  have v: "wr d' = (wr d)(t := (wr d t)(k := None))" if "un.view d' = (un.view d)(buffer_key t k := None)"
    using that by (simp add: written_rows_def fun_eq_iff)
  moreover have "wr d' = wr d" if "un.view d' = un.view d" using that by (simp add: written_rows_def[abs_def])
  ultimately show "wr d' = wr d \<or> wr d' = (wr d)(t := (wr d t)(k := None))" using P(2) by blast
  show "wr d' = (wr d)(t := (wr d t)(k := None)) \<and> old = map_option (\<lambda>r. buf_row f (t, r)) (wr d t k)" if "x = Inr old"
  proof -
    have "y = Inr old" using assms(2) y that by (simp add: delete_row_def split: sum.splits)
    note Q = P(3)[OF this]
    have "un.view d (buffer_key t k) = Some r \<Longrightarrow> fst r = t" for r
      using un.view_key[OF tablesD(2)[OF assms(1)]] by (fastforce simp: buf_row_key_def)
    then have "map_option (buf_row f) (un.view d (buffer_key t k)) = map_option (\<lambda>r. buf_row f (t, r)) (wr d t k)"
      by (cases "un.view d (buffer_key t k)") (auto simp: written_rows_def)
    with Q v show ?thesis by simp
  qed
qed

lemma delete_taken:
  assumes "tables d" "delete_row DB (txn_taken_table T) (buffer_key t k) d = (x, d')"
  shows "tables d'" "vis d' = vis d" "wr d' = wr d"
    "x = Inr old \<Longrightarrow> tak d' = (tak d)(t := (tak d t)(k := None)) \<and> old = map_option (\<lambda>r. taken_row f (t, r)) (tak d t k)"
proof -
  from delete_row_db[OF assms(2)] obtain y where y: "db_delete_item DB (txn_taken_table T) (buffer_key t k) None d = (y, d')" by blast
  note P = tk.delete_record[OF tablesD(3)[OF assms(1)] key_fsts(3) y]
  have fr: "\<forall>t. t \<noteq> txn_taken_table T \<longrightarrow> rows d' t = rows d t" using delete_frame[OF key_fsts(3) y] by blast
  note F = frame_taken[of d' d, OF fr]
  show "vis d' = vis d" "wr d' = wr d" "tables d'" using F(1,2) F(3)[OF assms(1) P(1)] by auto
  show "tak d' = (tak d)(t := (tak d t)(k := None)) \<and> old = map_option (\<lambda>r. taken_row f (t, r)) (tak d t k)" if "x = Inr old"
  proof -
    have "y = Inr old" using assms(2) y that by (simp add: delete_row_def split: sum.splits)
    note Q = P(3)[OF this]
    have "tk.view d (buffer_key t k) = Some r \<Longrightarrow> fst r = t" for r
      using tk.view_key[OF tablesD(3)[OF assms(1)]] by (fastforce simp: taken_row_key_def split: prod.splits)
    then have "map_option (taken_row f) (tk.view d (buffer_key t k)) = map_option (\<lambda>r. taken_row f (t, r)) (tak d t k)"
      by (cases "tk.view d (buffer_key t k)") (auto simp: taken_rows_def)
    with Q show ?thesis by (simp add: taken_rows_def fun_eq_iff)
  qed
qed

text \<open>What the searches read.\<close>

lemma scan_visible:
  assumes "tables d" "scan_all DB (tuple_table T) d = Inr items"
  shows "\<exists>rs. distinct (map tp_tuple_id rs) \<and> (\<forall>r. r \<in> set rs \<longleftrightarrow> vis d (tp_tuple_id r) = Some r) \<and> items = map (tuple_to_item f) rs"
proof -
  obtain out where "scan_all_loop DB (tuple_table T) d = Some out"
    using scan_ends unfolding scan_all_loop_def by blast
  then have "scan_all_loop DB (tuple_table T) d = Some (Inr items)" using assms(2) by (simp add: scan_all_def)
  from tp.scan_items[OF tablesD(1)[OF assms(1)] this[unfolded scan_all_loop_def]] obtain rs where
    "distinct (map (\<lambda>r. tuple_key (tp_tuple_id r)) rs)" "\<forall>r. r \<in> set rs \<longleftrightarrow> tp.view d (tuple_key (tp_tuple_id r)) = Some r"
    "items = map (tuple_to_item f) rs" by (auto simp: satisfied_def)
  then show ?thesis by (intro exI[of _ rs]) (auto simp: distinct_map inj_on_def visible_rows_def)
qed

text \<open>The rows of one transaction in a buffer.\<close>

lemma rows_of_txn:
  assumes "distinct (map key ps)" "\<forall>p. p \<in> set ps \<longleftrightarrow> v (key p) = Some p \<and> fst p = t"
    "\<And>k p. v k = Some p \<Longrightarrow> key p = k" "\<And>p. key p = buffer_key (fst p) (g (snd p))"
  shows "\<exists>rs. distinct (map g rs) \<and> (\<forall>r. r \<in> set rs \<longleftrightarrow> map_option snd (v (buffer_key t (g r))) = Some r) \<and> ps = map (Pair t) rs"
proof (intro exI conjI allI)
  let ?rs = "map snd ps"
  have t: "p = (t, snd p)" if "p \<in> set ps" for p using assms(2) that by (cases p) auto
  show "ps = map (Pair t) ?rs" using t by (auto intro: map_idI[symmetric])
  have "map key ps = map (\<lambda>r. buffer_key t (g r)) ?rs" using t assms(4) by (auto simp: prod_eq_iff)
  then show "distinct (map g ?rs)" using assms(1) by (auto simp: distinct_map inj_on_def)
  fix r
  have "r \<in> set ?rs \<longleftrightarrow> (t, r) \<in> set ps" using t by force
  also have "\<dots> \<longleftrightarrow> v (buffer_key t (g r)) = Some (t, r)" using assms(2,4) by simp
  also have "\<dots> \<longleftrightarrow> map_option snd (v (buffer_key t (g r))) = Some r"
    using assms(3)[of "buffer_key t (g r)"] by (cases "v (buffer_key t (g r))") (auto simp: assms(4) prod_eq_iff)
  finally show "r \<in> set ?rs \<longleftrightarrow> map_option snd (v (buffer_key t (g r))) = Some r" .
qed

lemma query_by_pk_items:
  assumes "query_by_pk DB tbl a t d = Inr items"
  shows "paged (\<lambda>start. map_err (\<lambda>e. Storage (''query failed: '' @ sdk_to_string e))
           (db_query DB tbl None (attribute_eq a (AvS t)) None start d)) (\<lambda>i. Inr [i]) None [] = Some (Inr items)"
proof -
  obtain out where "query_by_pk_loop DB tbl a t d = Some out"
    using query_ends[where lim = "\<lambda>_. None"] unfolding query_by_pk_loop_def by blast
  then show ?thesis using assms by (simp add: query_by_pk_def query_by_pk_loop_def)
qed

lemma query_written:
  assumes "tables d" "query_by_pk DB (uncommitted_table T) ''txn_id'' t d = Inr items"
  shows "\<exists>rs. distinct (map tp_tuple_id rs) \<and> (\<forall>r. r \<in> set rs \<longleftrightarrow> wr d t (tp_tuple_id r) = Some r) \<and>
    items = map (\<lambda>r. buf_row f (t, r)) rs"
proof -
  note ok = tablesD(2)[OF assms(1)]
  from un.query_items[where lim = "\<lambda>_. None", OF ok query_by_pk_items[OF assms(2)]] obtain ps where ps:
    "distinct (map buf_row_key ps)" "\<forall>p. p \<in> set ps \<longleftrightarrow> un.view d (buf_row_key p) = Some p \<and> fst p = t"
    "items = map (buf_row f) ps" unfolding row_attributes by blast
  from rows_of_txn[OF ps(1,2) un.view_key[OF ok], of tp_tuple_id] ps(3) show ?thesis
    by (auto simp: buf_row_key_def written_rows_def comp_def)
qed

lemma query_taken:
  assumes "tables d" "query_by_pk DB (txn_taken_table T) ''txn_id'' t d = Inr items"
  shows "\<exists>rs. distinct (map (tp_tuple_id \<circ> snd) rs) \<and> (\<forall>r. r \<in> set rs \<longleftrightarrow> tak d t (tp_tuple_id (snd r)) = Some r) \<and>
    items = map (\<lambda>r. taken_row f (t, r)) rs"
proof -
  note ok = tablesD(3)[OF assms(1)]
  from tk.query_items[where lim = "\<lambda>_. None", OF ok query_by_pk_items[OF assms(2)]] obtain ps where ps:
    "distinct (map taken_row_key ps)" "\<forall>p. p \<in> set ps \<longleftrightarrow> tk.view d (taken_row_key p) = Some p \<and> fst p = t"
    "items = map (taken_row f) ps" unfolding row_attributes by blast
  from rows_of_txn[OF ps(1,2) tk.view_key[OF ok], of "tp_tuple_id \<circ> snd"] obtain rs where
    "distinct (map (tp_tuple_id \<circ> snd) rs)" "\<forall>r. r \<in> set rs \<longleftrightarrow> tak d t (tp_tuple_id (snd r)) = Some r" "ps = map (Pair t) rs"
    by (auto simp: taken_row_key_def taken_rows_def split: prod.splits)
  with ps(3) show ?thesis by (intro exI[of _ rs]) (simp add: comp_def)
qed

section \<open>The loops of commit and abort\<close>

lemma from_rows [simp]:
  "tuple_from_item f ho (tuple_to_item f r) = Inr r"
  "tuple_from_item f ho (buf_row f p) = Inr (snd p)"
  "tuple_from_item f ho (taken_row f q) = Inr (snd (snd q))"
  using tuple_from_to[OF times] tuple_from_rows[OF times] by simp_all

lemma own_rows [simp]: "is_own_write (taken_row f (t, p)) \<longleftrightarrow> fst p"
  by (cases p) (simp add: taken_row_def own_write_iff)

lemma drop_restrict: "(m(k := None)) |` (- B) = m |` (- insert k B)"
  by (simp add: restrict_map_def fun_eq_iff)

lemma dom_index: "dom (map_of (map (\<lambda>r. (g r, h r)) rs)) = g ` set rs"
  by (simp add: dom_map_of_conv_image_fst image_image)

lemmas index_simps = list.map list.set map_of.simps fst_conv snd_conv map_add_upd image_insert append_assoc append.simps

lemma flush_rows:
  assumes "tables d" "distinct (map tp_tuple_id rs)" "flush_items f ho DB T t (map (\<lambda>r. buf_row f (t, r)) rs) acc d = (Inr out, d')"
  shows "tables d' \<and> out = acc @ rs \<and> tak d' = tak d \<and> vis d' = vis d ++ map_of (map (\<lambda>r. (tp_tuple_id r, r)) rs) \<and>
    wr d' = (wr d)(t := wr d t |` (- (tp_tuple_id ` set rs)))"
  using assms
proof (induction rs arbitrary: acc d)
  case Nil
  then show ?case by (simp add: restrict_map_def fun_upd_idem)
next
  case (Cons r rs)
  from Cons.prems(3) obtain u d1 old d2 where s:
    "put_row DB ''put_item'' (tuple_table T) (tuple_to_item f r) d = (Inr u, d1)"
    "delete_row DB (uncommitted_table T) (buffer_key t (tp_tuple_id r)) d1 = (Inr old, d2)"
    "flush_items f ho DB T t (map (\<lambda>r. buf_row f (t, r)) rs) (acc @ [r]) d2 = (Inr out, d')"
    by (auto simp: DynamoSpaceStore_insert_def split: prod.splits sum.splits)
  note P = put_visible[OF Cons.prems(1) s(1)]
  note D = delete_written[OF P(1) s(2)]
  have k: "tp_tuple_id r \<notin> dom (map_of (map (\<lambda>r. (tp_tuple_id r, r)) rs))" using Cons.prems(2) by (simp add: dom_index)
  have dis: "distinct (map tp_tuple_id rs)" using Cons.prems(2) by simp
  note eqs = D(2,3) D(5)[OF refl, THEN conjunct1] P(2,3) P(5)[OF refl] fun_upd_same fun_upd_upd
  note I = Cons.IH[OF D(1) dis s(3), unfolded eqs drop_restrict map_add_upd_left[OF k]]
  then show ?case unfolding index_simps .
qed

lemma drop_written_rows:
  assumes "tables d" "drop_items f ho DB (uncommitted_table T) t (map (\<lambda>r. buf_row f (t, r)) rs) acc d = (Inr out, d')"
  shows "tables d' \<and> out = acc @ rs \<and> vis d' = vis d \<and> tak d' = tak d \<and>
    wr d' = (wr d)(t := wr d t |` (- (tp_tuple_id ` set rs)))"
  using assms
proof (induction rs arbitrary: acc d)
  case Nil
  then show ?case by (simp add: restrict_map_def fun_upd_idem)
next
  case (Cons r rs)
  from Cons.prems(2) obtain old d1 where s:
    "delete_row DB (uncommitted_table T) (buffer_key t (tp_tuple_id r)) d = (Inr old, d1)"
    "drop_items f ho DB (uncommitted_table T) t (map (\<lambda>r. buf_row f (t, r)) rs) (acc @ [r]) d1 = (Inr out, d')"
    by (auto split: prod.splits sum.splits)
  note D = delete_written[OF Cons.prems(1) s(1)]
  note eqs = D(2,3) D(5)[OF refl, THEN conjunct1] fun_upd_same fun_upd_upd
  from Cons.IH[OF D(1) s(2), unfolded eqs drop_restrict] show ?case unfolding index_simps .
qed

lemma drop_taken_rows:
  assumes "tables d" "drop_items f ho DB (txn_taken_table T) t (map (\<lambda>r. taken_row f (t, r)) rs) acc d = (Inr out, d')"
  shows "tables d' \<and> out = acc @ map snd rs \<and> vis d' = vis d \<and> wr d' = wr d \<and>
    tak d' = (tak d)(t := tak d t |` (- ((\<lambda>r. tp_tuple_id (snd r)) ` set rs)))"
  using assms
proof (induction rs arbitrary: acc d)
  case Nil
  then show ?case by (simp add: restrict_map_def fun_upd_idem)
next
  case (Cons r rs)
  from Cons.prems(2) obtain old d1 where s:
    "delete_row DB (txn_taken_table T) (buffer_key t (tp_tuple_id (snd r))) d = (Inr old, d1)"
    "drop_items f ho DB (txn_taken_table T) t (map (\<lambda>r. taken_row f (t, r)) rs) (acc @ [snd r]) d1 = (Inr out, d')"
    by (auto split: prod.splits sum.splits)
  note D = delete_taken[OF Cons.prems(1) s(1)]
  note eqs = D(2,3) D(4)[OF refl, THEN conjunct1] fun_upd_same fun_upd_upd
  from Cons.IH[OF D(1) s(2), unfolded eqs drop_restrict] show ?case unfolding index_simps .
qed

lemma restore_rows:
  assumes "tables d" "distinct (map (tp_tuple_id \<circ> snd) rs)"
    "restore_items f ho DB T t (map (\<lambda>r. taken_row f (t, r)) rs) acc acc' d = (Inr (discarded, restored), d')"
  shows "tables d' \<and> discarded = acc @ map snd (filter fst rs) \<and> restored = acc' @ map snd (filter (Not \<circ> fst) rs) \<and>
    wr d' = wr d \<and> vis d' = vis d ++ map_of (map (\<lambda>r. (tp_tuple_id (snd r), snd r)) (filter (Not \<circ> fst) rs)) \<and>
    tak d' = (tak d)(t := tak d t |` (- ((\<lambda>r. tp_tuple_id (snd r)) ` set rs)))"
  using assms
proof (induction rs arbitrary: acc acc' d)
  case Nil
  then show ?case by (simp add: restrict_map_def fun_upd_idem)
next
  case (Cons r rs)
  from Cons.prems(3) obtain u d1 old d2 where s:
    "(if fst r then (Inr (), d) else put_row DB ''put_item'' (tuple_table T) (tuple_to_item f (snd r)) d) = (Inr u, d1)"
    "delete_row DB (txn_taken_table T) (buffer_key t (tp_tuple_id (snd r))) d1 = (Inr old, d2)"
    "restore_items f ho DB T t (map (\<lambda>r. taken_row f (t, r)) rs) (if fst r then acc @ [snd r] else acc)
       (if fst r then acc' else acc' @ [snd r]) d2 = (Inr (discarded, restored), d')"
    by (auto simp: DynamoSpaceStore_insert_def split: prod.splits sum.splits if_splits)
  have k: "tp_tuple_id (snd r) \<notin> dom (map_of (map (\<lambda>r. (tp_tuple_id (snd r), snd r)) (filter (Not \<circ> fst) rs)))"
    using Cons.prems(2) by (auto simp: dom_index)
  have dis: "distinct (map (tp_tuple_id \<circ> snd) rs)" using Cons.prems(2) by (simp add: comp_def)
  show ?case
  proof (cases "fst r")
    case True
    then have d1: "d1 = d" using s(1) by simp
    note D = delete_taken[OF Cons.prems(1) s(2)[unfolded d1]]
    note eqs = D(2,3) D(4)[OF refl, THEN conjunct1] fun_upd_same fun_upd_upd
    from Cons.IH[OF D(1) dis s(3), unfolded eqs drop_restrict] True show ?thesis by (simp only: index_simps filter.simps comp_def if_True simp_thms if_False)
  next
    case False
    note P = put_visible[OF Cons.prems(1) s(1)[simplified False if_False]]
    note D = delete_taken[OF P(1) s(2)]
    note eqs = D(2,3) D(4)[OF refl, THEN conjunct1] P(2,3) P(5)[OF refl] fun_upd_same fun_upd_upd
    from Cons.IH[OF D(1) dis s(3), unfolded eqs drop_restrict map_add_upd_left[OF k]] False show ?thesis
      by (simp only: index_simps filter.simps comp_def if_True simp_thms if_False)
  qed
qed

text \<open>All rows of a transaction are those its searches return.\<close>

lemma same_map: "(\<And>k v. m k = Some v \<longleftrightarrow> m' k = Some v) \<Longrightarrow> m = m'"
  by (rule ext) (metis option.exhaust)

lemma index_Some:
  assumes "distinct (map g rs)"
  shows "map_of (map (\<lambda>r. (g r, h r)) rs) k = Some v \<longleftrightarrow> (\<exists>r \<in> set rs. g r = k \<and> h r = v)"
proof -
  have "distinct (map fst (map (\<lambda>r. (g r, h r)) rs))" using assms by (simp add: comp_def)
  from map_of_eq_Some_iff[OF this] show ?thesis by auto
qed

lemma restrict_all:
  assumes "\<And>r. r \<in> set rs \<longleftrightarrow> m (g r) = Some r" "\<And>k r. m k = Some r \<Longrightarrow> g r = k"
  shows "m |` (- (g ` set rs)) = (\<lambda>_. None)"
proof (rule same_map)
  fix k v
  have "m k = Some v \<Longrightarrow> k \<in> g ` set rs" using assms(1)[of v] assms(2)[of k v] by auto
  then show "(m |` (- (g ` set rs))) k = Some v \<longleftrightarrow> None = Some v" by (auto simp: restrict_map_def)
qed

lemma shows_viewD:
  assumes "shows_view d m"
  shows "tables d" "represents (vis d) (wr d) (tak d) m" "view_ok m"
    "wr d t k = Some r \<Longrightarrow> tp_tuple_id r = k" "tak d t k = Some q \<Longrightarrow> tp_tuple_id (snd q) = k"
proof -
  show rep: "tables d" "represents (vis d) (wr d) (tak d) m" using assms by (simp_all add: dynamo_space_def)
  note R = representsD[OF rep(2)]
  show "view_ok m" by (rule R(1))
  show "tp_tuple_id r = k" if "wr d t k = Some r" using R(3)[of t k r] that view_okD(1)[OF R(1)] by blast
  show "tp_tuple_id (snd q) = k" if "tak d t k = Some q"
    using R(4,5)[of t k "snd q"] that view_okD(1)[OF R(1)] by (cases q; cases "fst q") auto
qed

lemma taken_iff:
  assumes "shows_view d m" "\<And>q. q \<in> set qs \<longleftrightarrow> tak d t (tp_tuple_id (snd q)) = Some q"
  shows "r \<in> set (map snd (filter fst qs)) \<longleftrightarrow> m (tp_tuple_id r) = Some (r, SelfTaken t)"
    "r \<in> set (map snd (filter (Not \<circ> fst) qs)) \<longleftrightarrow> m (tp_tuple_id r) = Some (r, Taken t)"
proof -
  note R = representsD(4,5)[OF shows_viewD(2)[OF assms(1)], of t "tp_tuple_id r" r]
  have "r \<in> set (map snd (filter fst qs)) \<longleftrightarrow> (True, r) \<in> set qs" by force
  also have "\<dots> \<longleftrightarrow> m (tp_tuple_id r) = Some (r, SelfTaken t)" using R(2) assms(2)[of "(True, r)"] by simp
  finally show "r \<in> set (map snd (filter fst qs)) \<longleftrightarrow> m (tp_tuple_id r) = Some (r, SelfTaken t)" .
  have "r \<in> set (map snd (filter (Not \<circ> fst) qs)) \<longleftrightarrow> (False, r) \<in> set qs" by force
  also have "\<dots> \<longleftrightarrow> m (tp_tuple_id r) = Some (r, Taken t)" using R(1) assms(2)[of "(False, r)"] by simp
  finally show "r \<in> set (map snd (filter (Not \<circ> fst) qs)) \<longleftrightarrow> m (tp_tuple_id r) = Some (r, Taken t)" .
qed

lemma commit_view:
  assumes "shows_view d m" "DynamoSpaceStore_commit_txn f ho DB T t d = (Inr (flushed, taken), d')"
  shows "shows_view d' (settle after_commit t m) \<and> distinct flushed \<and> distinct taken \<and>
    (\<forall>r. r \<in> set flushed \<longleftrightarrow> m (tp_tuple_id r) = Some (r, Written t)) \<and>
    (\<forall>r. r \<in> set taken \<longleftrightarrow> m (tp_tuple_id r) = Some (r, Taken t) \<or> m (tp_tuple_id r) = Some (r, SelfTaken t))"
proof -
  note V = shows_viewD[OF assms(1)]
  from assms(2) obtain items d1 items' where c:
    "query_by_pk DB (uncommitted_table T) ''txn_id'' t d = Inr items"
    "flush_items f ho DB T t items [] d = (Inr flushed, d1)"
    "query_by_pk DB (txn_taken_table T) ''txn_id'' t d1 = Inr items'"
    "drop_items f ho DB (txn_taken_table T) t items' [] d1 = (Inr taken, d')"
    by (auto simp: DynamoSpaceStore_commit_txn_def split: sum.splits prod.splits)
  from query_written[OF V(1) c(1)] obtain rs where rs: "distinct (map tp_tuple_id rs)"
    "\<And>r. r \<in> set rs \<longleftrightarrow> wr d t (tp_tuple_id r) = Some r" "items = map (\<lambda>r. buf_row f (t, r)) rs" by blast
  note F = flush_rows[OF V(1) rs(1) c(2)[unfolded rs(3)]]
  have F': "tables d1" "tak d1 = tak d" using F by simp_all
  from query_taken[OF F'(1) c(3), unfolded F'(2)] obtain qs where qs: "distinct (map (tp_tuple_id \<circ> snd) qs)"
    "\<And>q. q \<in> set qs \<longleftrightarrow> tak d t (tp_tuple_id (snd q)) = Some q" "items' = map (\<lambda>r. taken_row f (t, r)) qs" by blast
  note D = drop_taken_rows[OF F'(1) c(4)[unfolded qs(3)]]
  note I = restrict_all[where g = tp_tuple_id and m = "wr d t", OF rs(2) V(4)]
  note J = restrict_all[where g = "\<lambda>q. tp_tuple_id (snd q)" and m = "tak d t", OF qs(2) V(5)]
  have "map_of (map (\<lambda>r. (tp_tuple_id r, r)) rs) = wr d t"
  proof (rule same_map)
    fix k r
    show "map_of (map (\<lambda>r. (tp_tuple_id r, r)) rs) k = Some r \<longleftrightarrow> wr d t k = Some r"
      unfolding index_Some[OF rs(1)] using rs(2)[of r] V(4)[of t k r] by auto
  qed
  then have new: "vis d' = vis d ++ wr d t" "wr d' = (wr d)(t := \<lambda>_. None)" "tak d' = (tak d)(t := \<lambda>_. None)"
    using F D I J by simp_all
  have "shows_view d' (settle after_commit t m)" using rep_commit[OF V(2), of t] D by (simp add: dynamo_space_def new)
  moreover have "distinct (map snd qs)" using qs(1) by (metis distinct_map map_map)
  moreover have "r \<in> set (map snd qs) \<longleftrightarrow> m (tp_tuple_id r) = Some (r, Taken t) \<or> m (tp_tuple_id r) = Some (r, SelfTaken t)" for r
    using taken_iff[OF assms(1) qs(2), of r, symmetric] by force
  moreover have "r \<in> set rs \<longleftrightarrow> m (tp_tuple_id r) = Some (r, Written t)" for r
    using rs(2)[of r] representsD(3)[OF V(2)] by simp
  moreover have "distinct rs" using rs(1) by (simp add: distinct_map)
  ultimately show ?thesis using F D by simp
qed

lemma abort_view:
  assumes "shows_view d m" "DynamoSpaceStore_abort_txn f ho DB T t d = (Inr (discarded, restored), d')"
  shows "shows_view d' (settle after_abort t m) \<and> distinct discarded \<and> distinct restored \<and>
    (\<forall>r. r \<in> set discarded \<longleftrightarrow> m (tp_tuple_id r) = Some (r, Written t) \<or> m (tp_tuple_id r) = Some (r, SelfTaken t)) \<and>
    (\<forall>r. r \<in> set restored \<longleftrightarrow> m (tp_tuple_id r) = Some (r, Taken t))"
proof -
  note V = shows_viewD[OF assms(1)]
  from assms(2) obtain items dropped d1 items' where c:
    "query_by_pk DB (uncommitted_table T) ''txn_id'' t d = Inr items"
    "drop_items f ho DB (uncommitted_table T) t items [] d = (Inr dropped, d1)"
    "query_by_pk DB (txn_taken_table T) ''txn_id'' t d1 = Inr items'"
    "restore_items f ho DB T t items' dropped [] d1 = (Inr (discarded, restored), d')"
    by (auto simp: DynamoSpaceStore_abort_txn_def split: sum.splits prod.splits)
  from query_written[OF V(1) c(1)] obtain rs where rs: "distinct (map tp_tuple_id rs)"
    "\<And>r. r \<in> set rs \<longleftrightarrow> wr d t (tp_tuple_id r) = Some r" "items = map (\<lambda>r. buf_row f (t, r)) rs" by blast
  note F = drop_written_rows[OF V(1) c(2)[unfolded rs(3)]]
  have F': "tables d1" "tak d1 = tak d" using F by simp_all
  from query_taken[OF F'(1) c(3), unfolded F'(2)] obtain qs where qs: "distinct (map (tp_tuple_id \<circ> snd) qs)"
    "\<And>q. q \<in> set qs \<longleftrightarrow> tak d t (tp_tuple_id (snd q)) = Some q" "items' = map (\<lambda>r. taken_row f (t, r)) qs" by blast
  note D = restore_rows[OF F'(1) qs(1) c(4)[unfolded qs(3)]]
  note I = restrict_all[where g = tp_tuple_id and m = "wr d t", OF rs(2) V(4)]
  note J = restrict_all[where g = "\<lambda>q. tp_tuple_id (snd q)" and m = "tak d t", OF qs(2) V(5)]
  have dis: "distinct (map (\<lambda>q. tp_tuple_id (snd q)) (filter (Not \<circ> fst) qs))"
    using qs(1) by (simp add: comp_def distinct_map_filter)
  have "map_of (map (\<lambda>q. (tp_tuple_id (snd q), snd q)) (filter (Not \<circ> fst) qs)) = untaken (tak d t)"
  proof (rule same_map)
    fix k r
    have "untaken (tak d t) k = Some r \<longleftrightarrow> tak d t k = Some (False, r)" by (auto simp: untaken_def split: option.splits bool.splits)
    also have "\<dots> \<longleftrightarrow> (False, r) \<in> set qs \<and> tp_tuple_id r = k" using qs(2)[of "(False, r)"] V(5)[of t k "(False, r)"] by auto
    finally show "map_of (map (\<lambda>q. (tp_tuple_id (snd q), snd q)) (filter (Not \<circ> fst) qs)) k = Some r \<longleftrightarrow> untaken (tak d t) k = Some r"
      unfolding index_Some[OF dis] by force
  qed
  then have new: "vis d' = vis d ++ untaken (tak d t)" "wr d' = (wr d)(t := \<lambda>_. None)" "tak d' = (tak d)(t := \<lambda>_. None)"
    using F D I J by simp_all
  have "shows_view d' (settle after_abort t m)" using rep_abort[OF V(2), of t] D by (simp add: dynamo_space_def new)
  moreover have dis': "distinct (map snd (filter P qs))" "distinct rs" for P
    using qs(1) rs(1) by (metis distinct_map map_map distinct_map_filter)+
  note out = taken_iff[OF assms(1) qs(2)]
  moreover have W: "r \<in> set rs \<longleftrightarrow> m (tp_tuple_id r) = Some (r, Written t)" for r
    using rs(2)[of r] representsD(3)[OF V(2)] by simp
  moreover have "distinct (rs @ map snd (filter fst qs))"
    using dis' W out(1) by (fastforce simp del: set_map set_filter)
  moreover have "r \<in> set (rs @ map snd (filter fst qs)) \<longleftrightarrow>
      m (tp_tuple_id r) = Some (r, Written t) \<or> m (tp_tuple_id r) = Some (r, SelfTaken t)" for r
    using W[of r] out(1)[of r] by (simp del: set_map set_filter)
  ultimately show ?thesis using F D dis'(1)[of "Not \<circ> fst"] by (simp del: set_map set_filter)
qed

end

end
