(* ===== verification/Dynamo_Take.thy ===== *)
theory Dynamo_Take
  imports Dynamo_Tuples
begin

text \<open>
  The operations of the space store on DynamoDB against its contract: searches, removal by lease, takes under
  interference, and watches; and the contract itself.
\<close>

text \<open>
  Ids are not reused: under the id of a scanned tuple there is that tuple or none. What others do keeps the contract and
  a property of the views that implies this.
\<close>

definition agrees :: "TupleRecord list \<Rightarrow> space_view \<Rightarrow> bool" where
  "agrees rs m \<longleftrightarrow> (\<forall>r \<in> set rs. \<forall>r' st. m (tp_tuple_id r) = Some (r', st) \<longrightarrow> r' = r)"

definition keeps :: "('d \<Rightarrow> space_view \<Rightarrow> bool) \<Rightarrow> (space_view \<Rightarrow> bool) \<Rightarrow> ('d \<Rightarrow> 'd) \<Rightarrow> bool" where
  "keeps view I g \<longleftrightarrow> (\<forall>d m. view d m \<longrightarrow> I m \<longrightarrow> (\<exists>m'. view (g d) m' \<and> I m'))"

text \<open>The watches of a table, and that no two have the same lease.\<close>

definition dynamo_watches ::
  "('d \<Rightarrow> string \<Rightarrow> key \<Rightarrow> item option) \<Rightarrow> (string \<Rightarrow> string) \<Rightarrow> (item \<Rightarrow> string list) \<Rightarrow> space_tables \<Rightarrow> 'd \<Rightarrow> string
   \<Rightarrow> SpaceWatchRecord option" where
  "dynamo_watches rows dbg ho T d k = table_view rows (watch_from_item dbg ho) (watches_table T) d (watch_key k)"

definition dynamo_watches_ok ::
  "('d \<Rightarrow> string \<Rightarrow> key \<Rightarrow> item option) \<Rightarrow> (string \<Rightarrow> string) \<Rightarrow> (item \<Rightarrow> string list) \<Rightarrow> space_tables \<Rightarrow> 'd \<Rightarrow> bool" where
  "dynamo_watches_ok rows dbg ho T d \<longleftrightarrow>
     table_ok rows space_watch_item (\<lambda>w. watch_key (sw_watch_id w)) (watches_table T) d \<and>
     (\<forall>k k' w w'. dynamo_watches rows dbg ho T d k = Some w \<longrightarrow> dynamo_watches rows dbg ho T d k' = Some w' \<longrightarrow>
        sw_lease_id w = sw_lease_id w' \<longrightarrow> w = w')"

section \<open>Searches\<close>

lemma first_match_rows:
  assumes "\<And>x. x \<in> set xs \<Longrightarrow> tuple_from_item f ho (e x) = Inr (g x)"
  shows "first_match f ho ops (map e xs) = Inr (List.find (\<lambda>r. matches ops (tp_attrs r)) (map g xs))"
  using assms by (induction xs) auto

lemma all_matches_rows:
  assumes "\<And>x. x \<in> set xs \<Longrightarrow> tuple_from_item f ho (e x) = Inr (g x)"
  shows "all_matches f ho ops (map e xs) acc = Inr (acc @ filter (\<lambda>r. matches ops (tp_attrs r)) (map g xs))"
  using assms
proof (induction xs arbitrary: acc)
  case (Cons x xs)
  then show ?case by (cases "ops = fmempty") (simp_all add: all_matches_def decoding_def)
qed (simp add: all_matches_def)

context space_tables_db
begin

lemma sees_rows:
  assumes "shows_view d m"
  shows "sees txn template m r \<longleftrightarrow> matches (parse_template template) (tp_attrs r) \<and>
    (vis d (tp_tuple_id r) = Some r \<or> (\<exists>t. txn = Some t \<and> wr d t (tp_tuple_id r) = Some r))"
proof -
  note R = representsD[OF shows_viewD(2)[OF assms]]
  have "sees txn template m r \<longleftrightarrow> matches (parse_template template) (tp_attrs r) \<and>
    (m (tp_tuple_id r) = Some (r, Visible) \<or> (\<exists>t. txn = Some t \<and> m (tp_tuple_id r) = Some (r, Written t)))"
    by (auto simp: sees_def elim: seen_by.elims)
  then show ?thesis using R(2)[of "tp_tuple_id r" r] R(3)[of _ "tp_tuple_id r" r] by simp
qed

lemma own_match_rows:
  assumes "tables d" "own_match f ho DB T ops txn d = Inr x"
  shows "case x of Some r \<Rightarrow> \<exists>t. txn = Some t \<and> wr d t (tp_tuple_id r) = Some r \<and> matches ops (tp_attrs r)
    | None \<Rightarrow> \<forall>t r. txn = Some t \<longrightarrow> wr d t (tp_tuple_id r) = Some r \<longrightarrow> \<not> matches ops (tp_attrs r)"
proof (cases txn)
  case None
  then show ?thesis using assms(2) by (simp add: own_match_def)
next
  case (Some t)
  with assms(2) obtain items where q: "query_by_pk DB (uncommitted_table T) ''txn_id'' t d = Inr items"
    "first_match f ho ops items = Inr x" by (auto simp: own_match_def split: sum.splits)
  from query_written[OF assms(1) q(1)] obtain rs where rs: "\<forall>r. r \<in> set rs \<longleftrightarrow> wr d t (tp_tuple_id r) = Some r"
    "items = map (\<lambda>r. buf_row f (t, r)) rs" by blast
  have "x = List.find (\<lambda>r. matches ops (tp_attrs r)) rs"
    using q(2) first_match_rows[of rs f ho "\<lambda>r. buf_row f (t, r)" "\<lambda>r. r" ops] by (simp add: rs(2))
  then show ?thesis using rs(1) Some find_eq_Some_prop[of _ rs] find_eq_None[of _ rs] by (auto split: option.splits)
qed

lemma find_match_view:
  assumes "shows_view d m" "DynamoSpaceStore_find_match f ho DB T template txn d = Inr x"
  shows "case x of Some r \<Rightarrow> sees txn template m r | None \<Rightarrow> \<forall>r. \<not> sees txn template m r"
proof -
  let ?ops = "parse_template template"
  note tabs = shows_viewD(1)[OF assms(1)]
  from assms(2) obtain items where q: "scan_all DB (tuple_table T) d = Inr items"
    by (auto simp: DynamoSpaceStore_find_match_def Let_def split: sum.splits)
  from scan_visible[OF tabs q] obtain rs where rs: "\<forall>r. r \<in> set rs \<longleftrightarrow> vis d (tp_tuple_id r) = Some r"
    "items = map (tuple_to_item f) rs" by blast
  have first: "first_match f ho ?ops items = Inr (List.find (\<lambda>r. matches ?ops (tp_attrs r)) rs)"
    using first_match_rows[of rs f ho "tuple_to_item f" "\<lambda>r. r" ?ops] by (simp add: rs(2))
  show ?thesis
  proof (cases "List.find (\<lambda>r. matches ?ops (tp_attrs r)) rs")
    case None
    then have "own_match f ho DB T ?ops txn d = Inr x" using assms(2) q first by (simp add: DynamoSpaceStore_find_match_def)
    from own_match_rows[OF tabs this] None rs(1) show ?thesis
      by (auto simp: sees_rows[OF assms(1)] find_eq_None split: option.splits)
  next
    case (Some r)
    then have "x = Some r" using assms(2) q first by (simp add: DynamoSpaceStore_find_match_def)
    with find_eq_Some_prop[OF Some] rs(1) show ?thesis by (simp add: sees_rows[OF assms(1)])
  qed
qed

lemma find_all_view:
  assumes "shows_view d m" "DynamoSpaceStore_find_all_matches f ho DB T template txn d = Inr rs"
  shows "distinct rs \<and> (\<forall>r. r \<in> set rs \<longleftrightarrow> sees txn template m r)"
proof -
  let ?ops = "parse_template template" and ?M = "\<lambda>r. matches (parse_template template) (tp_attrs r)"
  note V = shows_viewD[OF assms(1)]
  from assms(2) obtain items where q: "scan_all DB (tuple_table T) d = Inr items"
    by (auto simp: DynamoSpaceStore_find_all_matches_def Let_def split: sum.splits)
  from scan_visible[OF V(1) q] obtain vs where vs: "distinct (map tp_tuple_id vs)" "\<And>r. r \<in> set vs \<longleftrightarrow> vis d (tp_tuple_id r) = Some r"
    "items = map (tuple_to_item f) vs" by blast
  have all: "all_matches f ho ?ops items [] = Inr (filter ?M vs)"
    using all_matches_rows[of vs f ho "tuple_to_item f" "\<lambda>r. r" ?ops] by (simp add: vs(3))
  have dv: "distinct vs" using vs(1) by (simp add: distinct_map)
  show ?thesis
  proof (cases txn)
    case None
    then have "rs = filter ?M vs" using assms(2) q all by (simp add: DynamoSpaceStore_find_all_matches_def)
    then show ?thesis using None dv vs(2) by (auto simp: sees_rows[OF assms(1)])
  next
    case (Some t)
    with assms(2) q all obtain items' where q': "query_by_pk DB (uncommitted_table T) ''txn_id'' t d = Inr items'"
      "all_matches f ho ?ops items' (filter ?M vs) = Inr rs"
      by (auto simp: DynamoSpaceStore_find_all_matches_def Let_def split: sum.splits)
    from query_written[OF V(1) q'(1)] obtain ws where ws: "distinct (map tp_tuple_id ws)"
      "\<And>r. r \<in> set ws \<longleftrightarrow> wr d t (tp_tuple_id r) = Some r" "items' = map (\<lambda>r. buf_row f (t, r)) ws" by blast
    have rs: "rs = filter ?M vs @ filter ?M ws"
      using q'(2) all_matches_rows[of ws f ho "\<lambda>r. buf_row f (t, r)" "\<lambda>r. r" ?ops] by (simp add: ws(3))
    have "set vs \<inter> set ws = {}"
    proof (rule equals0I)
      fix r assume "r \<in> set vs \<inter> set ws"
      then show False using vs(2)[of r] ws(2)[of r] representsD(2,3)[OF V(2)] by auto
    qed
    moreover have "distinct ws" using ws(1) by (simp add: distinct_map)
    ultimately have "distinct rs" using dv rs by auto
    moreover have "r \<in> set rs \<longleftrightarrow> sees txn template m r" for r
      using vs(2)[of r] ws(2)[of r] Some by (auto simp: rs sees_rows[OF assms(1)])
    ultimately show ?thesis by blast
  qed
qed

lemma has_txn_view:
  assumes "shows_view d m" "DynamoSpaceStore_has_txn DB T t d = Inr b"
  shows "b \<longleftrightarrow> (\<exists>k r st. m k = Some (r, st) \<and> held_by st = Some t)"
proof -
  note V = shows_viewD[OF assms(1)]
  note R = representsD[OF V(2)]
  from assms(2) obtain items where q: "query_by_pk DB (uncommitted_table T) ''txn_id'' t d = Inr items"
    by (auto simp: DynamoSpaceStore_has_txn_def split: sum.splits)
  from query_written[OF V(1) q] obtain ws where ws: "\<And>r. r \<in> set ws \<longleftrightarrow> wr d t (tp_tuple_id r) = Some r"
    "items = map (\<lambda>r. buf_row f (t, r)) ws" by blast
  have held: "(\<exists>k r st. m k = Some (r, st) \<and> held_by st = Some t) \<longleftrightarrow> (\<exists>k r. wr d t k = Some r) \<or> (\<exists>k q. tak d t k = Some q)"
  proof -
    have "(\<exists>k q. tak d t k = Some q) \<longleftrightarrow> (\<exists>k r. m k = Some (r, Taken t) \<or> m k = Some (r, SelfTaken t))"
      using R(4,5)[of t] by (metis (full_types) surj_pair)
    moreover have "held_by st = Some t \<longleftrightarrow> st = Written t \<or> st = Taken t \<or> st = SelfTaken t" for st by (cases st) auto
    ultimately show ?thesis using R(3)[of t] by auto
  qed
  show ?thesis
  proof (cases ws)
    case (Cons r rs)
    then have "wr d t (tp_tuple_id r) = Some r" using ws(1)[of r] by simp
    moreover have "b" using assms(2) q ws(2) Cons by (simp add: DynamoSpaceStore_has_txn_def)
    ultimately show ?thesis using held by blast
  next
    case Nil
    with assms(2) q ws(2) obtain items' where q': "query_by_pk DB (txn_taken_table T) ''txn_id'' t d = Inr items'" "b = (items' \<noteq> [])"
      by (auto simp: DynamoSpaceStore_has_txn_def split: sum.splits)
    from query_taken[OF V(1) q'(1)] obtain qs where qs: "\<And>p. p \<in> set qs \<longleftrightarrow> tak d t (tp_tuple_id (snd p)) = Some p"
      "items' = map (\<lambda>r. taken_row f (t, r)) qs" by blast
    have "wr d t k = None" for k using ws(1)[of "the (wr d t k)"] V(4)[of t k] Nil by (cases "wr d t k") auto
    moreover have "(\<exists>k q. tak d t k = Some q) \<longleftrightarrow> qs \<noteq> []"
    proof
      assume "\<exists>k q. tak d t k = Some q"
      then obtain k p where "tak d t k = Some p" by blast
      then have "p \<in> set qs" using qs(1)[of p] V(5)[of t k p] by simp
      then show "qs \<noteq> []" by auto
    next
      assume "qs \<noteq> []"
      then show "\<exists>k q. tak d t k = Some q" using qs(1)[of "hd qs"] by (metis hd_in_set)
    qed
    ultimately show ?thesis using held q'(2) qs(2) by simp
  qed
qed

section \<open>Single tuples\<close>

lemma insert_view:
  assumes "shows_view d m" "unused r m" "DynamoSpaceStore_insert f DB T r d = (Inr u, d')"
  shows "shows_view d' (m(tp_tuple_id r \<mapsto> (r, Visible)))"
proof -
  note V = shows_viewD[OF assms(1)]
  note P = put_visible[OF V(1) assms(3)[unfolded DynamoSpaceStore_insert_def]]
  show ?thesis using rep_insert[OF V(2) assms(2)] P(1) by (simp add: dynamo_space_def P(2,3) P(5)[OF refl])
qed

lemma insert_uncommitted_view:
  assumes "shows_view d m" "unused r m" "DynamoSpaceStore_insert_uncommitted f DB T t r d = (Inr u, d')"
  shows "shows_view d' (m(tp_tuple_id r \<mapsto> (r, Written t)))"
proof -
  note V = shows_viewD[OF assms(1)]
  note P = put_written[OF V(1) assms(3)[unfolded DynamoSpaceStore_insert_uncommitted_def]]
  show ?thesis using rep_write[OF V(2) assms(2)] P(1) by (simp add: dynamo_space_def P(2,3) P(4)[OF refl])
qed

lemma get_view:
  assumes "shows_view d m" "DynamoSpaceStore_get f ho DB T k d = Inr x"
  shows "x = Some r \<longleftrightarrow> m k = Some (r, Visible)"
proof -
  note V = shows_viewD[OF assms(1)]
  from assms(2) obtain got where g: "db_get_item DB (tuple_table T) (tuple_key k) d = Inr got"
    "decode_option (tuple_from_item f ho) got = Inr x" by (auto simp: DynamoSpaceStore_get_def split: sum.splits)
  from tp.fetch_record[OF tablesD(1)[OF V(1)] key_fsts(1) g(1)] g(2) have "x = vis d k"
    by (simp add: decode_option_def visible_rows_def)
  then show ?thesis using representsD(2)[OF V(2)] by simp
qed

text \<open>Deleting a visible tuple, with or without a condition.\<close>

lemma delete_visible_view:
  assumes "shows_view d m" "db_delete_item DB (tuple_table T) (tuple_key k) c d = (y, d')"
  shows "\<exists>m'. shows_view d' m' \<and> (m' = m \<or> (\<exists>r. m k = Some (r, Visible)) \<and> m' = m(k := None))"
    "y = Inr (Some i) \<Longrightarrow> \<exists>r. i = tuple_to_item f r \<and> m k = Some (r, Visible) \<and> shows_view d' (m(k := None))"
    "y = Inr None \<Longrightarrow> (\<forall>r. m k \<noteq> Some (r, Visible)) \<and> shows_view d' m"
    "y = Inl (ConditionalCheckFailed msg) \<Longrightarrow> \<not> satisfied c (map_option (tuple_to_item f) (vis d k)) \<and> shows_view d' m"
proof -
  note V = shows_viewD[OF assms(1)]
  note R = representsD[OF V(2)]
  note D = delete_visible[OF V(1) assms(2)]
  have same: "shows_view d' m" if "vis d' = vis d" using that D(1-3) V(2) by (simp add: dynamo_space_def)
  have gone: "shows_view d' (m(k := None))" if "vis d' = (vis d)(k := None)" "m k = Some (r, Visible)" for r
    using rep_drop_visible[OF V(2) that(2)] D(1-3) that(1) by (simp add: dynamo_space_def)
  have none: "vis d' = vis d" if "vis d' = (vis d)(k := None)" "vis d k = None" using that by (simp add: fun_upd_idem)
  show "\<exists>m'. shows_view d' m' \<and> (m' = m \<or> (\<exists>r. m k = Some (r, Visible)) \<and> m' = m(k := None))"
    using D(4) same gone none R(2)[of k] by (cases "vis d k") auto
  show "\<exists>r. i = tuple_to_item f r \<and> m k = Some (r, Visible) \<and> shows_view d' (m(k := None))" if "y = Inr (Some i)"
    using D(5)[OF that] gone R(2)[of k] by (cases "vis d k") auto
  show "(\<forall>r. m k \<noteq> Some (r, Visible)) \<and> shows_view d' m" if "y = Inr None"
    using D(5)[OF that] same none R(2)[of k] by (cases "vis d k") auto
  show "\<not> satisfied c (map_option (tuple_to_item f) (vis d k)) \<and> shows_view d' m" if "y = Inl (ConditionalCheckFailed msg)"
    using D(6)[OF that] same by simp
qed

lemma remove_view:
  assumes "shows_view d m" "DynamoSpaceStore_remove f ho DB T k d = (Inr x, d')"
  shows "(\<forall>r. x = Some r \<longleftrightarrow> m k = Some (r, Visible)) \<and> shows_view d' (if x = None then m else m(k := None))"
proof -
  from assms(2) obtain old where o: "db_delete_item DB (tuple_table T) (tuple_key k) None d = (Inr old, d')"
    "decode_option (tuple_from_item f ho) old = Inr x"
    by (auto simp: DynamoSpaceStore_remove_def delete_row_def split: sum.splits prod.splits)
  note D = delete_visible_view[OF assms(1) o(1)]
  show ?thesis
  proof (cases old)
    case None
    then show ?thesis using D(3) o(2) by (auto simp: decode_option_def)
  next
    case (Some i)
    with D(2) obtain r where "i = tuple_to_item f r" "m k = Some (r, Visible)" "shows_view d' (m(k := None))" by blast
    then show ?thesis using o(2) Some by (auto simp: decode_option_def)
  qed
qed

text \<open>Removing by lease: the visible tuple of the lease, or the one a transaction holds.\<close>

lemma scan_by_lease_items:
  assumes "scan_by_lease DB tbl l d = Inr items"
  shows "paged (\<lambda>start. map_err (\<lambda>e. Storage (''scan (lease filter) failed: '' @ sdk_to_string e))
           (db_scan DB tbl (Some (attribute_eq ''lease_id'' (AvS l))) None start d)) (\<lambda>i. Inr [i]) None [] = Some (Inr items)"
proof -
  obtain out where "scan_by_lease_loop DB tbl l d = Some out" using scan_ends unfolding scan_by_lease_loop_def by blast
  then show ?thesis using assms by (simp add: scan_by_lease_def scan_by_lease_loop_def)
qed

lemma remove_written_by_lease:
  assumes "shows_view d m" "scan_by_lease DB (uncommitted_table T) l d = Inr items"
    "delete_first_item f ho DB (uncommitted_table T) items d = (Inr x, d')"
  shows "case x of None \<Rightarrow> d' = d \<and> (\<forall>k r t. m k = Some (r, Written t) \<longrightarrow> tp_lease_id r \<noteq> l)
    | Some r \<Rightarrow> (\<exists>t. m (tp_tuple_id r) = Some (r, Written t)) \<and> tp_lease_id r = l \<and> shows_view d' (m(tp_tuple_id r := None))"
proof -
  note V = shows_viewD[OF assms(1)]
  note R = representsD[OF V(2)]
  from un.scan_items[OF tablesD(2)[OF V(1)] scan_by_lease_items[OF assms(2)]] obtain ps where ps:
    "\<And>p. p \<in> set ps \<longleftrightarrow> un.view d (buf_row_key p) = Some p \<and> tp_lease_id (snd p) = l" "items = map (buf_row f) ps"
    unfolding satisfied_def option.case row_attributes by blast
  show ?thesis
  proof (cases ps)
    case Nil
    have "tp_lease_id r \<noteq> l" if "m k = Some (r, Written t)" for k r t
    proof -
      have "wr d t k = Some r" using R(3) that by blast
      then obtain p where p: "un.view d (buffer_key t k) = Some p" "snd p = r" by (auto simp: written_rows_def)
      from un.view_key[OF tablesD(2)[OF V(1)] p(1)] ps(1)[of p] p Nil show ?thesis by simp
    qed
    then show ?thesis using assms(3) Nil ps(2) by auto
  next
    case (Cons p rest)
    obtain t r where p: "p = (t, r)" by (cases p)
    have r: "un.view d (buffer_key t (tp_tuple_id r)) = Some (t, r)" "tp_lease_id r = l"
      using ps(1)[of p] Cons p by (auto simp: buf_row_key_def)
    then have w: "wr d t (tp_tuple_id r) = Some r" by (simp add: written_rows_def)
    then have m: "m (tp_tuple_id r) = Some (r, Written t)" using R(3) by blast
    obtain old d1 where del: "delete_row DB (uncommitted_table T) (buffer_key t (tp_tuple_id r)) d = (Inr old, d1)"
      using assms(3) Cons p ps(2) by (auto simp: row_ids split: prod.splits sum.splits)
    note D = delete_written[OF V(1) del]
    have "x = Some r" "d1 = d'" using assms(3) Cons p ps(2) del D(5)[OF refl] w by (auto simp: row_ids decode_option_def)
    moreover have "shows_view d1 (m(tp_tuple_id r := None))"
      using rep_drop_written[OF V(2) m] D(1-3) D(5)[OF refl] by (simp add: dynamo_space_def)
    ultimately show ?thesis using m r(2) by auto
  qed
qed

lemma remove_taken_by_lease:
  assumes "shows_view d m" "scan_by_lease DB (txn_taken_table T) l d = Inr items"
    "delete_first_item f ho DB (txn_taken_table T) items d = (Inr x, d')"
  shows "case x of None \<Rightarrow> d' = d \<and> (\<forall>k r t. m k = Some (r, Taken t) \<or> m k = Some (r, SelfTaken t) \<longrightarrow> tp_lease_id r \<noteq> l)
    | Some r \<Rightarrow> (\<exists>st. m (tp_tuple_id r) = Some (r, st)) \<and> tp_lease_id r = l \<and> shows_view d' (m(tp_tuple_id r := None))"
proof -
  note V = shows_viewD[OF assms(1)]
  note R = representsD[OF V(2)]
  from tk.scan_items[OF tablesD(3)[OF V(1)] scan_by_lease_items[OF assms(2)]] obtain ps where ps:
    "\<And>p. p \<in> set ps \<longleftrightarrow> tk.view d (taken_row_key p) = Some p \<and> tp_lease_id (snd (snd p)) = l" "items = map (taken_row f) ps"
    unfolding satisfied_def option.case row_attributes by blast
  show ?thesis
  proof (cases ps)
    case Nil
    have "tp_lease_id r \<noteq> l" if held: "m k = Some (r, Taken t) \<or> m k = Some (r, SelfTaken t)" for k r t
    proof -
      obtain own where "tak d t k = Some (own, r)" using R(4,5)[of t k r] held by blast
      then obtain p where p: "tk.view d (buffer_key t k) = Some p" "snd (snd p) = r" by (auto simp: taken_rows_def)
      from tk.view_key[OF tablesD(3)[OF V(1)] p(1)] ps(1)[of p] p Nil show ?thesis by simp
    qed
    then show ?thesis using assms(3) Nil ps(2) by auto
  next
    case (Cons p rest)
    obtain t own r where p: "p = (t, own, r)" by (cases p)
    have r: "tk.view d (buffer_key t (tp_tuple_id r)) = Some (t, own, r)" "tp_lease_id r = l"
      using ps(1)[of p] Cons p by (auto simp: taken_row_key_def)
    then have w: "tak d t (tp_tuple_id r) = Some (own, r)" by (simp add: taken_rows_def)
    then have m: "m (tp_tuple_id r) = Some (r, Taken t) \<or> m (tp_tuple_id r) = Some (r, SelfTaken t)"
      using R(4,5)[of t "tp_tuple_id r" r] by (cases own) auto
    obtain old d1 where del: "delete_row DB (txn_taken_table T) (buffer_key t (tp_tuple_id r)) d = (Inr old, d1)"
      using assms(3) Cons p ps(2) by (auto simp: row_ids split: prod.splits sum.splits)
    note D = delete_taken[OF V(1) del]
    have "x = Some r" "d1 = d'" using assms(3) Cons p ps(2) del D(4)[OF refl] w by (auto simp: row_ids decode_option_def)
    moreover have "shows_view d1 (m(tp_tuple_id r := None))"
      using rep_drop_taken[OF V(2) m] D(1-3) D(4)[OF refl] by (simp add: dynamo_space_def)
    ultimately show ?thesis using m r(2) by auto
  qed
qed

definition removed_by_lease :: "string \<Rightarrow> space_view \<Rightarrow> TupleRecord option \<Rightarrow> 'd \<Rightarrow> bool" where
  "removed_by_lease l m x d' \<longleftrightarrow> (case x of
     None \<Rightarrow> (\<forall>k r st. m k = Some (r, st) \<longrightarrow> tp_lease_id r \<noteq> l) \<and> shows_view d' m
   | Some r \<Rightarrow> (\<exists>st. m (tp_tuple_id r) = Some (r, st)) \<and> tp_lease_id r = l \<and> shows_view d' (m(tp_tuple_id r := None)))"

lemma remove_buffered_view:
  assumes "shows_view d m" "\<And>k r. m k = Some (r, Visible) \<Longrightarrow> tp_lease_id r \<noteq> l"
    "remove_txn_buffered_by_lease f ho DB T l d = (Inr x, d')"
  shows "removed_by_lease l m x d'"
proof -
  from assms(3) obtain items y d1 where s: "scan_by_lease DB (uncommitted_table T) l d = Inr items"
    "delete_first_item f ho DB (uncommitted_table T) items d = (Inr y, d1)"
    "y \<noteq> None \<Longrightarrow> x = y \<and> d' = d1"
    "y = None \<Longrightarrow> \<exists>items'. scan_by_lease DB (txn_taken_table T) l d1 = Inr items' \<and>
       delete_first_item f ho DB (txn_taken_table T) items' d1 = (Inr x, d')"
    by (auto simp: remove_txn_buffered_by_lease_def split: sum.splits prod.splits option.splits)
  note W = remove_written_by_lease[OF assms(1) s(1,2)]
  show ?thesis
  proof (cases y)
    case (Some r)
    then show ?thesis using W s(3) by (auto simp: removed_by_lease_def)
  next
    case None
    then have d1: "d1 = d" and nw: "\<And>k r t. m k = Some (r, Written t) \<Longrightarrow> tp_lease_id r \<noteq> l" using W by auto
    from s(4)[OF None] d1 obtain items' where "scan_by_lease DB (txn_taken_table T) l d = Inr items'"
      "delete_first_item f ho DB (txn_taken_table T) items' d = (Inr x, d')" by blast
    note K = remove_taken_by_lease[OF assms(1) this]
    have "tp_lease_id r \<noteq> l" if "x = None" "m k = Some (r, st)" for k r st
      using K that nw[of k r] assms(2)[of k r] by (cases st) auto
    then show ?thesis using K assms(1) by (auto simp: removed_by_lease_def split: option.splits)
  qed
qed

lemma remove_by_lease_view:
  assumes "shows_view d m" "DynamoSpaceStore_remove_by_lease f ho DB T l d = (Inr x, d')"
  shows "removed_by_lease l m x d'"
proof -
  note V = shows_viewD[OF assms(1)]
  note R = representsD[OF V(2)]
  from assms(2) obtain items lek where
    q: "db_query DB (tuple_table T) (Some SPACE_LEASE_GSI) (attribute_eq ''lease_id'' (AvS l)) (Some 1) None d = Inr (items, lek)"
    by (auto simp: DynamoSpaceStore_remove_by_lease_def split: sum.splits)
  note Q = tp.query_record[OF tablesD(1)[OF V(1)] q]
  show ?thesis
  proof (cases items)
    case Nil
    have "tp_lease_id r \<noteq> l" if "m k = Some (r, Visible)" for k r
      using Q Nil R(2)[of k r] that by (auto simp: visible_rows_def row_attributes simp del: cond_holds.simps)
    moreover have "remove_txn_buffered_by_lease f ho DB T l d = (Inr x, d')"
      using assms(2) q Nil by (simp add: DynamoSpaceStore_remove_by_lease_def)
    ultimately show ?thesis by (rule remove_buffered_view[OF assms(1)])
  next
    case (Cons i rest)
    with Q obtain r where r: "i = tuple_to_item f r" "tp.view d (tuple_key (tp_tuple_id r)) = Some r" "tp_lease_id r = l"
      by (auto simp: row_attributes simp del: cond_holds.simps)
    then have m: "m (tp_tuple_id r) = Some (r, Visible)" using R(2) by (simp add: visible_rows_def)
    obtain y d1 where rem: "DynamoSpaceStore_remove f ho DB T (tp_tuple_id r) d = (Inr y, d1)" "y \<noteq> None \<Longrightarrow> x = y \<and> d' = d1"
      using assms(2) q Cons r(1)
      by (auto simp: DynamoSpaceStore_remove_by_lease_def row_ids split: sum.splits prod.splits option.splits)
    from remove_view[OF assms(1) rem(1)] m have "y = Some r" "shows_view d1 (m(tp_tuple_id r := None))" by auto
    then show ?thesis using rem(2) m r(3) by (auto simp: removed_by_lease_def)
  qed
qed

section \<open>Takes\<close>

lemma record_taken:
  assumes "shows_view d m" "m (tp_tuple_id r) = None" "st = (if own then SelfTaken t else Taken t)"
    "view_ok (m(tp_tuple_id r \<mapsto> (r, st)))" "put_row DB what (txn_taken_table T) (taken_row f (t, own, r)) d = (x, d')"
  shows "\<exists>m'. shows_view d' m'" "x = Inr u \<Longrightarrow> shows_view d' (m(tp_tuple_id r \<mapsto> (r, st)))"
proof -
  note V = shows_viewD[OF assms(1)]
  note P = put_taken[OF V(1) assms(5)]
  have rec: "shows_view d' (m(tp_tuple_id r \<mapsto> (r, st)))" if "tak d' = (tak d)(t := (tak d t)(tp_tuple_id r \<mapsto> (own, r)))"
    using rep_record[OF V(2) assms(2-4)] P(1-3) that by (simp add: dynamo_space_def)
  moreover have "shows_view d' m" if "tak d' = tak d" using V(2) P(1-3) that by (simp add: dynamo_space_def)
  ultimately show "\<exists>m'. shows_view d' m'" using P(4) by blast
  show "shows_view d' (m(tp_tuple_id r \<mapsto> (r, st)))" if "x = Inr u" using rec P(5)[OF that] by blast
qed

lemma take_own_view:
  assumes "shows_view d m" "m (tp_tuple_id r) = Some (r, Written t)" "take_own f DB T t r d = (x, d')"
  shows "\<exists>m'. shows_view d' m'" "x = Inr y \<Longrightarrow> y = Some r \<and> shows_view d' (view_take (Some t) r m)"
proof -
  note V = shows_viewD[OF assms(1)]
  let ?k = "tp_tuple_id r"
  obtain z d1 where del: "delete_row DB (uncommitted_table T) (buffer_key t ?k) d = (z, d1)" by force
  note D = delete_written[OF V(1) del]
  have drop: "shows_view d1 (m(?k := None))" if "wr d1 = (wr d)(t := (wr d t)(?k := None))"
    using rep_drop_written[OF V(2) assms(2)] D(1-3) that by (simp add: dynamo_space_def)
  moreover have "shows_view d1 m" if "wr d1 = wr d" using V(2) D(1-3) that by (simp add: dynamo_space_def)
  ultimately have err: "\<exists>m'. shows_view d1 m'" using D(4) by blast
  have ok: "view_ok ((m(?k := None))(?k \<mapsto> (r, SelfTaken t)))" using view_ok_restatus[OF V(3) assms(2)] by simp
  have vt: "view_take (Some t) r m = (m(?k := None))(?k \<mapsto> (r, SelfTaken t))" using assms(2) by (simp add: view_take_def)
  have row: "own_item f t r = taken_row f (t, True, r)" by (simp add: taken_row_def)
  show "\<exists>m'. shows_view d' m'"
  proof (cases z)
    case (Inl e)
    then show ?thesis using assms(3) del err by (auto simp: take_own_def)
  next
    case (Inr old)
    then obtain w where "put_row DB ''put_item (txn_taken)'' (txn_taken_table T) (taken_row f (t, True, r)) d1 = (w, d')"
      using assms(3) del by (auto simp: take_own_def row split: prod.splits sum.splits)
    then show ?thesis using record_taken(1)[of d1 "m(?k := None)" r "SelfTaken t" True t, OF drop _ _ ok] D(5) Inr by simp
  qed
  show "y = Some r \<and> shows_view d' (view_take (Some t) r m)" if res: "x = Inr y"
  proof -
    obtain old u where s: "z = Inr old" "y = Some r"
      "put_row DB ''put_item (txn_taken)'' (txn_taken_table T) (taken_row f (t, True, r)) d1 = (Inr u, d')"
      using assms(3) del res by (auto simp: take_own_def row split: prod.splits sum.splits)
    then show ?thesis using record_taken(2)[of d1 "m(?k := None)" r "SelfTaken t" True t, OF drop _ _ ok s(3) refl] D(5) vt by simp
  qed
qed

lemma hold_taken_view:
  assumes "shows_view d (m(tp_tuple_id r := None))" "view_ok m" "m (tp_tuple_id r) = Some (r, Visible)"
    "hold_taken f DB T txn r d = (x, d')"
  shows "\<exists>m'. shows_view d' m'" "x = Inr y \<Longrightarrow> y = Some r \<and> shows_view d' (view_take txn r m)"
proof -
  let ?k = "tp_tuple_id r"
  have ok: "view_ok ((m(?k := None))(?k \<mapsto> (r, Taken t)))" for t using view_ok_restatus[OF assms(2,3)] by simp
  have vt: "view_take (Some t) r m = (m(?k := None))(?k \<mapsto> (r, Taken t))" "view_take None r m = m(?k := None)" for t
    using assms(3) by (simp_all add: view_take_def)
  have row: "buffer_item f t r = taken_row f (t, False, r)" for t by (simp add: taken_row_def)
  have put: "\<exists>w. put_row DB ''put_item (txn_taken)'' (txn_taken_table T) (taken_row f (t, False, r)) d = (w, d') \<and>
      (x = Inr y \<longrightarrow> y = Some r \<and> w = Inr ())" if "txn = Some t" for t
    using assms(4) that by (auto simp: hold_taken_def row split: prod.splits sum.splits)
  note rec = record_taken[of d "m(?k := None)" r "Taken t" False t for t, OF assms(1) _ _ ok]
  show "\<exists>m'. shows_view d' m'"
  proof (cases txn)
    case None
    then show ?thesis using assms(1,4) by (auto simp: hold_taken_def)
  next
    case (Some t)
    from put[OF this] show ?thesis using rec(1) by fastforce
  qed
  show "y = Some r \<and> shows_view d' (view_take txn r m)" if "x = Inr y"
  proof (cases txn)
    case None
    then show ?thesis using assms(1,4) vt that by (auto simp: hold_taken_def)
  next
    case (Some t)
    from put[OF this] that have p: "y = Some r" "put_row DB ''put_item (txn_taken)'' (txn_taken_table T) (taken_row f (t, False, r)) d = (Inr (), d')"
      by auto
    then show ?thesis using rec(2)[OF _ _ p(2) refl] vt Some by simp
  qed
qed

lemma exists_satisfied: "satisfied (Some (attribute_exists ''tuple_id'')) (map_option (tuple_to_item f) x) \<longleftrightarrow> x \<noteq> None"
  using row_attributes(6) by (cases x) (simp_all add: satisfied_def)

text \<open>The delete of a match, whatever happened since the scan.\<close>

lemma take_delete:
  assumes "shows_view d m"
    "db_delete_item DB (tuple_table T) (tuple_key k) (Some (attribute_exists ''tuple_id'')) d = (y, d1)"
  shows "\<exists>m'. shows_view d1 m'"
    "y = Inl e \<Longrightarrow> is_conditional_check_failed e \<Longrightarrow> shows_view d1 m \<and> (\<forall>r. m k \<noteq> Some (r, Visible))"
    "y = Inr old \<Longrightarrow> \<exists>r. old = Some (tuple_to_item f r) \<and> tp_tuple_id r = k \<and> m k = Some (r, Visible) \<and> shows_view d1 (m(k := None))"
proof -
  note V = shows_viewD[OF assms(1)]
  note D = delete_visible_view[OF assms]
  show "\<exists>m'. shows_view d1 m'" using D(1) by blast
  show "shows_view d1 m \<and> (\<forall>r. m k \<noteq> Some (r, Visible))" if "y = Inl e" "is_conditional_check_failed e"
  proof -
    from that obtain msg where "y = Inl (ConditionalCheckFailed msg)" by (cases e) (auto simp: is_conditional_check_failed_def)
    from D(4)[OF this] representsD(2)[OF V(2), of k] show ?thesis by (auto simp: exists_satisfied)
  qed
  show "\<exists>r. old = Some (tuple_to_item f r) \<and> tp_tuple_id r = k \<and> m k = Some (r, Visible) \<and> shows_view d1 (m(k := None))"
    if "y = Inr old"
  proof -
    have "satisfied (Some (attribute_exists ''tuple_id'')) (map_option (tuple_to_item f) (vis d k))"
      using tp.delete_record(3)[OF tablesD(1)[OF V(1)] key_fsts(1) assms(2) that] by (simp add: visible_rows_def)
    then obtain r where "m k = Some (r, Visible)" using representsD(2)[OF V(2), of k] by (auto simp: exists_satisfied)
    then show ?thesis using D(2,3) that view_okD(1)[OF V(3)] by (cases old) fastforce+
  qed
qed

lemma take_scanned_view:
  assumes "shows_view d m" "I m" "\<And>m. I m \<Longrightarrow> agrees rs m" "\<forall>g \<in> set gaps. keeps shows_view I g"
    "take_scanned f ho DB T ops txn gaps (map (tuple_to_item f) rs) d = (x, d')"
  shows "(\<exists>m'. shows_view d' m') \<and> (\<forall>r. x = Inr (Some r) \<longrightarrow> r \<in> set rs \<and> matches ops (tp_attrs r) \<and>
    (\<exists>d1 m1. shows_view d1 m1 \<and> I m1 \<and> m1 (tp_tuple_id r) = Some (r, Visible) \<and> shows_view d' (view_take txn r m1)))"
  using assms
proof (induction rs arbitrary: d m gaps)
  case Nil
  then show ?case by auto
next
  case (Cons r rs)
  have sub: "\<And>m. I m \<Longrightarrow> agrees rs m" using Cons.prems(3) by (auto simp: agrees_def)
  show ?case
  proof (cases "matches ops (tp_attrs r)")
    case False
    then have "take_scanned f ho DB T ops txn gaps (map (tuple_to_item f) rs) d = (x, d')" using Cons.prems(5) by simp
    from Cons.IH[OF Cons.prems(1,2) sub Cons.prems(4) this] show ?thesis by auto
  next
    case True
    let ?d0 = "case gaps of [] \<Rightarrow> d | g # _ \<Rightarrow> g d"
    have "\<exists>m0. shows_view ?d0 m0 \<and> I m0"
      using Cons.prems(1,2,4) by (cases gaps) (auto simp: keeps_def)
    then obtain m0 where m0: "shows_view ?d0 m0" "I m0" by blast
    have tl: "\<forall>g \<in> set (tl gaps). keeps shows_view I g" using Cons.prems(4) by (cases gaps) auto
    obtain y d1 where del: "db_delete_item DB (tuple_table T) (tuple_key (tp_tuple_id r)) (Some (attribute_exists ''tuple_id'')) ?d0 = (y, d1)"
      by force
    note D = take_delete[OF m0(1) del]
    show ?thesis
    proof (cases y)
      case (Inl e)
      show ?thesis
      proof (cases "is_conditional_check_failed e")
        case check: True
        then have "take_scanned f ho DB T ops txn (tl gaps) (map (tuple_to_item f) rs) d1 = (x, d')"
          using Cons.prems(5) True del Inl by simp
        from Cons.IH[OF conjunct1[OF D(2)[OF Inl check]] m0(2) sub tl this] show ?thesis by auto
      next
        case False
        then show ?thesis using Cons.prems(5) True del Inl D(1) by auto
      qed
    next
      case (Inr old)
      from D(3)[OF this] obtain r' where r': "old = Some (tuple_to_item f r')" "tp_tuple_id r' = tp_tuple_id r"
        "m0 (tp_tuple_id r') = Some (r', Visible)" "shows_view d1 (m0(tp_tuple_id r' := None))" by auto
      then have "r' = r" using Cons.prems(3)[OF m0(2)] by (auto simp: agrees_def)
      moreover have "hold_taken f DB T txn r' d1 = (x, d')" using Cons.prems(5) True del Inr r'(1) by simp
      note H = hold_taken_view[OF r'(4) shows_viewD(3)[OF m0(1)] r'(3) this]
      ultimately show ?thesis using H(1) H(2)[of "Some r" for r] m0 r'(3) True by (metis list.set_intros(1) option.inject)
    qed
  qed
qed

text \<open>Undisturbed, the first match is taken.\<close>

lemma take_undisturbed:
  assumes "shows_view d m" "\<forall>r \<in> set rs. m (tp_tuple_id r) = Some (r, Visible)"
    "take_scanned f ho DB T ops txn [] (map (tuple_to_item f) rs) d = (Inr x, d')"
  shows "case x of None \<Rightarrow> d' = d \<and> (\<forall>r \<in> set rs. \<not> matches ops (tp_attrs r))
    | Some r \<Rightarrow> r \<in> set rs \<and> matches ops (tp_attrs r) \<and> shows_view d' (view_take txn r m)"
  using assms
proof (induction rs)
  case (Cons r rs)
  show ?case
  proof (cases "matches ops (tp_attrs r)")
    case False
    then show ?thesis using Cons by (auto split: option.splits)
  next
    case True
    obtain y d1 where del: "db_delete_item DB (tuple_table T) (tuple_key (tp_tuple_id r)) (Some (attribute_exists ''tuple_id'')) d = (y, d1)"
      by force
    note D = take_delete[OF Cons.prems(1) del]
    have r: "m (tp_tuple_id r) = Some (r, Visible)" using Cons.prems(2) by simp
    have "\<not> is_conditional_check_failed e" if "y = Inl e" for e using D(2)[OF that] r by blast
    then obtain old where old: "y = Inr old" using Cons.prems(3) True del by (cases y) auto
    from D(3)[OF this] r have o: "old = Some (tuple_to_item f r)" "shows_view d1 (m(tp_tuple_id r := None))" by auto
    then have "hold_taken f DB T txn r d1 = (Inr x, d')" using Cons.prems(3) True del old by simp
    from hold_taken_view(2)[OF o(2) shows_viewD(3)[OF Cons.prems(1)] r this refl] True show ?thesis by simp
  qed
qed simp

lemma take_first_gap:
  "take_scanned f ho DB T ops txn [g] (map (tuple_to_item f) rs) d = (x, d') \<Longrightarrow>
   x = Inr None \<and> d' = d \<or> take_scanned f ho DB T ops txn [] (map (tuple_to_item f) rs) (g d) = (x, d')"
  by (induction rs) (auto split: if_splits prod.splits sum.splits option.splits)

lemma scanned_visible:
  assumes "shows_view d m" "scan_all DB (tuple_table T) d = Inr items"
  shows "\<exists>rs. (\<forall>r. r \<in> set rs \<longleftrightarrow> m (tp_tuple_id r) = Some (r, Visible)) \<and> items = map (tuple_to_item f) rs"
  using scan_visible[OF shows_viewD(1)[OF assms(1)] assms(2)] representsD(2)[OF shows_viewD(2)[OF assms(1)]] by auto

lemma sees_visible: "m (tp_tuple_id r) = Some (r, Visible) \<Longrightarrow> matches (parse_template template) (tp_attrs r) \<Longrightarrow> sees txn template m r"
  by (auto simp: sees_def)

text \<open>How a take goes on: with an own write, or through the scanned tuples.\<close>

lemma take_match_cases:
  assumes "shows_view d m" "DynamoSpaceStore_take_match f ho DB T gaps template txn d = (x, d')"
  obtains (failed) e where "x = Inl e" "d' = d"
  | (own) t r where "txn = Some t" "m (tp_tuple_id r) = Some (r, Written t)" "sees txn template m r" "take_own f DB T t r d = (x, d')"
  | (scanned) rs where "\<forall>r. r \<in> set rs \<longleftrightarrow> m (tp_tuple_id r) = Some (r, Visible)"
      "\<forall>r t. txn = Some t \<and> m (tp_tuple_id r) = Some (r, Written t) \<longrightarrow> \<not> matches (parse_template template) (tp_attrs r)"
      "take_scanned f ho DB T (parse_template template) txn gaps (map (tuple_to_item f) rs) d = (x, d')"
proof -
  let ?ops = "parse_template template"
  note V = shows_viewD[OF assms(1)]
  note W = representsD(3)[OF V(2)]
  show ?thesis
  proof (cases "own_match f ho DB T ?ops txn d")
    case (Inl e)
    then have "x = Inl e" "d' = d" using assms(2) by (auto simp: DynamoSpaceStore_take_match_def)
    then show ?thesis by (rule failed)
  next
    case (Inr y)
    note O = own_match_rows[OF V(1) Inr]
    show ?thesis
    proof (cases y)
      case (Some r)
      with O obtain t where t: "txn = Some t" "wr d t (tp_tuple_id r) = Some r" "matches ?ops (tp_attrs r)" by auto
      have "take_own f DB T t r d = (x, d')" using assms(2) Inr Some t(1) by (simp add: DynamoSpaceStore_take_match_def)
      then show ?thesis using own[OF t(1)] t W sees_rows[OF assms(1)] by simp
    next
      case None
      show ?thesis
      proof (cases "scan_all DB (tuple_table T) d")
        case (Inl e)
        then show ?thesis using assms(2) failed Inr None by (auto simp: DynamoSpaceStore_take_match_def)
      next
        case items: (Inr items)
        from scanned_visible[OF assms(1) items] obtain rs where rs:
          "\<forall>r. r \<in> set rs \<longleftrightarrow> m (tp_tuple_id r) = Some (r, Visible)" "items = map (tuple_to_item f) rs" by blast
        have "take_scanned f ho DB T ?ops txn gaps items d = (x, d')"
          using assms(2) Inr None items by (simp add: DynamoSpaceStore_take_match_def)
        moreover have "\<forall>r t. txn = Some t \<and> m (tp_tuple_id r) = Some (r, Written t) \<longrightarrow> \<not> matches ?ops (tp_attrs r)"
          using O None W by simp
        ultimately show ?thesis using scanned[OF rs(1)] rs(2) by blast
      qed
    qed
  qed
qed

lemma take_races_view:
  assumes "shows_view d m" "\<forall>(ks0, g) \<in> set races. interference shows_view g"
    "DynamoSpaceStore_take_match f ho DB T (map snd (take 1 races)) template txn d = (x, d')"
  shows "\<exists>m'. shows_view d' m'"
    "x = Inr (Some r) \<Longrightarrow> \<exists>d1 m1. shows_view d1 m1 \<and> (races = [] \<longrightarrow> d1 = d \<and> m1 = m) \<and> sees txn template m1 r \<and>
       shows_view d' (view_take txn r m1)"
proof -
  have "(\<exists>m'. shows_view d' m') \<and> (\<forall>r. x = Inr (Some r) \<longrightarrow> (\<exists>d1 m1. shows_view d1 m1 \<and> (races = [] \<longrightarrow> d1 = d \<and> m1 = m) \<and>
      sees txn template m1 r \<and> shows_view d' (view_take txn r m1)))"
    using assms(1,3)
  proof (cases rule: take_match_cases)
    case (failed e)
    then show ?thesis using assms(1) by auto
  next
    case (own t r)
    from take_own_view[OF assms(1) own(2,4)] own(1,3) assms(1) show ?thesis by auto
  next
    case (scanned rs)
    have ag: "agrees rs m" using scanned(1) by (auto simp: agrees_def)
    show ?thesis
    proof (cases races)
      case Nil
      from take_scanned_view[of d m "agrees rs" rs, OF assms(1) ag _ _ scanned(3)] Nil have "\<exists>m'. shows_view d' m'" by simp
      moreover have "sees txn template m r \<and> shows_view d' (view_take txn r m)" if "x = Inr (Some r)" for r
        using take_undisturbed[OF assms(1) _ scanned(3)[unfolded Nil that, simplified]] scanned(1) sees_visible by auto
      ultimately show ?thesis using assms(1) by blast
    next
      case (Cons p rest)
      from assms(2) Cons have "interference shows_view (snd p)" by (auto split: prod.splits)
      then obtain m1 where m1: "shows_view (snd p d) m1"
        "\<forall>k r st r' st'. m k = Some (r, st) \<longrightarrow> m1 k = Some (r', st') \<longrightarrow> r' = r"
        using assms(1) unfolding interference_def by blast
      have ag1: "agrees rs m1" using m1(2) scanned(1) by (auto simp: agrees_def)
      have "take_scanned f ho DB T (parse_template template) txn [snd p] (map (tuple_to_item f) rs) d = (x, d')"
        using scanned(3) Cons by simp
      from take_first_gap[OF this] consider "x = Inr None" "d' = d"
        | "take_scanned f ho DB T (parse_template template) txn [] (map (tuple_to_item f) rs) (snd p d) = (x, d')" by blast
      then show ?thesis
      proof cases
        case 1
        then show ?thesis using assms(1) by auto
      next
        case 2
        from take_scanned_view[of _ m1 "agrees rs" rs, OF m1(1) ag1 _ _ 2] Cons sees_visible show ?thesis by fastforce
      qed
    qed
  qed
  then show "\<exists>m'. shows_view d' m'"
    "x = Inr (Some r) \<Longrightarrow> \<exists>d1 m1. shows_view d1 m1 \<and> (races = [] \<longrightarrow> d1 = d \<and> m1 = m) \<and> sees txn template m1 r \<and>
       shows_view d' (view_take txn r m1)" by blast+
qed

lemma take_nothing_view:
  assumes "shows_view d m" "DynamoSpaceStore_take_match f ho DB T [] template txn d = (Inr None, d')"
  shows "(\<forall>r. \<not> sees txn template m r) \<and> shows_view d' m"
  using assms
proof (cases rule: take_match_cases)
  case (own t r)
  from take_own_view(2)[OF assms(1) own(2,4) refl] show ?thesis by simp
next
  case (scanned rs)
  from take_undisturbed[OF assms(1) _ scanned(3)] scanned(1) have n: "d' = d" "\<forall>r \<in> set rs. \<not> matches (parse_template template) (tp_attrs r)"
    by auto
  have "\<not> sees txn template m r" for r
    using scanned(1,2) n(2) by (auto simp: sees_def elim: seen_by.elims)
  then show ?thesis using n(1) assms(1) by simp
qed simp

section \<open>Watches\<close>

abbreviation wv where "wv \<equiv> dynamo_watches rows dbg ho T"
abbreviation wv_ok where "wv_ok \<equiv> dynamo_watches_ok rows dbg ho T"

lemma watch_id: "wv_ok d \<Longrightarrow> wv d k = Some w \<Longrightarrow> sw_watch_id w = k"
  using wt.view_key[of d "watch_key k" w] by (simp add: dynamo_watches_ok_def dynamo_watches_def)

lemma watch_of_lease: "wv_ok d \<Longrightarrow> wv d k = Some w \<Longrightarrow> wv d k' = Some w' \<Longrightarrow> sw_lease_id w = sw_lease_id w' \<Longrightarrow> w = w'"
  by (auto simp: dynamo_watches_ok_def)

lemma watches_okI:
  assumes "wt.tok d" "\<And>k k' w w'. wv d k = Some w \<Longrightarrow> wv d k' = Some w' \<Longrightarrow> sw_lease_id w = sw_lease_id w' \<Longrightarrow> w = w'"
  shows "wv_ok d"
  using assms(1) unfolding dynamo_watches_ok_def by (intro conjI allI impI assms(2))

lemma create_watch_rows:
  assumes "wv_ok d" "\<forall>k w'. wv d k = Some w' \<longrightarrow> sw_lease_id w' \<noteq> sw_lease_id w" "DynamoSpaceStore_create_watch DB T w d = (Inr u, d')"
  shows "wv_ok d' \<and> wv d' = (wv d)(sw_watch_id w \<mapsto> w)"
proof -
  have ok: "wt.tok d" using assms(1) by (simp add: dynamo_watches_ok_def)
  have "db_put_item DB (watches_table T) (space_watch_item w) None d = (Inr (), d')"
    using assms(3) by (auto simp: DynamoSpaceStore_create_watch_def put_row_def split: prod.splits sum.splits)
  note P = wt.put_record[OF ok this]
  from P(3)[OF refl] have new: "wv d' = (wv d)(sw_watch_id w \<mapsto> w)" by (simp add: dynamo_watches_def fun_eq_iff)
  have "w1 = w2" if "wv d' k1 = Some w1" "wv d' k2 = Some w2" "sw_lease_id w1 = sw_lease_id w2" for k1 k2 w1 w2
    using that assms(2) watch_of_lease[OF assms(1), of k1 w1 k2 w2] unfolding new by (metis fun_upd_apply option.inject)
  with P(1) have "wv_ok d'" by (rule watches_okI)
  then show ?thesis using new by simp
qed

lemma create_watch_frame: "shows_view d m \<Longrightarrow> shows_view (snd (DynamoSpaceStore_create_watch DB T w d)) m"
proof -
  assume v: "shows_view d m"
  obtain y d' where y: "db_put_item DB (watches_table T) (space_watch_item w) None d = (y, d')" by force
  then have "snd (DynamoSpaceStore_create_watch DB T w d) = d'"
    by (auto simp: DynamoSpaceStore_create_watch_def put_row_def split: sum.splits)
  moreover have "\<forall>t. t \<noteq> watches_table T \<longrightarrow> rows d' t = rows d t" using put_frame[OF wt.enc_key y] by blast
  ultimately show ?thesis using frame_watches[of d' d m] v by simp
qed

text \<open>What a removal by lease does: nothing, or one delete of a watch it found.\<close>

lemma remove_watch_cases:
  assumes "DynamoSpaceStore_remove_watch_by_lease dbg ho DB T l d = (x, d')"
  obtains (failed) e where "x = Inl e" "d' = d"
  | (found) items lek where "db_query DB (watches_table T) (Some SPACE_WATCHES_LEASE_GSI) (attribute_eq ''lease_id'' (AvS l)) (Some 1) None d = Inr (items, lek)"
      "case items of [] \<Rightarrow> x = Inr None \<and> d' = d
       | i # _ \<Rightarrow> (\<exists>w. watch_from_item dbg ho i = Inr w \<and> (\<exists>y. db_delete_item DB (watches_table T) (watch_key (sw_watch_id w)) None d = (y, d') \<and>
           (x = Inr (Some w) \<and> (\<exists>old. y = Inr old) \<or> (\<exists>e. x = Inl e)))) \<or> (\<exists>e. x = Inl e) \<and> d' = d"
  using assms
  by (auto simp: DynamoSpaceStore_remove_watch_by_lease_def delete_row_def split: sum.splits prod.splits list.splits)

lemma remove_watch_frame:
  assumes "shows_view d m"
  shows "shows_view (snd (DynamoSpaceStore_remove_watch_by_lease dbg ho DB T l d)) m"
proof -
  obtain x d' where r: "DynamoSpaceStore_remove_watch_by_lease dbg ho DB T l d = (x, d')" by force
  then show ?thesis
  proof (cases rule: remove_watch_cases)
    case (failed e)
    then show ?thesis using r assms by simp
  next
    case (found items lek)
    then have "d' = d \<or> (\<exists>(w :: SpaceWatchRecord) y. db_delete_item DB (watches_table T) (watch_key (sw_watch_id w)) None d = (y, d'))"
      by (cases items) auto
    then consider "d' = d" | w :: SpaceWatchRecord and y where "db_delete_item DB (watches_table T) (watch_key (sw_watch_id w)) None d = (y, d')"
      by blast
    then show ?thesis
    proof cases
      case 2
      have "\<forall>t. t \<noteq> watches_table T \<longrightarrow> rows d' t = rows d t" using delete_frame[OF key_fsts(4) 2] by blast
      then show ?thesis using frame_watches[of d' d m] assms r by simp
    qed (use r assms in simp)
  qed
qed

lemma remove_watch_rows:
  assumes "wv_ok d" "DynamoSpaceStore_remove_watch_by_lease dbg ho DB T l d = (Inr y, d')"
  shows "wv_ok d' \<and> (\<forall>w. y = Some w \<longleftrightarrow> wv d (sw_watch_id w) = Some w \<and> sw_lease_id w = l) \<and>
    wv d' = (case y of None \<Rightarrow> wv d | Some w \<Rightarrow> (wv d)(sw_watch_id w := None))"
  using assms(2)
proof (cases rule: remove_watch_cases)
  case (found items lek)
  have ok: "wt.tok d" using assms(1) by (simp add: dynamo_watches_ok_def)
  note Q = wt.query_record[OF ok found(1)]
  show ?thesis
  proof (cases items)
    case Nil
    have "\<not> (wv d (sw_watch_id w) = Some w \<and> sw_lease_id w = l)" for w
      using Q Nil by (auto simp: dynamo_watches_def watch_row_lease simp del: cond_holds.simps)
    then show ?thesis using found(2) Nil assms(1) by simp
  next
    case (Cons i rest)
    from Q Cons obtain w where w: "i = space_watch_item w" "wv d (sw_watch_id w) = Some w" "sw_lease_id w = l"
      by (auto simp: dynamo_watches_def watch_row_lease simp del: cond_holds.simps)
    from found(2) Cons w(1) obtain old where y: "y = Some w"
      "db_delete_item DB (watches_table T) (watch_key (sw_watch_id w)) None d = (Inr old, d')" by (auto simp: watch_from_to)
    note D = wt.delete_record[OF ok key_fsts(4) y(2)]
    from D(3)[OF refl] have new: "wv d' = (wv d)(sw_watch_id w := None)" by (simp add: dynamo_watches_def fun_eq_iff)
    have "w1 = w2" if "wv d' k1 = Some w1" "wv d' k2 = Some w2" "sw_lease_id w1 = sw_lease_id w2" for k1 k2 w1 w2
      using that watch_of_lease[OF assms(1), of k1 w1 k2 w2] unfolding new by (simp split: if_splits)
    with D(1) have "wv_ok d'" by (rule watches_okI)
    moreover have "y = Some w' \<longleftrightarrow> wv d (sw_watch_id w') = Some w' \<and> sw_lease_id w' = l" for w'
    proof
      assume "y = Some w'"
      then show "wv d (sw_watch_id w') = Some w' \<and> sw_lease_id w' = l" using w(2,3) y(1) by simp
    next
      assume "wv d (sw_watch_id w') = Some w' \<and> sw_lease_id w' = l"
      then have "w = w'" using watch_of_lease[OF assms(1) w(2), of "sw_watch_id w'" w'] w(3) by simp
      then show "y = Some w'" using y(1) by simp
    qed
    ultimately show ?thesis using new y(1) by simp
  qed
qed simp

end

section \<open>The contract\<close>

sublocale space_tables_db \<subseteq> dyn: space_store "DynamoSpaceStore_ops f dbg ho DB T" shows_view "\<lambda>_ _. True" wv wv_ok
proof (unfold_locales, goal_cases)
  case (1 d m)
  then show ?case by (rule shows_viewD(3))
next
  case (2 d m r u d')
  then show ?case using insert_view[OF 2(1,2)] by (simp add: DynamoSpaceStore_ops_def)
next
  case (3 d m r t u d')
  then show ?case using insert_uncommitted_view[OF 3(1,2)] by (simp add: DynamoSpaceStore_ops_def)
next
  case (4 d m k x r)
  then show ?case using get_view[OF 4(1)] by (simp add: DynamoSpaceStore_ops_def)
next
  case (5 d m k x d')
  then show ?case using remove_view[OF 5(1)] by (simp add: DynamoSpaceStore_ops_def)
next
  case (6 d m l x d')
  have "removed_by_lease l m x d'" using remove_by_lease_view[OF 6(1)] 6(2) by (simp add: DynamoSpaceStore_ops_def)
  moreover have "r = r'" if "m (tp_tuple_id r) = Some (r, st)" "m (tp_tuple_id r') = Some (r', st')" "tp_lease_id r = tp_lease_id r'" for r r' st st'
    using that shows_viewD(3)[OF 6(1)] unfolding view_ok_def by (metis option.inject prod.inject)
  ultimately show ?case by (fastforce simp: removed_by_lease_def split: option.splits)
next
  case (7 d m ks template txn x)
  then show ?case using find_match_view[OF 7(1)] by (simp add: DynamoSpaceStore_ops_def)
next
  case (8 d m races ks template txn r d')
  then show ?case using take_races_view(2)[OF 8(1,2), of template txn "Inr (Some r)" d' r] by (simp add: DynamoSpaceStore_ops_def)
next
  case (9 d m ks template txn d')
  then show ?case using take_nothing_view[OF 9(1)] by (simp add: DynamoSpaceStore_ops_def)
next
  case (10 d m races ks template txn)
  then show ?case using take_races_view(1)[OF 10(1,2), of template txn "fst z" "snd z" for z] by (simp add: DynamoSpaceStore_ops_def)
next
  case (11 d m ks template txn rs)
  then show ?case using find_all_view[OF 11(1)] by (simp add: DynamoSpaceStore_ops_def)
next
  case (12 d m t flushed taken d')
  then show ?case using commit_view[OF 12(1)] by (simp add: DynamoSpaceStore_ops_def)
next
  case (13 d m t discarded restored d')
  then show ?case using abort_view[OF 13(1)] by (simp add: DynamoSpaceStore_ops_def)
next
  case (14 d m t b)
  then show ?case using has_txn_view[OF 14(1)] by (simp add: DynamoSpaceStore_ops_def)
next
  case (15 d m w)
  then show ?case using create_watch_frame by (simp add: DynamoSpaceStore_ops_def)
next
  case (16 d w u d')
  then show ?case using create_watch_rows[OF 16(1,2)] by (simp add: DynamoSpaceStore_ops_def)
next
  case (17 d m l)
  then show ?case using remove_watch_frame by (simp add: DynamoSpaceStore_ops_def)
next
  case (18 d l y d')
  then show ?case using remove_watch_rows[OF 18(1)] by (simp add: DynamoSpaceStore_ops_def)
qed

context space_tables_db
begin

lemma keeps_contract: "space_store (DynamoSpaceStore_ops f dbg ho DB T) shows_view (\<lambda>_ _. True) wv wv_ok"
  by (rule dyn.space_store_axioms)

end

end
