(* ===== verification/Dynamo_Schema.thy ===== *)
theory Dynamo_Schema
  imports Dynamo_Props Dynamo_Space_Props
begin

text \<open>
  The tables the DynamoDB providers create at start-up, \<^verbatim>\<open>providers/dynamo/src/table.rs\<close>, and the \<^verbatim>\<open>init\<close> functions of the
  stores: attribute types, primary keys and secondary indexes, against what the stores write, fetch and query.
\<close>

section \<open>Requests\<close>

datatype ScalarAttributeType = ScalarS | ScalarN

datatype KeyType = Hash | Range

record TableSchema =
  attribute_definitions :: "(string \<times> ScalarAttributeType) list"
  key_schema :: "(string \<times> KeyType) list"
  global_secondary_indexes :: "(string \<times> (string \<times> KeyType) list) list"

text \<open>The service: creating a table may fail because there is one of that name, or otherwise; and native expiry on an attribute.\<close>

datatype create_error = ResourceInUse | CreateError string

record 'd dynamo_admin =
  da_create_table :: "string \<Rightarrow> TableSchema \<Rightarrow> 'd \<Rightarrow> (create_error + unit) \<times> 'd"
  da_update_time_to_live :: "string \<Rightarrow> string \<Rightarrow> 'd \<Rightarrow> (string + unit) \<times> 'd"

fun create_to_string :: "create_error \<Rightarrow> string" where
  "create_to_string ResourceInUse = ''service error''"
| "create_to_string (CreateError m) = m"

definition handle_create_result :: "create_error + unit \<Rightarrow> string + unit" where
  "handle_create_result result =
     (case result of
        Inr _ \<Rightarrow> Inr ()
      | Inl ResourceInUse \<Rightarrow> Inr ()
      | Inl e \<Rightarrow> Inl (''create_table failed: '' @ create_to_string e))"

definition ensure_table :: "TableSchema \<Rightarrow> 'd dynamo_admin \<Rightarrow> string \<Rightarrow> 'd \<Rightarrow> (string + unit) \<times> 'd" where
  "ensure_table schema A table_name d =
     (case da_create_table A table_name schema d of (result, d') \<Rightarrow> (handle_create_result result, d'))"

section \<open>The tables\<close>

definition lease_schema :: TableSchema where
  "lease_schema = \<lparr>
     attribute_definitions = [(''lease_id'', ScalarS), (''resource_id'', ScalarS)],
     key_schema = [(''lease_id'', Hash)],
     global_secondary_indexes = [(RESOURCE_GSI, [(''resource_id'', Hash)])]\<rparr>"

definition registry_schema :: TableSchema where
  "registry_schema = \<lparr>
     attribute_definitions = [(''capability_id'', ScalarS), (''lease_id'', ScalarS)],
     key_schema = [(''capability_id'', Hash)],
     global_secondary_indexes = [(REGISTRY_LEASE_GSI, [(''lease_id'', Hash)])]\<rparr>"

definition txn_schema :: TableSchema where
  "txn_schema = \<lparr>
     attribute_definitions = [(''txn_id'', ScalarS)],
     key_schema = [(''txn_id'', Hash)],
     global_secondary_indexes = []\<rparr>"

definition event_sub_schema :: TableSchema where
  "event_sub_schema = \<lparr>
     attribute_definitions = [(''registration_id'', ScalarS), (''lease_id'', ScalarS)],
     key_schema = [(''registration_id'', Hash)],
     global_secondary_indexes = [(EVENT_SUB_LEASE_GSI, [(''lease_id'', Hash)])]\<rparr>"

definition event_mailbox_schema :: TableSchema where
  "event_mailbox_schema = \<lparr>
     attribute_definitions = [(''registration_id'', ScalarS), (''seq_num'', ScalarN)],
     key_schema = [(''registration_id'', Hash), (''seq_num'', Range)],
     global_secondary_indexes = []\<rparr>"

definition space_schema :: TableSchema where
  "space_schema = \<lparr>
     attribute_definitions = [(''tuple_id'', ScalarS), (''lease_id'', ScalarS)],
     key_schema = [(''tuple_id'', Hash)],
     global_secondary_indexes = [(SPACE_LEASE_GSI, [(''lease_id'', Hash)])]\<rparr>"

definition space_uncommitted_schema :: TableSchema where
  "space_uncommitted_schema = \<lparr>
     attribute_definitions = [(''txn_id'', ScalarS), (''tuple_id'', ScalarS)],
     key_schema = [(''txn_id'', Hash), (''tuple_id'', Range)],
     global_secondary_indexes = []\<rparr>"

definition space_txn_taken_schema :: TableSchema where
  "space_txn_taken_schema = \<lparr>
     attribute_definitions = [(''txn_id'', ScalarS), (''tuple_id'', ScalarS)],
     key_schema = [(''txn_id'', Hash), (''tuple_id'', Range)],
     global_secondary_indexes = []\<rparr>"

definition space_watches_schema :: TableSchema where
  "space_watches_schema = \<lparr>
     attribute_definitions = [(''watch_id'', ScalarS), (''lease_id'', ScalarS)],
     key_schema = [(''watch_id'', Hash)],
     global_secondary_indexes = [(SPACE_WATCHES_LEASE_GSI, [(''lease_id'', Hash)])]\<rparr>"

definition ensure_lease_table :: "'d dynamo_admin \<Rightarrow> string \<Rightarrow> 'd \<Rightarrow> (string + unit) \<times> 'd" where
  "ensure_lease_table A table_name d =
     (case ensure_table lease_schema A table_name d of
        (Inl e, d') \<Rightarrow> (Inl e, d')
      | (Inr _, d') \<Rightarrow> (case da_update_time_to_live A table_name ''ttl'' d' of (_, d'') \<Rightarrow> (Inr (), d'')))"

definition ensure_registry_table :: "'d dynamo_admin \<Rightarrow> string \<Rightarrow> 'd \<Rightarrow> (string + unit) \<times> 'd" where
  "ensure_registry_table = ensure_table registry_schema"

definition ensure_txn_table :: "'d dynamo_admin \<Rightarrow> string \<Rightarrow> 'd \<Rightarrow> (string + unit) \<times> 'd" where
  "ensure_txn_table = ensure_table txn_schema"

definition ensure_event_sub_table :: "'d dynamo_admin \<Rightarrow> string \<Rightarrow> 'd \<Rightarrow> (string + unit) \<times> 'd" where
  "ensure_event_sub_table = ensure_table event_sub_schema"

definition ensure_event_mailbox_table :: "'d dynamo_admin \<Rightarrow> string \<Rightarrow> 'd \<Rightarrow> (string + unit) \<times> 'd" where
  "ensure_event_mailbox_table = ensure_table event_mailbox_schema"

definition ensure_space_table :: "'d dynamo_admin \<Rightarrow> string \<Rightarrow> 'd \<Rightarrow> (string + unit) \<times> 'd" where
  "ensure_space_table = ensure_table space_schema"

definition ensure_space_uncommitted_table :: "'d dynamo_admin \<Rightarrow> string \<Rightarrow> 'd \<Rightarrow> (string + unit) \<times> 'd" where
  "ensure_space_uncommitted_table = ensure_table space_uncommitted_schema"

definition ensure_space_txn_taken_table :: "'d dynamo_admin \<Rightarrow> string \<Rightarrow> 'd \<Rightarrow> (string + unit) \<times> 'd" where
  "ensure_space_txn_taken_table = ensure_table space_txn_taken_schema"

definition ensure_space_watches_table :: "'d dynamo_admin \<Rightarrow> string \<Rightarrow> 'd \<Rightarrow> (string + unit) \<times> 'd" where
  "ensure_space_watches_table = ensure_table space_watches_schema"

section \<open>Start-up of the stores\<close>

text \<open>Only ASCII letters have the letters of \<open>true\<close> as their lower case.\<close>

definition auto_create_enabled :: "(string \<Rightarrow> string option) \<Rightarrow> bool" where
  "auto_create_enabled env =
     (case env ''COORDIN8_AUTO_CREATE_TABLES'' of
        None \<Rightarrow> False
      | Some v \<Rightarrow> to_ascii_lowercase v \<in> {''true'', ''1''})"

text \<open>The ensure functions of a store in order, the first error ending the call.\<close>

fun ensure_all :: "('d \<Rightarrow> (string + unit) \<times> 'd) list \<Rightarrow> 'd \<Rightarrow> unit result \<times> 'd" where
  "ensure_all [] d = (Inr (), d)"
| "ensure_all (e # es) d = (case e d of (Inl m, d') \<Rightarrow> (Inl (Storage m), d') | (Inr _, d') \<Rightarrow> ensure_all es d')"

definition DynamoLeaseStore_init :: "(string \<Rightarrow> string option) \<Rightarrow> 'd dynamo_admin \<Rightarrow> string \<Rightarrow> 'd \<Rightarrow> unit result \<times> 'd" where
  "DynamoLeaseStore_init env A table_name d =
     (if auto_create_enabled env then ensure_all [ensure_lease_table A table_name] d else (Inr (), d))"

definition DynamoRegistryStore_init :: "(string \<Rightarrow> string option) \<Rightarrow> 'd dynamo_admin \<Rightarrow> string \<Rightarrow> 'd \<Rightarrow> unit result \<times> 'd" where
  "DynamoRegistryStore_init env A table_name d =
     (if auto_create_enabled env then ensure_all [ensure_registry_table A table_name] d else (Inr (), d))"

definition DynamoTxnStore_init :: "(string \<Rightarrow> string option) \<Rightarrow> 'd dynamo_admin \<Rightarrow> string \<Rightarrow> 'd \<Rightarrow> unit result \<times> 'd" where
  "DynamoTxnStore_init env A table_name d =
     (if auto_create_enabled env then ensure_all [ensure_txn_table A table_name] d else (Inr (), d))"

definition DynamoEventStore_init :: "(string \<Rightarrow> string option) \<Rightarrow> 'd dynamo_admin \<Rightarrow> string \<Rightarrow> string \<Rightarrow> 'd \<Rightarrow> unit result \<times> 'd" where
  "DynamoEventStore_init env A sub_table mailbox_table d =
     (if auto_create_enabled env
      then ensure_all [ensure_event_sub_table A sub_table, ensure_event_mailbox_table A mailbox_table] d
      else (Inr (), d))"

definition DynamoSpaceStore_init :: "(string \<Rightarrow> string option) \<Rightarrow> 'd dynamo_admin \<Rightarrow> space_tables \<Rightarrow> 'd \<Rightarrow> unit result \<times> 'd" where
  "DynamoSpaceStore_init env A T d =
     (if auto_create_enabled env
      then ensure_all [ensure_space_table A (tuple_table T), ensure_space_uncommitted_table A (uncommitted_table T),
                       ensure_space_txn_taken_table A (txn_taken_table T), ensure_space_watches_table A (watches_table T)] d
      else (Inr (), d))"

definition REGISTRY_TABLE :: string where "REGISTRY_TABLE = ''coordin8_registry''"
definition TXN_TABLE :: string where "TXN_TABLE = ''coordin8_txn''"
definition EVENT_SUB_TABLE :: string where "EVENT_SUB_TABLE = ''coordin8_event_subscriptions''"
definition EVENT_MAILBOX_TABLE :: string where "EVENT_MAILBOX_TABLE = ''coordin8_event_mailbox''"

definition DynamoSpaceStore_new :: space_tables where
  "DynamoSpaceStore_new = \<lparr>tuple_table = ''coordin8_space'', uncommitted_table = ''coordin8_space_uncommitted'',
     txn_taken_table = ''coordin8_space_txn_taken'', watches_table = ''coordin8_space_watches''\<rparr>"

section \<open>Types\<close>

text \<open>What the service checks: a schema declares exactly the attributes of its keys, a written item has them with their types.\<close>

definition valid_keys :: "(string \<times> KeyType) list \<Rightarrow> bool" where
  "valid_keys ks \<longleftrightarrow> map snd ks = [Hash] \<or> map snd ks = [Hash, Range]"

definition valid_schema :: "TableSchema \<Rightarrow> bool" where
  "valid_schema s \<longleftrightarrow> distinct (map fst (attribute_definitions s)) \<and> valid_keys (key_schema s) \<and>
     list_all (\<lambda>(_, ks). valid_keys ks) (global_secondary_indexes s) \<and> distinct (map fst (global_secondary_indexes s)) \<and>
     set (map fst (attribute_definitions s)) = set (map fst (key_schema s @ concat (map snd (global_secondary_indexes s))))"

fun has_type :: "ScalarAttributeType \<Rightarrow> AttributeValue \<Rightarrow> bool" where
  "has_type ScalarS (AvS _) = True"
| "has_type ScalarN (AvN s) = (number_of s \<noteq> None)"
| "has_type _ _ = False"

definition item_fits :: "TableSchema \<Rightarrow> item \<Rightarrow> bool" where
  "item_fits s i \<longleftrightarrow> list_all (\<lambda>(a, t). case fmlookup i a of None \<Rightarrow> False | Some v \<Rightarrow> has_type t v) (attribute_definitions s)"

definition key_fits :: "TableSchema \<Rightarrow> key \<Rightarrow> bool" where
  "key_fits s k \<longleftrightarrow> map fst k = map fst (key_schema s) \<and>
     list_all (\<lambda>(a, v). case map_of (attribute_definitions s) a of None \<Rightarrow> False | Some t \<Rightarrow> has_type t v) k"

text \<open>The attribute a query on an index must fix.\<close>

definition index_key :: "TableSchema \<Rightarrow> string \<Rightarrow> string option" where
  "index_key s idx = (case map_of (global_secondary_indexes s) idx of Some ((a, Hash) # _) \<Rightarrow> Some a | _ \<Rightarrow> None)"

lemmas schema_defs = lease_schema_def registry_schema_def txn_schema_def event_sub_schema_def event_mailbox_schema_def
  space_schema_def space_uncommitted_schema_def space_txn_taken_schema_def space_watches_schema_def

lemmas index_defs = RESOURCE_GSI_def REGISTRY_LEASE_GSI_def EVENT_SUB_LEASE_GSI_def SPACE_LEASE_GSI_def SPACE_WATCHES_LEASE_GSI_def

lemma schemas_valid:
  "list_all valid_schema [lease_schema, registry_schema, txn_schema, event_sub_schema, event_mailbox_schema,
     space_schema, space_uncommitted_schema, space_txn_taken_schema, space_watches_schema]"
  by (auto simp: valid_schema_def valid_keys_def schema_defs)

lemma items_fit:
  "item_fits lease_schema (lease_item f l)"
  "item_fits registry_schema (entry_to_item e)"
  "item_fits txn_schema (txn_item f x)"
  "item_fits event_sub_schema (sub_row sub)"
  "item_fits event_mailbox_schema (mail_item f reg n ev)"
  "item_fits space_schema (tuple_to_item f r)"
  "item_fits space_uncommitted_schema (buffer_item f t r)"
  "item_fits space_txn_taken_schema (buffer_item f t r)"
  "item_fits space_txn_taken_schema (own_item f t r)"
  "item_fits space_watches_schema (space_watch_item w)"
  by (simp_all add: item_fits_def schema_defs lease_item_def opt_number_lookup entry_to_item_def txn_item_def
      sub_row_lookup sub_item_lookup mail_item_lookup row_lookups watch_lookups fmlookup_of_list transport_item_def split: option.splits)

lemma keys_fit:
  "key_fits lease_schema (lease_key k)" "key_fits registry_schema (entry_key k)" "key_fits txn_schema (txn_key k)"
  "key_fits event_sub_schema (sub_key k)" "key_fits event_mailbox_schema (mailbox_key k (show_u64 n))"
  "key_fits space_schema (tuple_key k)" "key_fits space_uncommitted_schema (buffer_key t k)"
  "key_fits space_txn_taken_schema (buffer_key t k)" "key_fits space_watches_schema (watch_key k)"
  by (simp_all add: key_fits_def schema_defs lease_key_def entry_key_def txn_key_def sub_key_def mailbox_key_def tuple_key_def
      buffer_key_def watch_key_def)


section \<open>Starting up\<close>

text \<open>Tables that exist already are no error, and without the switch no request is made.\<close>

lemma ensure_existing:
  "fst (da_create_table A table_name schema d) = Inl ResourceInUse \<Longrightarrow> fst (ensure_table schema A table_name d) = Inr ()"
  by (auto simp: ensure_table_def handle_create_result_def split: prod.splits)

lemma ensure_table_ok:
  "fst (ensure_table schema A table_name d) = Inr () \<longleftrightarrow> fst (da_create_table A table_name schema d) \<in> {Inr (), Inl ResourceInUse}"
  by (auto simp: ensure_table_def handle_create_result_def split: prod.splits sum.splits create_error.splits)

lemma init_off:
  assumes "\<not> auto_create_enabled env"
  shows "DynamoLeaseStore_init env A n d = (Inr (), d)" "DynamoRegistryStore_init env A n d = (Inr (), d)"
    "DynamoTxnStore_init env A n d = (Inr (), d)" "DynamoEventStore_init env A n n' d = (Inr (), d)"
    "DynamoSpaceStore_init env A T d = (Inr (), d)"
  using assms by (simp_all add: DynamoLeaseStore_init_def DynamoRegistryStore_init_def DynamoTxnStore_init_def
      DynamoEventStore_init_def DynamoSpaceStore_init_def)

text \<open>The tables of the standard names are different ones.\<close>

lemma standard_tables_distinct:
  "distinct [REGISTRY_TABLE, TXN_TABLE, EVENT_SUB_TABLE, EVENT_MAILBOX_TABLE, tuple_table DynamoSpaceStore_new,
     uncommitted_table DynamoSpaceStore_new, txn_taken_table DynamoSpaceStore_new, watches_table DynamoSpaceStore_new]"
  by (simp add: REGISTRY_TABLE_def TXN_TABLE_def EVENT_SUB_TABLE_def EVENT_MAILBOX_TABLE_def DynamoSpaceStore_new_def)


definition demo_schema :: "string \<Rightarrow> TableSchema" where
  "demo_schema n =
     (if n = REGISTRY_TABLE then registry_schema else if n = TXN_TABLE then txn_schema
      else if n = EVENT_SUB_TABLE then event_sub_schema else if n = EVENT_MAILBOX_TABLE then event_mailbox_schema
      else if n = tuple_table DynamoSpaceStore_new then space_schema
      else if n = uncommitted_table DynamoSpaceStore_new then space_uncommitted_schema
      else if n = txn_taken_table DynamoSpaceStore_new then space_txn_taken_schema else space_watches_schema)"

lemma demo_schema_tables:
  "demo_schema REGISTRY_TABLE = registry_schema" "demo_schema TXN_TABLE = txn_schema"
  "demo_schema EVENT_SUB_TABLE = event_sub_schema" "demo_schema EVENT_MAILBOX_TABLE = event_mailbox_schema"
  "demo_schema (tuple_table DynamoSpaceStore_new) = space_schema"
  "demo_schema (uncommitted_table DynamoSpaceStore_new) = space_uncommitted_schema"
  "demo_schema (txn_taken_table DynamoSpaceStore_new) = space_txn_taken_schema"
  "demo_schema (watches_table DynamoSpaceStore_new) = space_watches_schema"
  by (simp_all add: demo_schema_def REGISTRY_TABLE_def TXN_TABLE_def EVENT_SUB_TABLE_def EVENT_MAILBOX_TABLE_def DynamoSpaceStore_new_def)


end
