(* ===== verification/Spec2Isabelle.thy ===== *)
theory Spec2Isabelle
  imports Txn_Race Txn_Spaces Sweep Proxy_Props Dynamo_Props Bootstrap_Props Dynamo_Schema
begin

text \<open>
  \<^bold>\<open>Coordin8: the Djinn and its services.\<close>

  Coordin8 is a coordination layer in the tradition of Jini. One process, the Djinn, hosts services that all rest on
  leases: the Registry (service discovery), the event manager (durable and best-effort subscriptions), the Space (a
  tuple space with transactions), the transaction manager (two-phase commit over any participant) and the Proxy
  (local listeners in front of a capability). Each service embeds its own lease manager. A reaper removes expired
  leases and broadcasts each removal; a cascade in each service hears it and reclaims the leased resource; an orphan
  sweep reclaims what a cascade missed. The sources are the Rust crates under \<^verbatim>\<open>src/djinn\<close> and the messages under
  \<^verbatim>\<open>src/proto/coordin8\<close>.

  \<^bold>\<open>How the code is modelled.\<close> A trait object is a record of operations over a state (\<open>LeaseStore\<close>, \<open>Leasing\<close>,
  \<open>RegistryStore\<close>, \<open>TxnStore\<close>, \<open>SpaceStore\<close>, \<open>EventStore\<close>); managers and handlers are written over any such record. What
  a provider promises is a locale over an abstract view of its state (\<open>lease_store\<close>, \<open>leasing\<close>, \<open>registry_store\<close>,
  \<open>txn_store\<close>, \<open>space_store\<close>, \<open>event_store\<close>, \<open>sweepable\<close>); the laws speak of calls that succeed, so that a provider may
  fail. The in-memory providers are shown to keep them by interpretation, and the lemmas about the services are
  proved once inside the locales. State is passed explicitly; a fallible call returns \<open>error + 'a\<close> with the state
  after it. Clock readings and fresh identifiers are arguments. A concurrent hash map is a finite map, its iteration
  order an argument \<open>ks\<close> with \<open>iterates ks m\<close>. A broadcast appends to a log in the sender's state; a receiver consumes a
  list of receptions, lag and closing included. Where a task awaits in the middle of an operation, what other tasks
  do meanwhile is an argument (\<open>gaps\<close>, \<open>races\<close>, wake-ups, schedules), and the theorems quantify over it.

  \<^bold>\<open>The theories.\<close>

  \<^item> \<open>Prelude\<close>: names of the model's types, the error type of \<^verbatim>\<open>coordin8-core/src/error.rs\<close>, gRPC statuses, receptions, the
  string functions of the Rust library the code uses, and facts on iteration over maps.

  \<^item> \<open>Lease\<close>, \<open>Local_Lease\<close>, \<open>Lease_Service\<close>, \<open>Shutdown\<close>: lease policy, manager and reaper (\<^verbatim>\<open>coordin8-core/src/lease.rs\<close>,
  \<^verbatim>\<open>coordin8-lease\<close>), the in-memory provider, the gRPC handlers, and the stream wrapper of \<^verbatim>\<open>shutdown.rs\<close>. Shown: what a grant, a
  renewal and a cancellation do on every branch; a sweep removes exactly the expired leases and a lease renewed while it
  runs survives it; batched renewal is item by item.

  \<^item> \<open>Matcher\<close>, \<open>Registry_Store\<close>, \<open>Registry\<close>: template parsing and matching with a declarative meaning, the registry's store,
  index, handlers and cascade. Shown: lookups are sound and complete, an entry lives from registration to the reclaim of
  its lease, only the holder of the lease can change it.

  \<^item> \<open>Ip_Address\<close>, \<open>Allowlist\<close>: the address parsing of the standard library and the allowlist of transaction participants.
  Shown: what an accepted endpoint can look like and that the check decides the declared pattern semantics.

  \<^item> \<open>Txn_Store\<close>, \<open>Txn\<close>, \<open>Txn_Commit\<close>, \<open>Txn_Race\<close>: transactions, their store, the manager and the handlers. The network and
  the participants are a parameter; parallel calls run in the order of a schedule. Shown: two-phase commit tells
  exactly the prepared participants the outcome of the vote; under any interleaving of commits, aborts, expiry and
  enlisting one commit owns a transaction and an outcome is final (an inductive step relation, refined by the handlers).

  \<^item> \<open>Space_Store\<close>, \<open>Space_View\<close>, \<open>Space\<close>, \<open>Space_Props\<close>, \<open>Txn_Spaces\<close>: the tuple space. Its contract is a map from tuple ids
  to tuples with a status (visible, written, taken or self-taken under a transaction), which the in-memory store is shown to
  refine. Shown: a take is exclusive, commit reveals and abort undoes exactly the transaction's work, an expired tuple is
  gone, a blocked take wakes; and a transaction over several Spaces ends the same way in all of them.

  \<^item> \<open>Event_Store\<close>, \<open>Event\<close>, \<open>Event_Props\<close>: subscriptions, mailboxes and delivery. The durable loop of \<^verbatim>\<open>Receive\<close> is a machine
  driven by what the client, the broadcast and other tasks do. Shown: an event is enqueued exactly where it is wanted,
  a durable stream loses nothing and keeps its order, an emitted event reaches a reading client.

  \<^item> \<open>Sweep\<close>: the orphan sweep and its wirings. Shown: nothing is reclaimed unless its lease was missing in two consecutive
  passes, and two undisturbed passes remove every orphan.

  \<^item> \<open>Proxy\<close>, \<open>Proxy_Props\<close>: the Proxy over a parameter for sockets. Shown: the port search, and that no listener outlives its
  lease (an inductive step relation of the Proxy beside its lease manager, reaper and cascade).

  \<^item> \<open>Dynamo\<close>, \<open>Dynamo_Table\<close>: the DynamoDB service as a parameter with its documented behaviour as a locale (\<open>dynamo_db\<close>), a
  concrete service that satisfies it, the loop over the pages of a query or scan, and tables of records.
  \<open>Dynamo_Lease\<close>, \<open>Dynamo_Txn\<close>, \<open>Dynamo_Registry\<close>, \<open>Dynamo_Event\<close>, \<open>Dynamo_Mailbox\<close>, \<open>Dynamo_Props\<close>: the stores of
  \<^verbatim>\<open>providers/dynamo\<close>, with what other processes may do between two requests of one call. Shown: each store keeps the
  contract of its trait for any such service, so that what is proved of the services holds with these stores too; items
  read back; every expired lease is listed; a renewal does not resurrect a cancelled lease.

  \<^item> \<open>Dynamo_Space\<close>, \<open>Dynamo_Tuples\<close>, \<open>Dynamo_Take\<close>, \<open>Dynamo_Space_Props\<close>: the tuple space over four tables, each operation request by
  request. \<open>Dynamo_Tuples\<close> relates the tables to the contract's map of tuples with a status, \<open>Dynamo_Take\<close> proves the searches
  and the conditional deletes that decide a take. Shown: the store keeps the Space's contract, and of two takes in different
  processes, whatever runs between their requests, only one gets a tuple. \<open>Dynamo_Schema\<close>: the table schemas and their
  creation at start-up. Shown: every key, index and counter a store uses has the attribute and type its schema declares, and
  after start-up, also against tables that exist or a creation that races, each store has the tables it needs.

  \<^item> \<open>Auth\<close>, \<open>Observability\<close>: the interceptors of \<^verbatim>\<open>coordin8-auth\<close> and \<^verbatim>\<open>coordin8-observability\<close>, token checks, minting, request
  labels and the metrics endpoint, over parameters for the JWT library and for header values. Shown: which requests pass,
  and that a call between services of one secret is accepted.

  \<^item> \<open>Bootstrap\<close>, \<open>Bootstrap_Props\<close>: the clients of \<^verbatim>\<open>coordin8-bootstrap\<close> over a parameter for the network: retrying, discovery,
  self-registration and its renewal task, remote resolution and enlisting. Shown, over a network in front of the modelled
  Registry: a lost registration is recovered at the next tick, cancellation removes it, remote resolution agrees with
  local resolution, and a failed recovery leaves duplicates behind.

  \<^bold>\<open>Bounds.\<close> Machine integers keep their width: \<open>u64\<close>, \<open>u32\<close> and \<open>u16\<close> are words, additions wrap as in a release build, and
  theorems that need it bound the counters (a mailbox's last sequence number below \<open>2^64 - 1\<close>). No definition uses
  fuel: loops recurse over their data, over a script of what happens to them, or over a number of attempts the code
  fixes. Loops over pages and endless retries are partial functions into \<open>option\<close>; the former are shown to return, the
  latter to return at the first success. A blocked call that is never woken is the value \<open>None\<close>.

  \<^bold>\<open>Not modelled.\<close> Process boot and configuration of \<^verbatim>\<open>main.rs\<close> and the boot functions of \<^verbatim>\<open>services.rs\<close>, TLS and health checks
  are input and output around the components above. Spans, exporters and log formatting are calls into libraries with no
  result the program uses. \<^verbatim>\<open>coordin8-proto\<close> is generated from the protocol files. The SDKs in other languages and the
  command line are clients of the same protocol.
\<close>

end
